(* ===== verification/Go_Prelude.thy ===== *)
theory Go_Prelude
  imports Main "HOL-Library.AList" "HOL-Library.Char_ord" "HOL-Library.List_Lexorder"
begin

text \<open>
  The vocabulary every component shares: Go's time values and durations, strings, maps, and the
  generic facts about them.

  An instant is the number of nanoseconds since Go's zero time, so the zero \<^verbatim>\<open>time.Time\<close> is 0
  and \<^verbatim>\<open>IsZero\<close> is equality with 0.  A duration is an \<^verbatim>\<open>int64\<close> count of nanoseconds;
  \<^verbatim>\<open>Time.Sub\<close> saturates at the ends of that range, as the standard library does, and
  \<^verbatim>\<open>Time.Add\<close> does not.

  A Go map is an association list with distinct keys, in the order in which one iteration visits
  it.  Go leaves that order open; theorems are stated for every such list, so for every order.
\<close>

named_theorems go_simps "rewrite rules for the Go primitives"
named_theorems inv_intros "introduction rules for component invariants"

section \<open>Time\<close>

type_synonym time = int
type_synonym duration = int

definition zero_time :: time where
  "zero_time = 0"

definition is_zero :: "time \<Rightarrow> bool" where
  "is_zero t \<longleftrightarrow> t = zero_time"

definition max_duration :: duration where
  "max_duration = 9223372036854775807"

definition min_duration :: duration where
  "min_duration = - 9223372036854775808"

definition time_sub :: "time \<Rightarrow> time \<Rightarrow> duration" where
  "time_sub t u = max min_duration (min max_duration (t - u))"

abbreviation second :: duration where "second \<equiv> 1000000000"
abbreviation minute :: duration where "minute \<equiv> 60 * 1000000000"
abbreviation hour :: duration where "hour \<equiv> 3600 * 1000000000"

lemma is_zero_zero [simp, go_simps]: "is_zero zero_time"
  by (simp add: is_zero_def)

lemma time_sub_ge [go_simps]:
  "min_duration < d \<Longrightarrow> d \<le> max_duration \<Longrightarrow> d \<le> time_sub t u \<longleftrightarrow> d \<le> t - u"
  by (auto simp: time_sub_def)

lemma time_sub_le:
  "min_duration \<le> d \<Longrightarrow> d < max_duration \<Longrightarrow> time_sub t u \<le> d \<longleftrightarrow> t - u \<le> d"
  by (auto simp: time_sub_def)

lemma time_sub_exact:
  "min_duration \<le> t - u \<Longrightarrow> t - u \<le> max_duration \<Longrightarrow> time_sub t u = t - u"
  by (auto simp: time_sub_def)

lemma time_sub_pos_imp: "0 < d \<Longrightarrow> d \<le> time_sub t u \<Longrightarrow> d \<le> t - u"
  by (auto simp: time_sub_def min_duration_def)

text \<open>Two's complement wrap-around of a 64-bit integer, for the arithmetic that can overflow.\<close>

definition wrap64 :: "int \<Rightarrow> int" where
  "wrap64 x = (x + 9223372036854775808) mod 18446744073709551616 - 9223372036854775808"

lemma wrap64_id: "min_duration \<le> x \<Longrightarrow> x \<le> max_duration \<Longrightarrow> wrap64 x = x"
  by (simp add: wrap64_def min_duration_def max_duration_def)

lemma wrap64_range: "min_duration \<le> wrap64 x \<and> wrap64 x \<le> max_duration"
proof -
  have "0 \<le> (x + 9223372036854775808) mod 18446744073709551616"
    and "(x + 9223372036854775808) mod 18446744073709551616 < 18446744073709551616"
    by simp_all
  then show ?thesis by (simp add: wrap64_def min_duration_def max_duration_def)
qed

section \<open>Go maps\<close>

type_synonym ('k, 'v) gomap = "('k \<times> 'v) list"

abbreviation gm_get :: "('k, 'v) gomap \<Rightarrow> 'k \<Rightarrow> 'v option" where
  "gm_get m k \<equiv> map_of m k"

definition gm_put :: "'k \<Rightarrow> 'v \<Rightarrow> ('k, 'v) gomap \<Rightarrow> ('k, 'v) gomap" where
  "gm_put k v m = AList.update k v m"

definition gm_del :: "'k \<Rightarrow> ('k, 'v) gomap \<Rightarrow> ('k, 'v) gomap" where
  "gm_del k m = filter (\<lambda>p. fst p \<noteq> k) m"

definition gm_keys :: "('k, 'v) gomap \<Rightarrow> 'k list" where
  "gm_keys m = map fst m"

definition gm_ok :: "('k, 'v) gomap \<Rightarrow> bool" where
  "gm_ok m \<longleftrightarrow> distinct (map fst m)"

definition gm_map :: "('v \<Rightarrow> 'w) \<Rightarrow> ('k, 'v) gomap \<Rightarrow> ('k, 'w) gomap" where
  "gm_map f m = map (\<lambda>(k, v). (k, f v)) m"

text \<open>Reading a missing key yields the value type's zero value.\<close>

definition gm_get0 :: "'v \<Rightarrow> ('k, 'v) gomap \<Rightarrow> 'k \<Rightarrow> 'v" where
  "gm_get0 z m k = (case gm_get m k of None \<Rightarrow> z | Some v \<Rightarrow> v)"

text \<open>
  What the components rely on from a map: the laws of lookup, store and delete, and that the
  keys stay distinct.
\<close>

locale go_map =
  fixes get :: "'m \<Rightarrow> 'k \<Rightarrow> 'v option"
    and put :: "'k \<Rightarrow> 'v \<Rightarrow> 'm \<Rightarrow> 'm"
    and del :: "'k \<Rightarrow> 'm \<Rightarrow> 'm"
    and emp :: "'m"
    and keys :: "'m \<Rightarrow> 'k list"
    and ok :: "'m \<Rightarrow> bool"
  assumes get_emp: "get emp k = None"
    and get_put: "get (put k v m) k' = (if k' = k then Some v else get m k')"
    and get_del: "get (del k m) k' = (if k' = k then None else get m k')"
    and keys_get: "k \<in> set (keys m) \<longleftrightarrow> get m k \<noteq> None"
    and ok_emp: "ok emp"
    and ok_put: "ok m \<Longrightarrow> ok (put k v m)"
    and ok_del: "ok m \<Longrightarrow> ok (del k m)"
begin

lemma get_put_same: "get (put k v m) k = Some v"
  by (simp add: get_put)

lemma get_put_other: "k' \<noteq> k \<Longrightarrow> get (put k v m) k' = get m k'"
  by (simp add: get_put)

lemma keys_put: "set (keys (put k v m)) = insert k (set (keys m))"
  by (auto simp: keys_get get_put split: if_splits)

lemma keys_del: "set (keys (del k m)) = set (keys m) - {k}"
  by (auto simp: keys_get get_del split: if_splits)

lemma put_put_get: "get (put k v (put k w m)) k' = get (put k v m) k'"
  by (simp add: get_put)

lemma del_put_get: "get (del k (put k v m)) k' = get (del k m) k'"
  by (simp add: get_put get_del)

lemma fold_put_get:
  "get (fold (\<lambda>k. put k (f k)) ks m) k = (if k \<in> set ks then Some (f k) else get m k)"
  by (induction ks arbitrary: m) (auto simp: get_put)

lemma fold_put_ok: "ok m \<Longrightarrow> ok (fold (\<lambda>k. put k (f k)) ks m)"
  by (induction ks arbitrary: m) (auto intro: ok_put)

end

lemma gm_del_get: "gm_get (gm_del k m) k' = (if k' = k then None else gm_get m k')"
  by (induction m) (auto simp: gm_del_def)

interpretation gm: go_map gm_get gm_put gm_del "[]" gm_keys gm_ok
proof unfold_locales
  fix k k' :: 'a and v :: 'b and m :: "('a, 'b) gomap"
  show "gm_get [] k = (None :: 'b option)" by simp
  show "gm_get (gm_put k v m) k' = (if k' = k then Some v else gm_get m k')"
    by (simp add: gm_put_def update_conv')
  show "gm_get (gm_del k m) k' = (if k' = k then None else gm_get m k')"
    by (rule gm_del_get)
  show "k \<in> set (gm_keys m) \<longleftrightarrow> gm_get m k \<noteq> None"
    by (simp add: gm_keys_def map_of_eq_None_iff)
  show "gm_ok ([] :: ('a, 'b) gomap)" by (simp add: gm_ok_def)
  show "gm_ok m \<Longrightarrow> gm_ok (gm_put k v m)"
    by (simp add: gm_ok_def gm_put_def distinct_update)
  show "gm_ok m \<Longrightarrow> gm_ok (gm_del k m)"
    by (simp add: gm_ok_def gm_del_def distinct_map_filter)
qed

lemmas gm_laws [simp] = gm.get_put gm.get_del gm.ok_put gm.ok_del gm.ok_emp

lemma gm_map_get [simp]: "gm_get (gm_map f m) k = map_option f (gm_get m k)"
  by (induction m) (auto simp: gm_map_def)

lemma gm_map_keys [simp]: "map fst (gm_map f m) = map fst m"
  by (induction m) (auto simp: gm_map_def)

lemma gm_map_ok [simp]: "gm_ok (gm_map f m) = gm_ok m"
  by (simp add: gm_ok_def)

lemma gm_get0_put [simp]: "gm_get0 z (gm_put k v m) k' = (if k' = k then v else gm_get0 z m k')"
  by (simp add: gm_get0_def)

lemma gm_get_mem: "gm_ok m \<Longrightarrow> (k, v) \<in> set m \<longleftrightarrow> gm_get m k = Some v"
  by (simp add: gm_ok_def)

lemma gm_put_Cons [simp]:
  "gm_put k v [] = [(k, v)]"
  "gm_put k v ((k', w) # m) = (if k' = k then (k, v) # m else (k', w) # gm_put k v m)"
  by (simp_all add: gm_put_def)

lemma set_gm_put: "set (gm_put k v m) \<subseteq> insert (k, v) (set m)"
  by (induction m) (auto split: if_splits)

lemma gm_del_Cons [simp]:
  "gm_del k [] = []"
  "gm_del k ((k', w) # m) = (if k' = k then gm_del k m else (k', w) # gm_del k m)"
  by (simp_all add: gm_del_def)

lemma gm_ok_Cons [simp]: "gm_ok [] = True" "gm_ok ((k, v) # m) \<longleftrightarrow> k \<notin> fst ` set m \<and> gm_ok m"
  by (simp_all add: gm_ok_def)

lemma gm_ok_filter [simp]: "gm_ok m \<Longrightarrow> gm_ok (filter P m)"
  by (simp add: gm_ok_def distinct_map_filter)

lemma gm_filter_get:
  assumes ok: "gm_ok m"
  shows "gm_get (filter P m) k = (case gm_get m k of None \<Rightarrow> None
     | Some v \<Rightarrow> if P (k, v) then Some v else None)"
proof (cases "gm_get m k")
  case None
  then have "gm_get (filter P m) k = None" by (auto simp: map_of_eq_None_iff)
  with None show ?thesis by simp
next
  case (Some v)
  then have mem: "(k, v) \<in> set m" by (rule map_of_SomeD)
  show ?thesis
  proof (cases "P (k, v)")
    case True
    then have "(k, v) \<in> set (filter P m)" using mem by simp
    then have "gm_get (filter P m) k = Some v"
      using gm_get_mem [OF gm_ok_filter [OF ok]] by blast
    then show ?thesis using Some True by simp
  next
    case False
    have "gm_get (filter P m) k = None"
    proof (rule ccontr)
      assume "gm_get (filter P m) k \<noteq> None"
      then obtain w where "(k, w) \<in> set (filter P m)" by (auto dest: map_of_SomeD)
      then have "gm_get m k = Some w" and "P (k, w)" using ok gm_get_mem [of m k w] by auto
      with Some False show False by simp
    qed
    then show ?thesis using Some False by simp
  qed
qed

section \<open>Order-preserving deduplication\<close>

text \<open>
  The helper behind every union of lists in the code: keep the first occurrence of each element.
\<close>

fun dedup_from :: "'a list \<Rightarrow> 'a list \<Rightarrow> 'a list" where
  "dedup_from seen [] = []"
| "dedup_from seen (x # xs) =
     (if x \<in> set seen then dedup_from seen xs else x # dedup_from (x # seen) xs)"

lemma set_dedup_from [simp]: "set (dedup_from seen xs) = set xs - set seen"
  by (induction seen xs rule: dedup_from.induct) auto

lemma distinct_dedup_from [simp]: "distinct (dedup_from seen xs)"
  by (induction seen xs rule: dedup_from.induct) auto

lemma dedup_from_cong: "set s = set t \<Longrightarrow> dedup_from s xs = dedup_from t xs"
proof (induction xs arbitrary: s t)
  case (Cons x xs)
  have "dedup_from (x # s) xs = dedup_from (x # t) xs"
    by (rule Cons.IH) (simp add: Cons.prems)
  then show ?case using Cons.IH [OF Cons.prems] Cons.prems by simp
qed simp

lemma dedup_from_append:
  "dedup_from seen (xs @ ys) = dedup_from seen xs @ dedup_from (rev xs @ seen) ys"
proof (induction xs arbitrary: seen)
  case (Cons x xs)
  have "dedup_from (rev xs @ seen) ys = dedup_from (rev xs @ x # seen) ys" if "x \<in> set seen"
    using that by (intro dedup_from_cong) auto
  with Cons show ?case by simp
qed simp

lemma dedup_from_fresh: "distinct xs \<Longrightarrow> set xs \<inter> set seen = {} \<Longrightarrow> dedup_from seen xs = xs"
  by (induction xs arbitrary: seen) auto

section \<open>Strings\<close>

fun join :: "string \<Rightarrow> string list \<Rightarrow> string" where
  "join sep [] = []"
| "join sep [x] = x"
| "join sep (x # y # xs) = x @ sep @ join sep (y # xs)"

definition has_prefix :: "string \<Rightarrow> string \<Rightarrow> bool" where
  "has_prefix s p \<longleftrightarrow> take (length p) s = p"

definition has_suffix :: "string \<Rightarrow> string \<Rightarrow> bool" where
  "has_suffix s p \<longleftrightarrow> length p \<le> length s \<and> drop (length s - length p) s = p"

definition trim_suffix :: "string \<Rightarrow> string \<Rightarrow> string" where
  "trim_suffix s p = (if has_suffix s p then take (length s - length p) s else s)"

text \<open>Splitting at every occurrence of a one-byte separator, as \<^verbatim>\<open>strings.Split\<close>.\<close>

fun split_on :: "char \<Rightarrow> string \<Rightarrow> string list" where
  "split_on c [] = [[]]"
| "split_on c (x # xs) =
     (if x = c then [] # split_on c xs
      else (case split_on c xs of [] \<Rightarrow> [[x]] | w # ws \<Rightarrow> (x # w) # ws))"

lemma split_on_nonempty [simp]: "split_on c s \<noteq> []"
  by (induction s) (auto split: list.splits)

lemma split_on_chars: "w \<in> set (split_on c s) \<Longrightarrow> set w \<subseteq> set s - {c}"
proof (induction s arbitrary: w)
  case (Cons x xs)
  show ?case
  proof (cases "split_on c xs")
    case Nil
    then show ?thesis by simp
  next
    case (Cons v vs)
    with Cons.prems Cons.IH show ?thesis by (fastforce split: if_splits)
  qed
qed simp

lemma join_split_on: "join [c] (split_on c s) = s"
proof (induction s)
  case (Cons x xs)
  obtain w ws where "split_on c xs = w # ws" by (cases "split_on c xs") auto
  with Cons show ?case by (cases ws) auto
qed simp

text \<open>Sorting a slice of strings, byte-wise lexicographic as \<^verbatim>\<open>sort.Strings\<close>.\<close>

definition sort_strings :: "string list \<Rightarrow> string list" where
  "sort_strings xs = sort xs"

lemma set_sort_strings [simp]: "set (sort_strings xs) = set xs"
  by (simp add: sort_strings_def)

lemma sorted_sort_strings [simp]: "sorted (sort_strings xs)"
  by (simp add: sort_strings_def)

lemma sort_strings_simps [simp]: "sort_strings [] = []" "sort_strings [x] = [x]"
  by (simp_all add: sort_strings_def)

lemma length_sort_strings [simp]: "length (sort_strings xs) = length xs"
  by (simp add: sort_strings_def)

lemma distinct_sort_strings [simp]: "distinct (sort_strings xs) = distinct xs"
  by (simp add: sort_strings_def)

lemma sort_strings_Nil_iff [simp]: "sort_strings xs = [] \<longleftrightarrow> xs = []"
  by (metis length_0_conv length_sort_strings)

text \<open>Decimal rendering of integers, as \<^verbatim>\<open>%d\<close>.\<close>

fun digits :: "nat \<Rightarrow> string" where
  "digits n = (if n < 10 then [char_of (48 + n)] else digits (n div 10) @ [char_of (48 + n mod 10)])"

declare digits.simps [simp del]

definition itoa :: "int \<Rightarrow> string" where
  "itoa i = (if i < 0 then CHR ''-'' # digits (nat (- i)) else digits (nat i))"

lemma digits_nonempty [simp]: "digits n \<noteq> []"
  by (subst digits.simps) simp

lemma itoa_nonempty [simp]: "itoa i \<noteq> []"
  by (simp add: itoa_def)

end
