(* ===== verification/Machines.thy ===== *)
theory Machines
  imports Go_Prelude
begin

text \<open>
  The contracts that the state machines of the program share: a machine keeps an invariant, and
  the outputs of its steps follow a protocol.  Both are proved for one step by the component
  that provides the machine and lifted to whole runs here.
\<close>

section \<open>Running a machine over a list of inputs\<close>

fun run_machine :: "('s \<Rightarrow> 'e \<Rightarrow> 's \<times> 'o list) \<Rightarrow> 's \<Rightarrow> 'e list \<Rightarrow> 's \<times> 'o list" where
  "run_machine step s [] = (s, [])"
| "run_machine step s (e # es) =
     (let (s1, os) = step s e; (s2, os') = run_machine step s1 es in (s2, os @ os'))"

text \<open>A protocol is a partial transition function on outputs; feeding fails on a refused one.\<close>

fun feed :: "('p \<Rightarrow> 'o \<Rightarrow> 'p option) \<Rightarrow> 'p \<Rightarrow> 'o list \<Rightarrow> 'p option" where
  "feed proto p [] = Some p"
| "feed proto p (x # xs) = (case proto p x of None \<Rightarrow> None | Some q \<Rightarrow> feed proto q xs)"

lemma feed_append:
  "feed proto p (xs @ ys) = (case feed proto p xs of None \<Rightarrow> None | Some q \<Rightarrow> feed proto q ys)"
  by (induction xs arbitrary: p) (auto split: option.splits)

lemma run_machine_append:
  "run_machine step s (es @ fs) =
     (let (s1, os) = run_machine step s es; (s2, os') = run_machine step s1 fs in (s2, os @ os'))"
  by (induction es arbitrary: s) (auto simp: Let_def split: prod.splits)

section \<open>The contracts\<close>

locale machine =
  fixes step :: "'s \<Rightarrow> 'e \<Rightarrow> 's \<times> 'o list"
    and inv :: "'s \<Rightarrow> bool"
    and good :: "'e \<Rightarrow> bool"
  assumes step_inv: "inv s \<Longrightarrow> good e \<Longrightarrow> inv (fst (step s e))"
begin

lemma run_inv: "inv s \<Longrightarrow> list_all good es \<Longrightarrow> inv (fst (run_machine step s es))"
proof (induction es arbitrary: s)
  case (Cons e es)
  obtain s1 os where s1: "step s e = (s1, os)" by fastforce
  obtain s2 os' where s2: "run_machine step s1 es = (s2, os')" by fastforce
  from Cons.prems have "inv s1" using step_inv [of s e] s1 by simp
  then have "inv s2" using Cons.IH [of s1] Cons.prems s2 by simp
  with s1 s2 show ?case by simp
qed simp

end

locale protocol_machine = machine +
  fixes proto :: "'p \<Rightarrow> 'b \<Rightarrow> 'p option"
    and phase :: "'a \<Rightarrow> 'p"
  assumes step_proto:
    "inv s \<Longrightarrow> good e \<Longrightarrow> feed proto (phase s) (snd (step s e)) = Some (phase (fst (step s e)))"
begin

lemma run_proto:
  "inv s \<Longrightarrow> list_all good es \<Longrightarrow>
   feed proto (phase s) (snd (run_machine step s es)) = Some (phase (fst (run_machine step s es)))"
proof (induction es arbitrary: s)
  case (Cons e es)
  obtain s1 os where s1: "step s e = (s1, os)" by fastforce
  obtain s2 os' where s2: "run_machine step s1 es = (s2, os')" by fastforce
  from Cons.prems have inv1: "inv s1" using step_inv [of s e] s1 by simp
  from Cons.prems have "feed proto (phase s) os = Some (phase s1)"
    using step_proto [of s e] s1 by simp
  moreover have "feed proto (phase s1) os' = Some (phase s2)"
    using Cons.IH [OF inv1] Cons.prems s2 by simp
  ultimately show ?case using s1 s2 by (simp add: feed_append)
qed simp

end

end
