(* ===== verification/Alert.thy ===== *)
theory Alert
  imports Machines
begin

text \<open>
  The two monitor state machines of \<^verbatim>\<open>internal/alert\<close>: uptime (\<^verbatim>\<open>Apply\<close>) and TLS certificate
  expiry (\<^verbatim>\<open>ApplySSL\<close>).  Both are pure functions of the previous state and one check; a run of
  ticks is \<open>run_machine\<close> over the list of checks.  The protocols say which sequences of events
  an observer may see.
\<close>

section \<open>Uptime\<close>

datatype status = StatusUp | StatusDown | StatusTemporaryPaused | StatusOther string

datatype outcome = OutcomeOK | OutcomeFail

record check =
  c_outcome :: outcome
  c_at :: time
  c_status_code :: int
  c_error :: string
  c_reminder_interval :: duration

record state =
  s_status :: status
  s_opened_at :: time
  s_last_reminder_at :: time

datatype event_type =
  EventOpen | EventResolve | EventReminder | EventSSLOpen | EventSSLReminder | EventSSLResolve

record event =
  e_type :: event_type
  e_at :: time
  e_status_code :: int
  e_error :: string
  e_downtime :: duration

definition up_state :: state where
  "up_state = \<lparr>s_status = StatusUp, s_opened_at = zero_time, s_last_reminder_at = zero_time\<rparr>"

definition Apply :: "state \<Rightarrow> check \<Rightarrow> state \<times> event option" where
  "Apply prev c =
    (if s_status prev = StatusUp \<and> c_outcome c = OutcomeFail then
       (\<lparr>s_status = StatusDown, s_opened_at = c_at c, s_last_reminder_at = c_at c\<rparr>,
        Some \<lparr>e_type = EventOpen, e_at = c_at c, e_status_code = c_status_code c,
              e_error = c_error c, e_downtime = 0\<rparr>)
     else if s_status prev = StatusDown \<and> c_outcome c = OutcomeOK then
       (up_state,
        Some \<lparr>e_type = EventResolve, e_at = c_at c, e_status_code = 0, e_error = [],
              e_downtime = time_sub (c_at c) (s_opened_at prev)\<rparr>)
     else if s_status prev = StatusDown \<and> c_outcome c = OutcomeFail
             \<and> 0 < c_reminder_interval c
             \<and> c_reminder_interval c \<le> time_sub (c_at c) (s_last_reminder_at prev) then
       (prev\<lparr>s_last_reminder_at := c_at c\<rparr>,
        Some \<lparr>e_type = EventReminder, e_at = c_at c, e_status_code = c_status_code c,
              e_error = c_error c, e_downtime = 0\<rparr>)
     else (prev, None))"

text \<open>What one check does, case by case, as the rest of the development uses it.\<close>

lemma Apply_up_fail:
  "s_status s = StatusUp \<Longrightarrow> c_outcome c = OutcomeFail \<Longrightarrow>
   Apply s c = (\<lparr>s_status = StatusDown, s_opened_at = c_at c, s_last_reminder_at = c_at c\<rparr>,
        Some \<lparr>e_type = EventOpen, e_at = c_at c, e_status_code = c_status_code c,
              e_error = c_error c, e_downtime = 0\<rparr>)"
  by (simp add: Apply_def)

lemma Apply_up_ok: "s_status s = StatusUp \<Longrightarrow> c_outcome c = OutcomeOK \<Longrightarrow> Apply s c = (s, None)"
  by (simp add: Apply_def)

lemma Apply_down_fail:
  "s_status s = StatusDown \<Longrightarrow> c_outcome c = OutcomeFail \<Longrightarrow>
   s_status (fst (Apply s c)) = StatusDown \<and> s_opened_at (fst (Apply s c)) = s_opened_at s"
  by (simp add: Apply_def)

lemma Apply_open_iff:
  "(\<exists>e. snd (Apply s c) = Some e \<and> e_type e = EventOpen) \<longleftrightarrow>
   s_status s = StatusUp \<and> c_outcome c = OutcomeFail"
  by (auto simp: Apply_def)

lemma Apply_resolve_iff:
  "(\<exists>e. snd (Apply s c) = Some e \<and> e_type e = EventResolve) \<longleftrightarrow>
   s_status s = StatusDown \<and> c_outcome c = OutcomeOK"
  by (auto simp: Apply_def)

definition alert_step :: "state \<Rightarrow> check \<Rightarrow> state \<times> event list" where
  "alert_step s c = (case Apply s c of (s', None) \<Rightarrow> (s', []) | (s', Some e) \<Rightarrow> (s', [e]))"

subsection \<open>The protocol of uptime events\<close>

text \<open>
  While up only an open may follow; while down, reminders at least one interval after the open or
  the previous reminder, and a resolve that reports the time since the open.
\<close>

datatype uptime_phase = Phase_Up | Phase_Down time time

definition uptime_protocol :: "duration \<Rightarrow> uptime_phase \<Rightarrow> event \<Rightarrow> uptime_phase option" where
  "uptime_protocol r p e = (case p of
      Phase_Up \<Rightarrow> (if e_type e = EventOpen then Some (Phase_Down (e_at e) (e_at e)) else None)
    | Phase_Down opened last_ping \<Rightarrow>
        (if e_type e = EventReminder \<and> 0 < r \<and> r \<le> time_sub (e_at e) last_ping
         then Some (Phase_Down opened (e_at e))
         else if e_type e = EventResolve \<and> e_downtime e = time_sub (e_at e) opened
         then Some Phase_Up else None))"

definition uptime_phase_of :: "state \<Rightarrow> uptime_phase" where
  "uptime_phase_of s =
     (if s_status s = StatusDown then Phase_Down (s_opened_at s) (s_last_reminder_at s) else Phase_Up)"

definition up_or_down :: "state \<Rightarrow> bool" where
  "up_or_down s \<longleftrightarrow> s_status s = StatusUp \<or> s_status s = StatusDown"

lemma alert_step_up_or_down: "up_or_down s \<Longrightarrow> up_or_down (fst (alert_step s c))"
  by (auto simp: up_or_down_def alert_step_def Apply_def up_state_def)

lemma alert_step_protocol:
  assumes "up_or_down s" and "c_reminder_interval c = r"
  shows "feed (uptime_protocol r) (uptime_phase_of s) (snd (alert_step s c)) =
         Some (uptime_phase_of (fst (alert_step s c)))"
  using assms
  by (cases "c_outcome c")
     (auto simp: up_or_down_def alert_step_def Apply_def up_state_def uptime_protocol_def
        uptime_phase_of_def)

interpretation uptime: protocol_machine alert_step up_or_down
    "\<lambda>c. c_reminder_interval c = r" "uptime_protocol r" uptime_phase_of for r
  by unfold_locales (auto simp: alert_step_up_or_down alert_step_protocol)

section \<open>TLS certificate expiry\<close>

datatype ssl_status = SSLStatusNone | SSLStatusOK | SSLStatusExpiring | SSLStatusSkipped | SSLStatusOther string

record ssl_check =
  sc_at :: time
  sc_expires_at :: time
  sc_tls_bearing :: bool
  sc_alert_threshold :: duration
  sc_escalation_threshold :: duration
  sc_reminder_interval :: duration

record ssl_state =
  ss_status :: ssl_status
  ss_opened_at :: time
  ss_last_reminder_at :: time

record ssl_event =
  se_type :: event_type
  se_at :: time
  se_expires_at :: time

definition ssl_plain :: "ssl_status \<Rightarrow> ssl_state" where
  "ssl_plain st = \<lparr>ss_status = st, ss_opened_at = zero_time, ss_last_reminder_at = zero_time\<rparr>"

definition ApplySSL :: "ssl_state \<Rightarrow> ssl_check \<Rightarrow> ssl_state \<times> ssl_event option" where
  "ApplySSL prev c =
    (if \<not> sc_tls_bearing c then (ssl_plain SSLStatusSkipped, None)
     else if is_zero (sc_expires_at c) then (prev, None)
     else (let ttl = time_sub (sc_expires_at c) (sc_at c);
               ev = (\<lambda>t. \<lparr>se_type = t, se_at = sc_at c, se_expires_at = sc_expires_at c\<rparr>) in
       (case ss_status prev of
          SSLStatusExpiring \<Rightarrow>
            (if sc_alert_threshold c < ttl then (ssl_plain SSLStatusOK, Some (ev EventSSLResolve))
             else (let cadence = (if ttl \<le> sc_escalation_threshold c then 24 * hour
                                  else sc_reminder_interval c) in
               if 0 < cadence \<and> cadence \<le> time_sub (sc_at c) (ss_last_reminder_at prev)
               then (prev\<lparr>ss_last_reminder_at := sc_at c\<rparr>, Some (ev EventSSLReminder))
               else (prev, None)))
        | SSLStatusOther _ \<Rightarrow> (prev, None)
        | _ \<Rightarrow>
            (if ttl \<le> sc_alert_threshold c
             then (\<lparr>ss_status = SSLStatusExpiring, ss_opened_at = sc_at c,
                     ss_last_reminder_at = sc_at c\<rparr>, Some (ev EventSSLOpen))
             else (ssl_plain SSLStatusOK, None)))))"

definition ssl_step :: "ssl_state \<Rightarrow> ssl_check \<Rightarrow> ssl_state \<times> ssl_event list" where
  "ssl_step s c = (case ApplySSL s c of (s', None) \<Rightarrow> (s', []) | (s', Some e) \<Rightarrow> (s', [e]))"

definition ssl_known :: "ssl_state \<Rightarrow> bool" where
  "ssl_known s \<longleftrightarrow> (\<forall>x. ss_status s \<noteq> SSLStatusOther x)"

text \<open>Every tick that observes a certificate leaves the status equal to the threshold test.\<close>

lemma ApplySSL_threshold:
  assumes "ssl_known s" and "sc_tls_bearing c" and "\<not> is_zero (sc_expires_at c)"
  shows "ss_status (fst (ApplySSL s c)) =
     (if time_sub (sc_expires_at c) (sc_at c) \<le> sc_alert_threshold c
      then SSLStatusExpiring else SSLStatusOK)"
  using assms
  by (cases "ss_status s") (auto simp: ApplySSL_def Let_def ssl_plain_def ssl_known_def)

subsection \<open>The protocol of certificate events\<close>

datatype ssl_phase = Phase_Valid | Phase_Expiring time

definition ssl_protocol ::
  "duration \<Rightarrow> duration \<Rightarrow> duration \<Rightarrow> ssl_phase \<Rightarrow> ssl_event \<Rightarrow> ssl_phase option" where
  "ssl_protocol alert esc rem p e =
    (let ttl = time_sub (se_expires_at e) (se_at e);
         cadence = (if ttl \<le> esc then 24 * hour else rem) in
     case p of
       Phase_Valid \<Rightarrow>
         (if se_type e = EventSSLOpen \<and> ttl \<le> alert then Some (Phase_Expiring (se_at e)) else None)
     | Phase_Expiring last_ping \<Rightarrow>
         (if se_type e = EventSSLReminder \<and> ttl \<le> alert \<and> 0 < cadence
             \<and> cadence \<le> time_sub (se_at e) last_ping
          then Some (Phase_Expiring (se_at e))
          else if se_type e = EventSSLResolve \<and> alert < ttl then Some Phase_Valid else None))"

definition ssl_phase_of :: "ssl_state \<Rightarrow> ssl_phase" where
  "ssl_phase_of s = (if ss_status s = SSLStatusExpiring
     then Phase_Expiring (ss_last_reminder_at s) else Phase_Valid)"

definition ssl_params :: "duration \<Rightarrow> duration \<Rightarrow> duration \<Rightarrow> ssl_check \<Rightarrow> bool" where
  "ssl_params alert esc rem c \<longleftrightarrow> sc_tls_bearing c \<and> sc_alert_threshold c = alert
     \<and> sc_escalation_threshold c = esc \<and> sc_reminder_interval c = rem"

lemma ssl_step_known: "ssl_known s \<Longrightarrow> ssl_known (fst (ssl_step s c))"
  by (cases "ss_status s")
     (auto simp: ssl_known_def ssl_step_def ApplySSL_def Let_def ssl_plain_def)

lemma ssl_step_protocol:
  assumes "ssl_known s" and "ssl_params alert esc rem c"
  shows "feed (ssl_protocol alert esc rem) (ssl_phase_of s) (snd (ssl_step s c)) =
         Some (ssl_phase_of (fst (ssl_step s c)))"
  using assms
  by (cases "ss_status s")
     (auto simp: ssl_known_def ssl_params_def ssl_step_def ApplySSL_def Let_def ssl_plain_def
        ssl_phase_of_def ssl_protocol_def)

interpretation cert: protocol_machine ssl_step ssl_known
    "ssl_params alert esc rem" "ssl_protocol alert esc rem" ssl_phase_of for alert esc rem
  by unfold_locales (auto simp: ssl_step_known ssl_step_protocol)

section \<open>Properties\<close>

text \<open>C12: Starting from a state that is up, any run of checks with one reminder interval emits a
  sequence of events that an observer can pair up: opens and resolves alternate, starting with an
  open; reminders fall only between an open and its resolve, at least one interval after the open
  or the reminder before; a resolve reports exactly the time since its open.\<close>

theorem uptime_run_follows_protocol:
  assumes "list_all (\<lambda>c. c_reminder_interval c = r) cs"
  shows "feed (uptime_protocol r) Phase_Up (snd (run_machine alert_step up_state cs))
    = Some (uptime_phase_of (fst (run_machine alert_step up_state cs)))"
  using uptime.run_proto [of up_state r cs] assms
  by (simp add: up_or_down_def) (simp add: uptime_phase_of_def up_state_def)

definition sample_check :: "time \<Rightarrow> outcome \<Rightarrow> check" where
  "sample_check t oc = \<lparr>c_outcome = oc, c_at = t, c_status_code = 503, c_error = [],
     c_reminder_interval = 10\<rparr>"

lemma uptime_run_follows_protocol_witness:
  "let cs = [sample_check 1 OutcomeOK, sample_check 2 OutcomeFail, sample_check 5 OutcomeFail,
             sample_check 13 OutcomeFail, sample_check 20 OutcomeOK] in
   map (\<lambda>e. (e_type e, e_at e, e_downtime e)) (snd (run_machine alert_step up_state cs)) =
     [(EventOpen, 2, 0), (EventReminder, 13, 0), (EventResolve, 20, 18)] \<and>
   feed (uptime_protocol 10) Phase_Up (snd (run_machine alert_step up_state cs)) = Some Phase_Up"
proof -
  define cs where "cs = [sample_check 1 OutcomeOK, sample_check 2 OutcomeFail,
    sample_check 5 OutcomeFail, sample_check 13 OutcomeFail, sample_check 20 OutcomeOK]"
  have "list_all (\<lambda>c. c_reminder_interval c = 10) cs" by (simp add: cs_def sample_check_def)
  note p = uptime_run_follows_protocol [OF this]
  have "uptime_phase_of (fst (run_machine alert_step up_state cs)) = Phase_Up"
    unfolding cs_def by code_simp
  moreover have "map (\<lambda>e. (e_type e, e_at e, e_downtime e)) (snd (run_machine alert_step up_state cs))
      = [(EventOpen, 2, 0), (EventReminder, 13, 0), (EventResolve, 20, 18)]"
    unfolding cs_def by code_simp
  ultimately show ?thesis using p by (simp only: Let_def cs_def [symmetric] simp_thms)
qed

text \<open>For a monitor that presents certificates, any run of ticks with fixed thresholds emits
  certificate events that alternate between an open (remaining validity at most the alert
  threshold) and a resolve (more than it), with reminders in between at the cadence that the
  remaining validity selects; and after a tick that saw a certificate the status is \<open>Expiring\<close>
  exactly when the remaining validity is at most the threshold.\<close>

theorem ssl_run_follows_protocol:
  assumes "ssl_known s" and "list_all (ssl_params alert esc rem) cs"
  shows "feed (ssl_protocol alert esc rem) (ssl_phase_of s) (snd (run_machine ssl_step s cs))
      = Some (ssl_phase_of (fst (run_machine ssl_step s cs))) \<and>
    (cs \<noteq> [] \<and> \<not> is_zero (sc_expires_at (last cs)) \<longrightarrow>
      ss_status (fst (run_machine ssl_step s cs)) =
        (if time_sub (sc_expires_at (last cs)) (sc_at (last cs)) \<le> alert
         then SSLStatusExpiring else SSLStatusOK))"
proof -
  have "ss_status (fst (run_machine ssl_step s cs)) =
        (if time_sub (sc_expires_at (last cs)) (sc_at (last cs)) \<le> alert
         then SSLStatusExpiring else SSLStatusOK)"
    if ne: "cs \<noteq> []" and nz: "\<not> is_zero (sc_expires_at (last cs))"
  proof -
    obtain ds c where cs: "cs = ds @ [c]" using ne by (cases cs rule: rev_cases) auto
    then have "ssl_known (fst (run_machine ssl_step s ds))"
      using cert.run_inv [of s alert esc rem ds] assms by simp
    then have "ss_status (fst (ApplySSL (fst (run_machine ssl_step s ds)) c)) =
        (if time_sub (sc_expires_at c) (sc_at c) \<le> sc_alert_threshold c
         then SSLStatusExpiring else SSLStatusOK)"
      using assms nz cs by (intro ApplySSL_threshold) (simp_all add: ssl_params_def)
    moreover have "fst (run_machine ssl_step s cs) =
        fst (ssl_step (fst (run_machine ssl_step s ds)) c)"
      by (simp add: cs run_machine_append Let_def split_beta)
    moreover have "fst (ssl_step t c) = fst (ApplySSL t c)" for t
      by (simp add: ssl_step_def split: prod.splits option.splits)
    ultimately show ?thesis using assms cs by (simp add: ssl_params_def)
  qed
  then show ?thesis using cert.run_proto [OF assms] by blast
qed

definition sample_ssl_check :: "time \<Rightarrow> time \<Rightarrow> ssl_check" where
  "sample_ssl_check t x = \<lparr>sc_at = t, sc_expires_at = x, sc_tls_bearing = True,
     sc_alert_threshold = 30, sc_escalation_threshold = 0, sc_reminder_interval = 5\<rparr>"

lemma ssl_run_follows_protocol_witness:
  "let cs = [sample_ssl_check 10 100, sample_ssl_check 75 100, sample_ssl_check 80 100,
             sample_ssl_check 85 0, sample_ssl_check 90 500] in
   map (\<lambda>e. (se_type e, se_at e)) (snd (run_machine ssl_step (ssl_plain SSLStatusNone) cs)) =
     [(EventSSLOpen, 75), (EventSSLReminder, 80), (EventSSLResolve, 90)] \<and>
   ss_status (fst (run_machine ssl_step (ssl_plain SSLStatusNone) cs)) = SSLStatusOK"
proof -
  define cs where "cs = [sample_ssl_check 10 100, sample_ssl_check 75 100, sample_ssl_check 80 100,
    sample_ssl_check 85 0, sample_ssl_check 90 500]"
  have k: "ssl_known (ssl_plain SSLStatusNone)" by (simp add: ssl_known_def ssl_plain_def)
  have "list_all (ssl_params 30 0 5) cs" by (simp add: cs_def sample_ssl_check_def ssl_params_def)
  note p = ssl_run_follows_protocol [OF k this, THEN conjunct2]
  have "cs \<noteq> [] \<and> \<not> is_zero (sc_expires_at (last cs))"
    and t: "\<not> time_sub (sc_expires_at (last cs)) (sc_at (last cs)) \<le> 30"
    unfolding cs_def by code_simp+
  with p have "ss_status (fst (run_machine ssl_step (ssl_plain SSLStatusNone) cs)) = SSLStatusOK"
    by (simp only: simp_thms if_False)
  moreover have "map (\<lambda>e. (se_type e, se_at e))
      (snd (run_machine ssl_step (ssl_plain SSLStatusNone) cs)) =
     [(EventSSLOpen, 75), (EventSSLReminder, 80), (EventSSLResolve, 90)]"
    unfolding cs_def by code_simp
  ultimately show ?thesis by (simp only: Let_def cs_def [symmetric] simp_thms)
qed

end
