(* ===== verification/Group.thy ===== *)
theory Group
  imports Machines
begin

text \<open>
  The per-channel incident of \<^verbatim>\<open>internal/group\<close>: membership transitions, the timers that
  \<^verbatim>\<open>Evaluate\<close> advances, the delta since the last rendered digest and the scoreboard.  The receiver
  is passed and returned; the order of the member list is one iteration order of the Go map.
\<close>

section \<open>Data\<close>

datatype member_state =
  MemberDown | MemberRecovering | MemberRecovered | MemberPaused | MemberOther string

record member =
  m_slug :: string
  m_state :: member_state
  m_joined_at :: time
  m_down_since :: time
  m_up_since :: time
  m_changed_at :: time
  m_rendered :: string

definition renderNone :: string where "renderNone = ''''"
definition renderActive :: string where "renderActive = ''active''"
definition renderRecovered :: string where "renderRecovered = ''recovered''"
definition renderPaused :: string where "renderPaused = ''paused''"

lemmas render_defs = renderNone_def renderActive_def renderRecovered_def renderPaused_def

lemma render_distinct [simp]:
  "renderActive \<noteq> renderNone" "renderRecovered \<noteq> renderNone" "renderPaused \<noteq> renderNone"
  "renderActive \<noteq> renderRecovered" "renderActive \<noteq> renderPaused" "renderRecovered \<noteq> renderPaused"
  "renderNone \<noteq> renderActive" "renderNone \<noteq> renderRecovered" "renderNone \<noteq> renderPaused"
  "renderRecovered \<noteq> renderActive" "renderPaused \<noteq> renderActive" "renderPaused \<noteq> renderRecovered"
  by (simp_all add: render_defs)

fun renderClass :: "member_state \<Rightarrow> string" where
  "renderClass MemberDown = renderActive"
| "renderClass MemberRecovering = renderActive"
| "renderClass MemberRecovered = renderRecovered"
| "renderClass MemberPaused = renderPaused"
| "renderClass (MemberOther _) = renderNone"

record config =
  cf_group_wait :: duration
  cf_group_interval :: duration
  cf_repeat_interval :: duration
  cf_resolve_debounce :: duration

definition withDefaults :: "config \<Rightarrow> config" where
  "withDefaults c =
    (let c = (if cf_group_wait c \<le> 0 then c\<lparr>cf_group_wait := 30 * second\<rparr> else c);
         c = (if cf_group_interval c \<le> 0 then c\<lparr>cf_group_interval := 5 * minute\<rparr> else c);
         c = (if cf_repeat_interval c \<le> 0 then c\<lparr>cf_repeat_interval := 30 * minute\<rparr> else c)
     in (if cf_resolve_debounce c \<le> 0
         then c\<lparr>cf_resolve_debounce := cf_group_interval c\<rparr> else c))"

record group =
  g_channel :: string
  g_opened_at :: time
  g_digest_ts :: string
  g_digest_channel :: string
  g_posted :: bool
  g_closed :: bool
  g_last_flush_at :: time
  g_last_reminder_at :: time
  g_members :: "(string, member) gomap"
  g_cfg :: config

definition New :: "string \<Rightarrow> time \<Rightarrow> config \<Rightarrow> group" where
  "New channel now cfg =
    \<lparr>g_channel = channel, g_opened_at = now, g_digest_ts = [], g_digest_channel = [],
     g_posted = False, g_closed = False, g_last_flush_at = zero_time,
     g_last_reminder_at = zero_time, g_members = [], g_cfg = withDefaults cfg\<rparr>"

definition SetConfig :: "config \<Rightarrow> group \<Rightarrow> group" where
  "SetConfig cfg g = g\<lparr>g_cfg := withDefaults cfg\<rparr>"

section \<open>Deltas\<close>

record delta =
  d_newly_down :: "string list"
  d_recovered :: "string list"
  d_flapped :: "string list"
  d_paused :: "string list"

definition no_delta :: delta where
  "no_delta = \<lparr>d_newly_down = [], d_recovered = [], d_flapped = [], d_paused = []\<rparr>"

definition delta_Empty :: "delta \<Rightarrow> bool" where
  "delta_Empty d \<longleftrightarrow> d_newly_down d = [] \<and> d_recovered d = [] \<and> d_flapped d = [] \<and> d_paused d = []"

fun delta_loop :: "member list \<Rightarrow> delta \<Rightarrow> delta" where
  "delta_loop [] d = d"
| "delta_loop (m # ms) d =
    (let cur = renderClass (m_state m); prev = m_rendered m in
     delta_loop ms
      (if cur = prev then d
       else if cur = renderPaused then d\<lparr>d_paused := d_paused d @ [m_slug m]\<rparr>
       else if cur = renderActive \<and> (prev = renderNone \<or> prev = renderPaused)
         then d\<lparr>d_newly_down := d_newly_down d @ [m_slug m]\<rparr>
       else if cur = renderActive \<and> prev = renderRecovered
         then d\<lparr>d_flapped := d_flapped d @ [m_slug m]\<rparr>
       else if cur = renderRecovered \<and> prev = renderActive
         then d\<lparr>d_recovered := d_recovered d @ [m_slug m]\<rparr>
       else d))"

definition group_delta :: "group \<Rightarrow> delta" where
  "group_delta g =
    (let d = delta_loop (map snd (g_members g)) no_delta in
     \<lparr>d_newly_down = sort_strings (d_newly_down d), d_recovered = sort_strings (d_recovered d),
      d_flapped = sort_strings (d_flapped d), d_paused = sort_strings (d_paused d)\<rparr>)"

definition commitRender :: "group \<Rightarrow> group" where
  "commitRender g =
     g\<lparr>g_members := gm_map (\<lambda>m. m\<lparr>m_rendered := renderClass (m_state m)\<rparr>) (g_members g)\<rparr>"

section \<open>Actions and transitions\<close>

datatype action_kind =
  ActionNone | ActionPostDigest | ActionUpdate | ActionRemind | ActionClose | ActionDiscard

record action =
  ac_kind :: action_kind
  ac_delta :: delta

definition plain_action :: "action_kind \<Rightarrow> action" where
  "plain_action k = \<lparr>ac_kind = k, ac_delta = no_delta\<rparr>"

definition Open :: "time \<Rightarrow> group \<Rightarrow> group \<times> action" where
  "Open now g =
    (if g_posted g \<or> g_closed g then (g, plain_action ActionNone)
     else (commitRender (g\<lparr>g_posted := True, g_last_flush_at := now, g_last_reminder_at := now\<rparr>),
           plain_action ActionPostDigest))"

definition MarkDown :: "string \<Rightarrow> time \<Rightarrow> group \<Rightarrow> group" where
  "MarkDown slug now g =
    (case gm_get (g_members g) slug of
       None \<Rightarrow> g\<lparr>g_members := gm_put slug
         \<lparr>m_slug = slug, m_state = MemberDown, m_joined_at = now, m_down_since = now,
          m_up_since = zero_time, m_changed_at = now, m_rendered = renderNone\<rparr> (g_members g)\<rparr>
     | Some m \<Rightarrow>
         if m_state m = MemberDown then g
         else g\<lparr>g_members := gm_put slug
           (m\<lparr>m_state := MemberDown, m_down_since := now, m_up_since := zero_time,
              m_changed_at := now\<rparr>) (g_members g)\<rparr>)"

definition MarkUp :: "string \<Rightarrow> time \<Rightarrow> group \<Rightarrow> group" where
  "MarkUp slug now g =
    (case gm_get (g_members g) slug of
       None \<Rightarrow> g
     | Some m \<Rightarrow>
         if m_state m \<noteq> MemberDown then g
         else g\<lparr>g_members := gm_put slug
           (m\<lparr>m_state := MemberRecovering, m_up_since := now, m_changed_at := now\<rparr>) (g_members g)\<rparr>)"

definition MarkPaused :: "string \<Rightarrow> time \<Rightarrow> group \<Rightarrow> group" where
  "MarkPaused slug now g =
    (case gm_get (g_members g) slug of
       None \<Rightarrow> g
     | Some m \<Rightarrow>
         if m_state m = MemberPaused then g
         else g\<lparr>g_members := gm_put slug
           (m\<lparr>m_state := MemberPaused, m_changed_at := now\<rparr>) (g_members g)\<rparr>)"

definition countByState :: "member_state \<Rightarrow> group \<Rightarrow> nat" where
  "countByState s g = length (filter (\<lambda>m. m_state m = s) (map snd (g_members g)))"

definition promote :: "time \<Rightarrow> duration \<Rightarrow> member \<Rightarrow> member" where
  "promote now debounce m =
     (if m_state m = MemberRecovering \<and> m_up_since m + debounce \<le> now
      then m\<lparr>m_state := MemberRecovered, m_changed_at := now\<rparr> else m)"

definition promote_all :: "time \<Rightarrow> group \<Rightarrow> group" where
  "promote_all now g =
     g\<lparr>g_members := gm_map (promote now (cf_resolve_debounce (g_cfg g))) (g_members g)\<rparr>"

definition eval_flush :: "time \<Rightarrow> group \<Rightarrow> group \<times> action list" where
  "eval_flush now g =
    (if g_last_flush_at g + cf_group_interval (g_cfg g) \<le> now then
       (let d = group_delta g in
        ((commitRender g)\<lparr>g_last_flush_at := now\<rparr>,
         if delta_Empty d then [] else [\<lparr>ac_kind = ActionUpdate, ac_delta = d\<rparr>]))
     else (g, []))"

definition eval_remind :: "time \<Rightarrow> nat \<Rightarrow> group \<Rightarrow> group \<times> action list" where
  "eval_remind now down g =
    (if 0 < down \<and> g_last_reminder_at g + cf_repeat_interval (g_cfg g) \<le> now
     then (g\<lparr>g_last_reminder_at := now\<rparr>, [plain_action ActionRemind])
     else (g, []))"

definition Evaluate :: "time \<Rightarrow> group \<Rightarrow> group \<times> action list" where
  "Evaluate now g0 =
    (if g_closed g0 then (g0, [])
     else (let g = promote_all now g0;
               down = countByState MemberDown g;
               recovering = countByState MemberRecovering g in
       if \<not> g_posted g then
         (if now < g_opened_at g + cf_group_wait (g_cfg g) then (g, [])
          else if down = 0 then (g\<lparr>g_closed := True\<rparr>, [plain_action ActionDiscard])
          else (commitRender
                 (g\<lparr>g_posted := True, g_last_flush_at := now, g_last_reminder_at := now\<rparr>),
                [plain_action ActionPostDigest]))
       else if down = 0 \<and> recovering = 0 then
         (commitRender (g\<lparr>g_closed := True\<rparr>),
          [\<lparr>ac_kind = ActionClose, ac_delta = group_delta (g\<lparr>g_closed := True\<rparr>)\<rparr>])
       else (let (g1, as1) = eval_flush now g; (g2, as2) = eval_remind now down g1
             in (g2, as1 @ as2))))"

section \<open>Views\<close>

definition slugsByState :: "member_state \<Rightarrow> group \<Rightarrow> string list" where
  "slugsByState s g =
     sort_strings (map m_slug (filter (\<lambda>m. m_state m = s) (map snd (g_members g))))"

definition DownSlugs :: "group \<Rightarrow> string list" where
  "DownSlugs g = slugsByState MemberDown g"

definition ActiveSlugs :: "group \<Rightarrow> string list" where
  "ActiveSlugs g = sort_strings (slugsByState MemberDown g @ slugsByState MemberRecovering g)"

record counts =
  ct_down :: nat
  ct_recovering :: nat
  ct_recovered :: nat
  ct_paused :: nat
  ct_total :: nat

fun scoreboard_loop :: "member list \<Rightarrow> counts \<Rightarrow> counts" where
  "scoreboard_loop [] c = c"
| "scoreboard_loop (m # ms) c = scoreboard_loop ms (case m_state m of
      MemberDown \<Rightarrow> c\<lparr>ct_down := Suc (ct_down c)\<rparr>
    | MemberRecovering \<Rightarrow> c\<lparr>ct_recovering := Suc (ct_recovering c)\<rparr>
    | MemberRecovered \<Rightarrow> c\<lparr>ct_recovered := Suc (ct_recovered c)\<rparr>
    | MemberPaused \<Rightarrow> c\<lparr>ct_paused := Suc (ct_paused c)\<rparr>
    | MemberOther _ \<Rightarrow> c)"

definition Scoreboard :: "group \<Rightarrow> counts" where
  "Scoreboard g =
    (let c = scoreboard_loop (map snd (g_members g))
           \<lparr>ct_down = 0, ct_recovering = 0, ct_recovered = 0, ct_paused = 0, ct_total = 0\<rparr>
     in c\<lparr>ct_total := ct_down c + ct_recovering c + ct_recovered c\<rparr>)"

end
