(* ===== verification/Group_Props.thy ===== *)
theory Group_Props
  imports Group
begin

text \<open>
  The lemmas of the channel incident: the key invariant, the delta of a flush against the members'
  render classes, the protocol of its actions, flap damping and closing.
\<close>

section \<open>Keys\<close>

definition keyed :: "group \<Rightarrow> bool" where
  "keyed g \<longleftrightarrow> gm_ok (g_members g) \<and> (\<forall>(k, m) \<in> set (g_members g). m_slug m = k)"

lemma keyed_get: "keyed g \<Longrightarrow> gm_get (g_members g) k = Some m \<Longrightarrow> m_slug m = k"
  by (auto simp: keyed_def dest: map_of_SomeD)

lemma keyed_put:
  "keyed g \<Longrightarrow> m_slug m = k \<Longrightarrow> keyed (g\<lparr>g_members := gm_put k m (g_members g)\<rparr>)"
  using set_gm_put [of k m "g_members g"] by (fastforce simp: keyed_def)

lemma keyed_gm_map:
  "keyed g \<Longrightarrow> (\<And>m. m_slug (f m) = m_slug m) \<Longrightarrow>
   keyed (g\<lparr>g_members := gm_map f (g_members g)\<rparr>)"
  by (auto simp: keyed_def) (auto simp: gm_map_def)

lemma keyed_cong: "g_members g = g_members h \<Longrightarrow> keyed g = keyed h"
  by (simp add: keyed_def)

lemma keyed_New: "keyed (New ch now cfg)"
  by (simp add: keyed_def New_def)

lemma keyed_commit: "keyed g \<Longrightarrow> keyed (commitRender g)"
  unfolding commitRender_def by (rule keyed_gm_map) simp_all

lemma keyed_promote: "keyed g \<Longrightarrow> keyed (promote_all now g)"
  unfolding promote_all_def by (rule keyed_gm_map) (simp_all add: promote_def)

lemma keyed_MarkDown: "keyed g \<Longrightarrow> keyed (MarkDown k now g)"
  unfolding MarkDown_def
  by (auto split: option.splits intro!: keyed_put dest: keyed_get)

lemma keyed_MarkUp: "keyed g \<Longrightarrow> keyed (MarkUp k now g)"
  unfolding MarkUp_def
  by (auto split: option.splits intro!: keyed_put dest: keyed_get)

lemma keyed_MarkPaused: "keyed g \<Longrightarrow> keyed (MarkPaused k now g)"
  unfolding MarkPaused_def
  by (auto split: option.splits intro!: keyed_put dest: keyed_get)

lemma keyed_upd [simp]:
  "keyed (g\<lparr>g_closed := b\<rparr>) = keyed g" "keyed (g\<lparr>g_posted := b\<rparr>) = keyed g"
  "keyed (g\<lparr>g_last_flush_at := t\<rparr>) = keyed g" "keyed (g\<lparr>g_last_reminder_at := t\<rparr>) = keyed g"
  "keyed (g\<lparr>g_cfg := c\<rparr>) = keyed g" "keyed (g\<lparr>g_digest_ts := s\<rparr>) = keyed g"
  "keyed (g\<lparr>g_digest_channel := s\<rparr>) = keyed g"
  by (simp_all add: keyed_def)

lemma commitRender_sel [simp]:
  "g_posted (commitRender g) = g_posted g" "g_closed (commitRender g) = g_closed g"
  "g_last_flush_at (commitRender g) = g_last_flush_at g"
  "g_last_reminder_at (commitRender g) = g_last_reminder_at g"
  "g_cfg (commitRender g) = g_cfg g" "g_opened_at (commitRender g) = g_opened_at g"
  "g_channel (commitRender g) = g_channel g"
  by (simp_all add: commitRender_def)

lemma promote_all_sel [simp]:
  "g_posted (promote_all t g) = g_posted g" "g_closed (promote_all t g) = g_closed g"
  "g_last_flush_at (promote_all t g) = g_last_flush_at g"
  "g_last_reminder_at (promote_all t g) = g_last_reminder_at g"
  "g_cfg (promote_all t g) = g_cfg g" "g_opened_at (promote_all t g) = g_opened_at g"
  "g_channel (promote_all t g) = g_channel g"
  by (simp_all add: promote_all_def)

lemma eval_flush_sel [simp]:
  "g_posted (fst (eval_flush t g)) = g_posted g" "g_closed (fst (eval_flush t g)) = g_closed g"
  "g_last_reminder_at (fst (eval_flush t g)) = g_last_reminder_at g"
  "g_cfg (fst (eval_flush t g)) = g_cfg g"
  by (simp_all add: eval_flush_def Let_def)

lemma eval_remind_sel [simp]:
  "g_posted (fst (eval_remind t d g)) = g_posted g" "g_closed (fst (eval_remind t d g)) = g_closed g"
  "g_members (fst (eval_remind t d g)) = g_members g" "g_cfg (fst (eval_remind t d g)) = g_cfg g"
  by (simp_all add: eval_remind_def)

lemma keyed_eval_flush: "keyed g \<Longrightarrow> keyed (fst (eval_flush t g))"
  by (simp add: eval_flush_def Let_def keyed_commit)

lemma keyed_eval_remind: "keyed g \<Longrightarrow> keyed (fst (eval_remind t d g))"
  by (simp add: eval_remind_def)

text \<open>The six ways an evaluation can go; every later proof about it splits on these.\<close>

lemma Evaluate_cases [case_names closed waiting discard post close live]:
  obtains "g_closed g" "Evaluate now g = (g, [])"
  | "\<not> g_closed g" "\<not> g_posted g" "now < g_opened_at g + cf_group_wait (g_cfg g)"
      "Evaluate now g = (promote_all now g, [])"
  | "\<not> g_closed g" "\<not> g_posted g" "g_opened_at g + cf_group_wait (g_cfg g) \<le> now"
      "countByState MemberDown (promote_all now g) = 0"
      "Evaluate now g = ((promote_all now g)\<lparr>g_closed := True\<rparr>, [plain_action ActionDiscard])"
  | "\<not> g_closed g" "\<not> g_posted g" "g_opened_at g + cf_group_wait (g_cfg g) \<le> now"
      "0 < countByState MemberDown (promote_all now g)"
      "Evaluate now g = (commitRender ((promote_all now g)
         \<lparr>g_posted := True, g_last_flush_at := now, g_last_reminder_at := now\<rparr>),
         [plain_action ActionPostDigest])"
  | "\<not> g_closed g" "g_posted g"
      "countByState MemberDown (promote_all now g) = 0"
      "countByState MemberRecovering (promote_all now g) = 0"
      "Evaluate now g = (commitRender ((promote_all now g)\<lparr>g_closed := True\<rparr>),
         [\<lparr>ac_kind = ActionClose, ac_delta = group_delta (promote_all now g)\<rparr>])"
  | "\<not> g_closed g" "g_posted g"
      "0 < countByState MemberDown (promote_all now g)
         \<or> 0 < countByState MemberRecovering (promote_all now g)"
      "Evaluate now g =
        (fst (eval_remind now (countByState MemberDown (promote_all now g))
            (fst (eval_flush now (promote_all now g)))),
         snd (eval_flush now (promote_all now g)) @
         snd (eval_remind now (countByState MemberDown (promote_all now g))
            (fst (eval_flush now (promote_all now g)))))"
proof -
  let ?p = "promote_all now g"
  have d: "group_delta (?p\<lparr>g_closed := True\<rparr>) = group_delta ?p"
    by (simp add: group_delta_def)
  consider "g_closed g"
    | "\<not> g_closed g" "\<not> g_posted g" "now < g_opened_at g + cf_group_wait (g_cfg g)"
    | "\<not> g_closed g" "\<not> g_posted g" "\<not> now < g_opened_at g + cf_group_wait (g_cfg g)"
        "countByState MemberDown ?p = 0"
    | "\<not> g_closed g" "\<not> g_posted g" "\<not> now < g_opened_at g + cf_group_wait (g_cfg g)"
        "countByState MemberDown ?p \<noteq> 0"
    | "\<not> g_closed g" "g_posted g"
        "countByState MemberDown ?p = 0 \<and> countByState MemberRecovering ?p = 0"
    | "\<not> g_closed g" "g_posted g"
        "\<not> (countByState MemberDown ?p = 0 \<and> countByState MemberRecovering ?p = 0)"
    by blast
  then show thesis
  proof cases
    case 1
    then show thesis using that(1) by (simp add: Evaluate_def)
  next
    case 2
    then show thesis using that(2) by (simp add: Evaluate_def Let_def)
  next
    case 3
    then show thesis using that(3) by (simp add: Evaluate_def Let_def)
  next
    case 4
    then show thesis using that(4) by (simp add: Evaluate_def Let_def)
  next
    case 5
    then show thesis using that(5) by (simp add: Evaluate_def Let_def d)
  next
    case 6
    then have "Evaluate now g = (fst (eval_remind now (countByState MemberDown ?p)
            (fst (eval_flush now ?p))), snd (eval_flush now ?p) @
         snd (eval_remind now (countByState MemberDown ?p) (fst (eval_flush now ?p))))"
      unfolding Evaluate_def Let_def promote_all_sel split_beta by (simp only: if_False simp_thms)
    with 6 show thesis using that(6) by simp
  qed
qed

lemma keyed_Evaluate: "keyed g \<Longrightarrow> keyed (fst (Evaluate now g))"
  by (rule Evaluate_cases [where g = g and now = now])
     (simp_all add: keyed_commit keyed_promote keyed_eval_flush keyed_eval_remind)

lemma keyed_Open: "keyed g \<Longrightarrow> keyed (fst (Open now g))"
  by (simp add: Open_def keyed_commit)

section \<open>Deltas\<close>

definition bucket :: "(member \<Rightarrow> bool) \<Rightarrow> group \<Rightarrow> string list" where
  "bucket P g = sort_strings (map m_slug (filter P (map snd (g_members g))))"

definition is_newly_down :: "member \<Rightarrow> bool" where
  "is_newly_down m \<longleftrightarrow> renderClass (m_state m) = renderActive
     \<and> (m_rendered m = renderNone \<or> m_rendered m = renderPaused)"

definition is_flapped :: "member \<Rightarrow> bool" where
  "is_flapped m \<longleftrightarrow> renderClass (m_state m) = renderActive \<and> m_rendered m = renderRecovered"

definition is_recovered :: "member \<Rightarrow> bool" where
  "is_recovered m \<longleftrightarrow> renderClass (m_state m) = renderRecovered \<and> m_rendered m = renderActive"

definition is_newly_paused :: "member \<Rightarrow> bool" where
  "is_newly_paused m \<longleftrightarrow> renderClass (m_state m) = renderPaused \<and> m_rendered m \<noteq> renderPaused"

lemmas bucket_defs = is_newly_down_def is_flapped_def is_recovered_def is_newly_paused_def

lemma delta_loop_buckets:
  "delta_loop ms d =
    \<lparr>d_newly_down = d_newly_down d @ map m_slug (filter is_newly_down ms),
     d_recovered = d_recovered d @ map m_slug (filter is_recovered ms),
     d_flapped = d_flapped d @ map m_slug (filter is_flapped ms),
     d_paused = d_paused d @ map m_slug (filter is_newly_paused ms)\<rparr>"
proof (induction ms d rule: delta_loop.induct)
  case (2 m ms d)
  then show ?case
    by (cases "m_state m") (auto simp: bucket_defs Let_def)
qed simp

lemma group_delta_buckets:
  "group_delta g =
    \<lparr>d_newly_down = bucket is_newly_down g, d_recovered = bucket is_recovered g,
     d_flapped = bucket is_flapped g, d_paused = bucket is_newly_paused g\<rparr>"
  by (simp add: group_delta_def delta_loop_buckets bucket_def no_delta_def Let_def)

lemma set_bucket:
  assumes "keyed g"
  shows "set (bucket P g) = {k. \<exists>m. gm_get (g_members g) k = Some m \<and> P m}"
proof -
  have eq: "(k, m) \<in> set (g_members g) \<longleftrightarrow> gm_get (g_members g) k = Some m" for k m
    using assms by (simp add: keyed_def gm_get_mem)
  have "set (bucket P g) = (\<lambda>x. m_slug (snd x)) ` {x \<in> set (g_members g). P (snd x)}"
    by (auto simp: bucket_def image_iff)
  also have "\<dots> = fst ` {x \<in> set (g_members g). P (snd x)}"
    using assms by (intro image_cong) (auto simp: keyed_def)
  also have "\<dots> = {k. \<exists>m. gm_get (g_members g) k = Some m \<and> P m}"
    by (force simp: eq [symmetric])
  finally show ?thesis .
qed

lemma distinct_bucket:
  assumes "keyed g"
  shows "distinct (bucket P g)"
proof -
  have "map m_slug (map snd (g_members g)) = map fst (g_members g)"
    using assms by (auto simp: keyed_def)
  then have "distinct (map m_slug (map snd (g_members g)))"
    using assms by (simp only: keyed_def gm_ok_def)
  then have "distinct (map m_slug (filter P (map snd (g_members g))))"
    by (rule distinct_map_filter)
  then show ?thesis by (simp add: bucket_def)
qed

lemma sorted_bucket: "sorted (bucket P g)"
  by (simp add: bucket_def)

definition in_delta :: "string \<Rightarrow> delta \<Rightarrow> bool" where
  "in_delta k d \<longleftrightarrow> k \<in> set (d_newly_down d) \<union> set (d_recovered d) \<union> set (d_flapped d) \<union> set (d_paused d)"

lemma in_group_delta_class:
  assumes "keyed g" and "in_delta k (group_delta g)" and "gm_get (g_members g) k = Some m"
  shows "renderClass (m_state m) \<noteq> m_rendered m"
  using assms by (auto simp: in_delta_def group_delta_buckets set_bucket bucket_defs)

lemma group_delta_commit: "group_delta (commitRender g) = no_delta"
proof -
  have "filter P (map snd (g_members (commitRender g))) = []"
    if "\<And>m. m_rendered m = renderClass (m_state m) \<Longrightarrow> \<not> P m" for P
    using that by (auto simp: commitRender_def gm_map_def filter_empty_conv)
  then have "bucket P (commitRender g) = []"
    if "\<And>m. m_rendered m = renderClass (m_state m) \<Longrightarrow> \<not> P m" for P
    using that by (auto simp: bucket_def)
  then show ?thesis
    by (auto simp: group_delta_buckets no_delta_def bucket_defs)
qed

lemma group_delta_cong: "g_members g = g_members h \<Longrightarrow> group_delta g = group_delta h"
  by (simp add: group_delta_def)

section \<open>The protocol of actions\<close>

datatype group_event =
    EvMarkDown string time | EvMarkUp string time | EvMarkPaused string time
  | EvEvaluate time | EvOpen time

definition group_step :: "group \<Rightarrow> group_event \<Rightarrow> group \<times> (time \<times> action) list" where
  "group_step g e = (case e of
      EvMarkDown k t \<Rightarrow> (MarkDown k t g, [])
    | EvMarkUp k t \<Rightarrow> (MarkUp k t g, [])
    | EvMarkPaused k t \<Rightarrow> (MarkPaused k t g, [])
    | EvEvaluate t \<Rightarrow> (case Evaluate t g of (g', as) \<Rightarrow> (g', map (Pair t) as))
    | EvOpen t \<Rightarrow> (case Open t g of (g', a) \<Rightarrow>
        (g', if ac_kind a = ActionNone then [] else [(t, a)])))"

text \<open>
  Before the digest: one post, or a silent discard.  After it: updates with a non-empty delta,
  reminders at least the repeat interval after the post or the previous reminder, and one close.
\<close>

datatype group_phase = Phase_Unposted | Phase_Posted time | Phase_Closed

definition group_protocol :: "duration \<Rightarrow> group_phase \<Rightarrow> time \<times> action \<Rightarrow> group_phase option" where
  "group_protocol repeat p ta = (case p of
      Phase_Unposted \<Rightarrow> (case ac_kind (snd ta) of
          ActionPostDigest \<Rightarrow> Some (Phase_Posted (fst ta))
        | ActionDiscard \<Rightarrow> Some Phase_Closed
        | _ \<Rightarrow> None)
    | Phase_Posted last_ping \<Rightarrow> (case ac_kind (snd ta) of
          ActionUpdate \<Rightarrow> (if delta_Empty (ac_delta (snd ta)) then None else Some p)
        | ActionRemind \<Rightarrow>
            (if last_ping + repeat \<le> fst ta then Some (Phase_Posted (fst ta)) else None)
        | ActionClose \<Rightarrow> Some Phase_Closed
        | _ \<Rightarrow> None)
    | Phase_Closed \<Rightarrow> None)"

definition group_phase_of :: "group \<Rightarrow> group_phase" where
  "group_phase_of g = (if g_closed g then Phase_Closed
     else if g_posted g then Phase_Posted (g_last_reminder_at g) else Phase_Unposted)"

definition group_inv :: "duration \<Rightarrow> group \<Rightarrow> bool" where
  "group_inv repeat g \<longleftrightarrow> keyed g \<and> cf_repeat_interval (g_cfg g) = repeat"

lemma mark_sel [simp]:
  "g_posted (MarkDown k t g) = g_posted g" "g_closed (MarkDown k t g) = g_closed g"
  "g_last_reminder_at (MarkDown k t g) = g_last_reminder_at g" "g_cfg (MarkDown k t g) = g_cfg g"
  "g_posted (MarkUp k t g) = g_posted g" "g_closed (MarkUp k t g) = g_closed g"
  "g_last_reminder_at (MarkUp k t g) = g_last_reminder_at g" "g_cfg (MarkUp k t g) = g_cfg g"
  "g_posted (MarkPaused k t g) = g_posted g" "g_closed (MarkPaused k t g) = g_closed g"
  "g_last_reminder_at (MarkPaused k t g) = g_last_reminder_at g" "g_cfg (MarkPaused k t g) = g_cfg g"
  by (simp_all add: MarkDown_def MarkUp_def MarkPaused_def split: option.split)

lemma Evaluate_cfg [simp]: "g_cfg (fst (Evaluate now g)) = g_cfg g"
  by (rule Evaluate_cases [where g = g and now = now]) simp_all

lemma Open_cfg [simp]: "g_cfg (fst (Open now g)) = g_cfg g"
  by (simp add: Open_def)

lemma group_step_inv: "group_inv r g \<Longrightarrow> group_inv r (fst (group_step g e))"
  by (cases e) (auto simp: group_step_def group_inv_def keyed_MarkDown keyed_MarkUp
      keyed_MarkPaused split_beta keyed_Evaluate keyed_Open)

lemma eval_flush_actions:
  "snd (eval_flush now g) = [] \<or>
   (snd (eval_flush now g) = [\<lparr>ac_kind = ActionUpdate, ac_delta = group_delta g\<rparr>]
      \<and> \<not> delta_Empty (group_delta g))"
  by (simp add: eval_flush_def Let_def)

lemma plain_action_sel [simp]: "ac_kind (plain_action k) = k" "ac_delta (plain_action k) = no_delta"
  by (simp_all add: plain_action_def)

lemma Evaluate_protocol:
  assumes inv: "group_inv r g"
  shows "feed (group_protocol r) (group_phase_of g) (map (Pair now) (snd (Evaluate now g))) =
         Some (group_phase_of (fst (Evaluate now g)))"
proof (rule Evaluate_cases [where g = g and now = now])
  assume h: "\<not> g_closed g" "g_posted g"
    and e: "Evaluate now g =
        (fst (eval_remind now (countByState MemberDown (promote_all now g))
            (fst (eval_flush now (promote_all now g)))),
         snd (eval_flush now (promote_all now g)) @
         snd (eval_remind now (countByState MemberDown (promote_all now g))
            (fst (eval_flush now (promote_all now g)))))"
  let ?f = "eval_flush now (promote_all now g)"
  have "feed (group_protocol r) (Phase_Posted (g_last_reminder_at g)) (map (Pair now) (snd ?f)) =
        Some (Phase_Posted (g_last_reminder_at g))"
    using eval_flush_actions [of now "promote_all now g"] by (auto simp: group_protocol_def)
  then show ?thesis
    using h inv unfolding e
    by (auto simp: feed_append group_phase_of_def group_inv_def eval_remind_def group_protocol_def)
qed (simp_all add: group_phase_of_def group_protocol_def)

lemma group_step_protocol:
  assumes "group_inv r g"
  shows "feed (group_protocol r) (group_phase_of g) (snd (group_step g e)) =
         Some (group_phase_of (fst (group_step g e)))"
  using assms Evaluate_protocol [OF assms]
  by (cases e) (auto simp: group_step_def split_beta group_phase_of_def Open_def group_protocol_def)

interpretation incident: protocol_machine group_step "group_inv r" "\<lambda>e. True" "group_protocol r"
    group_phase_of for r
  by unfold_locales (auto simp: group_step_inv group_step_protocol)

section \<open>Flap damping\<close>

definition flap_inv :: "string \<Rightarrow> time \<Rightarrow> duration \<Rightarrow> group \<Rightarrow> bool" where
  "flap_inv k t0 d g \<longleftrightarrow> keyed g \<and> cf_resolve_debounce (g_cfg g) = d \<and>
    (case gm_get (g_members g) k of None \<Rightarrow> False
     | Some m \<Rightarrow> m_rendered m = renderActive \<and>
         (m_state m = MemberDown \<or> m_state m = MemberRecovering \<and> t0 \<le> m_up_since m))"

text \<open>
  The events of one flap of the monitor \<open>k\<close>: it goes up at \<open>t0\<close> or later, is never paused, and
  every evaluation comes before the debounce has run out.  Other monitors do anything.
\<close>

fun flap_event :: "string \<Rightarrow> time \<Rightarrow> duration \<Rightarrow> group_event \<Rightarrow> bool" where
  "flap_event k t0 d (EvMarkDown k' t) = True"
| "flap_event k t0 d (EvMarkUp k' t) = (k' = k \<longrightarrow> t0 \<le> t)"
| "flap_event k t0 d (EvMarkPaused k' t) = (k' \<noteq> k)"
| "flap_event k t0 d (EvEvaluate t) = (t < t0 + d)"
| "flap_event k t0 d (EvOpen t) = True"

definition silent_about :: "string \<Rightarrow> unit \<Rightarrow> time \<times> action \<Rightarrow> unit option" where
  "silent_about k u ta = (if in_delta k (ac_delta (snd ta)) then None else Some ())"

lemma in_delta_none [simp]: "\<not> in_delta k no_delta"
  by (simp add: in_delta_def no_delta_def)

lemma flap_inv_commit: "flap_inv k t0 d g \<Longrightarrow> flap_inv k t0 d (commitRender g)"
  using keyed_commit [of g]
  by (auto simp: flap_inv_def split: option.splits) (auto simp: commitRender_def)

lemma flap_inv_promote:
  assumes "flap_inv k t0 d g" and t: "t < t0 + d"
  shows "flap_inv k t0 d (promote_all t g)"
  using assms keyed_promote [of g t]
  by (auto simp: flap_inv_def split: option.splits) (auto simp: promote_all_def promote_def)

lemma flap_inv_upd [simp]:
  "flap_inv k t0 d (g\<lparr>g_closed := b\<rparr>) = flap_inv k t0 d g"
  "flap_inv k t0 d (g\<lparr>g_posted := b\<rparr>) = flap_inv k t0 d g"
  "flap_inv k t0 d (g\<lparr>g_last_flush_at := t\<rparr>) = flap_inv k t0 d g"
  "flap_inv k t0 d (g\<lparr>g_last_reminder_at := t\<rparr>) = flap_inv k t0 d g"
  by (simp_all add: flap_inv_def)

lemma flap_inv_silent: "flap_inv k t0 d g \<Longrightarrow> \<not> in_delta k (group_delta g)"
  using in_group_delta_class [of g k] by (auto simp: flap_inv_def split: option.splits)

lemma flap_inv_flush: "flap_inv k t0 d g \<Longrightarrow> flap_inv k t0 d (fst (eval_flush t g))"
  by (simp add: eval_flush_def Let_def flap_inv_commit)

lemma flap_inv_remind: "flap_inv k t0 d g \<Longrightarrow> flap_inv k t0 d (fst (eval_remind t n g))"
  by (simp add: eval_remind_def)

lemma flap_Evaluate:
  assumes f: "flap_inv k t0 d g" and t: "t < t0 + d"
  shows "flap_inv k t0 d (fst (Evaluate t g)) \<and> (\<forall>a \<in> set (snd (Evaluate t g)). \<not> in_delta k (ac_delta a))"
proof -
  note p = flap_inv_promote [OF f t]
  note s = flap_inv_silent [OF p]
  show ?thesis
  proof (rule Evaluate_cases [where g = g and now = t])
    assume e: "Evaluate t g = (fst (eval_remind t (countByState MemberDown (promote_all t g))
            (fst (eval_flush t (promote_all t g)))),
         snd (eval_flush t (promote_all t g)) @
         snd (eval_remind t (countByState MemberDown (promote_all t g))
            (fst (eval_flush t (promote_all t g)))))"
    have "\<forall>a \<in> set (snd (eval_flush t (promote_all t g))). \<not> in_delta k (ac_delta a)"
      using s by (simp add: eval_flush_def Let_def)
    then show ?thesis
      unfolding e using flap_inv_remind [OF flap_inv_flush [OF p]]
      by (auto simp: eval_remind_def)
  qed (use f p s in \<open>simp_all add: flap_inv_commit\<close>)
qed

lemma flap_MarkDown: "flap_inv k t0 d g \<Longrightarrow> flap_inv k t0 d (MarkDown k' t g)"
  using keyed_MarkDown [of g k' t]
  by (auto simp: flap_inv_def split: option.splits)
     (auto simp: MarkDown_def split: option.splits if_splits)

lemma flap_MarkUp: "flap_inv k t0 d g \<Longrightarrow> (k' = k \<longrightarrow> t0 \<le> t) \<Longrightarrow> flap_inv k t0 d (MarkUp k' t g)"
  using keyed_MarkUp [of g k' t]
  by (auto simp: flap_inv_def split: option.splits)
     (auto simp: MarkUp_def split: option.splits if_splits)

lemma flap_MarkPaused: "flap_inv k t0 d g \<Longrightarrow> k' \<noteq> k \<Longrightarrow> flap_inv k t0 d (MarkPaused k' t g)"
  using keyed_MarkPaused [of g k' t]
  by (auto simp: flap_inv_def split: option.splits)
     (auto simp: MarkPaused_def split: option.splits if_splits)

lemma flap_Open: "flap_inv k t0 d g \<Longrightarrow> flap_inv k t0 d (fst (Open t g))"
  by (simp add: Open_def flap_inv_commit)

lemma feed_silent: "feed (silent_about k) () tas = (if \<exists>a \<in> set tas. in_delta k (ac_delta (snd a)) then None else Some ())"
  by (induction tas) (auto simp: silent_about_def)

lemma flap_step:
  assumes f: "flap_inv k t0 d g" and e: "flap_event k t0 d e"
  shows "flap_inv k t0 d (fst (group_step g e)) \<and>
    feed (silent_about k) () (snd (group_step g e)) = Some ()"
  using assms flap_Evaluate [OF f] flap_Open [OF f]
  by (cases e)
     (auto simp: group_step_def flap_MarkDown flap_MarkUp flap_MarkPaused split_beta feed_silent
       Open_def)

interpretation flap: protocol_machine group_step "flap_inv k t0 d" "flap_event k t0 d"
    "silent_about k" "\<lambda>g. ()" for k t0 d
  by unfold_locales (simp_all add: flap_step)

section \<open>Closing\<close>

lemma countByState_zero:
  "countByState s g = 0 \<longleftrightarrow> (\<forall>m \<in> set (map snd (g_members g)). m_state m \<noteq> s)"
  by (auto simp: countByState_def filter_empty_conv)

lemma countByState_promote_down:
  "countByState MemberDown (promote_all now g) = countByState MemberDown g"
  by (auto simp: countByState_def promote_all_def gm_map_def promote_def o_def case_prod_beta
      filter_map intro!: arg_cong [where f = length] filter_cong)

lemma promote_recovering: "m_state (promote now d m) = MemberRecovering \<longleftrightarrow>
    m_state m = MemberRecovering \<and> \<not> m_up_since m + d \<le> now"
  by (auto simp: promote_def)

lemma promoted_recovering_zero:
  "countByState MemberRecovering (promote_all now g) = 0 \<longleftrightarrow>
   (\<forall>m \<in> set (map snd (g_members g)). m_state m = MemberRecovering \<longrightarrow>
      m_up_since m + cf_resolve_debounce (g_cfg g) \<le> now)"
  by (simp add: countByState_zero promote_all_def gm_map_def case_prod_beta promote_recovering)

definition ready_to_close :: "time \<Rightarrow> group \<Rightarrow> bool" where
  "ready_to_close now g \<longleftrightarrow> (\<forall>m \<in> set (map snd (g_members g)). m_state m \<noteq> MemberDown \<and>
     (m_state m = MemberRecovering \<longrightarrow> m_up_since m + cf_resolve_debounce (g_cfg g) \<le> now))"

lemma ready_to_close_counts:
  "ready_to_close now g \<longleftrightarrow> countByState MemberDown (promote_all now g) = 0
     \<and> countByState MemberRecovering (promote_all now g) = 0"
  by (simp only: ready_to_close_def countByState_promote_down promoted_recovering_zero
      countByState_zero [of MemberDown] ball_conj_distrib)

lemma Evaluate_after_close: "g_closed g \<Longrightarrow> snd (Evaluate later g) = []"
  by (simp add: Evaluate_def)

lemma flush_remind_no_close:
  "map ac_kind (snd (eval_flush now h) @ snd (eval_remind now n h')) \<noteq> [ActionClose]"
  by (simp add: eval_flush_def eval_remind_def Let_def)

lemma Evaluate_posted_closes:
  assumes "\<not> g_closed g" and "g_posted g"
  shows "(g_closed (fst (Evaluate now g)) \<longleftrightarrow> ready_to_close now g) \<and>
    (map ac_kind (snd (Evaluate now g)) = [ActionClose] \<longleftrightarrow> ready_to_close now g)"
proof (rule Evaluate_cases [where g = g and now = now])
  assume n: "0 < countByState MemberDown (promote_all now g)
         \<or> 0 < countByState MemberRecovering (promote_all now g)"
    and e: "Evaluate now g =
        (fst (eval_remind now (countByState MemberDown (promote_all now g))
            (fst (eval_flush now (promote_all now g)))),
         snd (eval_flush now (promote_all now g)) @
         snd (eval_remind now (countByState MemberDown (promote_all now g))
            (fst (eval_flush now (promote_all now g)))))"
  have "\<not> ready_to_close now g" using n unfolding ready_to_close_counts by linarith
  moreover have "\<not> g_closed (fst (Evaluate now g))" using assms(1) unfolding e by simp
  moreover have "map ac_kind (snd (Evaluate now g)) \<noteq> [ActionClose]"
    unfolding e snd_conv by (rule flush_remind_no_close)
  ultimately show ?thesis by blast
qed (use assms in \<open>simp_all add: ready_to_close_counts\<close>)

lemma Evaluate_unposted_closes:
  assumes "\<not> g_closed g" and "\<not> g_posted g"
  shows "(g_closed (fst (Evaluate now g)) \<longleftrightarrow>
      g_opened_at g + cf_group_wait (g_cfg g) \<le> now \<and> countByState MemberDown g = 0) \<and>
    (g_closed (fst (Evaluate now g)) \<longrightarrow> map ac_kind (snd (Evaluate now g)) = [ActionDiscard])"
proof (rule Evaluate_cases [where g = g and now = now])
qed (use assms countByState_promote_down [of now g] in simp_all)

section \<open>Counts\<close>

lemma scoreboard_loop_counts:
  "scoreboard_loop ms c =
   \<lparr>ct_down = ct_down c + length (filter (\<lambda>m. m_state m = MemberDown) ms),
    ct_recovering = ct_recovering c + length (filter (\<lambda>m. m_state m = MemberRecovering) ms),
    ct_recovered = ct_recovered c + length (filter (\<lambda>m. m_state m = MemberRecovered) ms),
    ct_paused = ct_paused c + length (filter (\<lambda>m. m_state m = MemberPaused) ms),
    ct_total = ct_total c\<rparr>"
  by (induction ms c rule: scoreboard_loop.induct) (auto split: member_state.splits)

lemma Scoreboard_counts:
  "Scoreboard g =
   \<lparr>ct_down = countByState MemberDown g, ct_recovering = countByState MemberRecovering g,
    ct_recovered = countByState MemberRecovered g, ct_paused = countByState MemberPaused g,
    ct_total = countByState MemberDown g + countByState MemberRecovering g
               + countByState MemberRecovered g\<rparr>"
  by (simp add: Scoreboard_def scoreboard_loop_counts countByState_def Let_def)

definition known_states :: "group \<Rightarrow> bool" where
  "known_states g \<longleftrightarrow> (\<forall>m \<in> set (map snd (g_members g)). \<forall>x. m_state m \<noteq> MemberOther x)"

lemma count_split:
  assumes "\<forall>m \<in> set ms. \<forall>x. m_state m \<noteq> MemberOther x"
  shows "length ms = length (filter (\<lambda>m. m_state m = MemberDown) ms)
    + length (filter (\<lambda>m. m_state m = MemberRecovering) ms)
    + length (filter (\<lambda>m. m_state m = MemberRecovered) ms)
    + length (filter (\<lambda>m. m_state m = MemberPaused) ms)"
  using assms
proof (induction ms)
  case (Cons m ms)
  then show ?case by (cases "m_state m") auto
qed simp

lemma length_slugsByState: "length (slugsByState s g) = countByState s g"
  by (simp add: slugsByState_def countByState_def)

section \<open>Properties\<close>

text \<open>C28: From \<open>New\<close> on, whatever transitions and evaluations follow in whatever order and at
  whatever times, the actions obey the protocol of an incident: at most one digest post, only
  non-empty updates and reminders spaced by the (defaulted) repeat interval after it, at most one
  close and nothing after it, and a silent discard only if nothing was ever posted.\<close>

theorem group_run_follows_protocol:
  "feed (group_protocol (cf_repeat_interval (withDefaults cfg))) Phase_Unposted
     (snd (run_machine group_step (New ch t0 cfg) es))
   = Some (group_phase_of (fst (run_machine group_step (New ch t0 cfg) es)))"
proof -
  have "group_inv (cf_repeat_interval (withDefaults cfg)) (New ch t0 cfg)"
    by (simp add: group_inv_def keyed_New) (simp add: New_def)
  then show ?thesis
    using incident.run_proto [of "cf_repeat_interval (withDefaults cfg)" "New ch t0 cfg" es]
    by (simp add: list_all_iff) (simp add: group_phase_of_def New_def)
qed

text \<open>A monitor that is shown as down and recovers and fails again, however often, while every
  evaluation comes less than the resolve debounce after the first recovery, is mentioned in no
  update and is still shown as active.\<close>

theorem flap_inside_debounce_is_invisible:
  assumes "flap_inv k t0 d g" and "list_all (flap_event k t0 d) es"
  shows "flap_inv k t0 d (fst (run_machine group_step g es)) \<and>
    (\<forall>(t, a) \<in> set (snd (run_machine group_step g es)). \<not> in_delta k (ac_delta a))"
  using flap.run_inv [OF assms] flap.run_proto [OF assms]
  by (auto simp: feed_silent split: if_splits)

lemma flap_inside_debounce_is_invisible_witness:
  "let g = fst (group_step (MarkDown ''b'' 0 (MarkDown ''a'' 0 (New ''ops'' 0
        \<lparr>cf_group_wait = 1, cf_group_interval = 1, cf_repeat_interval = 100,
         cf_resolve_debounce = 10\<rparr>))) (EvOpen 1));
       es = [EvMarkUp ''a'' 5, EvMarkUp ''b'' 1, EvEvaluate 6, EvMarkDown ''a'' 7, EvEvaluate 14] in
   snd (run_machine group_step g es) =
     [(14, \<lparr>ac_kind = ActionUpdate, ac_delta = no_delta\<lparr>d_recovered := [''b'']\<rparr>\<rparr>)]
   \<and> (\<forall>(t, a) \<in> set (snd (run_machine group_step g es)). \<not> in_delta ''a'' (ac_delta a))"
proof -
  define g where "g = fst (group_step (MarkDown ''b'' 0 (MarkDown ''a'' 0 (New ''ops'' 0
        \<lparr>cf_group_wait = 1, cf_group_interval = 1, cf_repeat_interval = 100,
         cf_resolve_debounce = 10\<rparr>))) (EvOpen 1))"
  define es where "es = [EvMarkUp ''a'' 5, EvMarkUp ''b'' 1, EvEvaluate 6, EvMarkDown ''a'' 7,
     EvEvaluate 14]"
  have "flap_inv ''a'' 5 10 g" unfolding g_def by code_simp
  moreover have "list_all (flap_event ''a'' 5 10) es" by (simp add: es_def)
  ultimately have "\<forall>(t, a) \<in> set (snd (run_machine group_step g es)). \<not> in_delta ''a'' (ac_delta a)"
    by (rule flap_inside_debounce_is_invisible [THEN conjunct2])
  moreover have "snd (run_machine group_step g es) =
     [(14, \<lparr>ac_kind = ActionUpdate, ac_delta = no_delta\<lparr>d_recovered := [''b'']\<rparr>\<rparr>)]"
    unfolding g_def es_def by code_simp
  ultimately show ?thesis by (simp only: Let_def g_def [symmetric] es_def [symmetric])
qed

text \<open>The delta of a flush names a monitor in a bucket exactly when its render class moved the
  way the bucket says, each bucket is sorted without repetitions, and committing the render
  leaves nothing to report.\<close>

theorem group_delta_is_exact:
  assumes "keyed g"
  shows "set (d_newly_down (group_delta g)) = {k. \<exists>m. gm_get (g_members g) k = Some m \<and>
           renderClass (m_state m) = renderActive \<and> m_rendered m \<in> {renderNone, renderPaused}}
    \<and> set (d_flapped (group_delta g)) = {k. \<exists>m. gm_get (g_members g) k = Some m \<and>
           renderClass (m_state m) = renderActive \<and> m_rendered m = renderRecovered}
    \<and> set (d_recovered (group_delta g)) = {k. \<exists>m. gm_get (g_members g) k = Some m \<and>
           m_state m = MemberRecovered \<and> m_rendered m = renderActive}
    \<and> set (d_paused (group_delta g)) = {k. \<exists>m. gm_get (g_members g) k = Some m \<and>
           m_state m = MemberPaused \<and> m_rendered m \<noteq> renderPaused}
    \<and> list_all (\<lambda>ks. sorted ks \<and> distinct ks) [d_newly_down (group_delta g),
         d_flapped (group_delta g), d_recovered (group_delta g), d_paused (group_delta g)]
    \<and> group_delta (commitRender g) = no_delta"
proof -
  have "renderClass s = renderRecovered \<longleftrightarrow> s = MemberRecovered"
    "renderClass s = renderPaused \<longleftrightarrow> s = MemberPaused" for s
    by (cases s; simp)+
  then show ?thesis
    using assms
    by (simp add: group_delta_commit)
       (simp add: group_delta_buckets set_bucket distinct_bucket sorted_bucket bucket_defs)
qed

lemma group_delta_is_exact_witness:
  "let g = MarkPaused ''b'' 2 (MarkDown ''b'' 1 (MarkDown ''a'' 1 (New ''ops'' 0
        \<lparr>cf_group_wait = 1, cf_group_interval = 1, cf_repeat_interval = 1,
         cf_resolve_debounce = 1\<rparr>))) in
   group_delta (commitRender g) = no_delta \<and>
   group_delta g = no_delta\<lparr>d_newly_down := [''a''], d_paused := [''b'']\<rparr>"
proof -
  define g where "g = MarkPaused ''b'' 2 (MarkDown ''b'' 1 (MarkDown ''a'' 1 (New ''ops'' 0
        \<lparr>cf_group_wait = 1, cf_group_interval = 1, cf_repeat_interval = 1,
         cf_resolve_debounce = 1\<rparr>)))"
  have "keyed g" by (simp add: g_def keyed_MarkPaused keyed_MarkDown keyed_New)
  then have "group_delta (commitRender g) = no_delta" by (simp add: group_delta_is_exact)
  moreover have "group_delta g = no_delta\<lparr>d_newly_down := [''a''], d_paused := [''b'']\<rparr>"
    unfolding g_def by code_simp
  ultimately show ?thesis by (simp only: Let_def g_def [symmetric])
qed

text \<open>An open incident is retired by an evaluation exactly when no member is down and every
  recovering member has been up for the debounce (and, before the digest, the group wait is over);
  a posted incident then announces the close as its only action, an unposted one is discarded
  silently, and a retired incident never acts again.\<close>

theorem Evaluate_retires_iff:
  assumes "\<not> g_closed g"
  shows "(g_posted g \<longrightarrow> (g_closed (fst (Evaluate now g)) \<longleftrightarrow> ready_to_close now g) \<and>
       (map ac_kind (snd (Evaluate now g)) = [ActionClose] \<longleftrightarrow> ready_to_close now g))
    \<and> (\<not> g_posted g \<longrightarrow> (g_closed (fst (Evaluate now g)) \<longleftrightarrow>
         g_opened_at g + cf_group_wait (g_cfg g) \<le> now \<and> countByState MemberDown g = 0) \<and>
       (g_closed (fst (Evaluate now g)) \<longrightarrow> map ac_kind (snd (Evaluate now g)) = [ActionDiscard]))
    \<and> (g_closed (fst (Evaluate now g)) \<longrightarrow> snd (Evaluate later (fst (Evaluate now g))) = [])"
  using Evaluate_posted_closes [OF assms] Evaluate_unposted_closes [OF assms]
    Evaluate_after_close [of "fst (Evaluate now g)" later]
  by simp

lemma Evaluate_retires_iff_witness:
  "let g = fst (Open 1 (MarkUp ''a'' 1 (MarkDown ''a'' 0 (New ''ops'' 0
        \<lparr>cf_group_wait = 1, cf_group_interval = 1, cf_repeat_interval = 1,
         cf_resolve_debounce = 5\<rparr>)))) in
   \<not> g_closed (fst (Evaluate 5 g)) \<and> map ac_kind (snd (Evaluate 6 g)) = [ActionClose]"
proof -
  define g where "g = fst (Open 1 (MarkUp ''a'' 1 (MarkDown ''a'' 0 (New ''ops'' 0
        \<lparr>cf_group_wait = 1, cf_group_interval = 1, cf_repeat_interval = 1,
         cf_resolve_debounce = 5\<rparr>))))"
  have "\<not> g_closed g" "g_posted g" "\<not> ready_to_close 5 g" "ready_to_close 6 g"
    unfolding g_def by code_simp+
  then have "\<not> g_closed (fst (Evaluate 5 g)) \<and> map ac_kind (snd (Evaluate 6 g)) = [ActionClose]"
    using Evaluate_retires_iff [where g = g and now = 5]
      Evaluate_retires_iff [where g = g and now = 6] by blast
  then show ?thesis by (simp only: Let_def g_def [symmetric] simp_thms)
qed

text \<open>The scoreboard counts every member in exactly one bucket, its total leaves out the paused
  members, and the lists of down and active monitors agree with it.\<close>

theorem Scoreboard_partitions_members:
  assumes "known_states g"
  shows "ct_total (Scoreboard g) + ct_paused (Scoreboard g) = length (g_members g)
    \<and> ct_total (Scoreboard g) =
        ct_down (Scoreboard g) + ct_recovering (Scoreboard g) + ct_recovered (Scoreboard g)
    \<and> length (DownSlugs g) = ct_down (Scoreboard g)
    \<and> length (ActiveSlugs g) = ct_down (Scoreboard g) + ct_recovering (Scoreboard g)"
  using assms count_split [of "map snd (g_members g)"]
  by (simp add: Scoreboard_counts known_states_def DownSlugs_def ActiveSlugs_def
      length_slugsByState) (simp add: countByState_def)

lemma Scoreboard_partitions_members_witness:
  "let g = MarkPaused ''b'' 2 (MarkDown ''b'' 1 (MarkDown ''a'' 1 (New ''ops'' 0
        \<lparr>cf_group_wait = 1, cf_group_interval = 1, cf_repeat_interval = 1,
         cf_resolve_debounce = 1\<rparr>))) in
   ct_total (Scoreboard g) + ct_paused (Scoreboard g) = 2 \<and> DownSlugs g = [''a'']"
proof -
  define g where "g = MarkPaused ''b'' 2 (MarkDown ''b'' 1 (MarkDown ''a'' 1 (New ''ops'' 0
        \<lparr>cf_group_wait = 1, cf_group_interval = 1, cf_repeat_interval = 1,
         cf_resolve_debounce = 1\<rparr>)))"
  have k: "known_states g"
    unfolding g_def by (simp add: known_states_def MarkPaused_def MarkDown_def New_def)
  have l: "length (g_members g) = 2" "DownSlugs g = [''a'']"
    unfolding g_def by code_simp+
  have "ct_total (Scoreboard g) + ct_paused (Scoreboard g) = 2"
    using Scoreboard_partitions_members [OF k] l by simp
  with l show ?thesis by (simp only: Let_def g_def [symmetric])
qed

end
