(* ===== verification/Slugs.thy ===== *)
theory Slugs
  imports Go_Prelude
begin

text \<open>
  The slug rules of \<^verbatim>\<open>internal/slug\<close>: validation of human-authored slugs and tags, and the
  construction of the slug of a monitor discovered in the cluster.  A regular expression of the
  source is written as the language it denotes: hyphen-separated segments of lower-case letters
  and digits, the first starting with a letter.
\<close>

datatype slug_error =
    SlugEmpty | SlugTooLong string | SlugPattern string
  | SlugAllEmpty | SlugUnexpectedChar char string

definition MaxLen :: nat where "MaxLen = 255"

definition is_lower :: "char \<Rightarrow> bool" where
  "is_lower c \<longleftrightarrow> CHR ''a'' \<le> c \<and> c \<le> CHR ''z''"

definition is_upper :: "char \<Rightarrow> bool" where
  "is_upper c \<longleftrightarrow> CHR ''A'' \<le> c \<and> c \<le> CHR ''Z''"

definition is_digit :: "char \<Rightarrow> bool" where
  "is_digit c \<longleftrightarrow> CHR ''0'' \<le> c \<and> c \<le> CHR ''9''"

section \<open>Validation\<close>

definition pattern_matches :: "string \<Rightarrow> bool" where
  "pattern_matches s =
     (list_all (\<lambda>w. w \<noteq> [] \<and> list_all (\<lambda>c. is_lower c \<or> is_digit c) w) (split_on CHR ''-'' s)
      \<and> (case s of [] \<Rightarrow> False | c # _ \<Rightarrow> is_lower c))"

definition tag_pattern_matches :: "string \<Rightarrow> bool" where
  "tag_pattern_matches s = list_all pattern_matches (split_on CHR ''/'' s)"

definition Validate :: "string \<Rightarrow> slug_error option" where
  "Validate s =
     (if s = [] then Some SlugEmpty
      else if MaxLen < length s then Some (SlugTooLong s)
      else if \<not> pattern_matches s then Some (SlugPattern s)
      else None)"

definition ValidateTag :: "string \<Rightarrow> slug_error option" where
  "ValidateTag s =
     (if s = [] then Some SlugEmpty
      else if MaxLen < length s then Some (SlugTooLong s)
      else if \<not> tag_pattern_matches s then Some (SlugPattern s)
      else None)"

section \<open>Slugs of discovered monitors\<close>

definition KubeSlugPrefix :: string where "KubeSlugPrefix = ''kube-''"

definition sanitize_char :: "char \<Rightarrow> char" where
  "sanitize_char c =
     (if is_upper c then char_of (of_char c + 32 :: nat)
      else if is_lower c \<or> is_digit c then c
      else CHR ''-'')"

definition sanitizePart :: "string \<Rightarrow> string" where
  "sanitizePart s = map sanitize_char s"

fun collapse_hyphens :: "bool \<Rightarrow> string \<Rightarrow> string" where
  "collapse_hyphens prev [] = []"
| "collapse_hyphens prev (c # cs) =
     (if c = CHR ''-'' then (if prev then collapse_hyphens True cs else c # collapse_hyphens True cs)
      else c # collapse_hyphens False cs)"

definition trim_hyphens :: "string \<Rightarrow> string" where
  "trim_hyphens b = rev (dropWhile (\<lambda>c. c = CHR ''-'') (rev (dropWhile (\<lambda>c. c = CHR ''-'') b)))"

definition trimAndCollapseHyphens :: "string \<Rightarrow> string" where
  "trimAndCollapseHyphens s = trim_hyphens (collapse_hyphens False s)"

definition kube_slug_char :: "char \<Rightarrow> bool" where
  "kube_slug_char c \<longleftrightarrow> is_lower c \<or> is_digit c \<or> c = CHR ''-'' \<or> c = CHR ''_''"

definition SanitizeKubeDiscovered :: "string \<Rightarrow> string \<Rightarrow> string \<Rightarrow> slug_error + string" where
  "SanitizeKubeDiscovered namespace name host =
    (let ns = trimAndCollapseHyphens (sanitizePart namespace);
         nm = trimAndCollapseHyphens (sanitizePart name);
         ho = trimAndCollapseHyphens (sanitizePart host) in
     if ns = [] \<and> nm = [] \<and> ho = [] then Inl SlugAllEmpty
     else (let out = KubeSlugPrefix @ ns @ ''__'' @ nm @ ''__'' @ ho in
       (case find (\<lambda>c. \<not> kube_slug_char c) out of
          Some c \<Rightarrow> Inl (SlugUnexpectedChar c out)
        | None \<Rightarrow> if MaxLen < length out then Inl (SlugTooLong out) else Inr out)))"

section \<open>The alphabet of a sanitized part\<close>

definition part_char :: "char \<Rightarrow> bool" where
  "part_char c \<longleftrightarrow> is_lower c \<or> is_digit c \<or> c = CHR ''-''"

definition clean_part :: "string \<Rightarrow> string" where
  "clean_part s = trimAndCollapseHyphens (sanitizePart s)"

lemma sanitize_char_part: "part_char (sanitize_char c)"
proof (cases "is_upper c")
  case True
  then have "(65 :: nat) \<le> of_char c" and "of_char c \<le> (90 :: nat)"
    by (simp_all add: is_upper_def less_eq_char_def)
  then have "is_lower (char_of (of_char c + 32 :: nat))"
    by (simp add: is_lower_def less_eq_char_def)
  then show ?thesis using True by (simp add: sanitize_char_def part_char_def)
qed (auto simp: sanitize_char_def part_char_def)

lemma set_collapse: "set (collapse_hyphens p s) \<subseteq> set s"
  by (induction p s rule: collapse_hyphens.induct) auto

lemma set_trim: "set (trim_hyphens s) \<subseteq> set s"
proof
  fix c assume "c \<in> set (trim_hyphens s)"
  then have "c \<in> set (dropWhile (\<lambda>c. c = CHR ''-'') (rev (dropWhile (\<lambda>c. c = CHR ''-'') s)))"
    by (simp add: trim_hyphens_def)
  then show "c \<in> set s" by (auto dest!: set_dropWhileD)
qed

lemma clean_part_chars: "list_all part_char (clean_part s)"
proof -
  have "set (clean_part s) \<subseteq> set (sanitizePart s)"
    unfolding clean_part_def trimAndCollapseHyphens_def
    using set_trim set_collapse by (meson order_trans)
  then show ?thesis
    using sanitize_char_part by (auto simp: list_all_iff sanitizePart_def)
qed

lemma part_char_not_underscore: "part_char c \<Longrightarrow> c \<noteq> CHR ''_''"
  by (auto simp: part_char_def is_lower_def is_digit_def less_eq_char_def)

lemma part_char_kube: "part_char c \<Longrightarrow> kube_slug_char c"
  by (auto simp: part_char_def kube_slug_char_def)

lemma kube_slug_char_literals: "list_all kube_slug_char ''kube-''" "list_all kube_slug_char ''__''"
  by (simp_all add: kube_slug_char_def is_lower_def less_eq_char_def)

definition kube_slug_of :: "string \<Rightarrow> string \<Rightarrow> string \<Rightarrow> string" where
  "kube_slug_of ns nm ho = KubeSlugPrefix @ ns @ ''__'' @ nm @ ''__'' @ ho"

lemma kube_slug_of_chars:
  "list_all kube_slug_char (kube_slug_of (clean_part a) (clean_part b) (clean_part c))"
  using clean_part_chars part_char_kube kube_slug_char_literals
  by (fastforce simp: kube_slug_of_def KubeSlugPrefix_def list_all_iff)

lemma find_not_None: "list_all P xs \<Longrightarrow> find (\<lambda>x. \<not> P x) xs = None"
  by (induction xs) auto

text \<open>The two failures that can occur, and the value otherwise: the character check never fires.\<close>

lemma SanitizeKubeDiscovered_cases:
  "SanitizeKubeDiscovered namespace name host =
    (let out = kube_slug_of (clean_part namespace) (clean_part name) (clean_part host) in
     if clean_part namespace = [] \<and> clean_part name = [] \<and> clean_part host = [] then Inl SlugAllEmpty
     else if MaxLen < length out then Inl (SlugTooLong out) else Inr out)"
  using find_not_None [OF kube_slug_of_chars [of namespace name host]]
  unfolding SanitizeKubeDiscovered_def Let_def clean_part_def kube_slug_of_def
  by (simp only: option.case)

lemma SanitizeKubeDiscovered_Inr:
  "SanitizeKubeDiscovered a b c = Inr s \<Longrightarrow>
   s = kube_slug_of (clean_part a) (clean_part b) (clean_part c) \<and> length s \<le> MaxLen"
  by (auto simp: SanitizeKubeDiscovered_cases Let_def split: if_splits)

section \<open>Reading a discovered slug back\<close>

text \<open>The three parts of a discovered slug, read off at the first two double underscores.\<close>

definition cut_part :: "string \<Rightarrow> string \<times> string" where
  "cut_part s = (takeWhile (\<lambda>c. c \<noteq> CHR ''_'') s, drop 2 (dropWhile (\<lambda>c. c \<noteq> CHR ''_'') s))"

definition kube_slug_parts :: "string \<Rightarrow> string \<times> string \<times> string" where
  "kube_slug_parts s =
     (let (ns, r1) = cut_part (drop 5 s); (nm, r2) = cut_part r1 in (ns, nm, r2))"

lemma cut_part_append:
  assumes "list_all part_char w"
  shows "cut_part (w @ ''__'' @ r) = (w, r)"
proof -
  have "\<forall>c \<in> set w. c \<noteq> CHR ''_''"
    using assms part_char_not_underscore by (auto simp: list_all_iff)
  then show ?thesis by (simp add: cut_part_def)
qed

lemma kube_slug_parts_of:
  "list_all part_char ns \<Longrightarrow> list_all part_char nm \<Longrightarrow>
   kube_slug_parts (kube_slug_of ns nm ho) = (ns, nm, ho)"
  by (simp add: kube_slug_parts_def kube_slug_of_def KubeSlugPrefix_def
      cut_part_append [simplified])

section \<open>Shape of a sanitized part\<close>

definition no_double_hyphen :: "string \<Rightarrow> bool" where
  "no_double_hyphen s \<longleftrightarrow> (\<forall>i. Suc i < length s \<longrightarrow> \<not> (s ! i = CHR ''-'' \<and> s ! Suc i = CHR ''-''))"

lemma no_double_hyphen_Cons:
  "no_double_hyphen (c # s) \<longleftrightarrow>
   no_double_hyphen s \<and> \<not> (c = CHR ''-'' \<and> s \<noteq> [] \<and> hd s = CHR ''-'')"
  by (cases s) (auto simp: no_double_hyphen_def nth_Cons split: nat.splits)

lemma collapse_no_double:
  "no_double_hyphen (collapse_hyphens p s) \<and>
   (p \<longrightarrow> collapse_hyphens p s = [] \<or> hd (collapse_hyphens p s) \<noteq> CHR ''-'')"
proof (induction p s rule: collapse_hyphens.induct)
  case (1 p)
  then show ?case by (simp add: no_double_hyphen_def)
next
  case (2 p c cs)
  then show ?case by (auto simp: no_double_hyphen_Cons)
qed

lemma no_double_hyphen_append: "no_double_hyphen (xs @ ys) \<Longrightarrow> no_double_hyphen xs \<and> no_double_hyphen ys"
proof (induction xs)
  case Nil
  then show ?case by (simp add: no_double_hyphen_def)
next
  case (Cons x xs)
  then show ?case by (cases xs) (auto simp: no_double_hyphen_Cons)
qed

lemma clean_part_no_double: "no_double_hyphen (clean_part s)"
proof -
  let ?P = "\<lambda>c. c = CHR ''-''"
  let ?b = "collapse_hyphens False (sanitizePart s)"
  let ?d = "dropWhile ?P ?b"
  have "no_double_hyphen (takeWhile ?P ?b @ ?d)" using collapse_no_double by simp
  then have d: "no_double_hyphen ?d" by (rule no_double_hyphen_append [THEN conjunct2])
  have "rev (takeWhile ?P (rev ?d) @ dropWhile ?P (rev ?d)) = rev (rev ?d)"
    by (rule arg_cong [where f = rev]) (rule takeWhile_dropWhile_id)
  then have "rev (dropWhile ?P (rev ?d)) @ rev (takeWhile ?P (rev ?d)) = ?d"
    by (simp only: rev_append rev_rev_ident)
  with d have "no_double_hyphen (rev (dropWhile ?P (rev ?d)) @ rev (takeWhile ?P (rev ?d)))"
    by (simp only:)
  then have "no_double_hyphen (rev (dropWhile ?P (rev ?d)))"
    by (rule no_double_hyphen_append [THEN conjunct1])
  then show ?thesis by (simp add: clean_part_def trimAndCollapseHyphens_def trim_hyphens_def)
qed

lemma trim_both_ends:
  assumes r: "r = dropWhile P (rev (dropWhile P xs))" and ne: "r \<noteq> []"
  shows "\<not> P (hd r) \<and> \<not> P (last r)"
proof -
  define d where "d = dropWhile P xs"
  have r': "r = dropWhile P (rev d)" using r by (simp only: d_def)
  have d: "takeWhile P (rev d) @ r = rev d"
    unfolding r' by (rule takeWhile_dropWhile_id)
  then have dne: "d \<noteq> []" using ne by auto
  have "last (rev d) = last r" using d ne by (metis last_appendR)
  then have "hd d = last r" using dne by (simp add: last_rev)
  moreover have "\<not> P (hd d)" using dne unfolding d_def by (rule hd_dropWhile)
  moreover have "\<not> P (hd r)" using ne unfolding r' by (rule hd_dropWhile)
  ultimately show ?thesis by simp
qed

lemma clean_part_ends:
  assumes ne: "clean_part s \<noteq> []"
  shows "hd (clean_part s) \<noteq> CHR ''-'' \<and> last (clean_part s) \<noteq> CHR ''-''"
proof -
  obtain r where r: "r = dropWhile (\<lambda>c. c = CHR ''-'')
      (rev (dropWhile (\<lambda>c. c = CHR ''-'') (collapse_hyphens False (sanitizePart s))))" by simp
  have cp: "clean_part s = rev r"
    by (simp only: r clean_part_def trimAndCollapseHyphens_def trim_hyphens_def)
  with ne have "r \<noteq> []" by simp
  with trim_both_ends [OF r] cp show ?thesis by (simp add: hd_rev last_rev)
qed

lemma no_underscore_in_pattern: "pattern_matches s \<Longrightarrow> CHR ''_'' \<notin> set s"
proof
  assume p: "pattern_matches s" and u: "CHR ''_'' \<in> set s"
  have "set (join [CHR ''-''] ws) \<subseteq> insert (CHR ''-'') (\<Union>(set ` set ws))" for ws
    by (induction "[CHR ''-'']" ws rule: join.induct) auto
  from this [of "split_on CHR ''-'' s"] u
  obtain w where w: "w \<in> set (split_on CHR ''-'' s)" "CHR ''_'' \<in> set w"
    by (auto simp: join_split_on)
  with p have "is_lower CHR ''_'' \<or> is_digit CHR ''_''"
    by (auto simp: pattern_matches_def list_all_iff)
  then show False by (simp add: is_lower_def is_digit_def less_eq_char_def)
qed

section \<open>Properties\<close>

text \<open>The slug of a discovered monitor determines the three sanitized parts it was built from:
  reading it at its first two double underscores gives back the namespace, ingress name and host
  parts, so two discovered monitors share a slug only if all three parts agree.\<close>

theorem kube_slug_roundtrip:
  assumes "SanitizeKubeDiscovered ns nm ho = Inr s"
  shows "kube_slug_parts s = (clean_part ns, clean_part nm, clean_part ho)"
  using SanitizeKubeDiscovered_Inr [OF assms] kube_slug_parts_of [OF clean_part_chars clean_part_chars]
  by simp

lemma kube_slug_roundtrip_witness:
  "SanitizeKubeDiscovered ''My_NS'' ''web'' ''a.example.org'' = Inr ''kube-my-ns__web__a-example-org''
   \<and> kube_slug_parts ''kube-my-ns__web__a-example-org'' =
     (clean_part ''My_NS'', clean_part ''web'', clean_part ''a.example.org'')"
proof -
  have s: "SanitizeKubeDiscovered ''My_NS'' ''web'' ''a.example.org''
      = Inr ''kube-my-ns__web__a-example-org''"
    by code_simp
  from kube_slug_roundtrip [OF s] s show ?thesis by blast
qed

text \<open>Building a discovered slug fails exactly when all three parts sanitize to nothing or the
  result is longer than 255 bytes; the unexpected-character error never occurs.  A slug that is
  built carries the reserved prefix, uses only lower-case letters, digits, hyphens and
  underscores, and is never accepted by \<open>Validate\<close>, so it is disjoint from every human-authored
  slug; its parts have no leading, trailing or doubled hyphen.\<close>

theorem kube_slug_shape:
  "case SanitizeKubeDiscovered ns nm ho of
     Inl e \<Rightarrow> (e = SlugAllEmpty \<and> clean_part ns = [] \<and> clean_part nm = [] \<and> clean_part ho = []) \<or>
       (\<exists>s. e = SlugTooLong s \<and> MaxLen < length s)
   | Inr s \<Rightarrow> has_prefix s KubeSlugPrefix \<and> length s \<le> MaxLen \<and> list_all kube_slug_char s
       \<and> Validate s \<noteq> None
       \<and> list_all (\<lambda>w. no_double_hyphen w \<and> (w = [] \<or> hd w \<noteq> CHR ''-'' \<and> last w \<noteq> CHR ''-''))
           [clean_part ns, clean_part nm, clean_part ho]"
proof (cases "SanitizeKubeDiscovered ns nm ho")
  case (Inl e)
  then show ?thesis by (auto simp: SanitizeKubeDiscovered_cases Let_def split: if_splits)
next
  case (Inr s)
  then have s: "s = kube_slug_of (clean_part ns) (clean_part nm) (clean_part ho)"
    and len: "length s \<le> MaxLen"
    using SanitizeKubeDiscovered_Inr by blast+
  have pre: "has_prefix s KubeSlugPrefix" by (simp add: s kube_slug_of_def has_prefix_def)
  have "CHR ''_'' \<in> set s" by (simp add: s kube_slug_of_def)
  then have v: "Validate s \<noteq> None" using no_underscore_in_pattern [of s] by (auto simp: Validate_def)
  have c: "list_all kube_slug_char s" unfolding s by (rule kube_slug_of_chars)
  have w: "no_double_hyphen (clean_part x) \<and>
      (clean_part x = [] \<or> hd (clean_part x) \<noteq> CHR ''-'' \<and> last (clean_part x) \<noteq> CHR ''-'')" for x
    using clean_part_no_double clean_part_ends by blast
  show ?thesis using Inr pre v c w len by simp
qed

end
