(* ===== verification/Depindex.thy ===== *)
theory Depindex
  imports Go_Prelude
begin

text \<open>
  The reverse dependency index of \<^verbatim>\<open>internal/depindex\<close>: from the monitors' \<^verbatim>\<open>dependsOn\<close> lists to
  the children of every parent.  A Go set is the list of its elements in iteration order.
\<close>

record spec =
  sp_slug :: string
  sp_depends_on :: "string list"

record index =
  ix_children :: "(string, string list) gomap"

text \<open>First pass: the set of children of every parent that is named at least once.\<close>

definition collect_parent :: "string \<Rightarrow> string \<Rightarrow> (string, string list) gomap \<Rightarrow> (string, string list) gomap" where
  "collect_parent child parent seen = gm_put parent (List.insert child (gm_get0 [] seen parent)) seen"

definition collect_spec :: "spec \<Rightarrow> (string, string list) gomap \<Rightarrow> (string, string list) gomap" where
  "collect_spec s seen = fold (collect_parent (sp_slug s)) (sp_depends_on s) seen"

text \<open>Second pass: one sorted slice per parent.\<close>

definition Build :: "spec list \<Rightarrow> index" where
  "Build specs = \<lparr>ix_children = gm_map sort_strings (fold collect_spec specs [])\<rparr>"

text \<open>A nil index has no children; neither has a parent that no monitor names.\<close>

definition Children :: "index option \<Rightarrow> string \<Rightarrow> string list" where
  "Children i parent = (case i of None \<Rightarrow> [] | Some ix \<Rightarrow> gm_get0 [] (ix_children ix) parent)"

section \<open>What the two passes compute\<close>

lemma collect_parent_get:
  "gm_get0 [] (collect_parent c p seen) q =
   (if q = p then List.insert c (gm_get0 [] seen p) else gm_get0 [] seen q)"
  by (simp add: collect_parent_def gm_get0_def)

lemma collect_spec_get:
  "set (gm_get0 [] (collect_spec s seen) q) =
     set (gm_get0 [] seen q) \<union> (if q \<in> set (sp_depends_on s) then {sp_slug s} else {})"
  (is "?set seen")
  and collect_spec_distinct:
  "distinct (gm_get0 [] seen q) \<Longrightarrow> distinct (gm_get0 [] (collect_spec s seen) q)"
proof -
  have "set (gm_get0 [] (fold (collect_parent c) ps m) q) =
      set (gm_get0 [] m q) \<union> (if q \<in> set ps then {c} else {})" for c ps m
    by (induction ps arbitrary: m) (auto simp: collect_parent_get)
  then show "?set seen" by (simp add: collect_spec_def)
  have "distinct (gm_get0 [] m q) \<Longrightarrow> distinct (gm_get0 [] (fold (collect_parent c) ps m) q)"
    for c ps m
  proof (induction ps arbitrary: m)
    case (Cons p ps)
    have "distinct (gm_get0 [] (collect_parent c p m) q)"
      using Cons.prems by (auto simp: collect_parent_get)
    then show ?case using Cons.IH by simp
  qed simp
  then show "distinct (gm_get0 [] seen q) \<Longrightarrow> distinct (gm_get0 [] (collect_spec s seen) q)"
    by (simp add: collect_spec_def)
qed

lemma fold_collect_get:
  "set (gm_get0 [] (fold collect_spec specs seen) q) =
     set (gm_get0 [] seen q) \<union> {sp_slug s | s. s \<in> set specs \<and> q \<in> set (sp_depends_on s)}"
  by (induction specs arbitrary: seen) (auto simp: collect_spec_get)

lemma fold_collect_distinct:
  "distinct (gm_get0 [] seen q) \<Longrightarrow> distinct (gm_get0 [] (fold collect_spec specs seen) q)"
  by (induction specs arbitrary: seen) (auto simp: collect_spec_distinct)

lemma gm_get0_map_sort: "gm_get0 [] (gm_map sort_strings m) q = sort_strings (gm_get0 [] m q)"
  by (simp add: gm_get0_def split: option.splits)

lemma Children_Build:
  "Children (Some (Build specs)) q = sort_strings (gm_get0 [] (fold collect_spec specs []) q)"
  by (simp add: Children_def Build_def gm_get0_map_sort)

lemma set_Children_Build:
  "set (Children (Some (Build specs)) q) =
   {sp_slug s | s. s \<in> set specs \<and> q \<in> set (sp_depends_on s)}"
  using fold_collect_get [of specs "[]" q] by (simp add: Children_Build gm_get0_def)

lemma Children_Build_distinct: "distinct (Children (Some (Build specs)) q)"
  using fold_collect_distinct [of "[]" q specs] by (simp add: Children_Build gm_get0_def)

lemma Children_Build_sorted: "sorted (Children (Some (Build specs)) q)"
  by (simp add: Children_Build)

section \<open>Properties\<close>

text \<open>The index answers for every parent with exactly the monitors that name it in their
  \<open>dependsOn\<close>, sorted and without repetition, whether or not the parent is itself a monitor;
  a nil index answers nothing.\<close>

theorem Children_exact:
  "set (Children (Some (Build specs)) parent) =
     {sp_slug s | s. s \<in> set specs \<and> parent \<in> set (sp_depends_on s)}
   \<and> sorted (Children (Some (Build specs)) parent) \<and> distinct (Children (Some (Build specs)) parent)
   \<and> Children None parent = []"
  using set_Children_Build Children_Build_sorted Children_Build_distinct
  by (simp add: Children_def)

end
