(* ===== verification/Limiter.thy ===== *)
theory Limiter
  imports Machines
begin

text \<open>
  The per-channel flood breaker of the Alertmanager webhook (\<^verbatim>\<open>internal/alertmanager/ratelimit.go\<close>).
  Each operation takes the reading of the injected clock as an argument; a panic of the
  constructor is an error value.
\<close>

section \<open>Data\<close>

record rate_limit_config =
  rl_per_channel :: int
  rl_window :: duration
  rl_notice_every :: duration

record bucket =
  b_approvals :: "time list"
  b_dropped :: nat
  b_last_notice :: time
  b_engaged :: bool

record limiter =
  l_per_channel :: int
  l_window :: duration
  l_notice_every :: duration
  l_buckets :: "(string, bucket) gomap"

record snapshot =
  sn_in_window :: nat
  sn_dropped :: nat
  sn_engaged :: bool

datatype limiter_panic = PerChannelNegative | WindowNotPositive | NoticeEveryNotPositive

definition NewLimiter :: "rate_limit_config \<Rightarrow> limiter_panic + limiter" where
  "NewLimiter cfg =
    (if rl_per_channel cfg < 0 then Inl PerChannelNegative
     else if 0 < rl_per_channel cfg \<and> rl_window cfg \<le> 0 then Inl WindowNotPositive
     else if 0 < rl_per_channel cfg \<and> rl_notice_every cfg \<le> 0 then Inl NoticeEveryNotPositive
     else Inr \<lparr>l_per_channel = rl_per_channel cfg, l_window = rl_window cfg,
               l_notice_every = rl_notice_every cfg, l_buckets = []\<rparr>)"

section \<open>Operations\<close>

definition empty_bucket :: bucket where
  "empty_bucket = \<lparr>b_approvals = [], b_dropped = 0, b_last_notice = zero_time, b_engaged = False\<rparr>"

definition prune :: "time \<Rightarrow> duration \<Rightarrow> bucket \<Rightarrow> bucket" where
  "prune now window b = b\<lparr>b_approvals := dropWhile (\<lambda>a. a \<le> now - window) (b_approvals b)\<rparr>"

definition Allow :: "time \<Rightarrow> string \<Rightarrow> limiter \<Rightarrow> limiter \<times> bool \<times> bool" where
  "Allow now channel l =
    (if l_per_channel l = 0 then (l, True, False)
     else (let b = prune now (l_window l) (gm_get0 empty_bucket (l_buckets l) channel);
               store = (\<lambda>b. l\<lparr>l_buckets := gm_put channel b (l_buckets l)\<rparr>) in
       if l_per_channel l \<le> int (length (b_approvals b)) then
         (store (b\<lparr>b_dropped := Suc (b_dropped b), b_engaged := True\<rparr>), False, \<not> b_engaged b)
       else (store (b\<lparr>b_approvals := b_approvals b @ [now], b_engaged := False\<rparr>), True, False)))"

definition NoticeDue :: "time \<Rightarrow> string \<Rightarrow> limiter \<Rightarrow> limiter \<times> nat" where
  "NoticeDue now channel l =
    (if l_per_channel l = 0 then (l, 0)
     else (case gm_get (l_buckets l) channel of
        None \<Rightarrow> (l, 0)
      | Some b \<Rightarrow>
          if b_dropped b = 0 then (l, 0)
          else if \<not> is_zero (b_last_notice b) \<and> time_sub now (b_last_notice b) < l_notice_every l
          then (l, 0)
          else (l\<lparr>l_buckets := gm_put channel (b\<lparr>b_dropped := 0, b_last_notice := now\<rparr>)
                  (l_buckets l)\<rparr>, b_dropped b)))"

definition Snapshot :: "time \<Rightarrow> string \<Rightarrow> limiter \<Rightarrow> limiter \<times> snapshot" where
  "Snapshot now channel l =
    (let none = \<lparr>sn_in_window = 0, sn_dropped = 0, sn_engaged = False\<rparr> in
     if l_per_channel l = 0 then (l, none)
     else (case gm_get (l_buckets l) channel of
        None \<Rightarrow> (l, none)
      | Some b0 \<Rightarrow> (let b = prune now (l_window l) b0 in
          (l\<lparr>l_buckets := gm_put channel b (l_buckets l)\<rparr>,
           \<lparr>sn_in_window = length (b_approvals b), sn_dropped = b_dropped b,
            sn_engaged = (l_per_channel l \<le> int (length (b_approvals b)))\<rparr>))))"

section \<open>Runs\<close>

datatype limiter_op = OpAllow string | OpNotice string | OpSnapshot string

datatype limiter_out = Approved time string | Dropped time string bool | Noticed time string nat

definition limiter_step :: "limiter \<Rightarrow> time \<times> limiter_op \<Rightarrow> limiter \<times> limiter_out list" where
  "limiter_step l e = (case snd e of
      OpAllow ch \<Rightarrow> (case Allow (fst e) ch l of (l', ok, first) \<Rightarrow>
        (l', [if ok then Approved (fst e) ch else Dropped (fst e) ch first]))
    | OpNotice ch \<Rightarrow> (case NoticeDue (fst e) ch l of (l', n) \<Rightarrow>
        (l', if n = 0 then [] else [Noticed (fst e) ch n]))
    | OpSnapshot ch \<Rightarrow> (fst (Snapshot (fst e) ch l), []))"

fun approvals_of :: "string \<Rightarrow> limiter_out list \<Rightarrow> time list" where
  "approvals_of ch [] = []"
| "approvals_of ch (Approved t c # os) = (if c = ch then t # approvals_of ch os else approvals_of ch os)"
| "approvals_of ch (Dropped t c b # os) = approvals_of ch os"
| "approvals_of ch (Noticed t c n # os) = approvals_of ch os"

fun drops_of :: "string \<Rightarrow> limiter_out list \<Rightarrow> nat" where
  "drops_of ch [] = 0"
| "drops_of ch (Approved t c # os) = drops_of ch os"
| "drops_of ch (Dropped t c b # os) = (if c = ch then 1 else 0) + drops_of ch os"
| "drops_of ch (Noticed t c n # os) = drops_of ch os"

fun noticed_of :: "string \<Rightarrow> limiter_out list \<Rightarrow> nat" where
  "noticed_of ch [] = 0"
| "noticed_of ch (Approved t c # os) = noticed_of ch os"
| "noticed_of ch (Dropped t c b # os) = noticed_of ch os"
| "noticed_of ch (Noticed t c n # os) = (if c = ch then n else 0) + noticed_of ch os"

abbreviation bucket_of :: "limiter \<Rightarrow> string \<Rightarrow> bucket" where
  "bucket_of l ch \<equiv> gm_get0 empty_bucket (l_buckets l) ch"

lemma approvals_append: "approvals_of ch (xs @ ys) = approvals_of ch xs @ approvals_of ch ys"
  by (induction ch xs rule: approvals_of.induct) auto

lemma drops_append: "drops_of ch (xs @ ys) = drops_of ch xs + drops_of ch ys"
  by (induction ch xs rule: drops_of.induct) auto

lemma noticed_append: "noticed_of ch (xs @ ys) = noticed_of ch xs + noticed_of ch ys"
  by (induction ch xs rule: noticed_of.induct) auto

lemmas out_append = approvals_append drops_append noticed_append

lemma limiter_step_params [simp]:
  "l_per_channel (fst (limiter_step l e)) = l_per_channel l"
  "l_window (fst (limiter_step l e)) = l_window l"
  "l_notice_every (fst (limiter_step l e)) = l_notice_every l"
  by (auto simp: limiter_step_def Allow_def NoticeDue_def Snapshot_def Let_def
      split: limiter_op.split prod.split option.split)

section \<open>The sliding window\<close>

text \<open>
  All approvals so far are the pruned ones, which have left the window, and then the bucket.
\<close>

definition in_window :: "duration \<Rightarrow> time \<Rightarrow> time list \<Rightarrow> nat" where
  "in_window w t as = length (filter (\<lambda>a. t - w < a \<and> a \<le> t) as)"

definition bucket_covers :: "int \<Rightarrow> duration \<Rightarrow> time \<Rightarrow> time list \<Rightarrow> bucket \<Rightarrow> bool" where
  "bucket_covers p w now as b \<longleftrightarrow>
     (\<exists>old. as = old @ b_approvals b \<and> (\<forall>a \<in> set old. a \<le> now - w)) \<and>
     (\<forall>a \<in> set as. a \<le> now) \<and> (\<forall>t. int (in_window w t as) \<le> p)"

lemma bucket_covers_mono: "bucket_covers p w now as b \<Longrightarrow> now \<le> now' \<Longrightarrow> bucket_covers p w now' as b"
  unfolding bucket_covers_def by force

lemma bucket_covers_prune:
  assumes "bucket_covers p w now as b"
  shows "bucket_covers p w now as (prune now w b)"
proof -
  from assms obtain old where old: "as = old @ b_approvals b" "\<forall>a \<in> set old. a \<le> now - w"
    by (auto simp: bucket_covers_def)
  let ?P = "\<lambda>a. a \<le> now - w"
  have "as = (old @ takeWhile ?P (b_approvals b)) @ dropWhile ?P (b_approvals b)"
    by (simp add: old)
  moreover have "\<forall>a \<in> set (old @ takeWhile ?P (b_approvals b)). a \<le> now - w"
    using old by (auto dest: set_takeWhileD)
  ultimately have "\<exists>old. as = old @ b_approvals (prune now w b) \<and> (\<forall>a \<in> set old. a \<le> now - w)"
    unfolding prune_def
    by (intro exI [where x = "old @ takeWhile ?P (b_approvals b)"] conjI) simp_all
  then show ?thesis using assms unfolding bucket_covers_def by blast
qed

lemma bucket_covers_approve:
  assumes c: "bucket_covers p w now as b" and room: "int (length (b_approvals b)) < p"
  shows "bucket_covers p w now (as @ [now]) (b\<lparr>b_approvals := b_approvals b @ [now], b_engaged := e\<rparr>)"
proof -
  from c obtain old where old: "as = old @ b_approvals b" "\<forall>a \<in> set old. a \<le> now - w"
    by (auto simp: bucket_covers_def)
  have "int (in_window w t (as @ [now])) \<le> p" for t
  proof (cases "now \<le> t")
    case True
    then have none: "filter (\<lambda>a. t - w < a \<and> a \<le> t) old = []"
      using old(2) by (force simp: filter_empty_conv)
    have "in_window w t (as @ [now]) \<le> length (b_approvals b) + 1"
      using le_SucI [OF length_filter_le [of "\<lambda>a. t - w < a \<and> a \<le> t" "b_approvals b"]]
      by (auto simp: in_window_def old(1) none)
    then show ?thesis using room by linarith
  next
    case False
    then have "in_window w t (as @ [now]) = in_window w t as" by (simp add: in_window_def)
    then show ?thesis using c by (simp add: bucket_covers_def)
  qed
  moreover have "as @ [now] = old @ (b_approvals b @ [now])" by (simp add: old)
  ultimately show ?thesis
    using c old unfolding bucket_covers_def by auto
qed

lemma bucket_covers_cong:
  "b_approvals b = b_approvals b' \<Longrightarrow> bucket_covers p w now as b = bucket_covers p w now as b'"
  by (simp add: bucket_covers_def)

lemma limiter_step_covers:
  assumes p: "0 < l_per_channel l"
    and inv: "bucket_covers (l_per_channel l) (l_window l) prev as (bucket_of l ch)"
    and t: "prev \<le> t"
  shows "bucket_covers (l_per_channel l) (l_window l) t
    (as @ approvals_of ch (snd (limiter_step l (t, op)))) (bucket_of (fst (limiter_step l (t, op))) ch)"
proof -
  note i = bucket_covers_mono [OF inv t]
  note pr = bucket_covers_prune [OF i]
  have dropped: "bucket_covers (l_per_channel l) (l_window l) t as
      (prune t (l_window l) (bucket_of l ch)\<lparr>b_dropped := d, b_engaged := e\<rparr>)" for d e
    using pr by (simp add: bucket_covers_def)
  show ?thesis
  proof (cases op)
    case (OpAllow c)
    show ?thesis
      using p i dropped bucket_covers_approve [OF pr]
      by (auto simp: limiter_step_def OpAllow Allow_def Let_def)
  next
    case (OpNotice c)
    have "b_approvals (bucket_of (fst (NoticeDue t c l)) ch) = b_approvals (bucket_of l ch)"
      by (auto simp: NoticeDue_def gm_get0_def split: option.splits)
    then have "bucket_covers (l_per_channel l) (l_window l) t as (bucket_of (fst (NoticeDue t c l)) ch)"
      using i bucket_covers_cong by blast
    then show ?thesis by (simp add: limiter_step_def OpNotice split_beta)
  next
    case (OpSnapshot c)
    show ?thesis
      using p i pr
      by (auto simp: limiter_step_def OpSnapshot Snapshot_def Let_def gm_get0_def split: option.splits)
  qed
qed

lemma limiter_run_covers:
  assumes "0 < l_per_channel l"
    and "bucket_covers (l_per_channel l) (l_window l) prev as (bucket_of l ch)"
    and "sorted (prev # map fst es)"
  shows "\<exists>now. bucket_covers (l_per_channel l) (l_window l) now
    (as @ approvals_of ch (snd (run_machine limiter_step l es)))
    (bucket_of (fst (run_machine limiter_step l es)) ch)"
  using assms
proof (induction es arbitrary: l prev as)
  case (Cons e es)
  obtain t op where e: "e = (t, op)" by fastforce
  obtain l1 os where s1: "limiter_step l e = (l1, os)" by fastforce
  obtain l2 os' where s2: "run_machine limiter_step l1 es = (l2, os')" by fastforce
  have par: "l_per_channel l1 = l_per_channel l" "l_window l1 = l_window l"
    using limiter_step_params [of l e] s1 by simp_all
  have "bucket_covers (l_per_channel l1) (l_window l1) t (as @ approvals_of ch os) (bucket_of l1 ch)"
    using limiter_step_covers [OF Cons.prems(1,2), of t op] Cons.prems(3) e s1 par by simp
  moreover have "sorted (t # map fst es)" using Cons.prems(3) e by simp
  ultimately obtain now where "bucket_covers (l_per_channel l) (l_window l) now
      ((as @ approvals_of ch os) @ approvals_of ch os') (bucket_of l2 ch)"
    using Cons.IH [of l1 t "as @ approvals_of ch os"] Cons.prems(1) s2 par by auto
  then show ?case using s1 s2 by (auto simp: out_append)
qed auto

section \<open>Drops and notices\<close>

definition engage_protocol :: "string \<Rightarrow> bool \<Rightarrow> limiter_out \<Rightarrow> bool option" where
  "engage_protocol ch engaged x = (case x of
      Approved t c \<Rightarrow> Some (if c = ch then False else engaged)
    | Dropped t c first \<Rightarrow> (if c = ch then (if first = (\<not> engaged) then Some True else None)
        else Some engaged)
    | Noticed t c n \<Rightarrow> Some engaged)"

lemma limiter_step_engage:
  "0 < l_per_channel l \<Longrightarrow>
   feed (engage_protocol ch) (b_engaged (bucket_of l ch)) (snd (limiter_step l e)) =
   Some (b_engaged (bucket_of (fst (limiter_step l e)) ch))"
  by (cases e; cases "snd e")
     (auto simp: limiter_step_def Allow_def NoticeDue_def Snapshot_def Let_def engage_protocol_def
       prune_def gm_get0_def empty_bucket_def split: option.splits)

interpretation breaker: protocol_machine limiter_step "\<lambda>l. 0 < l_per_channel l" "\<lambda>e. True"
    "engage_protocol ch" "\<lambda>l. b_engaged (bucket_of l ch)" for ch
  by unfold_locales (simp_all add: limiter_step_engage)

lemma limiter_step_conserves:
  "b_dropped (bucket_of l ch) + drops_of ch (snd (limiter_step l e)) =
   noticed_of ch (snd (limiter_step l e)) + b_dropped (bucket_of (fst (limiter_step l e)) ch)"
  by (cases e; cases "snd e")
     (auto simp: limiter_step_def Allow_def NoticeDue_def Snapshot_def Let_def
       prune_def gm_get0_def empty_bucket_def split: option.splits)

lemma limiter_run_conserves:
  "b_dropped (bucket_of l ch) + drops_of ch (snd (run_machine limiter_step l es)) =
   noticed_of ch (snd (run_machine limiter_step l es))
     + b_dropped (bucket_of (fst (run_machine limiter_step l es)) ch)"
proof (induction es arbitrary: l)
  case (Cons e es)
  let ?l = "fst (limiter_step l e)"
  have "drops_of ch (snd (run_machine limiter_step l (e # es))) =
      drops_of ch (snd (limiter_step l e)) + drops_of ch (snd (run_machine limiter_step ?l es))"
    and "noticed_of ch (snd (run_machine limiter_step l (e # es))) =
      noticed_of ch (snd (limiter_step l e)) + noticed_of ch (snd (run_machine limiter_step ?l es))"
    and "fst (run_machine limiter_step l (e # es)) = fst (run_machine limiter_step ?l es)"
    by (simp_all add: Let_def split_beta out_append)
  then show ?case using limiter_step_conserves [of l ch e] Cons.IH [of ?l] by presburger
qed simp

section \<open>Properties\<close>

text \<open>C35: With the breaker on and clock readings that never go back, whatever mixture of
  operations on whatever channels: no window of the configured length contains more approvals of
  a channel than the limit.\<close>

theorem approvals_per_window_bounded:
  assumes "NewLimiter cfg = Inr l" and "0 < rl_per_channel cfg" and "sorted (map fst es)"
  shows "int (length (filter (\<lambda>a. t - rl_window cfg < a \<and> a \<le> t)
      (approvals_of ch (snd (run_machine limiter_step l es))))) \<le> rl_per_channel cfg"
proof (cases es)
  case Nil
  then show ?thesis using assms by simp
next
  case (Cons e es')
  have l: "l_per_channel l = rl_per_channel cfg" "l_window l = rl_window cfg" "l_buckets l = []"
    using assms(1) by (auto simp: NewLimiter_def split: if_splits)
  have "bucket_covers (l_per_channel l) (l_window l) (fst e) [] (bucket_of l ch)"
    using assms(2) l by (simp add: bucket_covers_def in_window_def gm_get0_def empty_bucket_def)
  moreover have "sorted (fst e # map fst es)" using assms(3) Cons by simp
  ultimately show ?thesis
    using limiter_run_covers [of l "fst e" "[]" ch es] assms(2) l
    by (auto simp: bucket_covers_def in_window_def)
qed

lemma approvals_per_window_bounded_witness:
  "let l = \<lparr>l_per_channel = 2, l_window = 10, l_notice_every = 5, l_buckets = []\<rparr>;
       es = [(1, OpAllow ''a''), (2, OpAllow ''a''), (3, OpAllow ''a''), (12, OpAllow ''a''),
             (12, OpNotice ''a'')] in
   snd (run_machine limiter_step l es) = [Approved 1 ''a'', Approved 2 ''a'', Dropped 3 ''a'' True,
      Approved 12 ''a'', Noticed 12 ''a'' 1] \<and>
   int (length (filter (\<lambda>a. 11 - 10 < a \<and> a \<le> 11)
      (approvals_of ''a'' (snd (run_machine limiter_step l es))))) \<le> 2"
proof -
  define cfg where "cfg = \<lparr>rl_per_channel = 2, rl_window = 10, rl_notice_every = 5\<rparr>"
  define l where "l = \<lparr>l_per_channel = 2, l_window = 10, l_notice_every = 5, l_buckets = []\<rparr>"
  define es where "es = [(1, OpAllow ''a''), (2, OpAllow ''a''), (3, OpAllow ''a''),
     (12, OpAllow ''a''), (12 :: int, OpNotice ''a'')]"
  have "NewLimiter cfg = Inr l" "0 < rl_per_channel cfg" "sorted (map fst es)"
    by (simp_all add: NewLimiter_def cfg_def l_def es_def)
  from approvals_per_window_bounded [OF this, where t = 11 and ch = "''a''"]
  have "int (length (filter (\<lambda>a. 11 - 10 < a \<and> a \<le> 11)
      (approvals_of ''a'' (snd (run_machine limiter_step l es))))) \<le> 2"
    by (simp add: cfg_def)
  moreover have "snd (run_machine limiter_step l es) = [Approved 1 ''a'', Approved 2 ''a'',
      Dropped 3 ''a'' True, Approved 12 ''a'', Noticed 12 ''a'' 1]"
    unfolding l_def es_def by code_simp
  ultimately show ?thesis by (simp only: Let_def l_def [symmetric] es_def [symmetric] simp_thms)
qed

text \<open>No drop is lost: for each channel the alerts dropped equal those reported by throttle
  notices plus those still counted; and a drop is flagged as the moment of engagement exactly when
  it is the first one since the channel last approved an alert.\<close>

theorem drops_accounted:
  assumes "NewLimiter cfg = Inr l" and "0 < rl_per_channel cfg"
  shows "drops_of ch (snd (run_machine limiter_step l es)) =
      noticed_of ch (snd (run_machine limiter_step l es))
      + b_dropped (bucket_of (fst (run_machine limiter_step l es)) ch)
    \<and> feed (engage_protocol ch) False (snd (run_machine limiter_step l es)) =
        Some (b_engaged (bucket_of (fst (run_machine limiter_step l es)) ch))"
proof -
  have l: "l_per_channel l = rl_per_channel cfg" "l_buckets l = []"
    using assms(1) by (auto simp: NewLimiter_def split: if_splits)
  then have "bucket_of l ch = empty_bucket" by (simp add: gm_get0_def)
  then show ?thesis
    using limiter_run_conserves [of l ch es] breaker.run_proto [of l es ch] assms(2) l
    by (simp add: list_all_iff empty_bucket_def)
qed

lemma drops_accounted_witness:
  "let l = \<lparr>l_per_channel = 1, l_window = 10, l_notice_every = 5, l_buckets = []\<rparr>;
       es = [(1, OpAllow ''a''), (2, OpAllow ''a''), (3, OpAllow ''a''), (4, OpNotice ''a''),
             (5, OpAllow ''a'')] in
   drops_of ''a'' (snd (run_machine limiter_step l es)) = 2 + 1
   \<and> noticed_of ''a'' (snd (run_machine limiter_step l es)) = 2"
proof -
  define cfg where "cfg = \<lparr>rl_per_channel = 1, rl_window = 10, rl_notice_every = 5\<rparr>"
  define l where "l = \<lparr>l_per_channel = 1, l_window = 10, l_notice_every = 5, l_buckets = []\<rparr>"
  define es where "es = [(1, OpAllow ''a''), (2, OpAllow ''a''), (3, OpAllow ''a''),
     (4, OpNotice ''a''), (5 :: int, OpAllow ''a'')]"
  have "NewLimiter cfg = Inr l" "0 < rl_per_channel cfg"
    by (simp_all add: NewLimiter_def cfg_def l_def)
  note p = drops_accounted [OF this, of "''a''" es, THEN conjunct1]
  have "noticed_of ''a'' (snd (run_machine limiter_step l es)) = 2"
    "b_dropped (bucket_of (fst (run_machine limiter_step l es)) ''a'') = 1"
    unfolding l_def es_def by code_simp+
  with p have "drops_of ''a'' (snd (run_machine limiter_step l es)) = 2 + 1
   \<and> noticed_of ''a'' (snd (run_machine limiter_step l es)) = 2" by (simp only: simp_thms)
  then show ?thesis by (simp only: Let_def l_def [symmetric] es_def [symmetric])
qed

end
