(* ===== verification/Probe.thy ===== *)
theory Probe
  imports Go_Prelude
begin

text \<open>
  The probe seam (\<^verbatim>\<open>internal/probe\<close>) and its two probers, HTTP (\<^verbatim>\<open>internal/httpcheck\<close>) and SMTP
  (\<^verbatim>\<open>internal/smtpcheck\<close>).  The network is an argument: what \<^verbatim>\<open>client.Do\<close> and the steps of the
  SMTP conversation returned.  A Go error is its unwrap chain, outermost layer first, with the
  text of \<^verbatim>\<open>Error()\<close>; \<^verbatim>\<open>errors.As\<close> looks for the first layer of a type.
\<close>

section \<open>The neutral result\<close>

datatype fail_kind =
  FailKindNone | FailKindDNS | FailKindDial | FailKindTLS | FailKindTimeout | FailKindHTTP

record cert_info =
  ci_subject :: string
  ci_issuer :: string
  ci_not_after :: time

record result =
  r_code :: int
  r_error :: string
  r_fail_kind :: fail_kind
  r_duration :: duration
  r_tls :: "cert_info option"

section \<open>Errors and their classification\<close>

datatype err_layer =
    DNSError bool \<comment> \<open>whether it timed out\<close>
  | CertificateVerificationError | RecordHeaderError | AlertError
  | NetError bool \<comment> \<open>another \<^verbatim>\<open>net.Error\<close>, and its \<^verbatim>\<open>Timeout()\<close>\<close>
  | DeadlineExceeded
  | TextprotoError int \<comment> \<open>an SMTP reply with this code\<close>
  | OtherError

record go_error =
  ge_chain :: "err_layer list"
  ge_text :: string

fun is_dns :: "err_layer \<Rightarrow> bool" where
  "is_dns (DNSError _) = True" | "is_dns _ = False"

fun is_tls :: "err_layer \<Rightarrow> bool" where
  "is_tls CertificateVerificationError = True" | "is_tls RecordHeaderError = True"
| "is_tls AlertError = True" | "is_tls _ = False"

text \<open>The layers that implement \<^verbatim>\<open>net.Error\<close>, with the value of \<^verbatim>\<open>Timeout()\<close>.\<close>

fun net_timeout :: "err_layer \<Rightarrow> bool option" where
  "net_timeout (DNSError b) = Some b"
| "net_timeout (NetError b) = Some b"
| "net_timeout DeadlineExceeded = Some True"
| "net_timeout _ = None"

fun reply_code :: "err_layer \<Rightarrow> int option" where
  "reply_code (TextprotoError c) = Some c" | "reply_code _ = None"

definition errors_As :: "(err_layer \<Rightarrow> 'a option) \<Rightarrow> go_error \<Rightarrow> 'a option" where
  "errors_As f e = (case List.map_filter f (ge_chain e) of [] \<Rightarrow> None | x # _ \<Rightarrow> Some x)"

definition classify :: "go_error option \<Rightarrow> fail_kind" where
  "classify err = (case err of None \<Rightarrow> FailKindNone | Some e \<Rightarrow>
     (if list_ex is_dns (ge_chain e) then FailKindDNS
      else if list_ex is_tls (ge_chain e) then FailKindTLS
      else if errors_As net_timeout e = Some True then FailKindTimeout
      else if DeadlineExceeded \<in> set (ge_chain e) then FailKindTimeout
      else FailKindDial))"

section \<open>HTTP\<close>

record http_result =
  hr_status_code :: int
  hr_duration :: duration
  hr_error :: string
  hr_response_body :: string
  hr_fail_kind :: fail_kind
  hr_tls :: "cert_info option"

datatype http_reply =
    InvalidRequest string
  | TransportError go_error
  | Response int string "cert_info list option" \<comment> \<open>status, body, peer certificates of a TLS reply\<close>

fun accepted :: "int \<Rightarrow> int list \<Rightarrow> bool" where
  "accepted code [] = False"
| "accepted code (c # cs) = (if c = code then True else accepted code cs)"

definition no_http_result :: http_result where
  "no_http_result = \<lparr>hr_status_code = 0, hr_duration = 0, hr_error = [], hr_response_body = [],
     hr_fail_kind = FailKindNone, hr_tls = None\<rparr>"

definition leaf_cert :: "cert_info list option \<Rightarrow> cert_info option" where
  "leaf_cert cs = (case cs of Some (c # _) \<Rightarrow> Some c | _ \<Rightarrow> None)"

definition Check :: "(int \<Rightarrow> string) \<Rightarrow> int list \<Rightarrow> duration \<Rightarrow> http_reply \<Rightarrow> http_result" where
  "Check status_text accepted_codes elapsed reply = (case reply of
      InvalidRequest msg \<Rightarrow> no_http_result\<lparr>hr_error := ''invalid request: '' @ msg\<rparr>
    | TransportError e \<Rightarrow> no_http_result\<lparr>hr_error := ge_text e, hr_fail_kind := classify (Some e),
        hr_duration := elapsed\<rparr>
    | Response code body certs \<Rightarrow>
        (let res = no_http_result\<lparr>hr_status_code := code, hr_duration := elapsed,
                     hr_response_body := body, hr_tls := leaf_cert certs\<rparr> in
         if \<not> accepted code accepted_codes
         then res\<lparr>hr_error := ''unexpected status '' @ itoa code @ '' '' @ status_text code,
                  hr_fail_kind := FailKindHTTP\<rparr>
         else res))"

definition http_Probe :: "(int \<Rightarrow> string) \<Rightarrow> int list \<Rightarrow> duration \<Rightarrow> http_reply \<Rightarrow> result" where
  "http_Probe status_text accepted_codes elapsed reply =
    (let res = Check status_text accepted_codes elapsed reply in
     \<lparr>r_code = hr_status_code res, r_error = hr_error res, r_fail_kind = hr_fail_kind res,
      r_duration = hr_duration res, r_tls = hr_tls res\<rparr>)"

section \<open>SMTP\<close>

datatype tls_mode = TLSStartTLS | TLSImplicit | TLSNone | TLSOther string

text \<open>What each step of the conversation returned; a step is read only when it is reached.\<close>

record smtp_replies =
  sr_dial :: "go_error option"
  sr_handshake :: "go_error option"
  sr_banner :: "go_error option"
  sr_hello :: "go_error option"
  sr_starttls_ext :: bool
  sr_starttls :: "go_error option"
  sr_tls_state :: "cert_info list option"

definition failed :: "int \<Rightarrow> string \<Rightarrow> fail_kind \<Rightarrow> result" where
  "failed code msg k = \<lparr>r_code = code, r_error = msg, r_fail_kind = k, r_duration = 0, r_tls = None\<rparr>"

definition failure :: "string \<Rightarrow> go_error \<Rightarrow> result" where
  "failure step e = (case errors_As reply_code e of
      Some c \<Rightarrow> failed c (step @ '': '' @ ge_text e) FailKindHTTP
    | None \<Rightarrow> failed 0 (step @ '': '' @ ge_text e) (classify (Some e)))"

definition smtp_run :: "string \<Rightarrow> tls_mode \<Rightarrow> smtp_replies \<Rightarrow> result" where
  "smtp_run addr mode io =
    (case sr_dial io of
       Some e \<Rightarrow> failed 0 (''dial '' @ addr @ '': '' @ ge_text e) (classify (Some e))
     | None \<Rightarrow>
    (case (if mode = TLSImplicit then sr_handshake io else None) of
       Some e \<Rightarrow> failed 0 (''implicit tls handshake: '' @ ge_text e) FailKindTLS
     | None \<Rightarrow>
    (case sr_banner io of
       Some e \<Rightarrow> failure ''read banner'' e
     | None \<Rightarrow>
    (case sr_hello io of
       Some e \<Rightarrow> failure ''ehlo'' e
     | None \<Rightarrow>
    (if mode = TLSStartTLS \<and> \<not> sr_starttls_ext io
     then failed 250 ''server does not advertise STARTTLS'' FailKindHTTP
     else (case (if mode = TLSStartTLS then sr_starttls io else None) of
       Some e \<Rightarrow> failure ''starttls'' e
     | None \<Rightarrow> \<lparr>r_code = 250, r_error = [], r_fail_kind = FailKindNone, r_duration = 0,
                r_tls = leaf_cert (sr_tls_state io)\<rparr>))))))"

definition smtp_Probe :: "string \<Rightarrow> tls_mode \<Rightarrow> duration \<Rightarrow> smtp_replies \<Rightarrow> result" where
  "smtp_Probe addr mode elapsed io = (smtp_run addr mode io)\<lparr>r_duration := elapsed\<rparr>"

section \<open>Lemmas\<close>

lemma accepted_iff: "accepted code cs \<longleftrightarrow> code \<in> set cs"
  by (induction cs) auto

lemma classify_dns: "classify (Some e) = FailKindDNS \<longleftrightarrow> list_ex is_dns (ge_chain e)"
  by (simp add: classify_def)

lemma classify_some: "classify (Some e) \<noteq> FailKindNone" "classify (Some e) \<noteq> FailKindHTTP"
  by (simp_all add: classify_def)

lemma failure_sel:
  "r_error (failure step e) = step @ '': '' @ ge_text e"
  "r_fail_kind (failure step e) \<noteq> FailKindNone"
  "r_tls (failure step e) = None"
  "r_fail_kind (failure step e) = FailKindDNS \<longleftrightarrow>
     errors_As reply_code e = None \<and> list_ex is_dns (ge_chain e)"
  by (auto simp: failure_def failed_def classify_some classify_dns split: option.split)

text \<open>A completed HTTP exchange is a success exactly when its status is accepted; a refused
  status is an application failure that keeps the code and the certificate; a transport error is
  a DNS failure exactly when its chain holds a DNS error, whatever wraps it and whether or not it
  timed out; so a received status never counts as a DNS failure.\<close>

theorem http_probe_classification:
  "(case reply of
     InvalidRequest msg \<Rightarrow> r_error p \<noteq> [] \<and> r_code p = 0
   | TransportError e \<Rightarrow> r_error p = ge_text e \<and> r_code p = 0 \<and> r_tls p = None
       \<and> r_fail_kind p \<notin> {FailKindNone, FailKindHTTP}
       \<and> (r_fail_kind p = FailKindDNS \<longleftrightarrow> list_ex is_dns (ge_chain e))
   | Response code body certs \<Rightarrow> r_code p = code \<and> r_tls p = leaf_cert certs
       \<and> (r_error p = [] \<longleftrightarrow> code \<in> set codes)
       \<and> r_fail_kind p = (if code \<in> set codes then FailKindNone else FailKindHTTP))"
  if "p = http_Probe status_text codes elapsed reply"
  using that
  by (cases reply)
     (simp_all add: http_Probe_def Check_def no_http_result_def accepted_iff classify_some
       classify_dns Let_def)

lemma http_probe_classification_witness:
  "r_fail_kind (http_Probe (\<lambda>_. ''Bad Gateway'') [200] 7 (Response 502 [] None)) = FailKindHTTP
   \<and> r_error (http_Probe (\<lambda>_. ''Bad Gateway'') [200] 7 (Response 502 [] None))
       = ''unexpected status 502 Bad Gateway''
   \<and> r_fail_kind (http_Probe (\<lambda>_. ''Bad Gateway'') [200] 7
       (TransportError \<lparr>ge_chain = [OtherError, NetError True, DNSError True], ge_text = ''x''\<rparr>))
       = FailKindDNS"
proof -
  have "r_fail_kind (http_Probe (\<lambda>_. ''Bad Gateway'') [200] 7
       (TransportError \<lparr>ge_chain = [OtherError, NetError True, DNSError True], ge_text = ''x''\<rparr>))
       = FailKindDNS"
    using http_probe_classification [OF refl, where status_text = "\<lambda>_. ''Bad Gateway''"
        and codes = "[200]" and elapsed = 7 and
        reply = "TransportError \<lparr>ge_chain = [OtherError, NetError True, DNSError True], ge_text = ''x''\<rparr>"]
    by simp
  moreover have "r_fail_kind (http_Probe (\<lambda>_. ''Bad Gateway'') [200] 7 (Response 502 [] None))
      = FailKindHTTP"
    using http_probe_classification [OF refl, where status_text = "\<lambda>_. ''Bad Gateway''"
        and codes = "[200]" and elapsed = 7 and reply = "Response 502 [] None"]
    by simp
  moreover have "r_error (http_Probe (\<lambda>_. ''Bad Gateway'') [200] 7 (Response 502 [] None))
       = ''unexpected status 502 Bad Gateway''"
    by code_simp
  ultimately show ?thesis by blast
qed

text \<open>The SMTP probe succeeds exactly when every step the TLS mode requires succeeds; success
  is code 250 with the leaf certificate, every failure has a message and no certificate, a
  handshake failure under implicit TLS is a TLS failure, and a server without STARTTLS is an
  application failure.\<close>

theorem smtp_probe_success_iff:
  "(r_error (smtp_Probe addr mode elapsed io) = [] \<longleftrightarrow>
      sr_dial io = None \<and> (mode = TLSImplicit \<longrightarrow> sr_handshake io = None) \<and> sr_banner io = None
      \<and> sr_hello io = None \<and> (mode = TLSStartTLS \<longrightarrow> sr_starttls_ext io \<and> sr_starttls io = None))
   \<and> (r_error (smtp_Probe addr mode elapsed io) = [] \<longleftrightarrow>
      r_fail_kind (smtp_Probe addr mode elapsed io) = FailKindNone)
   \<and> (r_error (smtp_Probe addr mode elapsed io) = [] \<longrightarrow>
      r_code (smtp_Probe addr mode elapsed io) = 250 \<and>
      r_tls (smtp_Probe addr mode elapsed io) = leaf_cert (sr_tls_state io))
   \<and> (r_error (smtp_Probe addr mode elapsed io) \<noteq> [] \<longrightarrow>
      r_tls (smtp_Probe addr mode elapsed io) = None)"
proof -
  note d = smtp_Probe_def smtp_run_def failed_def failure_sel classify_some
  show ?thesis
    by (cases "sr_dial io"; cases "mode = TLSImplicit"; cases "mode = TLSStartTLS";
        cases "sr_handshake io"; cases "sr_banner io"; cases "sr_hello io";
        cases "sr_starttls_ext io"; cases "sr_starttls io") (simp_all add: d)
qed

lemma smtp_probe_success_iff_witness:
  "r_error (smtp_Probe ''mx:25'' TLSStartTLS 5 \<lparr>sr_dial = None, sr_handshake = None,
     sr_banner = None, sr_hello = None, sr_starttls_ext = True, sr_starttls = None,
     sr_tls_state = None\<rparr>) = []"
  by (subst smtp_probe_success_iff [THEN conjunct1]) simp

end
