(* ===== verification/Selfhealth.thy ===== *)
theory Selfhealth
  imports Machines Probe
begin

text \<open>
  Self-health: the detector of \<^verbatim>\<open>internal/selfhealth\<close>, which tells a blind monitor from many real
  outages, and the notifier of \<^verbatim>\<open>internal/lifecycle/selfhealth_wiring.go\<close> that acts on its
  decisions.  The mutex makes each operation one step; the notifier's calls to Slack, to the
  metrics and to the commit callback are its outputs, and the answer of Slack is an input.
\<close>

section \<open>The detector\<close>

record config =
  cfg_window :: duration
  cfg_min_monitors :: int

record detector =
  dt_cfg :: config
  dt_degraded :: bool
  dt_entered_at :: time
  dt_dns_last :: "(string, time) gomap"
  dt_last_success :: time
  dt_suppressed :: nat

definition New :: "config \<Rightarrow> detector" where
  "New cfg = \<lparr>dt_cfg = cfg, dt_degraded = False, dt_entered_at = zero_time, dt_dns_last = [],
     dt_last_success = zero_time, dt_suppressed = 0\<rparr>"

definition Report :: "string \<Rightarrow> fail_kind \<Rightarrow> bool \<Rightarrow> time \<Rightarrow> detector \<Rightarrow> detector" where
  "Report slug kind success at d =
    (if success then (if dt_last_success d < at then d\<lparr>dt_last_success := at\<rparr> else d)
     else if kind = FailKindDNS then
       (let d = d\<lparr>dt_dns_last := gm_put slug at (dt_dns_last d)\<rparr> in
        if dt_degraded d then d\<lparr>dt_suppressed := Suc (dt_suppressed d)\<rparr> else d)
     else d)"

definition Degraded :: "detector \<Rightarrow> bool" where
  "Degraded d = dt_degraded d"

record decision =
  dc_entered :: bool
  dc_exited :: bool
  dc_commit :: "string list"
  dc_suppressed :: nat

definition no_decision :: decision where
  "no_decision = \<lparr>dc_entered = False, dc_exited = False, dc_commit = [], dc_suppressed = 0\<rparr>"

definition successInWindow :: "time \<Rightarrow> detector \<Rightarrow> bool" where
  "successInWindow now d \<longleftrightarrow>
     \<not> is_zero (dt_last_success d) \<and> time_sub now (dt_last_success d) < cfg_window (dt_cfg d)"

definition trip :: "time \<Rightarrow> detector \<Rightarrow> bool" where
  "trip now d = (if successInWindow now d then False
     else cfg_min_monitors (dt_cfg d) \<le> int (length (dt_dns_last d)))"

definition pruneLocked :: "time \<Rightarrow> detector \<Rightarrow> detector" where
  "pruneLocked now d = d\<lparr>dt_dns_last :=
     filter (\<lambda>(slug, at). \<not> cfg_window (dt_cfg d) \<le> time_sub now at) (dt_dns_last d)\<rparr>"

definition Decide :: "time \<Rightarrow> detector \<Rightarrow> detector \<times> decision" where
  "Decide now d0 =
    (let d = pruneLocked now d0 in
     if dt_degraded d then
       (if cfg_window (dt_cfg d) \<le> time_sub now (dt_entered_at d) \<and> successInWindow now d
           \<and> int (length (dt_dns_last d)) < cfg_min_monitors (dt_cfg d)
        then (d\<lparr>dt_degraded := False, dt_entered_at := zero_time, dt_suppressed := 0, dt_dns_last := []\<rparr>,
              no_decision\<lparr>dc_exited := True,
                dc_suppressed := dt_suppressed d + length (dt_dns_last d)\<rparr>)
        else (d, no_decision))
     else if trip now d then
       (d\<lparr>dt_degraded := True, dt_entered_at := now, dt_suppressed := length (dt_dns_last d),
          dt_dns_last := []\<rparr>, no_decision\<lparr>dc_entered := True\<rparr>)
     else if dt_dns_last d \<noteq> [] then
       (d\<lparr>dt_dns_last := []\<rparr>, no_decision\<lparr>dc_commit := sort_strings (gm_keys (dt_dns_last d))\<rparr>)
     else (d, no_decision))"

section \<open>The notifier\<close>

datatype notice =
    NoticeOpen string time \<comment> \<open>mention, time of entry\<close>
  | NoticeClose duration nat \<comment> \<open>blind for, checks suppressed\<close>

record notifier =
  nt_det :: detector
  nt_channel :: string
  nt_mention :: string
  nt_has_metrics :: bool
  nt_has_commit :: bool
  nt_degraded :: bool
  nt_degraded_at :: time
  nt_suppressed :: nat
  nt_open_ts :: string

datatype effect =
    SetSelfDegraded bool | SelfDegradedEntry
  | CommitSlug string
  | PostDigest string notice "string option" \<comment> \<open>channel, message, the timestamp or an error\<close>
  | UpdateDigest string string notice

definition newSelfHealthNotifier :: "detector \<Rightarrow> string \<Rightarrow> string \<Rightarrow> bool \<Rightarrow> bool \<Rightarrow> notifier" where
  "newSelfHealthNotifier det channel mention metrics commit =
    \<lparr>nt_det = det, nt_channel = channel, nt_mention = mention, nt_has_metrics = metrics,
     nt_has_commit = commit, nt_degraded = False, nt_degraded_at = zero_time, nt_suppressed = 0,
     nt_open_ts = []\<rparr>"

definition buildOpen :: "notifier \<Rightarrow> notice" where
  "buildOpen n = NoticeOpen (nt_mention n) (nt_degraded_at n)"

definition buildClose :: "time \<Rightarrow> notifier \<Rightarrow> notice" where
  "buildClose now n = NoticeClose (time_sub now (nt_degraded_at n)) (nt_suppressed n)"

definition postOpen :: "string option \<Rightarrow> notifier \<Rightarrow> notifier \<times> effect list" where
  "postOpen answer n =
    (if nt_channel n = [] \<or> nt_open_ts n \<noteq> [] then (n, [])
     else (case answer of None \<Rightarrow> n | Some ts \<Rightarrow> n\<lparr>nt_open_ts := ts\<rparr>,
           [PostDigest (nt_channel n) (buildOpen n) answer]))"

definition postClose :: "string option \<Rightarrow> time \<Rightarrow> notifier \<Rightarrow> effect list" where
  "postClose answer now n =
    (if nt_channel n = [] then []
     else if nt_open_ts n = [] then [PostDigest (nt_channel n) (buildClose now n) answer]
     else [UpdateDigest (nt_channel n) (nt_open_ts n) (buildClose now n)])"

definition tick :: "time \<Rightarrow> string option \<Rightarrow> notifier \<Rightarrow> notifier \<times> effect list" where
  "tick now answer n0 =
    (let (det, dec) = Decide now (nt_det n0);
         n1 = n0\<lparr>nt_det := det\<rparr>;
         (n2, out1) =
           (if dc_entered dec then
              (n1\<lparr>nt_degraded := True, nt_degraded_at := now, nt_suppressed := 0, nt_open_ts := []\<rparr>,
               if nt_has_metrics n1 then [SetSelfDegraded True, SelfDegradedEntry] else [])
            else if dc_exited dec then
              (let n = n1\<lparr>nt_suppressed := dc_suppressed dec\<rparr> in
               (n\<lparr>nt_degraded := False, nt_open_ts := []\<rparr>,
                postClose answer now n @ (if nt_has_metrics n then [SetSelfDegraded False] else [])))
            else (n1, []));
         out2 = (if dc_commit dec \<noteq> [] \<and> nt_has_commit n2 then map CommitSlug (dc_commit dec) else []);
         (n3, out3) = (if nt_degraded n2 then postOpen answer n2 else (n2, []))
     in (n3, out1 @ out2 @ out3))"

section \<open>The protocol of decisions\<close>

datatype detector_event = EvReport string fail_kind bool time | EvDecide time

definition detector_step :: "detector \<Rightarrow> detector_event \<Rightarrow> detector \<times> (time \<times> decision) list" where
  "detector_step d e = (case e of
      EvReport slug kind success at \<Rightarrow> (Report slug kind success at d, [])
    | EvDecide now \<Rightarrow> (case Decide now d of (d', dec) \<Rightarrow> (d', [(now, dec)])))"

datatype health_phase = Phase_Seeing | Phase_Blind time

definition health_protocol :: "duration \<Rightarrow> health_phase \<Rightarrow> time \<times> decision \<Rightarrow> health_phase option" where
  "health_protocol w p td = (let now = fst td; dec = snd td in case p of
      Phase_Seeing \<Rightarrow>
        (if dc_exited dec \<or> (dc_entered dec \<and> dc_commit dec \<noteq> []) then None
         else Some (if dc_entered dec then Phase_Blind now else Phase_Seeing))
    | Phase_Blind entered \<Rightarrow>
        (if dc_entered dec \<or> dc_commit dec \<noteq> [] \<or> (dc_exited dec \<and> \<not> w \<le> time_sub now entered) then None
         else Some (if dc_exited dec then Phase_Seeing else p)))"

definition health_phase_of :: "detector \<Rightarrow> health_phase" where
  "health_phase_of d = (if dt_degraded d then Phase_Blind (dt_entered_at d) else Phase_Seeing)"

definition detector_inv :: "duration \<Rightarrow> detector \<Rightarrow> bool" where
  "detector_inv w d \<longleftrightarrow> gm_ok (dt_dns_last d) \<and> cfg_window (dt_cfg d) = w"

lemma pruneLocked_sel [simp]:
  "dt_cfg (pruneLocked now d) = dt_cfg d" "dt_degraded (pruneLocked now d) = dt_degraded d"
  "dt_entered_at (pruneLocked now d) = dt_entered_at d"
  "dt_last_success (pruneLocked now d) = dt_last_success d"
  "dt_suppressed (pruneLocked now d) = dt_suppressed d"
  by (simp_all add: pruneLocked_def)

lemma successInWindow_prune [simp]: "successInWindow now (pruneLocked now' d) = successInWindow now d"
  by (simp add: successInWindow_def)

lemma pruneLocked_ok: "gm_ok (dt_dns_last d) \<Longrightarrow> gm_ok (dt_dns_last (pruneLocked now d))"
  by (simp add: pruneLocked_def)

lemma detector_step_inv: "detector_inv w d \<Longrightarrow> detector_inv w (fst (detector_step d e))"
  by (cases e) (auto simp: detector_inv_def detector_step_def Report_def Decide_def Let_def pruneLocked_ok)

lemma detector_step_protocol:
  "detector_inv w d \<Longrightarrow> feed (health_protocol w) (health_phase_of d) (snd (detector_step d e)) =
     Some (health_phase_of (fst (detector_step d e)))"
  by (cases e)
     (auto simp: detector_inv_def detector_step_def Report_def Decide_def Let_def health_protocol_def
       health_phase_of_def no_decision_def)

interpretation health: protocol_machine detector_step "detector_inv w" "\<lambda>e. True"
    "health_protocol w" health_phase_of for w
  by unfold_locales (simp_all add: detector_step_inv detector_step_protocol)

section \<open>Which failures a decision commits\<close>

definition failing_in_window :: "time \<Rightarrow> detector \<Rightarrow> string set" where
  "failing_in_window now d =
     {s. \<exists>at. gm_get (dt_dns_last d) s = Some at \<and> time_sub now at < cfg_window (dt_cfg d)}"

lemma prune_keys:
  assumes "gm_ok (dt_dns_last d)"
  shows "set (gm_keys (dt_dns_last (pruneLocked now d))) = failing_in_window now d"
  using gm_filter_get [OF assms, of "\<lambda>(slug, at). \<not> cfg_window (dt_cfg d) \<le> time_sub now at"]
  by (auto simp: gm.keys_get failing_in_window_def pruneLocked_def split: option.splits if_splits)

lemma prune_count:
  assumes "gm_ok (dt_dns_last d)"
  shows "length (dt_dns_last (pruneLocked now d)) = card (failing_in_window now d)"
proof -
  have "distinct (gm_keys (dt_dns_last (pruneLocked now d)))"
    using pruneLocked_ok [OF assms] by (simp add: gm_ok_def gm_keys_def)
  then have "length (gm_keys (dt_dns_last (pruneLocked now d))) = card (failing_in_window now d)"
    using prune_keys [OF assms] by (metis distinct_card)
  then show ?thesis by (simp add: gm_keys_def)
qed

section \<open>The protocol of notices\<close>

datatype notifier_event = NtReport string fail_kind bool time | NtTick time "string option"

definition notifier_step :: "notifier \<Rightarrow> notifier_event \<Rightarrow> notifier \<times> effect list" where
  "notifier_step n e = (case e of
      NtReport slug kind success at \<Rightarrow> (n\<lparr>nt_det := Report slug kind success at (nt_det n)\<rparr>, [])
    | NtTick now answer \<Rightarrow> tick now answer n)"

datatype notice_phase = Phase_Quiet | Phase_Owed | Phase_Landed string

text \<open>
  While seeing, provisional failures are committed; an open notice is posted, and posted again until
  Slack returns a timestamp; the close edits that message, or is posted fresh if none landed.
\<close>

definition landed :: "string option \<Rightarrow> notice_phase" where
  "landed answer = (case answer of Some (c # cs) \<Rightarrow> Phase_Landed (c # cs) | _ \<Rightarrow> Phase_Owed)"

definition notice_protocol :: "string \<Rightarrow> notice_phase \<Rightarrow> effect \<Rightarrow> notice_phase option" where
  "notice_protocol channel p x = (case x of
      SetSelfDegraded b \<Rightarrow> Some p
    | SelfDegradedEntry \<Rightarrow> if p = Phase_Quiet then Some p else None
    | CommitSlug s \<Rightarrow> if p = Phase_Quiet then Some p else None
    | PostDigest ch msg answer \<Rightarrow>
        (if ch \<noteq> channel then None else case (p, msg) of
           (Phase_Landed _, _) \<Rightarrow> None
         | (_, NoticeOpen _ _) \<Rightarrow> Some (landed answer)
         | (Phase_Owed, NoticeClose _ _) \<Rightarrow> Some Phase_Quiet
         | (Phase_Quiet, NoticeClose _ _) \<Rightarrow> None)
    | UpdateDigest ch ts msg \<Rightarrow>
        (case (p, msg) of
           (Phase_Landed ts', NoticeClose _ _) \<Rightarrow>
             if ch = channel \<and> ts = ts' then Some Phase_Quiet else None
         | _ \<Rightarrow> None))"

lemma notice_protocol_simps [simp]:
  "notice_protocol ch p (SetSelfDegraded b) = Some p"
  "notice_protocol ch p SelfDegradedEntry = (if p = Phase_Quiet then Some p else None)"
  "notice_protocol ch p (CommitSlug s) = (if p = Phase_Quiet then Some p else None)"
  "notice_protocol ch (Phase_Landed ts) (PostDigest c msg answer) = None"
  "notice_protocol ch Phase_Quiet (PostDigest c (NoticeOpen m t) answer) =
     (if c \<noteq> ch then None else Some (landed answer))"
  "notice_protocol ch Phase_Owed (PostDigest c (NoticeOpen m t) answer) =
     (if c \<noteq> ch then None else Some (landed answer))"
  "notice_protocol ch Phase_Owed (PostDigest c (NoticeClose d k) answer) =
     (if c \<noteq> ch then None else Some Phase_Quiet)"
  "notice_protocol ch (Phase_Landed ts) (UpdateDigest c ts' (NoticeClose d k)) =
     (if c = ch \<and> ts' = ts then Some Phase_Quiet else None)"
  by (simp_all add: notice_protocol_def)

definition notice_phase_of :: "notifier \<Rightarrow> notice_phase" where
  "notice_phase_of n = (if nt_degraded n then landed (Some (nt_open_ts n)) else Phase_Quiet)"

definition notifier_inv :: "string \<Rightarrow> notifier \<Rightarrow> bool" where
  "notifier_inv channel n \<longleftrightarrow> nt_channel n = channel \<and> channel \<noteq> [] \<and>
     nt_degraded n = dt_degraded (nt_det n)"

lemma feed_commits: "feed (notice_protocol ch) Phase_Quiet (map CommitSlug ss) = Some Phase_Quiet"
  by (induction ss) simp_all

text \<open>The four outcomes of a decision, as the notifier distinguishes them.\<close>

lemma Decide_cases:
  obtains (entered) d' where "Decide now d = (d', no_decision\<lparr>dc_entered := True\<rparr>)"
      "\<not> dt_degraded d" "dt_degraded d'"
  | (exited) d' k where "Decide now d = (d', no_decision\<lparr>dc_exited := True, dc_suppressed := k\<rparr>)"
      "dt_degraded d" "\<not> dt_degraded d'"
  | (blind) d' where "Decide now d = (d', no_decision)" "dt_degraded d" "dt_degraded d'"
  | (seeing) d' c where "Decide now d = (d', no_decision\<lparr>dc_commit := c\<rparr>)"
      "\<not> dt_degraded d" "\<not> dt_degraded d'"
proof -
  have n: "no_decision\<lparr>dc_commit := []\<rparr> = no_decision" by (simp add: no_decision_def)
  show thesis
  proof (cases "dt_degraded d")
    case True
    show thesis
    proof (cases "cfg_window (dt_cfg d) \<le> time_sub now (dt_entered_at d) \<and> successInWindow now d
           \<and> int (length (dt_dns_last (pruneLocked now d))) < cfg_min_monitors (dt_cfg d)")
      case exit: True
      show thesis by (rule exited) (use True exit in \<open>simp add: Decide_def Let_def\<close>, use True exit in \<open>simp_all\<close>)
    next
      case stay: False
      show thesis by (rule blind [where d' = "pruneLocked now d"])
        (use True stay in \<open>auto simp: Decide_def Let_def\<close>)
    qed
  next
    case False
    show thesis
    proof (cases "trip now (pruneLocked now d)")
      case trip: True
      show thesis by (rule entered) (use False trip in \<open>simp add: Decide_def Let_def\<close>, use False trip in \<open>simp_all\<close>)
    next
      case no_trip: False
      show thesis
      proof (cases "dt_dns_last (pruneLocked now d) = []")
        case True
        show thesis
          by (rule seeing [where c = "[]"]) (use False no_trip True n in \<open>simp add: Decide_def Let_def\<close>, use False no_trip True n in \<open>simp_all\<close>)
      next
        case commit: False
        show thesis by (rule seeing) (use False no_trip commit in \<open>simp add: Decide_def Let_def\<close>, use False no_trip commit in \<open>simp_all\<close>)
      qed
    qed
  qed
qed

lemma postOpen_protocol:
  assumes "nt_channel n = ch" "ch \<noteq> []"
  shows "feed (notice_protocol ch) (landed (Some (nt_open_ts n))) (snd (postOpen answer n)) =
      Some (landed (Some (nt_open_ts (fst (postOpen answer n)))))"
    and "nt_open_ts n = [] \<Longrightarrow> feed (notice_protocol ch) Phase_Quiet (snd (postOpen answer n)) =
      Some (landed (Some (nt_open_ts (fst (postOpen answer n)))))"
    and "nt_degraded (fst (postOpen answer n)) = nt_degraded n"
    and "nt_det (fst (postOpen answer n)) = nt_det n"
    and "nt_channel (fst (postOpen answer n)) = nt_channel n"
  using assms
  by (auto simp: postOpen_def landed_def buildOpen_def
      split: option.splits list.splits)

lemma postClose_protocol:
  assumes "nt_channel n = ch" "ch \<noteq> []"
  shows "feed (notice_protocol ch) (landed (Some (nt_open_ts n))) (postClose answer now n) = Some Phase_Quiet"
  using assms
  by (auto simp: postClose_def landed_def buildClose_def split: list.splits)

lemma tick_protocol:
  assumes inv: "notifier_inv ch n"
  shows "notifier_inv ch (fst (tick now answer n)) \<and>
    feed (notice_protocol ch) (notice_phase_of n) (snd (tick now answer n)) =
      Some (notice_phase_of (fst (tick now answer n)))"
proof (rule Decide_cases [of now "nt_det n"])
  fix d' assume d: "Decide now (nt_det n) = (d', no_decision\<lparr>dc_entered := True\<rparr>)"
    "\<not> dt_degraded (nt_det n)" "dt_degraded d'"
  let ?m = "n\<lparr>nt_det := d', nt_degraded := True, nt_degraded_at := now, nt_suppressed := 0,
    nt_open_ts := []\<rparr>"
  have m: "nt_channel ?m = ch" "ch \<noteq> []" "nt_open_ts ?m = []" using inv by (simp_all add: notifier_inv_def)
  have "tick now answer n = (fst (postOpen answer ?m),
      (if nt_has_metrics n then [SetSelfDegraded True, SelfDegradedEntry] else [])
      @ snd (postOpen answer ?m))"
    by (simp add: tick_def d no_decision_def Let_def split_beta)
  then show ?thesis
    using inv d postOpen_protocol(2-5) [OF m(1,2), of answer] m(3)
    by (auto simp: notifier_inv_def notice_phase_of_def feed_append)
next
  fix d' k assume d: "Decide now (nt_det n) = (d', no_decision\<lparr>dc_exited := True, dc_suppressed := k\<rparr>)"
    "dt_degraded (nt_det n)" "\<not> dt_degraded d'"
  let ?m = "n\<lparr>nt_det := d', nt_suppressed := k\<rparr>"
  have m: "nt_channel ?m = ch" "ch \<noteq> []" using inv by (simp_all add: notifier_inv_def)
  have "tick now answer n = (?m\<lparr>nt_degraded := False, nt_open_ts := []\<rparr>,
      postClose answer now ?m @ (if nt_has_metrics n then [SetSelfDegraded False] else []))"
    by (simp add: tick_def d no_decision_def Let_def)
  then show ?thesis
    using inv d postClose_protocol [OF m, of answer now]
    by (auto simp: notifier_inv_def notice_phase_of_def feed_append)
next
  fix d' assume d: "Decide now (nt_det n) = (d', no_decision)" "dt_degraded (nt_det n)" "dt_degraded d'"
  let ?m = "n\<lparr>nt_det := d'\<rparr>"
  have m: "nt_channel ?m = ch" "ch \<noteq> []" using inv by (simp_all add: notifier_inv_def)
  have "tick now answer n = postOpen answer ?m"
    using inv d by (simp add: tick_def no_decision_def Let_def notifier_inv_def split_beta)
  then show ?thesis
    using inv d postOpen_protocol(1,3,4,5) [OF m, of answer]
    by (auto simp: notifier_inv_def notice_phase_of_def)
next
  fix d' c assume d: "Decide now (nt_det n) = (d', no_decision\<lparr>dc_commit := c\<rparr>)"
    "\<not> dt_degraded (nt_det n)" "\<not> dt_degraded d'"
  then have "tick now answer n = (n\<lparr>nt_det := d'\<rparr>,
      if c \<noteq> [] \<and> nt_has_commit n then map CommitSlug c else [])"
    using inv by (simp add: tick_def no_decision_def Let_def notifier_inv_def)
  then show ?thesis
    using inv d by (auto simp: notifier_inv_def notice_phase_of_def feed_commits)
qed

lemma notifier_step_ok:
  assumes "notifier_inv ch n"
  shows "notifier_inv ch (fst (notifier_step n e)) \<and>
    feed (notice_protocol ch) (notice_phase_of n) (snd (notifier_step n e)) =
      Some (notice_phase_of (fst (notifier_step n e)))"
  using assms tick_protocol [OF assms]
  by (cases e) (auto simp: notifier_step_def notifier_inv_def notice_phase_of_def Report_def Let_def)

interpretation notices: protocol_machine notifier_step "notifier_inv ch" "\<lambda>e. True"
    "notice_protocol ch" notice_phase_of for ch
  by unfold_locales (simp_all add: notifier_step_ok)

section \<open>Properties\<close>

text \<open>A decision while seeing trips exactly when no probe succeeded within the window and at
  least the minimum number of distinct monitors failed DNS within it, and otherwise commits
  exactly those monitors, once each in order; while blind it commits nothing and ends the
  blindness exactly when a window has passed, a probe has succeeded in the window and fewer
  monitors fail.  A decision that trips, ends or commits leaves no failure to be decided again.\<close>

theorem Decide_spec:
  assumes ok: "gm_ok (dt_dns_last d)" and r: "Decide now d = (d', dec)"
  shows "(\<not> dt_degraded d \<longrightarrow>
      (dc_entered dec \<longleftrightarrow> \<not> successInWindow now d \<and>
         cfg_min_monitors (dt_cfg d) \<le> int (card (failing_in_window now d))) \<and>
      dt_degraded d' = dc_entered dec \<and> \<not> dc_exited dec \<and>
      set (dc_commit dec) = (if dc_entered dec then {} else failing_in_window now d) \<and>
      sorted (dc_commit dec) \<and> distinct (dc_commit dec) \<and> dt_dns_last d' = []) \<and>
    (dt_degraded d \<longrightarrow> dc_commit dec = [] \<and> \<not> dc_entered dec \<and> dt_degraded d' = (\<not> dc_exited dec) \<and>
      (dc_exited dec \<longleftrightarrow> cfg_window (dt_cfg d) \<le> time_sub now (dt_entered_at d) \<and>
         successInWindow now d \<and> int (card (failing_in_window now d)) < cfg_min_monitors (dt_cfg d)) \<and>
      (dc_exited dec \<longrightarrow> dt_dns_last d' = [] \<and>
         dc_suppressed dec = dt_suppressed d + card (failing_in_window now d)))"
proof -
  let ?p = "pruneLocked now d"
  have dist: "distinct (gm_keys (dt_dns_last ?p))"
    using pruneLocked_ok [OF ok] by (simp add: gm_ok_def gm_keys_def)
  have empty: "failing_in_window now d = {}" if "dt_dns_last ?p = []"
    using prune_keys [OF ok, of now] that by (simp add: gm_keys_def)
  have trip: "trip now ?p \<longleftrightarrow> \<not> successInWindow now d \<and>
      cfg_min_monitors (dt_cfg d) \<le> int (card (failing_in_window now d))"
    by (simp add: trip_def prune_count [OF ok])
  show ?thesis
  proof (cases "dt_degraded d")
    case True
    with r show ?thesis
      by (auto simp: Decide_def Let_def no_decision_def prune_count [OF ok] split: if_splits)
  next
    case False
    with r trip empty show ?thesis
      by (cases "trip now ?p"; cases "dt_dns_last ?p = []")
         (auto simp: Decide_def Let_def no_decision_def prune_keys [OF ok] dist)
  qed
qed

lemma Decide_spec_witness:
  "let d = Report ''b'' FailKindDNS False 101 (Report ''a'' FailKindDNS False 100
             (New \<lparr>cfg_window = 60, cfg_min_monitors = 2\<rparr>)) in
   dc_entered (snd (Decide 120 d)) \<and> dc_commit (snd (Decide 160 d)) = [''b'']
   \<and> dt_dns_last (fst (Decide 160 d)) = []"
proof -
  define d where "d = Report ''b'' FailKindDNS False 101 (Report ''a'' FailKindDNS False 100
             (New \<lparr>cfg_window = 60, cfg_min_monitors = 2\<rparr>))"
  have ok: "gm_ok (dt_dns_last d)" "\<not> dt_degraded d" by (simp_all add: d_def Report_def New_def)
  have "dc_entered (snd (Decide 120 d))" "dc_commit (snd (Decide 160 d)) = [''b'']"
    unfolding d_def by code_simp+
  moreover have "dt_dns_last (fst (Decide 160 d)) = []"
    using Decide_spec [OF ok(1), of 160 "fst (Decide 160 d)" "snd (Decide 160 d)"] ok(2) by simp
  ultimately show ?thesis by (simp only: Let_def d_def [symmetric] simp_thms)
qed

text \<open>From \<open>New\<close> on, for any reports and decisions at any times, degraded mode is entered and
  left in alternation, is never left before a full window has passed since it was entered, and no
  failure is committed in it or on the decision that enters it.\<close>

theorem degraded_mode_protocol:
  "feed (health_protocol (cfg_window cfg)) Phase_Seeing (snd (run_machine detector_step (New cfg) es))
   = Some (health_phase_of (fst (run_machine detector_step (New cfg) es)))"
  using health.run_proto [of "cfg_window cfg" "New cfg" es]
  by (simp add: detector_inv_def list_all_iff New_def health_phase_of_def)

text \<open>With a channel configured, the notifier's effects for any reports, decision times and
  answers of Slack form a sequence of episodes: while seeing only commits of provisional failures;
  then open notices, repeated until one lands and never after; then one close, which edits the
  open notice that landed or is posted fresh if none did.  Nothing is committed while blind.\<close>

theorem self_health_notice_protocol:
  assumes "channel \<noteq> []"
  shows "feed (notice_protocol channel) Phase_Quiet
      (snd (run_machine notifier_step (newSelfHealthNotifier (New cfg) channel m hm hc) es))
    = Some (notice_phase_of
      (fst (run_machine notifier_step (newSelfHealthNotifier (New cfg) channel m hm hc) es)))"
proof -
  let ?n = "newSelfHealthNotifier (New cfg) channel m hm hc"
  have "notifier_inv channel ?n" "notice_phase_of ?n = Phase_Quiet"
    using assms by (simp_all add: notifier_inv_def newSelfHealthNotifier_def New_def notice_phase_of_def)
  then show ?thesis using notices.run_proto [of channel ?n es] by (simp add: list_all_iff)
qed

lemma self_health_notice_protocol_witness:
  "let n = newSelfHealthNotifier (New \<lparr>cfg_window = 60, cfg_min_monitors = 2\<rparr>) ''ops'' [] False True;
       es = [NtReport ''a'' FailKindDNS False 10, NtReport ''b'' FailKindDNS False 11,
             NtTick 60 None, NtTick 120 (Some ''t1''), NtReport ''a'' FailKindNone True 170,
             NtTick 180 None, NtReport ''b'' FailKindDNS False 190, NtTick 240 None] in
   snd (run_machine notifier_step n es) =
     [PostDigest ''ops'' (NoticeOpen [] 60) None, PostDigest ''ops'' (NoticeOpen [] 60) (Some ''t1''),
      UpdateDigest ''ops'' ''t1'' (NoticeClose 120 2), CommitSlug ''b'']
   \<and> feed (notice_protocol ''ops'') Phase_Quiet (snd (run_machine notifier_step n es)) = Some Phase_Quiet"
proof -
  define n where "n = newSelfHealthNotifier (New \<lparr>cfg_window = 60, cfg_min_monitors = 2\<rparr>) ''ops'' [] False True"
  define es where "es = [NtReport ''a'' FailKindDNS False 10, NtReport ''b'' FailKindDNS False 11,
             NtTick 60 None, NtTick 120 (Some ''t1''), NtReport ''a'' FailKindNone True 170,
             NtTick 180 None, NtReport ''b'' FailKindDNS False 190, NtTick 240 None]"
  have "feed (notice_protocol ''ops'') Phase_Quiet (snd (run_machine notifier_step n es))
      = Some (notice_phase_of (fst (run_machine notifier_step n es)))"
    unfolding n_def by (rule self_health_notice_protocol) simp
  moreover have "notice_phase_of (fst (run_machine notifier_step n es)) = Phase_Quiet"
    unfolding n_def es_def by code_simp
  moreover have "snd (run_machine notifier_step n es) =
     [PostDigest ''ops'' (NoticeOpen [] 60) None, PostDigest ''ops'' (NoticeOpen [] 60) (Some ''t1''),
      UpdateDigest ''ops'' ''t1'' (NoticeClose 120 2), CommitSlug ''b'']"
    unfolding n_def es_def by code_simp
  ultimately show ?thesis by (simp only: Let_def n_def [symmetric] es_def [symmetric] simp_thms)
qed

text \<open>
  A failure that is a full window old when the decision comes is neither committed nor counted:
  a decision that runs late forgets it.
\<close>

lemma late_decision_forgets_failure:
  "let d = Report ''a'' FailKindDNS False 1 (New \<lparr>cfg_window = 60, cfg_min_monitors = 2\<rparr>) in
   snd (Decide 61 d) = no_decision \<and> dt_dns_last (fst (Decide 61 d)) = []"
  by code_simp

end
