(* ===== verification/Store.thy ===== *)
theory Store
  imports Alert
begin

text \<open>
  The database behind \<^verbatim>\<open>internal/store\<close>: the tables as the migrations define them, the Postgres clock,
  and the failures a client can meet.  A table with a unique key is a map from the key to its
  columns, in row order; a nullable column is an option.  Every call of the repository first meets
  the next entry of \<open>db_faults\<close>: \<open>True\<close> makes it fail without an effect (a lost connection, a
  cancelled context, a refused commit), an empty list means that nothing fails.  Postgres keeps
  timestamps in microseconds, so what is read back is truncated.
\<close>

definition pg_time :: "time \<Rightarrow> time" where
  "pg_time t = t - t mod 1000"

lemma pg_time_idem [simp]: "pg_time (pg_time t) = pg_time t"
  by (simp add: pg_time_def mod_diff_left_eq [symmetric])

lemma pg_time_le: "pg_time t \<le> t"
  by (simp add: pg_time_def)

lemma pg_time_mono: "t \<le> u \<Longrightarrow> pg_time t \<le> pg_time u"
proof -
  assume "t \<le> u"
  then have "t div 1000 * 1000 \<le> u div 1000 * 1000" by (simp add: zdiv_mono1)
  then show ?thesis by (simp add: pg_time_def minus_mod_eq_div_mult)
qed

datatype store_error = ErrNotFound | DBError string

section \<open>Rows\<close>

record monitor_spec =
  ms_slug :: string
  ms_kind :: string
  ms_friendly_name :: string
  ms_url :: string
  ms_host :: string
  ms_port :: int
  ms_tls_mode :: string
  ms_source :: string
  ms_depends_on :: "string list"
  ms_slack_channel_slug :: string
  ms_tags :: "string list"

record monitor_row = monitor_spec +
  mr_status :: status
  mr_opened_at :: "time option"
  mr_last_reminder_at :: "time option"
  mr_last_checked_at :: "time option"
  mr_last_status_code :: "int option"
  mr_last_error :: "string option"
  mr_archived :: bool
  mr_archived_at :: "time option"
  mr_archive_reason :: "string option"
  mr_uptime_thread_channel :: "string option"
  mr_uptime_thread_ts :: "string option"
  mr_ssl_status :: "ssl_status option"
  mr_ssl_expires_at :: "time option"
  mr_ssl_issuer :: "string option"
  mr_ssl_subject :: "string option"
  mr_ssl_opened_at :: "time option"
  mr_ssl_last_reminder_at :: "time option"
  mr_ssl_thread_channel :: "string option"
  mr_ssl_thread_ts :: "string option"

text \<open>The columns of the \<^verbatim>\<open>monitors\<close> table that differ from the scanned row are the nullable ones.\<close>

record monitor_cols = monitor_row +
  mc_host :: "string option"
  mc_port :: "int option"
  mc_tls_mode :: "string option"
  mc_slack_channel_slug :: "string option"

record alert_event_row =
  ae_id :: nat
  ae_monitor_slug :: string
  ae_type :: event_type
  ae_at :: time
  ae_status_code :: "int option"
  ae_error :: "string option"
  ae_downtime_seconds :: "int option"

type_synonym snapshot_key = "string \<times> string \<times> string"

record discovery_row =
  ds_id :: nat
  ds_status :: string
  ds_reason :: "string option"
  ds_monitor_slug :: "string option"
  ds_last_seen_at :: time

record group_member_row =
  gm_monitor_slug :: string
  gm_state :: string
  gm_joined_at :: time
  gm_down_since :: "time option"
  gm_up_since :: "time option"
  gm_changed_at :: time
  gm_rendered :: string

record group_row =
  gr_id :: nat
  gr_channel_slug :: string
  gr_opened_at :: time
  gr_digest_channel :: string
  gr_digest_ts :: string
  gr_posted :: bool
  gr_closed :: bool
  gr_last_flush_at :: "time option"
  gr_last_reminder_at :: "time option"
  gr_members :: "group_member_row list"

record am_incident =
  am_id :: nat
  am_fingerprint :: string
  am_alertname :: string
  am_labels :: "(string, string) gomap"
  am_annotations :: "(string, string) gomap"
  am_started_at :: time
  am_ended_at :: "time option"
  am_channel_slug :: string
  am_slack_channel :: string
  am_slack_ts :: string
  am_rule_chain :: string
  am_resolved_notify :: "string list"
  am_external_url :: string
  am_receiver :: string

datatype am_event_type = AMEventFiring | AMEventResolved | AMEventRepeatFiring | AMEventLateResolve

record am_event_row =
  av_id :: nat
  av_incident_id :: nat
  av_event_type :: am_event_type
  av_raw_payload :: string

section \<open>The database\<close>

record db =
  db_monitors :: "(string, monitor_cols) gomap"
  db_events :: "alert_event_row list"
  db_next_event :: nat
  db_snapshots :: "(snapshot_key, discovery_row) gomap"
  db_next_snapshot :: nat
  db_groups :: "group_row list"
  db_next_group :: nat
  db_am_alerts :: "am_incident list"
  db_next_am :: nat
  db_am_events :: "am_event_row list"
  db_next_am_event :: nat
  db_now :: time
  db_faults :: "bool list"

definition empty_db :: "time \<Rightarrow> db" where
  "empty_db now = \<lparr>db_monitors = [], db_events = [], db_next_event = 1, db_snapshots = [],
     db_next_snapshot = 1, db_groups = [], db_next_group = 1, db_am_alerts = [], db_next_am = 1,
     db_am_events = [], db_next_am_event = 1, db_now = now, db_faults = []\<rparr>"

text \<open>One call: the fault at hand is consumed, and the statement runs if it is not one.\<close>

definition db_call :: "string \<Rightarrow> (db \<Rightarrow> db \<times> (store_error + 'a)) \<Rightarrow> db \<Rightarrow> db \<times> (store_error + 'a)" where
  "db_call what f d = (case db_faults d of
      [] \<Rightarrow> f d
    | True # fs \<Rightarrow> (d\<lparr>db_faults := fs\<rparr>, Inl (DBError what))
    | False # fs \<Rightarrow> f (d\<lparr>db_faults := fs\<rparr>))"

lemma db_call_ok [simp]: "db_faults d = [] \<Longrightarrow> db_call what f d = f d"
  by (simp add: db_call_def)

text \<open>What the tables hold, apart from the faults still to come.\<close>

definition db_data :: "db \<Rightarrow> db" where
  "db_data d = d\<lparr>db_faults := []\<rparr>"

lemma db_data_faults [simp]: "db_data (d\<lparr>db_faults := fs\<rparr>) = db_data d"
  by (simp add: db_data_def)

lemma db_call_cases:
  obtains (fault) d' where "db_data d' = db_data d" "db_call what f d = (d', Inl (DBError what))"
  | (runs) d' where "db_data d' = db_data d" "db_call what f d = f d'"
proof (cases "db_faults d")
  case Nil
  then show thesis by (intro runs [of d]) simp_all
next
  case (Cons b fs)
  show thesis
  proof (cases b)
    case True
    then show thesis using Cons by (intro fault [of "d\<lparr>db_faults := fs\<rparr>"]) (simp_all add: db_call_def)
  next
    case False
    then show thesis using Cons by (intro runs [of "d\<lparr>db_faults := fs\<rparr>"]) (simp_all add: db_call_def)
  qed
qed

lemma db_call_elim:
  assumes "db_call what f d = (d', res)"
  obtains (fault) "res = Inl (DBError what)" "db_data d' = db_data d"
  | (runs) d1 where "db_data d1 = db_data d" "f d1 = (d', res)"
  using assms by (rule_tac db_call_cases [of d what f]) auto

lemma db_data_sel:
  assumes "db_data d' = db_data d"
  shows "db_monitors d' = db_monitors d" "db_events d' = db_events d"
    "db_snapshots d' = db_snapshots d" "db_groups d' = db_groups d"
    "db_am_alerts d' = db_am_alerts d" "db_am_events d' = db_am_events d"
    "db_next_event d' = db_next_event d" "db_next_group d' = db_next_group d"
    "db_next_am d' = db_next_am d" "db_next_snapshot d' = db_next_snapshot d"
    "db_next_am_event d' = db_next_am_event d" "db_now d' = db_now d"
proof -
  from assms have "d'\<lparr>db_faults := []\<rparr> = d\<lparr>db_faults := []\<rparr>" by (simp add: db_data_def)
  then show "db_monitors d' = db_monitors d" "db_events d' = db_events d"
    "db_snapshots d' = db_snapshots d" "db_groups d' = db_groups d"
    "db_am_alerts d' = db_am_alerts d" "db_am_events d' = db_am_events d"
    "db_next_event d' = db_next_event d" "db_next_group d' = db_next_group d"
    "db_next_am d' = db_next_am d" "db_next_snapshot d' = db_next_snapshot d"
    "db_next_am_event d' = db_next_am_event d" "db_now d' = db_now d"
    by (cases d; cases d'; simp)+
qed

section \<open>Monitors\<close>

definition null_if_empty :: "string \<Rightarrow> string option" where
  "null_if_empty s = (if s = [] then None else Some s)"

definition null_if_zero :: "time \<Rightarrow> time option" where
  "null_if_zero t = (if is_zero t then None else Some (pg_time t))"

definition row_State :: "monitor_row \<Rightarrow> state" where
  "row_State r = \<lparr>s_status = mr_status r,
     s_opened_at = (case mr_opened_at r of None \<Rightarrow> zero_time | Some t \<Rightarrow> t),
     s_last_reminder_at = (case mr_last_reminder_at r of None \<Rightarrow> zero_time | Some t \<Rightarrow> t)\<rparr>"

definition row_SSL :: "monitor_row \<Rightarrow> ssl_state" where
  "row_SSL r = \<lparr>ss_status = (case mr_ssl_status r of None \<Rightarrow> SSLStatusNone | Some s \<Rightarrow> s),
     ss_opened_at = (case mr_ssl_opened_at r of None \<Rightarrow> zero_time | Some t \<Rightarrow> t),
     ss_last_reminder_at = (case mr_ssl_last_reminder_at r of None \<Rightarrow> zero_time | Some t \<Rightarrow> t)\<rparr>"

definition scanMonitor :: "monitor_cols \<Rightarrow> monitor_row" where
  "scanMonitor c = monitor_row.truncate (c
     \<lparr>ms_host := (case mc_host c of None \<Rightarrow> [] | Some h \<Rightarrow> h),
      ms_port := (case mc_port c of None \<Rightarrow> 0 | Some p \<Rightarrow> p),
      ms_tls_mode := (case mc_tls_mode c of None \<Rightarrow> [] | Some m \<Rightarrow> m),
      ms_slack_channel_slug := (case mc_slack_channel_slug c of None \<Rightarrow> [] | Some s \<Rightarrow> s)\<rparr>)"

text \<open>A new row: the column defaults of the migrations.\<close>

definition default_cols :: "string \<Rightarrow> monitor_cols" where
  "default_cols slug =
    \<lparr>ms_slug = slug, ms_kind = ''http'', ms_friendly_name = [], ms_url = [], ms_host = [],
     ms_port = 0, ms_tls_mode = [], ms_source = ''static'', ms_depends_on = [],
     ms_slack_channel_slug = [], ms_tags = [],
     mr_status = StatusUp, mr_opened_at = None, mr_last_reminder_at = None,
     mr_last_checked_at = None, mr_last_status_code = None, mr_last_error = None,
     mr_archived = False, mr_archived_at = None, mr_archive_reason = None,
     mr_uptime_thread_channel = None, mr_uptime_thread_ts = None,
     mr_ssl_status = None, mr_ssl_expires_at = None, mr_ssl_issuer = None, mr_ssl_subject = None,
     mr_ssl_opened_at = None, mr_ssl_last_reminder_at = None, mr_ssl_thread_channel = None,
     mr_ssl_thread_ts = None,
     mc_host = None, mc_port = None, mc_tls_mode = None, mc_slack_channel_slug = None\<rparr>"

definition ReconcileMonitor :: "monitor_spec \<Rightarrow> db \<Rightarrow> db \<times> (store_error + unit)" where
  "ReconcileMonitor spec = db_call ''reconcile monitor'' (\<lambda>d.
    (let old = (case gm_get (db_monitors d) (ms_slug spec) of
                  None \<Rightarrow> default_cols (ms_slug spec) | Some c \<Rightarrow> c);
         new = old
           \<lparr>ms_kind := (if ms_kind spec = [] then ''http'' else ms_kind spec),
            ms_friendly_name := ms_friendly_name spec, ms_url := ms_url spec,
            mc_host := null_if_empty (ms_host spec),
            mc_port := (if ms_port spec = 0 then None else Some (ms_port spec)),
            mc_tls_mode := null_if_empty (ms_tls_mode spec),
            ms_source := (if ms_source spec = [] then ''static'' else ms_source spec),
            ms_depends_on := ms_depends_on spec,
            mc_slack_channel_slug := null_if_empty (ms_slack_channel_slug spec),
            ms_tags := ms_tags spec,
            mr_archived := False, mr_archived_at := None, mr_archive_reason := None\<rparr>
     in (d\<lparr>db_monitors := gm_put (ms_slug spec) new (db_monitors d)\<rparr>, Inr ())))"

definition GetMonitor :: "string \<Rightarrow> db \<Rightarrow> db \<times> (store_error + monitor_row)" where
  "GetMonitor slug = db_call ''get monitor'' (\<lambda>d. (d, case gm_get (db_monitors d) slug of
      None \<Rightarrow> Inl ErrNotFound | Some c \<Rightarrow> Inr (scanMonitor c)))"

text \<open>\<^verbatim>\<open>UPDATE monitors ... WHERE slug = ...\<close>: no row, no effect, no error.\<close>

definition update_monitor :: "string \<Rightarrow> (monitor_cols \<Rightarrow> monitor_cols) \<Rightarrow> db \<Rightarrow> db" where
  "update_monitor slug f d = (case gm_get (db_monitors d) slug of
      None \<Rightarrow> d | Some c \<Rightarrow> d\<lparr>db_monitors := gm_put slug (f c) (db_monitors d)\<rparr>)"

definition append_event ::
  "string \<Rightarrow> event_type \<Rightarrow> time \<Rightarrow> int option \<Rightarrow> string option \<Rightarrow> int option \<Rightarrow> db \<Rightarrow> db" where
  "append_event slug t at sc msg downtime d =
     d\<lparr>db_events := db_events d @ [\<lparr>ae_id = db_next_event d, ae_monitor_slug = slug, ae_type = t,
          ae_at = pg_time at, ae_status_code = sc, ae_error = msg,
          ae_downtime_seconds = downtime\<rparr>],
       db_next_event := Suc (db_next_event d)\<rparr>"

text \<open>Whole seconds of a duration, truncated toward zero.\<close>

definition duration_seconds :: "duration \<Rightarrow> int" where
  "duration_seconds x = (if 0 \<le> x then x div second else - ((- x) div second))"

definition ApplyCheck :: "string \<Rightarrow> state \<Rightarrow> time \<Rightarrow> int \<Rightarrow> string \<Rightarrow> event option
    \<Rightarrow> db \<Rightarrow> db \<times> (store_error + unit)" where
  "ApplyCheck slug next_state at code check_err ev = db_call ''apply check'' (\<lambda>d.
    (let sc = (if code = 0 then None else Some code);
         msg = null_if_empty check_err;
         clear = (case ev of None \<Rightarrow> False | Some e \<Rightarrow> e_type e = EventResolve);
         d1 = update_monitor slug (\<lambda>c.
           (let c = c\<lparr>mr_status := s_status next_state,
                mr_opened_at := null_if_zero (s_opened_at next_state),
                mr_last_reminder_at := null_if_zero (s_last_reminder_at next_state),
                mr_last_checked_at := Some (pg_time at),
                mr_last_status_code := sc, mr_last_error := msg\<rparr>
            in if clear then c\<lparr>mr_uptime_thread_channel := None, mr_uptime_thread_ts := None\<rparr>
               else c)) d
     in (case ev of
           None \<Rightarrow> d1
         | Some e \<Rightarrow> append_event slug (e_type e) (e_at e) sc msg
             (if e_type e = EventResolve then Some (duration_seconds (e_downtime e)) else None) d1,
         Inr ())))"

definition ApplySSLCheck :: "string \<Rightarrow> ssl_state \<Rightarrow> time \<Rightarrow> string \<Rightarrow> string \<Rightarrow> ssl_event option
    \<Rightarrow> db \<Rightarrow> db \<times> (store_error + unit)" where
  "ApplySSLCheck slug next_state expires_at issuer subject ev = db_call ''apply ssl check'' (\<lambda>d.
    (let clear = (case ev of None \<Rightarrow> False | Some e \<Rightarrow> se_type e = EventSSLResolve);
         coalesce = (\<lambda>new old. if new = [] then old else Some new);
         d1 = update_monitor slug (\<lambda>c.
           (let c = c\<lparr>mr_ssl_status := (if ss_status next_state = SSLStatusNone then None
                                        else Some (ss_status next_state)),
                mr_ssl_expires_at := null_if_zero expires_at,
                mr_ssl_issuer := coalesce issuer (mr_ssl_issuer c),
                mr_ssl_subject := coalesce subject (mr_ssl_subject c),
                mr_ssl_opened_at := null_if_zero (ss_opened_at next_state),
                mr_ssl_last_reminder_at := null_if_zero (ss_last_reminder_at next_state)\<rparr>
            in if clear then c\<lparr>mr_ssl_thread_channel := None, mr_ssl_thread_ts := None\<rparr> else c)) d
     in (case ev of
           None \<Rightarrow> d1
         | Some e \<Rightarrow> append_event slug (se_type e) (se_at e) None None None d1,
         Inr ())))"

definition SoftDeleteMonitor :: "string \<Rightarrow> string \<Rightarrow> db \<Rightarrow> db \<times> (store_error + unit)" where
  "SoftDeleteMonitor slug reason = db_call ''soft-delete'' (\<lambda>d.
     (update_monitor slug (\<lambda>c. c\<lparr>mr_archived := True, mr_archived_at := Some (pg_time (db_now d)),
        mr_archive_reason := Some reason\<rparr>) d, Inr ()))"

definition MarkTemporaryPaused :: "string \<Rightarrow> db \<Rightarrow> db \<times> (store_error + unit)" where
  "MarkTemporaryPaused slug = db_call ''mark temporary-paused'' (\<lambda>d.
     (update_monitor slug (\<lambda>c. c\<lparr>mr_status := StatusTemporaryPaused\<rparr>) d, Inr ()))"

definition SetSSLThread :: "string \<Rightarrow> string \<Rightarrow> string \<Rightarrow> db \<Rightarrow> db \<times> (store_error + unit)" where
  "SetSSLThread slug channel ts = db_call ''set ssl thread'' (\<lambda>d.
     (update_monitor slug (\<lambda>c. c\<lparr>mr_ssl_thread_channel := Some channel,
        mr_ssl_thread_ts := Some ts\<rparr>) d, Inr ()))"

definition SetUptimeThread :: "string \<Rightarrow> string \<Rightarrow> string \<Rightarrow> db \<Rightarrow> db \<times> (store_error + unit)" where
  "SetUptimeThread slug channel ts = db_call ''set uptime thread'' (\<lambda>d.
     (update_monitor slug (\<lambda>c. c\<lparr>mr_uptime_thread_channel := Some channel,
        mr_uptime_thread_ts := Some ts\<rparr>) d, Inr ()))"

definition ListChildrenOf :: "string \<Rightarrow> db \<Rightarrow> db \<times> (store_error + string list)" where
  "ListChildrenOf parent = db_call ''list children'' (\<lambda>d.
     (d, Inr (sort_strings (map fst (filter (\<lambda>(slug, c). parent \<in> set (ms_depends_on c)
        \<and> \<not> mr_archived c) (db_monitors d))))))"

definition ListActiveBySource :: "string \<Rightarrow> db \<Rightarrow> db \<times> (store_error + monitor_row list)" where
  "ListActiveBySource src = db_call ''list active by source'' (\<lambda>d.
     (d, Inr (map (scanMonitor \<circ> snd) (filter (\<lambda>(slug, c). \<not> mr_archived c \<and> ms_source c = src)
        (db_monitors d)))))"

definition CountOpenIncidents :: "db \<Rightarrow> db \<times> (store_error + nat)" where
  "CountOpenIncidents = db_call ''count open incidents'' (\<lambda>d.
     (d, Inr (length (filter (\<lambda>(slug, c). mr_status c = StatusDown \<and> \<not> mr_archived c)
        (db_monitors d)))))"

record homepage_stats =
  hs_up :: nat
  hs_down :: nat
  hs_temporary_paused :: nat
  hs_ssl_expiring :: nat
  hs_ssl_skipped :: nat

definition HomepageStats :: "db \<Rightarrow> db \<times> (store_error + homepage_stats)" where
  "HomepageStats = db_call ''homepage stats'' (\<lambda>d.
     (let rows = filter (\<lambda>c. \<not> mr_archived c) (map snd (db_monitors d));
          count = (\<lambda>P. length (filter P rows)) in
      (d, Inr \<lparr>hs_up = count (\<lambda>c. mr_status c = StatusUp),
              hs_down = count (\<lambda>c. mr_status c = StatusDown),
              hs_temporary_paused = count (\<lambda>c. mr_status c = StatusTemporaryPaused),
              hs_ssl_expiring = count (\<lambda>c. mr_ssl_status c = Some SSLStatusExpiring),
              hs_ssl_skipped = count (\<lambda>c. mr_ssl_status c = Some SSLStatusSkipped)\<rparr>)))"

section \<open>The discovery snapshot\<close>

text \<open>
  The statement reads the slug the tuple had before it writes; the slug is vacated when it was
  set and differs from the new one.
\<close>

definition UpsertDiscoverySnapshot :: "snapshot_key \<Rightarrow> string \<Rightarrow> string option \<Rightarrow> string option
    \<Rightarrow> db \<Rightarrow> db \<times> (store_error + string)" where
  "UpsertDiscoverySnapshot key st reason slug = db_call ''upsert snapshot'' (\<lambda>d.
    (let prev = gm_get (db_snapshots d) key;
         row = \<lparr>ds_id = (case prev of None \<Rightarrow> db_next_snapshot d | Some r \<Rightarrow> ds_id r), ds_status = st,
                ds_reason = reason, ds_monitor_slug = slug, ds_last_seen_at = pg_time (db_now d)\<rparr>;
         vacated = (case prev of None \<Rightarrow> [] | Some r \<Rightarrow> (case ds_monitor_slug r of None \<Rightarrow> []
           | Some s \<Rightarrow> if s \<noteq> [] \<and> slug \<noteq> Some s then s else []))
     in (d\<lparr>db_snapshots := gm_put key row (db_snapshots d),
           db_next_snapshot := Suc (db_next_snapshot d)\<rparr>, Inr vacated)))"

definition PruneDiscoverySnapshotExcept ::
  "snapshot_key list \<Rightarrow> db \<Rightarrow> db \<times> (store_error + nat \<times> string list)" where
  "PruneDiscoverySnapshotExcept observed d0 =
    (if observed = [] then (d0, Inr (0, []))
     else db_call ''prune discovery_snapshot'' (\<lambda>d.
       (let gone = filter (\<lambda>(k, r). k \<notin> set observed) (db_snapshots d) in
        (d\<lparr>db_snapshots := filter (\<lambda>(k, r). \<not> (k \<notin> set observed)) (db_snapshots d)\<rparr>,
         Inr (length gone, List.map_filter (\<lambda>(k, r). case ds_monitor_slug r of
             None \<Rightarrow> None | Some s \<Rightarrow> if s = [] then None else Some s) gone)))) d0)"

definition CountKubeInvalid :: "db \<Rightarrow> db \<times> (store_error + nat)" where
  "CountKubeInvalid = db_call ''count kube-invalid'' (\<lambda>d.
     (d, Inr (length (filter (\<lambda>(k, r). ds_status r = ''kube-invalid'') (db_snapshots d)))))"

text \<open>The freshest row that names the slug; ties keep row order.\<close>

definition FindDiscoveryByMonitorSlug ::
  "string \<Rightarrow> db \<Rightarrow> db \<times> (store_error + snapshot_key \<times> discovery_row)" where
  "FindDiscoveryByMonitorSlug slug = db_call ''find discovery'' (\<lambda>d.
     (d, case sort_key (\<lambda>(k, r). - ds_last_seen_at r)
            (filter (\<lambda>(k, r). ds_monitor_slug r = Some slug) (db_snapshots d)) of
          [] \<Rightarrow> Inl ErrNotFound | x # _ \<Rightarrow> Inr x))"

section \<open>Lemmas\<close>

definition pg_state :: "state \<Rightarrow> state" where
  "pg_state s = s\<lparr>s_opened_at := pg_time (s_opened_at s),
     s_last_reminder_at := pg_time (s_last_reminder_at s)\<rparr>"

lemma pg_time_zero [simp]: "pg_time zero_time = zero_time"
  by (simp add: pg_time_def zero_time_def)

lemma null_if_zero_read:
  "(case null_if_zero t of None \<Rightarrow> zero_time | Some u \<Rightarrow> u) = pg_time t"
  by (simp add: null_if_zero_def is_zero_def)

lemma scanMonitor_sel [simp]:
  "mr_status (scanMonitor c) = mr_status c" "mr_opened_at (scanMonitor c) = mr_opened_at c"
  "mr_last_reminder_at (scanMonitor c) = mr_last_reminder_at c"
  "mr_ssl_status (scanMonitor c) = mr_ssl_status c"
  "mr_ssl_opened_at (scanMonitor c) = mr_ssl_opened_at c"
  "mr_ssl_last_reminder_at (scanMonitor c) = mr_ssl_last_reminder_at c"
  "mr_uptime_thread_ts (scanMonitor c) = mr_uptime_thread_ts c"
  "mr_uptime_thread_channel (scanMonitor c) = mr_uptime_thread_channel c"
  "mr_archived (scanMonitor c) = mr_archived c" "ms_slug (scanMonitor c) = ms_slug c"
  "ms_depends_on (scanMonitor c) = ms_depends_on c"
  by (simp_all add: scanMonitor_def monitor_row.truncate_def)

lemma update_monitor_get:
  "gm_get (db_monitors (update_monitor slug f d)) k =
   (if k = slug then map_option f (gm_get (db_monitors d) slug) else gm_get (db_monitors d) k)"
  by (auto simp: update_monitor_def split: option.splits)

lemma update_monitor_events [simp]: "db_events (update_monitor slug f d) = db_events d"
  "db_next_event (update_monitor slug f d) = db_next_event d"
  "db_faults (update_monitor slug f d) = db_faults d"
  by (simp_all add: update_monitor_def split: option.split)

lemma append_event_sel [simp]:
  "db_monitors (append_event slug t at sc msg dt d) = db_monitors d"
  "db_faults (append_event slug t at sc msg dt d) = db_faults d"
  by (simp_all add: append_event_def)

definition event_row :: "string \<Rightarrow> int \<Rightarrow> string \<Rightarrow> nat \<Rightarrow> event \<Rightarrow> alert_event_row" where
  "event_row slug code msg i e = \<lparr>ae_id = i, ae_monitor_slug = slug, ae_type = e_type e,
     ae_at = pg_time (e_at e), ae_status_code = (if code = 0 then None else Some code),
     ae_error = null_if_empty msg,
     ae_downtime_seconds = (if e_type e = EventResolve then Some (duration_seconds (e_downtime e))
       else None)\<rparr>"

lemma ApplyCheck_data: "ApplyCheck slug s at code msg ev d = (d', Inl e) \<Longrightarrow> db_data d' = db_data d"
  unfolding ApplyCheck_def by (erule db_call_elim) (auto simp: Let_def)

lemma ApplyCheck_write:
  assumes r: "ApplyCheck slug s at code msg ev d = (d', Inr u)"
    and c: "gm_get (db_monitors d) slug = Some c"
  shows "\<exists>c'. gm_get (db_monitors d') slug = Some c' \<and> mr_status c' = s_status s
    \<and> mr_opened_at c' = null_if_zero (s_opened_at s)
    \<and> (\<forall>k. k \<noteq> slug \<longrightarrow> gm_get (db_monitors d') k = gm_get (db_monitors d) k)
    \<and> db_events d' = db_events d @
        (case ev of None \<Rightarrow> [] | Some e \<Rightarrow> [event_row slug code msg (db_next_event d) e])"
  using r unfolding ApplyCheck_def
proof (cases rule: db_call_elim)
  case (runs d1)
  have "gm_get (db_monitors d1) slug = Some c" using c db_data_sel(1) [OF runs(1)] by simp
  then show ?thesis
    using runs(2) db_data_sel(1,2,7) [OF runs(1)]
    by (cases ev) (auto simp: Let_def update_monitor_get append_event_def event_row_def)
qed simp

section \<open>Properties\<close>

text \<open>Persisting a check either fails and changes no table, or writes the new state, which a
  later read returns to the microsecond, appends exactly the given event, clears the thread refs
  exactly on a resolve, and touches no other monitor and none of the configured fields.\<close>

theorem ApplyCheck_persists:
  assumes r: "ApplyCheck slug s at code msg ev d = (d', res)"
    and c: "gm_get (db_monitors d) slug = Some c"
  shows "case res of
     Inl _ \<Rightarrow> db_data d' = db_data d
   | Inr _ \<Rightarrow> \<exists>c'. gm_get (db_monitors d') slug = Some c' \<and>
        row_State (scanMonitor c') = pg_state s \<and> mr_last_checked_at c' = Some (pg_time at) \<and>
        mr_uptime_thread_ts c' = (if \<exists>e. ev = Some e \<and> e_type e = EventResolve then None
          else mr_uptime_thread_ts c) \<and>
        monitor_spec.truncate c' = monitor_spec.truncate c \<and> mr_archived c' = mr_archived c \<and>
        (\<forall>k. k \<noteq> slug \<longrightarrow> gm_get (db_monitors d') k = gm_get (db_monitors d) k) \<and>
        db_events d' = db_events d @
          (case ev of None \<Rightarrow> [] | Some e \<Rightarrow> [event_row slug code msg (db_next_event d) e])"
proof -
  from r [unfolded ApplyCheck_def] show ?thesis
  proof (cases rule: db_call_elim)
    case fault
    then show ?thesis by simp
  next
    case (runs d1)
    have "gm_get (db_monitors d1) slug = Some c" using c db_data_sel(1) [OF runs(1)] by simp
    then show ?thesis
      using runs(2) db_data_sel(1,2,7) [OF runs(1)]
      by (cases ev) (auto simp: Let_def update_monitor_get row_State_def null_if_zero_read
          pg_state_def append_event_def event_row_def monitor_spec.truncate_def)
  qed
qed

definition sample_spec :: "string \<Rightarrow> monitor_spec" where
  "sample_spec slug = \<lparr>ms_slug = slug, ms_kind = [], ms_friendly_name = ''Web'', ms_url = ''https://x'',
     ms_host = [], ms_port = 0, ms_tls_mode = [], ms_source = [], ms_depends_on = [''db''],
     ms_slack_channel_slug = ''ops'', ms_tags = []\<rparr>"

lemma ApplyCheck_persists_witness:
  "let d = fst (ReconcileMonitor (sample_spec ''web'') (empty_db 0));
       s = \<lparr>s_status = StatusDown, s_opened_at = 12345, s_last_reminder_at = 12345\<rparr>;
       d' = fst (ApplyCheck ''web'' s 12345 503 ''boom'' None d) in
   (\<exists>c'. gm_get (db_monitors d') ''web'' = Some c' \<and>
      row_State (scanMonitor c') = \<lparr>s_status = StatusDown, s_opened_at = 12000, s_last_reminder_at = 12000\<rparr>)"
proof -
  define d where "d = fst (ReconcileMonitor (sample_spec ''web'') (empty_db 0))"
  define s where "s = \<lparr>s_status = StatusDown, s_opened_at = 12345, s_last_reminder_at = 12345\<rparr>"
  obtain c where c: "gm_get (db_monitors d) ''web'' = Some c"
    by (simp add: d_def ReconcileMonitor_def empty_db_def sample_spec_def Let_def)
  have f: "db_faults d = []" by (simp add: d_def ReconcileMonitor_def empty_db_def Let_def)
  then have "snd (ApplyCheck ''web'' s 12345 503 ''boom'' None d) = Inr ()"
    by (simp add: ApplyCheck_def Let_def)
  then have r: "ApplyCheck ''web'' s 12345 503 ''boom'' None d =
      (fst (ApplyCheck ''web'' s 12345 503 ''boom'' None d), Inr ())"
    by (metis prod.collapse)
  have p: "pg_state s = \<lparr>s_status = StatusDown, s_opened_at = 12000, s_last_reminder_at = 12000\<rparr>"
    by (simp add: s_def pg_state_def pg_time_def)
  from ApplyCheck_persists [OF r c] p show ?thesis
    unfolding Let_def d_def [symmetric] s_def [symmetric] by auto
qed

text \<open>Reconciling a monitor from the configuration makes the row readable with exactly the
  configured fields (defaults filled in) and un-archives it, but keeps the runtime state that an
  existing row has, its certificate state and its open Slack threads included; a new row starts up.\<close>

theorem ReconcileMonitor_keeps_runtime:
  assumes r: "ReconcileMonitor spec d = (d', Inr ())"
  shows "\<exists>c'. gm_get (db_monitors d') (ms_slug spec) = Some c' \<and> \<not> mr_archived c' \<and>
    (ms_slug (the (gm_get (db_monitors d) (ms_slug spec))) = ms_slug spec \<or>
       gm_get (db_monitors d) (ms_slug spec) = None \<longrightarrow>
     monitor_spec.truncate (scanMonitor c') = spec
       \<lparr>ms_kind := (if ms_kind spec = [] then ''http'' else ms_kind spec),
        ms_source := (if ms_source spec = [] then ''static'' else ms_source spec)\<rparr>) \<and>
    (case gm_get (db_monitors d) (ms_slug spec) of
       None \<Rightarrow> row_State (scanMonitor c') = up_state \<and> row_SSL (scanMonitor c') = ssl_plain SSLStatusNone
     | Some c \<Rightarrow> row_State (scanMonitor c') = row_State (scanMonitor c)
         \<and> row_SSL (scanMonitor c') = row_SSL (scanMonitor c)
         \<and> mr_uptime_thread_ts c' = mr_uptime_thread_ts c \<and> mr_ssl_thread_ts c' = mr_ssl_thread_ts c) \<and>
    (\<forall>k. k \<noteq> ms_slug spec \<longrightarrow> gm_get (db_monitors d') k = gm_get (db_monitors d) k)"
proof -
  from r [unfolded ReconcileMonitor_def] show ?thesis
  proof (cases rule: db_call_elim)
    case (runs d1)
    then show ?thesis
      using db_data_sel(1) [OF runs(1)]
      by (cases "gm_get (db_monitors d) (ms_slug spec)")
         (auto simp: Let_def scanMonitor_def monitor_row.truncate_def monitor_spec.truncate_def
           default_cols_def null_if_empty_def row_State_def row_SSL_def up_state_def ssl_plain_def)
  qed simp
qed

lemma ReconcileMonitor_keeps_runtime_witness:
  "let d = fst (ReconcileMonitor (sample_spec ''web'') (empty_db 0)) in
   \<exists>c'. gm_get (db_monitors d) ''web'' = Some c' \<and> row_State (scanMonitor c') = up_state"
proof -
  have "ReconcileMonitor (sample_spec ''web'') (empty_db 0) =
      (fst (ReconcileMonitor (sample_spec ''web'') (empty_db 0)), Inr ())"
    by (simp add: ReconcileMonitor_def empty_db_def Let_def)
  from ReconcileMonitor_keeps_runtime [OF this] show ?thesis
    by (auto simp: sample_spec_def empty_db_def)
qed

text \<open>What the two writers of the discovery snapshot do to its table.\<close>

lemma Upsert_snapshot_effect:
  assumes "UpsertDiscoverySnapshot key st reason slug d = (d', r)"
  shows "case r of Inl _ \<Rightarrow> db_snapshots d' = db_snapshots d
    | Inr vacated \<Rightarrow> (\<exists>row. ds_monitor_slug row = slug \<and> db_snapshots d' = gm_put key row (db_snapshots d)) \<and>
        vacated = (case gm_get (db_snapshots d) key of None \<Rightarrow> [] | Some r \<Rightarrow> (case ds_monitor_slug r of None \<Rightarrow> []
           | Some s \<Rightarrow> if s \<noteq> [] \<and> slug \<noteq> Some s then s else []))"
  using assms unfolding UpsertDiscoverySnapshot_def
proof (cases rule: db_call_elim)
  case (runs d0)
  have "db_snapshots d0 = db_snapshots d" by (rule db_data_sel [OF runs(1)])
  with runs(2) show ?thesis
    by (auto simp: Let_def intro!: exI [of _ "\<lparr>ds_id = i, ds_status = st, ds_reason = reason,
      ds_monitor_slug = slug, ds_last_seen_at = t\<rparr>" for i t])
qed (auto dest: db_data_sel(3))

lemma Prune_snapshot_effect:
  assumes ok: "gm_ok (db_snapshots d)" and ne: "observed \<noteq> []"
    and p: "PruneDiscoverySnapshotExcept observed d = (d', r)"
  shows "case r of Inl _ \<Rightarrow> db_snapshots d' = db_snapshots d
    | Inr (n, gone) \<Rightarrow> gm_ok (db_snapshots d') \<and>
        (\<forall>k. gm_get (db_snapshots d') k = (if k \<in> set observed then gm_get (db_snapshots d) k else None)) \<and>
        set gone = {s. s \<noteq> [] \<and> (\<exists>k r. k \<notin> set observed \<and>
          gm_get (db_snapshots d) k = Some r \<and> ds_monitor_slug r = Some s)}"
  using p unfolding PruneDiscoverySnapshotExcept_def if_not_P [OF ne]
proof (cases rule: db_call_elim)
  case (runs d0)
  have same: "db_snapshots d0 = db_snapshots d" by (rule db_data_sel [OF runs(1)])
  obtain n gone where r: "r = Inr (n, gone)" using runs(2) by (auto simp: Let_def)
  have s2: "db_snapshots d' = filter (\<lambda>(k, r). k \<in> set observed) (db_snapshots d)"
    and g: "gone = List.map_filter (\<lambda>(k, r). case ds_monitor_slug r of
         None \<Rightarrow> None | Some s \<Rightarrow> if s = [] then None else Some s)
         (filter (\<lambda>(k, r). k \<notin> set observed) (db_snapshots d))"
    using runs(2) r by (auto simp: Let_def same)
  have "gm_get (db_snapshots d') k = (if k \<in> set observed then gm_get (db_snapshots d) k else None)" for k
    unfolding s2 using gm_filter_get [OF ok, of "\<lambda>(k, r). k \<in> set observed" k]
    by (auto split: option.splits)
  moreover have "set gone = {s. s \<noteq> [] \<and> (\<exists>k r. k \<notin> set observed \<and>
      gm_get (db_snapshots d) k = Some r \<and> ds_monitor_slug r = Some s)}"
    unfolding g gm_get_mem [OF ok, symmetric]
    by (fastforce simp: List.map_filter_def image_iff split: option.splits if_splits)
  ultimately show ?thesis using ok r by (simp add: s2)
qed (auto dest: db_data_sel(3))

end
