(* ===== verification/Store_Incidents.thy ===== *)
theory Store_Incidents
  imports Store
begin

text \<open>
  The incident tables of \<^verbatim>\<open>internal/store\<close>: coalescing groups with their members (\<^verbatim>\<open>groups.go\<close>) and
  Alertmanager incidents with their event trail (\<^verbatim>\<open>am_alerts.go\<close>).  The partial unique indexes (one
  open group per channel, one open alert per fingerprint) are part of the statements: an insert
  that would break one fails or is skipped as the SQL says.  The contract that the webhook handler
  needs from the alert table is the locale \<open>am_store\<close>.
\<close>

section \<open>Groups\<close>

definition pg_opt :: "time option \<Rightarrow> time option" where
  "pg_opt t = map_option pg_time t"

definition CreateIncidentGroup :: "string \<Rightarrow> time \<Rightarrow> db \<Rightarrow> db \<times> (store_error + nat)" where
  "CreateIncidentGroup channel opened_at = db_call ''create incident group'' (\<lambda>d.
    (if list_ex (\<lambda>g. gr_channel_slug g = channel \<and> \<not> gr_closed g) (db_groups d)
     then (d\<lparr>db_next_group := Suc (db_next_group d)\<rparr>, Inl (DBError ''create incident group''))
     else (d\<lparr>db_groups := db_groups d @ [\<lparr>gr_id = db_next_group d, gr_channel_slug = channel,
              gr_opened_at = pg_time opened_at, gr_digest_channel = [], gr_digest_ts = [],
              gr_posted = False, gr_closed = False, gr_last_flush_at = None,
              gr_last_reminder_at = None, gr_members = []\<rparr>],
             db_next_group := Suc (db_next_group d)\<rparr>, Inr (db_next_group d))))"

definition load_members :: "group_row \<Rightarrow> group_row" where
  "load_members g = g\<lparr>gr_members := sort_key gm_monitor_slug (gr_members g)\<rparr>"

definition FindOpenIncidentGroup :: "string \<Rightarrow> db \<Rightarrow> db \<times> (store_error + group_row option)" where
  "FindOpenIncidentGroup channel = db_call ''find open incident group'' (\<lambda>d.
     (d, Inr (map_option load_members
        (find (\<lambda>g. gr_channel_slug g = channel \<and> \<not> gr_closed g) (db_groups d)))))"

definition ListOpenIncidentGroups :: "db \<Rightarrow> db \<times> (store_error + group_row list)" where
  "ListOpenIncidentGroups = db_call ''list open incident groups'' (\<lambda>d.
     (d, Inr (map load_members (sort_key gr_id (filter (\<lambda>g. \<not> gr_closed g) (db_groups d))))))"

definition pg_member :: "group_member_row \<Rightarrow> group_member_row" where
  "pg_member m = m\<lparr>gm_joined_at := pg_time (gm_joined_at m), gm_down_since := pg_opt (gm_down_since m),
     gm_up_since := pg_opt (gm_up_since m), gm_changed_at := pg_time (gm_changed_at m)\<rparr>"

fun upsert_member :: "group_member_row \<Rightarrow> group_member_row list \<Rightarrow> group_member_row list" where
  "upsert_member m [] = [m]"
| "upsert_member m (x # xs) =
     (if gm_monitor_slug x = gm_monitor_slug m then m # xs else x # upsert_member m xs)"

definition save_row :: "group_row \<Rightarrow> group_row \<Rightarrow> group_row" where
  "save_row g old = old
     \<lparr>gr_digest_channel := gr_digest_channel g, gr_digest_ts := gr_digest_ts g,
      gr_posted := gr_posted g, gr_closed := gr_closed g,
      gr_last_flush_at := pg_opt (gr_last_flush_at g),
      gr_last_reminder_at := pg_opt (gr_last_reminder_at g),
      gr_members := fold (\<lambda>m. upsert_member (pg_member m)) (gr_members g) (gr_members old)\<rparr>"

text \<open>Without the header row the member inserts break their foreign key and the transaction fails.\<close>

definition SaveIncidentGroup :: "group_row \<Rightarrow> db \<Rightarrow> db \<times> (store_error + unit)" where
  "SaveIncidentGroup g = db_call ''save incident group'' (\<lambda>d.
    (if list_ex (\<lambda>old. gr_id old = gr_id g) (db_groups d)
     then (d\<lparr>db_groups := map (\<lambda>old. if gr_id old = gr_id g then save_row g old else old)
              (db_groups d)\<rparr>, Inr ())
     else if gr_members g = [] then (d, Inr ())
     else (d, Inl (DBError ''upsert group member''))))"

section \<open>Alertmanager incidents\<close>

record am_insert =
  ai_fingerprint :: string
  ai_alertname :: string
  ai_labels :: "(string, string) gomap"
  ai_annotations :: "(string, string) gomap"
  ai_started_at :: time
  ai_channel_slug :: string
  ai_rule_chain :: string
  ai_resolved_notify :: "string list"
  ai_external_url :: string
  ai_receiver :: string

definition am_open :: "string \<Rightarrow> am_incident \<Rightarrow> bool" where
  "am_open fp a \<longleftrightarrow> am_fingerprint a = fp \<and> am_ended_at a = None"

definition new_incident :: "am_insert \<Rightarrow> nat \<Rightarrow> am_incident" where
  "new_incident i n =
    \<lparr>am_id = n, am_fingerprint = ai_fingerprint i, am_alertname = ai_alertname i,
     am_labels = ai_labels i, am_annotations = ai_annotations i,
     am_started_at = pg_time (ai_started_at i), am_ended_at = None,
     am_channel_slug = ai_channel_slug i, am_slack_channel = [], am_slack_ts = [],
     am_rule_chain = ai_rule_chain i, am_resolved_notify = ai_resolved_notify i,
     am_external_url = ai_external_url i, am_receiver = ai_receiver i\<rparr>"

definition InsertOpenAMIncident ::
  "am_insert \<Rightarrow> db \<Rightarrow> db \<times> (store_error + am_incident \<times> bool)" where
  "InsertOpenAMIncident i = db_call ''insert am_alerts'' (\<lambda>d.
    (case find (am_open (ai_fingerprint i)) (db_am_alerts d) of
       Some a \<Rightarrow> (d\<lparr>db_next_am := Suc (db_next_am d)\<rparr>, Inr (a, False))
     | None \<Rightarrow> (let a = new_incident i (db_next_am d) in
         (d\<lparr>db_am_alerts := db_am_alerts d @ [a], db_next_am := Suc (db_next_am d)\<rparr>,
          Inr (a, True)))))"

definition UpdateAMSlackRef :: "nat \<Rightarrow> string \<Rightarrow> string \<Rightarrow> db \<Rightarrow> db \<times> (store_error + unit)" where
  "UpdateAMSlackRef i channel ts = db_call ''update am_alerts slack ref'' (\<lambda>d.
     (d\<lparr>db_am_alerts := map (\<lambda>a. if am_id a = i
          then a\<lparr>am_slack_channel := channel, am_slack_ts := ts\<rparr> else a) (db_am_alerts d)\<rparr>, Inr ()))"

definition MarkAMResolved :: "string \<Rightarrow> time \<Rightarrow> db \<Rightarrow> db \<times> (store_error + am_incident option)" where
  "MarkAMResolved fp ended_at = db_call ''mark am_alerts resolved'' (\<lambda>d.
    (case find (am_open fp) (db_am_alerts d) of
       None \<Rightarrow> (d, Inr None)
     | Some a \<Rightarrow> (d\<lparr>db_am_alerts := map (\<lambda>x. if am_open fp x
            then x\<lparr>am_ended_at := Some (pg_time ended_at)\<rparr> else x) (db_am_alerts d)\<rparr>,
         Inr (Some (a\<lparr>am_ended_at := Some (pg_time ended_at)\<rparr>)))))"

text \<open>An empty payload is refused before the database is asked; an unknown incident breaks the key.\<close>

definition AppendAMEvent :: "nat \<Rightarrow> am_event_type \<Rightarrow> string \<Rightarrow> db \<Rightarrow> db \<times> (store_error + unit)" where
  "AppendAMEvent i t payload d0 =
    (if payload = [] then (d0, Inl (DBError ''rawPayload is empty''))
     else db_call ''insert am_alert_events'' (\<lambda>d.
       (if list_ex (\<lambda>a. am_id a = i) (db_am_alerts d)
        then (d\<lparr>db_am_events := db_am_events d @ [\<lparr>av_id = db_next_am_event d, av_incident_id = i,
                 av_event_type = t, av_raw_payload = payload\<rparr>],
               db_next_am_event := Suc (db_next_am_event d)\<rparr>, Inr ())
        else (d, Inl (DBError ''insert am_alert_events'')))) d0)"

definition GetAMIncident :: "nat \<Rightarrow> db \<Rightarrow> db \<times> (store_error + am_incident option)" where
  "GetAMIncident i = db_call ''get am_alerts'' (\<lambda>d.
     (d, Inr (find (\<lambda>a. am_id a = i) (db_am_alerts d))))"

definition swept :: "time \<Rightarrow> am_incident \<Rightarrow> bool" where
  "swept cutoff a = (case am_ended_at a of None \<Rightarrow> False | Some t \<Rightarrow> t < pg_time cutoff)"

definition SweepAMResolved :: "time \<Rightarrow> db \<Rightarrow> db \<times> (store_error + nat)" where
  "SweepAMResolved cutoff = db_call ''sweep am_alerts'' (\<lambda>d.
    (let gone = filter (swept cutoff) (db_am_alerts d) in
     (d\<lparr>db_am_alerts := filter (\<lambda>a. \<not> swept cutoff a) (db_am_alerts d),
        db_am_events := filter (\<lambda>v. av_incident_id v \<notin> am_id ` set gone) (db_am_events d)\<rparr>,
      Inr (length gone))))"

section \<open>The alert table keeps its keys\<close>

definition am_ok :: "db \<Rightarrow> bool" where
  "am_ok d \<longleftrightarrow> distinct (map am_id (db_am_alerts d)) \<and>
     (\<forall>a \<in> set (db_am_alerts d). am_id a < db_next_am d) \<and>
     (\<forall>fp. length (filter (am_open fp) (db_am_alerts d)) \<le> 1) \<and>
     (\<forall>v \<in> set (db_am_events d). av_incident_id v \<in> am_id ` set (db_am_alerts d))"

definition am_lookup :: "db \<Rightarrow> string \<Rightarrow> am_incident option" where
  "am_lookup d fp = find (am_open fp) (db_am_alerts d)"

lemma am_ok_data:
  assumes "db_data d' = db_data d"
  shows "am_ok d' = am_ok d" "am_lookup d' fp = am_lookup d fp"
  by (simp_all add: am_ok_def am_lookup_def db_data_sel [OF assms])

lemma find_append: "find P (xs @ ys) = (case find P xs of None \<Rightarrow> find P ys | Some x \<Rightarrow> Some x)"
  by (induction xs) auto

lemma find_None_filter: "find P xs = None \<longleftrightarrow> filter P xs = []"
  by (induction xs) auto

lemma find_map_other:
  "(\<And>x. P (f x) = P x) \<Longrightarrow> find P (map f xs) = map_option f (find P xs)"
  by (induction xs) auto

lemma InsertOpen_ok:
  assumes ok: "am_ok d" and r: "InsertOpenAMIncident i d = (d', res)"
  shows "am_ok d' \<and> (case res of
      Inl _ \<Rightarrow> am_lookup d' = am_lookup d
    | Inr (a, True) \<Rightarrow> am_lookup d (ai_fingerprint i) = None \<and>
        am_lookup d' = (am_lookup d)(ai_fingerprint i \<mapsto> a) \<and> am_slack_ts a = []
    | Inr (a, False) \<Rightarrow> am_lookup d (ai_fingerprint i) = Some a \<and> am_lookup d' = am_lookup d)"
  using r [unfolded InsertOpenAMIncident_def]
proof (cases rule: db_call_elim)
  case fault
  then show ?thesis using am_ok_data [OF fault(2)] ok by (auto simp: fun_eq_iff)
next
  case (runs d1)
  note s = am_ok_data [OF runs(1)]
  from ok s have ok1: "am_ok d1" by simp
  have lk: "am_lookup d1 = am_lookup d" using s by (simp add: fun_eq_iff)
  show ?thesis
  proof (cases "find (am_open (ai_fingerprint i)) (db_am_alerts d1)")
    case (Some a)
    then have "d' = d1\<lparr>db_next_am := Suc (db_next_am d1)\<rparr>" "res = Inr (a, False)"
      using runs(2) by simp_all
    moreover have "am_ok (d1\<lparr>db_next_am := Suc (db_next_am d1)\<rparr>)"
      using ok1 by (auto simp: am_ok_def less_Suc_eq)
    ultimately show ?thesis
      using Some lk by (auto simp: am_lookup_def fun_eq_iff)
  next
    case None
    let ?a = "new_incident i (db_next_am d1)"
    from None have d': "d' = d1\<lparr>db_am_alerts := db_am_alerts d1 @ [?a],
        db_next_am := Suc (db_next_am d1)\<rparr>" and res: "res = Inr (?a, True)"
      using runs(2) by (auto simp: Let_def)
    have none: "filter (am_open (ai_fingerprint i)) (db_am_alerts d1) = []"
      using None by (simp add: find_None_filter)
    have op: "am_open fp ?a \<longleftrightarrow> fp = ai_fingerprint i" for fp
      by (auto simp: am_open_def new_incident_def)
    have "am_ok d'"
    proof -
      have "length (filter (am_open fp) (db_am_alerts d1 @ [?a])) \<le> 1" for fp
        using ok1 none op [of fp] by (cases "fp = ai_fingerprint i") (auto simp: am_ok_def)
      moreover have "am_id ?a = db_next_am d1" by (simp add: new_incident_def)
      ultimately show ?thesis
        using ok1 unfolding am_ok_def d' by (auto simp: less_Suc_eq)
    qed
    moreover have "am_lookup d' = (am_lookup d1)(ai_fingerprint i \<mapsto> ?a)"
      using None op by (auto simp: am_lookup_def d' find_append fun_eq_iff split: option.splits)
    ultimately show ?thesis
      using res lk None by (simp add: am_lookup_def new_incident_def) (metis am_lookup_def)
  qed
qed

lemma am_map_ok:
  assumes ok: "am_ok d" and id: "\<And>x. am_id (f x) = am_id x"
    and op: "\<And>fp x. am_open fp (f x) \<Longrightarrow> am_open fp x"
  shows "am_ok (d\<lparr>db_am_alerts := map f (db_am_alerts d)\<rparr>)"
proof -
  have "length (filter (am_open fp) (map f xs)) \<le> length (filter (am_open fp) xs)" for fp xs
    by (induction xs) (auto dest: op)
  then have "\<forall>fp. length (filter (am_open fp) (map f (db_am_alerts d))) \<le> 1"
    using ok unfolding am_ok_def by (meson order_trans)
  moreover have "map am_id (map f xs) = map am_id xs" for xs by (simp add: id)
  ultimately show ?thesis
    using ok unfolding am_ok_def by (simp add: id image_image del: map_map)
qed

lemma UpdateAMSlackRef_ok:
  assumes ok: "am_ok d" and r: "UpdateAMSlackRef n ch ts d = (d', res)"
  shows "am_ok d' \<and> (case res of
      Inl _ \<Rightarrow> am_lookup d' = am_lookup d
    | Inr _ \<Rightarrow> am_lookup d' = (\<lambda>fp. map_option (\<lambda>a. if am_id a = n
        then a\<lparr>am_slack_channel := ch, am_slack_ts := ts\<rparr> else a) (am_lookup d fp)))"
  using r [unfolded UpdateAMSlackRef_def]
proof (cases rule: db_call_elim)
  case fault
  then show ?thesis using am_ok_data [OF fault(2)] ok by (auto simp: fun_eq_iff)
next
  case (runs d1)
  note s = am_ok_data [OF runs(1)]
  have "am_ok (d1\<lparr>db_am_alerts := map (\<lambda>a. if am_id a = n
          then a\<lparr>am_slack_channel := ch, am_slack_ts := ts\<rparr> else a) (db_am_alerts d1)\<rparr>)"
    using ok s by (intro am_map_ok) (auto simp: am_open_def split: if_splits)
  moreover have "find (am_open fp) (map (\<lambda>a. if am_id a = n
          then a\<lparr>am_slack_channel := ch, am_slack_ts := ts\<rparr> else a) (db_am_alerts d1)) =
      map_option (\<lambda>a. if am_id a = n then a\<lparr>am_slack_channel := ch, am_slack_ts := ts\<rparr> else a)
        (am_lookup d fp)" for fp
    using s(2) [of fp] by (subst find_map_other) (auto simp: am_open_def am_lookup_def)
  ultimately show ?thesis using runs(2) by (auto simp: am_lookup_def fun_eq_iff)
qed

lemma MarkAMResolved_ok:
  assumes ok: "am_ok d" and r: "MarkAMResolved fp t d = (d', res)"
  shows "am_ok d' \<and> (case res of
      Inl _ \<Rightarrow> am_lookup d' = am_lookup d
    | Inr None \<Rightarrow> am_lookup d fp = None \<and> am_lookup d' = am_lookup d
    | Inr (Some a) \<Rightarrow> am_lookup d fp = Some (a\<lparr>am_ended_at := None\<rparr>) \<and>
        am_ended_at a = Some (pg_time t) \<and> am_lookup d' = (am_lookup d)(fp := None))"
  using r [unfolded MarkAMResolved_def]
proof (cases rule: db_call_elim)
  case fault
  then show ?thesis using am_ok_data [OF fault(2)] ok by (auto simp: fun_eq_iff)
next
  case (runs d1)
  note s = am_ok_data [OF runs(1)]
  let ?f = "\<lambda>x. if am_open fp x then x\<lparr>am_ended_at := Some (pg_time t)\<rparr> else x"
  show ?thesis
  proof (cases "find (am_open fp) (db_am_alerts d1)")
    case None
    then show ?thesis using runs(2) s ok by (auto simp: am_lookup_def fun_eq_iff)
  next
    case (Some a)
    have ok': "am_ok (d1\<lparr>db_am_alerts := map ?f (db_am_alerts d1)\<rparr>)"
      using ok s by (intro am_map_ok) (auto simp: am_open_def split: if_splits)
    have "am_open fp' (?f x) \<longleftrightarrow> fp' \<noteq> fp \<and> am_open fp' x"
      and "am_open fp' x \<Longrightarrow> fp' \<noteq> fp \<Longrightarrow> ?f x = x" for fp' x
      by (auto simp: am_open_def)
    then have "find (am_open fp') (map ?f xs) = (if fp' = fp then None else find (am_open fp') xs)"
      for fp' xs
      by (induction xs) auto
    moreover have "am_open fp a" using Some by (auto simp: find_Some_iff)
    then have "a\<lparr>am_ended_at := None\<rparr> = a" by (cases a) (simp add: am_open_def)
    ultimately show ?thesis
      using Some runs(2) s ok' by (auto simp: am_lookup_def fun_eq_iff)
  qed
qed

section \<open>The contract of the alert table\<close>

text \<open>
  What the webhook handler needs to know of the table: at most one open incident per fingerprint is
  visible through \<open>lookup\<close>; inserting finds it or makes it, resolving takes it away.
\<close>

locale am_store =
  fixes ins :: "'i \<Rightarrow> 'd \<Rightarrow> 'd \<times> ('e + 'a \<times> bool)"
    and ref :: "nat \<Rightarrow> string \<Rightarrow> string \<Rightarrow> 'd \<Rightarrow> 'd \<times> ('e + unit)"
    and mark :: "string \<Rightarrow> time \<Rightarrow> 'd \<Rightarrow> 'd \<times> ('e + 'a option)"
    and fp_of :: "'i \<Rightarrow> string"
    and ident :: "'a \<Rightarrow> nat"
    and thread :: "'a \<Rightarrow> string"
    and with_ref :: "string \<Rightarrow> string \<Rightarrow> 'a \<Rightarrow> 'a"
    and ok :: "'d \<Rightarrow> bool"
    and lookup :: "'d \<Rightarrow> string \<Rightarrow> 'a option"
  assumes ins_law: "ok d \<Longrightarrow> ins i d = (d', Inr (a, b)) \<Longrightarrow>
      ok d' \<and> lookup d' (fp_of i) = Some a \<and> (b \<longleftrightarrow> lookup d (fp_of i) = None) \<and>
      (\<not> b \<longrightarrow> lookup d (fp_of i) = Some a) \<and> (b \<longrightarrow> thread a = [])"
    and ref_law: "ok d \<Longrightarrow> ref n ch ts d = (d', Inr u) \<Longrightarrow>
      ok d' \<and> lookup d' fp = map_option (\<lambda>a. if ident a = n then with_ref ch ts a else a) (lookup d fp)"
    and mark_law: "ok d \<Longrightarrow> mark fp t d = (d', Inr r) \<Longrightarrow>
      ok d' \<and> lookup d' fp = None \<and> (r = None \<longleftrightarrow> lookup d fp = None)"
    and thread_with_ref: "thread (with_ref ch ts a) = ts"
begin

lemma reinsert_finds:
  assumes "ok d" "ins i d = (d1, Inr (a, b))" "ins j d1 = (d2, Inr (a', b'))" "fp_of j = fp_of i"
  shows "a' = a \<and> \<not> b'"
  using ins_law [OF assms(1,2)] ins_law [OF _ assms(3)] assms(4) by auto

lemma reinsert_finds_thread:
  assumes "ok d" "ins i d = (d1, Inr (a, b))" "ref (ident a) ch ts d1 = (d2, Inr u)"
    and "ins j d2 = (d3, Inr (a', b'))" "fp_of j = fp_of i"
  shows "thread a' = ts \<and> \<not> b'"
proof -
  from ins_law [OF assms(1,2)] have "ok d1" "lookup d1 (fp_of i) = Some a" by simp_all
  with ref_law [OF _ assms(3)] have "ok d2" "lookup d2 (fp_of i) = Some (with_ref ch ts a)" by auto
  with ins_law [OF _ assms(4)] assms(5) have "a' = with_ref ch ts a" "\<not> b'" by auto
  then show ?thesis by (simp add: thread_with_ref)
qed

lemma resolve_then_reopen:
  assumes "ok d" "mark fp t d = (d1, Inr r)" "ins i d1 = (d2, Inr (a, b))" "fp_of i = fp"
  shows "b \<and> thread a = []"
  using mark_law [OF assms(1,2)] ins_law [OF _ assms(3)] assms(4) by auto

lemma resolve_twice:
  assumes "ok d" "mark fp t d = (d1, Inr r)" "mark fp t' d1 = (d2, Inr r')"
  shows "r' = None"
  using mark_law [OF assms(1,2)] mark_law [OF _ assms(3)] by auto

end

interpretation am_table: am_store InsertOpenAMIncident UpdateAMSlackRef MarkAMResolved
  ai_fingerprint am_id am_slack_ts "\<lambda>ch ts a. a\<lparr>am_slack_channel := ch, am_slack_ts := ts\<rparr>" am_ok am_lookup
proof unfold_locales
  fix d d' :: db and i :: am_insert and a b
  assume "am_ok d" "InsertOpenAMIncident i d = (d', Inr (a, b))"
  from InsertOpen_ok [OF this]
  show "am_ok d' \<and> am_lookup d' (ai_fingerprint i) = Some a \<and> (b \<longleftrightarrow> am_lookup d (ai_fingerprint i) = None) \<and>
      (\<not> b \<longrightarrow> am_lookup d (ai_fingerprint i) = Some a) \<and> (b \<longrightarrow> am_slack_ts a = [])"
    by (cases b) auto
next
  fix d d' :: db and n ch ts u fp
  assume "am_ok d" "UpdateAMSlackRef n ch ts d = (d', Inr u)"
  from UpdateAMSlackRef_ok [OF this]
  show "am_ok d' \<and> am_lookup d' fp = map_option (\<lambda>a. if am_id a = n
      then a\<lparr>am_slack_channel := ch, am_slack_ts := ts\<rparr> else a) (am_lookup d fp)"
    by simp
next
  fix d d' :: db and fp t r
  assume "am_ok d" "MarkAMResolved fp t d = (d', Inr r)"
  from MarkAMResolved_ok [OF this]
  show "am_ok d' \<and> am_lookup d' fp = None \<and> (r = None \<longleftrightarrow> am_lookup d fp = None)"
    by (cases r) auto
qed simp

end
