(* ===== verification/Coalesce.thy ===== *)
theory Coalesce
  imports Group Store_Incidents
begin

text \<open>
  The coalescing manager of \<^verbatim>\<open>internal/coalesce\<close>: the per-channel dispatcher (individual, pending,
  group), the pending pools, the promotion to a channel incident and the central evaluator.

  The world holds the manager, the database, the clock and the calls made to the two outside
  seams: the Slack poster and the per-monitor sink.  The answer of Slack to the next digest post is
  the head of \<open>w_answers\<close> (an empty list answers with an error); other answers are only logged by
  the code.  A stretch of code that holds the mutex is one step.  The on-demand parent probe is a
  transformation of the world given as an argument; since the lock is free while it runs, it also
  stands for whatever other steps happen meanwhile.
\<close>

section \<open>Data\<close>

record member_info =
  mi_slug :: string
  mi_friendly_name :: string
  mi_mentions :: "string list"
  mi_detail_url :: string

record entry =
  en_member :: member_info
  en_row :: "monitor_row option" \<comment> \<open>\<^verbatim>\<open>None\<close> is the zero row of the \<^verbatim>\<open>Down\<close> shim\<close>
  en_event :: "event option"
  en_mentions :: "string list"

datatype channel_mode = modeIndividual | modePending | modeGroup

record pending_entry =
  pe_entry :: entry
  pe_entered_at :: time

record channel_state =
  cs_mode :: channel_mode
  cs_pending :: "(string, pending_entry) gomap"
  cs_pending_due :: time
  cs_down :: "(string, time) gomap"
  cs_individual :: "string list"

record live_group =
  lg_id :: nat
  lg_g :: group
  lg_info :: "(string, member_info) gomap"

record manager =
  mg_has_sink :: bool
  mg_has_probe :: bool
  mg_cfg :: config
  mg_pending_wait :: duration
  mg_burst_threshold :: int
  mg_burst_window :: duration
  mg_group_mention :: string
  mg_groups :: "(string, live_group) gomap"
  mg_channels :: "(string, channel_state) gomap"

definition NewManager :: "bool \<Rightarrow> config \<Rightarrow> duration \<Rightarrow> int \<Rightarrow> duration \<Rightarrow> string \<Rightarrow> manager" where
  "NewManager has_sink cfg pending_wait threshold burst_window mention =
    (let pw = (if pending_wait \<le> 0 then 30 * second else pending_wait);
         bw = (if burst_window \<le> 0 then 5 * minute else burst_window);
         bw = (if bw < pw then pw else bw) in
     \<lparr>mg_has_sink = has_sink, mg_has_probe = False, mg_cfg = cfg, mg_pending_wait = pw,
      mg_burst_threshold = threshold, mg_burst_window = bw, mg_group_mention = mention,
      mg_groups = [], mg_channels = []\<rparr>)"

definition SinkWired :: "manager \<Rightarrow> bool" where
  "SinkWired m = mg_has_sink m"

definition SetOnDemandParentProbe :: "manager \<Rightarrow> manager" where
  "SetOnDemandParentProbe m = m\<lparr>mg_has_probe := True\<rparr>"

section \<open>What is sent\<close>

datatype row_class = RowActive | RowRecovered | RowPaused

record digest_row =
  dr_name :: string
  dr_class :: row_class
  dr_detail_url :: string

record digest_input =
  di_down :: nat
  di_recovered :: nat
  di_total :: nat
  di_opened_at :: time
  di_rows :: "digest_row list"
  di_mentions :: "string list"
  di_closed :: bool
  di_downtime :: duration

record delta_input =
  dd_newly_down :: "string list"
  dd_recovered :: "string list"
  dd_flapped :: "string list"
  dd_paused :: "string list"
  dd_mentions :: "string list"

datatype reply =
    ReplyDelta delta_input
  | ReplyReminder nat duration "string list"
  | ReplyClose duration nat

datatype call =
    CallPostDigest string digest_input "(string \<times> string) option"
  | CallUpdateDigest string string digest_input
  | CallReply string string reply
  | CallSink string entry

record world =
  w_db :: db
  w_mgr :: manager
  w_now :: time
  w_calls :: "call list"
  w_answers :: "(string \<times> string) option list"

definition send :: "call \<Rightarrow> world \<Rightarrow> world" where
  "send c w = w\<lparr>w_calls := w_calls w @ [c]\<rparr>"

definition take_answer :: "world \<Rightarrow> (string \<times> string) option \<times> world" where
  "take_answer w = (case w_answers w of [] \<Rightarrow> (None, w) | a # as \<Rightarrow> (a, w\<lparr>w_answers := as\<rparr>))"

section \<open>Rendering inputs\<close>

definition broadcastMarker :: "manager \<Rightarrow> string" where
  "broadcastMarker m =
    (if mg_group_mention m = ''channel'' then ''<!channel>''
     else if mg_group_mention m = ''here'' then ''<!here>'' else [])"

definition displayName :: "live_group \<Rightarrow> string \<Rightarrow> string" where
  "displayName lg slug = (case gm_get (lg_info lg) slug of
      Some info \<Rightarrow> if mi_friendly_name info \<noteq> [] then mi_friendly_name info else slug
    | None \<Rightarrow> slug)"

definition names :: "live_group \<Rightarrow> string list \<Rightarrow> string list" where
  "names lg slugs = (if slugs = [] then [] else map (displayName lg) slugs)"

definition mentions_of :: "live_group \<Rightarrow> string \<Rightarrow> string list" where
  "mentions_of lg s = (case gm_get (lg_info lg) s of None \<Rightarrow> [] | Some i \<Rightarrow> mi_mentions i)"

definition unionMentions :: "live_group \<Rightarrow> string list \<Rightarrow> string list" where
  "unionMentions lg slugs = dedup_from [] (concat (map (mentions_of lg) slugs))"

definition unionMentionsWithBroadcast :: "manager \<Rightarrow> live_group \<Rightarrow> string list \<Rightarrow> string list" where
  "unionMentionsWithBroadcast m lg slugs =
    (let owners = unionMentions lg slugs; marker = broadcastMarker m in
     if marker = [] then owners else marker # owners)"

fun rowClass :: "member_state \<Rightarrow> row_class" where
  "rowClass MemberRecovered = RowRecovered"
| "rowClass MemberPaused = RowPaused"
| "rowClass _ = RowActive"

definition buildParent :: "manager \<Rightarrow> time \<Rightarrow> live_group \<Rightarrow> bool \<Rightarrow> bool \<Rightarrow> digest_input" where
  "buildParent m now lg closed with_mentions =
    (let sb = Scoreboard (lg_g lg) in
     \<lparr>di_down = ct_down sb, di_recovered = ct_recovered sb, di_total = ct_total sb,
      di_opened_at = g_opened_at (lg_g lg),
      di_rows = map (\<lambda>(slug, mem). \<lparr>dr_name = displayName lg slug, dr_class = rowClass (m_state mem),
          dr_detail_url = (case gm_get (lg_info lg) slug of None \<Rightarrow> [] | Some i \<Rightarrow> mi_detail_url i)\<rparr>)
        (g_members (lg_g lg)),
      di_mentions = (if with_mentions then unionMentionsWithBroadcast m lg (DownSlugs (lg_g lg)) else []),
      di_closed = closed,
      di_downtime = (if closed then time_sub now (g_opened_at (lg_g lg)) else 0)\<rparr>)"

definition deltaInput :: "live_group \<Rightarrow> delta \<Rightarrow> delta_input" where
  "deltaInput lg d =
    \<lparr>dd_newly_down = names lg (d_newly_down d), dd_recovered = names lg (d_recovered d),
     dd_flapped = names lg (d_flapped d), dd_paused = names lg (d_paused d),
     dd_mentions = unionMentions lg (d_newly_down d)\<rparr>"

definition has_delta_blocks :: "delta_input \<Rightarrow> bool" where
  "has_delta_blocks d \<longleftrightarrow> dd_mentions d \<noteq> [] \<or> dd_newly_down d \<noteq> [] \<or> dd_recovered d \<noteq> []
     \<or> dd_flapped d \<noteq> [] \<or> dd_paused d \<noteq> []"

section \<open>Conversion to and from the persisted row\<close>

definition timePtr :: "time \<Rightarrow> time option" where
  "timePtr t = (if is_zero t then None else Some t)"

definition derefTime :: "time option \<Rightarrow> time" where
  "derefTime t = (case t of None \<Rightarrow> zero_time | Some t \<Rightarrow> t)"

fun state_string :: "member_state \<Rightarrow> string" where
  "state_string MemberDown = ''down''"
| "state_string MemberRecovering = ''recovering''"
| "state_string MemberRecovered = ''recovered''"
| "state_string MemberPaused = ''paused''"
| "state_string (MemberOther s) = s"

definition parse_state :: "string \<Rightarrow> member_state" where
  "parse_state s =
    (if s = ''down'' then MemberDown else if s = ''recovering'' then MemberRecovering
     else if s = ''recovered'' then MemberRecovered else if s = ''paused'' then MemberPaused
     else MemberOther s)"

definition member_row :: "member \<Rightarrow> group_member_row" where
  "member_row mem = \<lparr>gm_monitor_slug = m_slug mem, gm_state = state_string (m_state mem),
     gm_joined_at = m_joined_at mem, gm_down_since = timePtr (m_down_since mem),
     gm_up_since = timePtr (m_up_since mem), gm_changed_at = m_changed_at mem,
     gm_rendered = m_rendered mem\<rparr>"

definition row_member :: "group_member_row \<Rightarrow> member" where
  "row_member r = \<lparr>m_slug = gm_monitor_slug r, m_state = parse_state (gm_state r),
     m_joined_at = gm_joined_at r, m_down_since = derefTime (gm_down_since r),
     m_up_since = derefTime (gm_up_since r), m_changed_at = gm_changed_at r,
     m_rendered = gm_rendered r\<rparr>"

definition toRow :: "live_group \<Rightarrow> group_row" where
  "toRow lg = (let g = lg_g lg in
    \<lparr>gr_id = lg_id lg, gr_channel_slug = g_channel g, gr_opened_at = g_opened_at g,
     gr_digest_channel = g_digest_channel g, gr_digest_ts = g_digest_ts g, gr_posted = g_posted g,
     gr_closed = g_closed g, gr_last_flush_at = timePtr (g_last_flush_at g),
     gr_last_reminder_at = timePtr (g_last_reminder_at g),
     gr_members = map (member_row \<circ> snd) (g_members g)\<rparr>)"

definition fromRow :: "config \<Rightarrow> group_row \<Rightarrow> live_group" where
  "fromRow cfg r =
    (let g = (Group.New (gr_channel_slug r) (gr_opened_at r) cfg)
       \<lparr>g_digest_channel := gr_digest_channel r, g_digest_ts := gr_digest_ts r,
        g_posted := gr_posted r, g_closed := gr_closed r,
        g_last_flush_at := derefTime (gr_last_flush_at r),
        g_last_reminder_at := derefTime (gr_last_reminder_at r),
        g_members := fold (\<lambda>mr. gm_put (gm_monitor_slug mr) (row_member mr)) (gr_members r) []\<rparr>
     in \<lparr>lg_id = gr_id r, lg_g = g, lg_info = []\<rparr>)"

section \<open>Channel bookkeeping\<close>

definition markDown :: "string \<Rightarrow> time \<Rightarrow> channel_state \<Rightarrow> channel_state" where
  "markDown slug at cs = cs\<lparr>cs_down := gm_put slug at (cs_down cs)\<rparr>"

definition pruneDown :: "time \<Rightarrow> duration \<Rightarrow> channel_state \<Rightarrow> channel_state" where
  "pruneDown now window cs =
     cs\<lparr>cs_down := filter (\<lambda>(slug, at). \<not> window \<le> time_sub now at) (cs_down cs)\<rparr>"

definition forgetDown :: "string \<Rightarrow> channel_state \<Rightarrow> channel_state" where
  "forgetDown slug cs = cs\<lparr>cs_down := gm_del slug (cs_down cs)\<rparr>"

definition clearDown :: "string \<Rightarrow> channel_state \<Rightarrow> channel_state" where
  "clearDown slug cs = (forgetDown slug cs)\<lparr>cs_individual := filter (\<lambda>s. s \<noteq> slug) (cs_individual cs)\<rparr>"

definition ownedByIndividual :: "string \<Rightarrow> channel_state \<Rightarrow> bool" where
  "ownedByIndividual slug cs \<longleftrightarrow> slug \<in> set (cs_individual cs)"

definition takeIndividual :: "string \<Rightarrow> channel_state \<Rightarrow> channel_state" where
  "takeIndividual slug cs = cs\<lparr>cs_individual := List.insert slug (cs_individual cs)\<rparr>"

definition settle :: "channel_mode \<Rightarrow> channel_state \<Rightarrow> channel_state" where
  "settle mode cs = cs\<lparr>cs_mode := mode, cs_pending := [], cs_pending_due := zero_time\<rparr>"

text \<open>Taking a monitor out of the pool; the pool that empties ends the pending window.\<close>

definition drop_pending :: "string \<Rightarrow> channel_state \<Rightarrow> channel_state" where
  "drop_pending slug cs =
    (let cs = cs\<lparr>cs_pending := gm_del slug (cs_pending cs)\<rparr> in
     if cs_pending cs = [] then settle modeIndividual cs else cs)"

definition fresh_channel :: channel_state where
  "fresh_channel = \<lparr>cs_mode = modeIndividual, cs_pending = [], cs_pending_due = zero_time,
     cs_down = [], cs_individual = []\<rparr>"

definition channelStateFor :: "string \<Rightarrow> manager \<Rightarrow> channel_state" where
  "channelStateFor channel m =
    (let cs = (case gm_get (mg_channels m) channel of None \<Rightarrow> fresh_channel | Some cs \<Rightarrow> cs) in
     if gm_get (mg_groups m) channel \<noteq> None \<and> cs_mode cs \<noteq> modeGroup
     then cs\<lparr>cs_mode := modeGroup\<rparr> else cs)"

definition put_channel :: "string \<Rightarrow> channel_state \<Rightarrow> world \<Rightarrow> world" where
  "put_channel channel cs w =
     w\<lparr>w_mgr := (w_mgr w)\<lparr>mg_channels := gm_put channel cs (mg_channels (w_mgr w))\<rparr>\<rparr>"

definition put_group :: "string \<Rightarrow> live_group \<Rightarrow> world \<Rightarrow> world" where
  "put_group channel lg w =
     w\<lparr>w_mgr := (w_mgr w)\<lparr>mg_groups := gm_put channel lg (mg_groups (w_mgr w))\<rparr>\<rparr>"

definition del_group :: "string \<Rightarrow> world \<Rightarrow> world" where
  "del_group channel w =
     w\<lparr>w_mgr := (w_mgr w)\<lparr>mg_groups := gm_del channel (mg_groups (w_mgr w))\<rparr>\<rparr>"

definition digestOwns :: "string \<Rightarrow> string \<Rightarrow> manager \<Rightarrow> bool" where
  "digestOwns channel slug m = (case gm_get (mg_groups m) channel of
      None \<Rightarrow> False | Some lg \<Rightarrow> gm_get (g_members (lg_g lg)) slug \<noteq> None)"

end
