(* ===== verification/Dispatch.thy ===== *)
theory Dispatch
  imports Coalesce
begin

text \<open>
  The operations of the coalescing manager: staging, routing by channel mode, expiry of the pending
  pools, promotion, and the evaluator that turns an incident's actions into Slack calls and saves
  every step.
\<close>

section \<open>Slack actions of a live group\<close>

definition postDigest :: "bool \<Rightarrow> live_group \<times> world \<Rightarrow> live_group \<times> world" where
  "postDigest closed lw =
    (let (lg, w) = lw; (answer, w1) = take_answer w;
         w2 = send (CallPostDigest (g_channel (lg_g lg))
                (buildParent (w_mgr w) (w_now w) lg closed True) answer) w1 in
     case answer of
       None \<Rightarrow> (lg, w2)
     | Some (chID, ts) \<Rightarrow>
         (lg\<lparr>lg_g := (lg_g lg)\<lparr>g_digest_channel := chID, g_digest_ts := ts\<rparr>\<rparr>, w2))"

definition ensurePosted :: "live_group \<times> world \<Rightarrow> live_group \<times> world" where
  "ensurePosted lw = (if g_digest_ts (lg_g (fst lw)) = [] then postDigest False lw else lw)"

definition editDigest :: "bool \<Rightarrow> live_group \<times> world \<Rightarrow> live_group \<times> world" where
  "editDigest closed lw =
    (let (lg, w) = lw in
     if g_digest_ts (lg_g lg) = [] then (lg, w)
     else (lg, send (CallUpdateDigest (g_channel (lg_g lg)) (g_digest_ts (lg_g lg))
             (buildParent (w_mgr w) (w_now w) lg closed False)) w))"

definition send_reply :: "reply \<Rightarrow> live_group \<times> world \<Rightarrow> live_group \<times> world" where
  "send_reply r lw =
    (let (lg, w) = lw in
     if g_digest_ts (lg_g lg) = [] then (lg, w)
     else (lg, send (CallReply (g_channel (lg_g lg)) (g_digest_ts (lg_g lg)) r) w))"

definition run_action :: "time \<Rightarrow> action \<Rightarrow> live_group \<times> world \<Rightarrow> (live_group \<times> world) \<times> bool" where
  "run_action now a lw = (case ac_kind a of
      ActionDiscard \<Rightarrow> (lw, True)
    | ActionPostDigest \<Rightarrow> (postDigest False lw, False)
    | ActionUpdate \<Rightarrow>
        (let lw = editDigest False (ensurePosted lw); d = deltaInput (fst lw) (ac_delta a) in
         (if has_delta_blocks d then send_reply (ReplyDelta d) lw else lw, False))
    | ActionRemind \<Rightarrow>
        (let lw = ensurePosted lw; lg = fst lw; sb = Scoreboard (lg_g lg) in
         (send_reply (ReplyReminder (ct_down sb) (time_sub now (g_opened_at (lg_g lg)))
            (unionMentionsWithBroadcast (w_mgr (snd lw)) lg (DownSlugs (lg_g lg)))) lw, False))
    | ActionClose \<Rightarrow>
        (let lw = editDigest True (ensurePosted lw); lg = fst lw; sb = Scoreboard (lg_g lg) in
         (send_reply (ReplyClose (time_sub now (g_opened_at (lg_g lg))) (ct_recovered sb)) lw, True))
    | ActionNone \<Rightarrow> (lw, False))"

fun dispatch :: "time \<Rightarrow> action list \<Rightarrow> live_group \<times> world \<Rightarrow> (live_group \<times> world) \<times> bool" where
  "dispatch now [] lw = (lw, False)"
| "dispatch now (a # as) lw =
    (let (lw1, r1) = run_action now a lw; (lw2, r2) = dispatch now as lw1 in (lw2, r1 \<or> r2))"

definition save_group :: "live_group \<Rightarrow> world \<Rightarrow> world" where
  "save_group lg w = w\<lparr>w_db := fst (SaveIncidentGroup (toRow lg) (w_db w))\<rparr>"

section \<open>Finding or creating the channel's group\<close>

definition ensureGroup :: "string \<Rightarrow> time \<Rightarrow> world \<Rightarrow> live_group option \<times> world" where
  "ensureGroup channel at w =
    (case gm_get (mg_groups (w_mgr w)) channel of
       Some lg \<Rightarrow> (Some lg, w)
     | None \<Rightarrow>
    (case FindOpenIncidentGroup channel (w_db w) of (d1, found) \<Rightarrow>
    (let w1 = w\<lparr>w_db := d1\<rparr>;
         create = (case CreateIncidentGroup channel at d1 of
             (d2, Inl _) \<Rightarrow> (None, w1\<lparr>w_db := d2\<rparr>)
           | (d2, Inr i) \<Rightarrow>
               (let lg = \<lparr>lg_id = i, lg_g = Group.New channel at (mg_cfg (w_mgr w)), lg_info = []\<rparr> in
                (Some lg, put_group channel lg (w1\<lparr>w_db := d2\<rparr>)))) in
     case found of
       Inr (Some row) \<Rightarrow>
         (let lg = fromRow (mg_cfg (w_mgr w)) row in (Some lg, put_group channel lg w1))
     | _ \<Rightarrow> create)))"

definition Reattach :: "world \<Rightarrow> world \<times> (store_error + unit)" where
  "Reattach w = (case ListOpenIncidentGroups (w_db w) of
      (d, Inl e) \<Rightarrow> (w\<lparr>w_db := d\<rparr>, Inl e)
    | (d, Inr rows) \<Rightarrow>
        (fold (\<lambda>row. put_group (gr_channel_slug row) (fromRow (mg_cfg (w_mgr w)) row)) rows
           (w\<lparr>w_db := d\<rparr>), Inr ()))"

section \<open>Staging and routing\<close>

definition on_group :: "string \<Rightarrow> (group \<Rightarrow> group) \<Rightarrow> world \<Rightarrow> world" where
  "on_group channel f w = (case gm_get (mg_groups (w_mgr w)) channel of
      None \<Rightarrow> w | Some lg \<Rightarrow> put_group channel (lg\<lparr>lg_g := f (lg_g lg)\<rparr>) w)"

definition Up :: "string \<Rightarrow> string \<Rightarrow> time \<Rightarrow> world \<Rightarrow> world" where
  "Up channel slug at w =
    (let cs = clearDown slug (channelStateFor channel (w_mgr w)) in
     case cs_mode cs of
       modeGroup \<Rightarrow> on_group channel (MarkUp slug at) (put_channel channel cs w)
     | modePending \<Rightarrow> put_channel channel (drop_pending slug cs) w
     | modeIndividual \<Rightarrow> put_channel channel cs w)"

definition Pause :: "string \<Rightarrow> string \<Rightarrow> time \<Rightarrow> world \<Rightarrow> world" where
  "Pause channel slug at w =
    (let cs = forgetDown slug (channelStateFor channel (w_mgr w)) in
     case cs_mode cs of
       modeGroup \<Rightarrow> on_group channel (MarkPaused slug at) (put_channel channel cs w)
     | modePending \<Rightarrow> put_channel channel (drop_pending slug cs) w
     | modeIndividual \<Rightarrow> put_channel channel cs w)"

definition flushSink :: "string \<Rightarrow> entry \<Rightarrow> world \<Rightarrow> world" where
  "flushSink channel e w = (if mg_has_sink (w_mgr w) then send (CallSink channel e) w else w)"

definition routeOpen :: "string \<Rightarrow> entry \<Rightarrow> event \<Rightarrow> world \<Rightarrow> world" where
  "routeOpen channel e ev w =
    (let slug = mi_slug (en_member e);
         cs = markDown slug (e_at ev) (channelStateFor channel (w_mgr w));
         pe = \<lparr>pe_entry = e, pe_entered_at = e_at ev\<rparr> in
     case cs_mode cs of
       modeGroup \<Rightarrow>
         (case ensureGroup channel (e_at ev) (put_channel channel cs w) of
            (None, w1) \<Rightarrow> w1
          | (Some lg, w1) \<Rightarrow> put_group channel
              (lg\<lparr>lg_info := gm_put slug (en_member e) (lg_info lg),
                  lg_g := MarkDown slug (e_at ev) (lg_g lg)\<rparr>) w1)
     | modeIndividual \<Rightarrow> put_channel channel
         (cs\<lparr>cs_mode := modePending, cs_pending := [(slug, pe)],
             cs_pending_due := e_at ev + mg_pending_wait (w_mgr w)\<rparr>) w
     | modePending \<Rightarrow> put_channel channel (cs\<lparr>cs_pending := gm_put slug pe (cs_pending cs)\<rparr>) w)"

definition routeResolve :: "string \<Rightarrow> entry \<Rightarrow> event \<Rightarrow> world \<Rightarrow> world" where
  "routeResolve channel e ev w =
    (let slug = mi_slug (en_member e);
         cs0 = channelStateFor channel (w_mgr w);
         cs = clearDown slug cs0;
         w1 = put_channel channel cs w in
     if ownedByIndividual slug cs0 then flushSink channel e w1
     else (case cs_mode cs of
       modeGroup \<Rightarrow>
         (if \<not> digestOwns channel slug (w_mgr w1) then flushSink channel e w1
          else on_group channel (MarkUp slug (e_at ev)) w1)
     | modePending \<Rightarrow> put_channel channel (drop_pending slug cs) w
     | modeIndividual \<Rightarrow> flushSink channel e w1))"

definition routeReminder :: "string \<Rightarrow> entry \<Rightarrow> world \<Rightarrow> world" where
  "routeReminder channel e w =
    (let slug = mi_slug (en_member e);
         cs = channelStateFor channel (w_mgr w);
         w1 = put_channel channel cs w in
     if ownedByIndividual slug cs \<or> cs_mode cs = modeIndividual
        \<or> (cs_mode cs = modeGroup \<and> \<not> digestOwns channel slug (w_mgr w1))
     then flushSink channel e w1 else w1)"

definition Route :: "string \<Rightarrow> entry \<Rightarrow> world \<Rightarrow> world" where
  "Route channel e w = (case en_event e of
      None \<Rightarrow> w
    | Some ev \<Rightarrow> (case e_type ev of
          EventOpen \<Rightarrow> routeOpen channel e ev w
        | EventResolve \<Rightarrow> routeResolve channel e ev w
        | EventReminder \<Rightarrow> routeReminder channel e w
        | _ \<Rightarrow> w))"

definition Down :: "string \<Rightarrow> member_info \<Rightarrow> time \<Rightarrow> world \<Rightarrow> world" where
  "Down channel info at = Route channel
     \<lparr>en_member = info, en_row = None,
      en_event = Some \<lparr>e_type = EventOpen, e_at = at, e_status_code = 0, e_error = [], e_downtime = 0\<rparr>,
      en_mentions = []\<rparr>"

section \<open>Expiry of a pending pool\<close>

definition entry_parents :: "pending_entry \<Rightarrow> string list" where
  "entry_parents pe = (case en_row (pe_entry pe) of None \<Rightarrow> [] | Some r \<Rightarrow> ms_depends_on r)"

definition count_parent :: "string \<Rightarrow> (string, nat) gomap \<Rightarrow> (string, nat) gomap" where
  "count_parent p counts = gm_put p (Suc (gm_get0 0 counts p)) counts"

definition hotParents :: "(string, pending_entry) gomap \<Rightarrow> string list" where
  "hotParents pool =
    (if length pool < 2 then []
     else (let counts = fold (\<lambda>(_, pe). fold count_parent
                 (filter (\<lambda>p. gm_get pool p = None) (entry_parents pe))) pool [] in
       sort_strings (map fst (filter (\<lambda>(_, n). 2 \<le> n) counts))))"

definition burst_size :: "channel_state \<Rightarrow> nat" where
  "burst_size cs = length (cs_down cs)
     + length (filter (\<lambda>(slug, _). gm_get (cs_down cs) slug = None) (cs_pending cs))"

definition earliest_entered :: "time \<Rightarrow> (string, pending_entry) gomap \<Rightarrow> time" where
  "earliest_entered now pool =
     fold (\<lambda>(_, pe) t. if pe_entered_at pe < t then pe_entered_at pe else t) pool now"

definition join_pool :: "(string, pending_entry) gomap \<Rightarrow> live_group \<Rightarrow> live_group" where
  "join_pool pool lg = fold (\<lambda>(_, pe) lg.
     lg\<lparr>lg_info := gm_put (mi_slug (en_member (pe_entry pe))) (en_member (pe_entry pe)) (lg_info lg),
        lg_g := MarkDown (mi_slug (en_member (pe_entry pe))) (pe_entered_at pe) (lg_g lg)\<rparr>) pool lg"

definition promote_pool :: "string \<Rightarrow> channel_state \<Rightarrow> time \<Rightarrow> world \<Rightarrow> world" where
  "promote_pool channel cs now w =
    (case ensureGroup channel (earliest_entered now (cs_pending cs)) w of
       (None, w1) \<Rightarrow> put_channel channel (settle modeGroup cs) w1
     | (Some lg, w1) \<Rightarrow>
         (let lg1 = join_pool (cs_pending cs) lg;
              (g2, act) = Open now (lg_g lg1);
              lg2 = lg1\<lparr>lg_g := g2\<rparr> in
          if ac_kind act \<noteq> ActionNone then
            (case dispatch now [act] (lg2, w1) of
               ((lg3, w2), _) \<Rightarrow>
                 put_channel channel (settle modeGroup cs) (save_group lg3 (put_group channel lg3 w2)))
          else put_channel channel (settle modeGroup cs) (put_group channel lg2 w1)))"

definition flush_pool :: "string \<Rightarrow> channel_state \<Rightarrow> world \<Rightarrow> world" where
  "flush_pool channel cs w =
    (let entries = map (pe_entry \<circ> snd) (cs_pending cs);
         cs1 = fold (\<lambda>e. takeIndividual (mi_slug (en_member e))) entries cs in
     fold (flushSink channel) entries (put_channel channel (settle modeIndividual cs1) w))"

definition decide_pool :: "string \<Rightarrow> time \<Rightarrow> world \<Rightarrow> world" where
  "decide_pool channel now w =
    (case gm_get (mg_channels (w_mgr w)) channel of
       None \<Rightarrow> w
     | Some cs0 \<Rightarrow>
         if cs_pending cs0 = [] then put_channel channel (settle modeIndividual cs0) w
         else (let cs = pruneDown now (mg_burst_window (w_mgr w)) cs0 in
           if 0 < mg_burst_threshold (w_mgr w) \<and> mg_burst_threshold (w_mgr w) \<le> int (burst_size cs)
           then promote_pool channel cs now w
           else flush_pool channel cs w))"

definition expirePending :: "(string \<Rightarrow> world \<Rightarrow> world) \<Rightarrow> string \<Rightarrow> time \<Rightarrow> world \<Rightarrow> world" where
  "expirePending probe channel now w =
    (case gm_get (mg_channels (w_mgr w)) channel of
       None \<Rightarrow> w
     | Some cs \<Rightarrow>
         (let hot = (if mg_has_probe (w_mgr w) then hotParents (cs_pending cs) else []) in
          if hot = [] then decide_pool channel now w
          else (let w1 = fold probe hot w in
            case gm_get (mg_channels (w_mgr w1)) channel of
              None \<Rightarrow> w1
            | Some cs1 \<Rightarrow> if cs_mode cs1 \<noteq> modePending then w1 else decide_pool channel now w1)))"

section \<open>The evaluator\<close>

definition retireGroupChannel :: "string \<Rightarrow> world \<Rightarrow> world" where
  "retireGroupChannel channel w = (case gm_get (mg_channels (w_mgr w)) channel of
      None \<Rightarrow> w
    | Some cs \<Rightarrow> put_channel channel
        ((settle modeIndividual cs)\<lparr>cs_down := filter (\<lambda>(slug, _). ownedByIndividual slug cs) (cs_down cs)\<rparr>) w)"

definition pending_due_channels :: "time \<Rightarrow> manager \<Rightarrow> string list" where
  "pending_due_channels now m = sort_strings (map fst
     (filter (\<lambda>(ch, cs). cs_mode cs = modePending \<and> cs_pending_due cs \<le> now) (mg_channels m)))"

definition expire_channel :: "(string \<Rightarrow> world \<Rightarrow> world) \<Rightarrow> time \<Rightarrow> string \<Rightarrow> world \<Rightarrow> world" where
  "expire_channel probe now ch w = (case gm_get (mg_channels (w_mgr w)) ch of
      None \<Rightarrow> w
    | Some cs \<Rightarrow> if cs_mode cs \<noteq> modePending then w else expirePending probe ch now w)"

definition evaluate_channel :: "time \<Rightarrow> string \<Rightarrow> world \<Rightarrow> world" where
  "evaluate_channel now ch w = (case gm_get (mg_groups (w_mgr w)) ch of
      None \<Rightarrow> w
    | Some lg \<Rightarrow>
        (let (g1, actions) = Evaluate now (lg_g lg);
             ((lg2, w1), retire) = dispatch now actions (lg\<lparr>lg_g := g1\<rparr>, w);
             w2 = save_group lg2 (put_group ch lg2 w1) in
         if retire then retireGroupChannel ch (del_group ch w2) else w2))"

definition evaluateAll :: "(string \<Rightarrow> world \<Rightarrow> world) \<Rightarrow> world \<Rightarrow> world" where
  "evaluateAll probe w =
    (let now = w_now w;
         w1 = fold (expire_channel probe now) (pending_due_channels now (w_mgr w)) w
     in fold (evaluate_channel now) (sort_strings (map fst (mg_groups (w_mgr w1)))) w1)"

end
