(* ===== verification/Dispatch_Props.thy ===== *)
theory Dispatch_Props
  imports Dispatch Group_Props
begin

text \<open>
  The lemmas of the coalescing manager: its invariant and that every operation keeps it, what the
  expiry of a pool does with each entry, who answers a recovery, and the persisted form.
\<close>

section \<open>Frames\<close>

lemma send_sel [simp]: "w_mgr (send c w) = w_mgr w" "w_db (send c w) = w_db w"
  "w_now (send c w) = w_now w" "w_calls (send c w) = w_calls w @ [c]"
  by (simp_all add: send_def)

lemma take_answer_sel [simp]: "w_mgr (snd (take_answer w)) = w_mgr w"
  "w_db (snd (take_answer w)) = w_db w" "w_calls (snd (take_answer w)) = w_calls w"
  "w_now (snd (take_answer w)) = w_now w"
  by (simp_all add: take_answer_def split: list.split)

lemma put_channel_sel [simp]:
  "w_db (put_channel ch cs w) = w_db w" "w_calls (put_channel ch cs w) = w_calls w"
  "mg_groups (w_mgr (put_channel ch cs w)) = mg_groups (w_mgr w)"
  "mg_channels (w_mgr (put_channel ch cs w)) = gm_put ch cs (mg_channels (w_mgr w))"
  "mg_has_sink (w_mgr (put_channel ch cs w)) = mg_has_sink (w_mgr w)"
  by (simp_all add: put_channel_def)

lemma put_group_sel [simp]:
  "w_db (put_group ch lg w) = w_db w" "w_calls (put_group ch lg w) = w_calls w"
  "mg_groups (w_mgr (put_group ch lg w)) = gm_put ch lg (mg_groups (w_mgr w))"
  "mg_channels (w_mgr (put_group ch lg w)) = mg_channels (w_mgr w)"
  "mg_has_sink (w_mgr (put_group ch lg w)) = mg_has_sink (w_mgr w)"
  by (simp_all add: put_group_def)

lemma del_group_sel [simp]:
  "w_calls (del_group ch w) = w_calls w"
  "mg_groups (w_mgr (del_group ch w)) = gm_del ch (mg_groups (w_mgr w))"
  "mg_channels (w_mgr (del_group ch w)) = mg_channels (w_mgr w)"
  by (simp_all add: del_group_def)

lemma save_group_sel [simp]: "w_mgr (save_group lg w) = w_mgr w" "w_calls (save_group lg w) = w_calls w"
  by (simp_all add: save_group_def)

lemma flushSink_sel [simp]: "w_mgr (flushSink ch e w) = w_mgr w"
  "w_calls (flushSink ch e w) = w_calls w @ (if mg_has_sink (w_mgr w) then [CallSink ch e] else [])"
  by (simp_all add: flushSink_def)

text \<open>The Slack actions change nothing of the group but where its digest lives.\<close>

definition same_group :: "live_group \<Rightarrow> live_group \<Rightarrow> bool" where
  "same_group lg lg' \<longleftrightarrow> (\<exists>c t. lg' = lg\<lparr>lg_g := (lg_g lg)\<lparr>g_digest_channel := c, g_digest_ts := t\<rparr>\<rparr>)"

lemma same_group_refl [simp]: "same_group lg lg"
  unfolding same_group_def
  by (rule exI [of _ "g_digest_channel (lg_g lg)"], rule exI [of _ "g_digest_ts (lg_g lg)"]) simp

lemma same_group_trans: "same_group a b \<Longrightarrow> same_group b c \<Longrightarrow> same_group a c"
  unfolding same_group_def by force

lemma same_group_members:
  "same_group lg lg' \<Longrightarrow> g_members (lg_g lg') = g_members (lg_g lg) \<and> g_channel (lg_g lg') = g_channel (lg_g lg)
     \<and> g_closed (lg_g lg') = g_closed (lg_g lg) \<and> g_posted (lg_g lg') = g_posted (lg_g lg)
     \<and> lg_id lg' = lg_id lg"
  by (auto simp: same_group_def)

fun is_sink_call :: "call \<Rightarrow> bool" where
  "is_sink_call (CallSink _ _) = True" | "is_sink_call _ = False"

text \<open>The calls of a step on a group are Slack calls, appended; manager and database stay.\<close>

definition slack_step :: "live_group \<times> world \<Rightarrow> live_group \<times> world \<Rightarrow> bool" where
  "slack_step lw lw' \<longleftrightarrow> same_group (fst lw) (fst lw') \<and> w_mgr (snd lw') = w_mgr (snd lw)
     \<and> w_db (snd lw') = w_db (snd lw) \<and> w_now (snd lw') = w_now (snd lw)
     \<and> (\<exists>cs. w_calls (snd lw') = w_calls (snd lw) @ cs \<and> list_all (\<lambda>c. \<not> is_sink_call c) cs)"

lemma slack_step_refl [simp]: "slack_step lw lw"
  by (simp add: slack_step_def)

lemma slack_step_trans: "slack_step a b \<Longrightarrow> slack_step b c \<Longrightarrow> slack_step a c"
  unfolding slack_step_def
  by (auto intro: same_group_trans)

lemma slack_postDigest: "slack_step lw (postDigest c lw)"
proof -
  have "same_group (fst lw) (fst (postDigest c lw))"
  proof (cases "fst (take_answer (snd lw))")
    case None
    then show ?thesis by (simp add: postDigest_def Let_def split_beta)
  next
    case (Some a)
    then show ?thesis
      unfolding same_group_def
      by (intro exI [of _ "fst a"] exI [of _ "snd a"]) (simp add: postDigest_def Let_def split_beta)
  qed
  then show ?thesis
    by (auto simp: slack_step_def postDigest_def Let_def split_beta split: option.split)
qed

lemma slack_ensurePosted: "slack_step lw (ensurePosted lw)"
  by (simp add: ensurePosted_def slack_postDigest)

lemma slack_editDigest: "slack_step lw (editDigest c lw)"
  by (simp add: slack_step_def editDigest_def Let_def split_beta)

lemma slack_reply: "slack_step lw (send_reply r lw)"
  by (simp add: slack_step_def send_reply_def Let_def split_beta)

lemma slack_run_action: "slack_step lw (fst (run_action now a lw))"
proof -
  note t = slack_step_trans
  have "slack_step lw (editDigest c (ensurePosted lw))" for c
    by (rule t [OF slack_ensurePosted slack_editDigest])
  moreover from this have "slack_step lw (send_reply r (editDigest c (ensurePosted lw)))" for r c
    by (rule t [OF _ slack_reply])
  moreover have "slack_step lw (send_reply r (ensurePosted lw))" for r
    by (rule t [OF slack_ensurePosted slack_reply])
  ultimately show ?thesis
    by (cases "ac_kind a") (simp_all add: run_action_def Let_def slack_postDigest)
qed

lemma slack_dispatch: "slack_step lw (fst (dispatch now as lw))"
proof (induction as arbitrary: lw)
  case (Cons a as)
  have "slack_step (fst (run_action now a lw)) (fst (dispatch now as (fst (run_action now a lw))))"
    by (rule Cons.IH)
  then show ?case
    using slack_run_action [of lw now a] by (auto simp: Let_def split_beta intro: slack_step_trans)
qed simp

section \<open>The invariant\<close>

definition chan_ok :: "channel_state \<Rightarrow> bool" where
  "chan_ok cs \<longleftrightarrow> gm_ok (cs_pending cs) \<and> gm_ok (cs_down cs) \<and>
     (cs_mode cs = modePending \<longleftrightarrow> cs_pending cs \<noteq> []) \<and>
     (cs_mode cs \<noteq> modePending \<longrightarrow> is_zero (cs_pending_due cs)) \<and>
     (\<forall>(k, pe) \<in> set (cs_pending cs). mi_slug (en_member (pe_entry pe)) = k)"

definition group_ok :: "string \<Rightarrow> live_group \<Rightarrow> bool" where
  "group_ok ch lg \<longleftrightarrow> g_channel (lg_g lg) = ch \<and> keyed (lg_g lg)"

text \<open>What holds at one channel: a channel with a live incident has no pending pool.\<close>

definition at_ok :: "string \<Rightarrow> manager \<Rightarrow> bool" where
  "at_ok ch m \<longleftrightarrow>
     (\<forall>lg. gm_get (mg_groups m) ch = Some lg \<longrightarrow> group_ok ch lg) \<and>
     (\<forall>cs. gm_get (mg_channels m) ch = Some cs \<longrightarrow> chan_ok cs \<and>
        (gm_get (mg_groups m) ch \<noteq> None \<longrightarrow> cs_mode cs \<noteq> modePending))"

definition mgr_inv :: "manager \<Rightarrow> bool" where
  "mgr_inv m \<longleftrightarrow> gm_ok (mg_groups m) \<and> gm_ok (mg_channels m) \<and> (\<forall>ch. at_ok ch m)"

text \<open>
  A step that leaves every other channel alone and ends well at its own keeps the invariant.
\<close>

lemma mgr_inv_step:
  assumes "mgr_inv m" and "gm_ok (mg_groups m')" and "gm_ok (mg_channels m')"
    and "\<And>ch'. ch' \<noteq> ch \<Longrightarrow> gm_get (mg_groups m') ch' = gm_get (mg_groups m) ch'"
    and "\<And>ch'. ch' \<noteq> ch \<Longrightarrow> gm_get (mg_channels m') ch' = gm_get (mg_channels m) ch'"
    and "at_ok ch m'"
  shows "mgr_inv m'"
  unfolding mgr_inv_def
proof (intro conjI allI)
  fix ch'
  show "at_ok ch' m'"
    using assms by (cases "ch' = ch") (auto simp: mgr_inv_def at_ok_def)
qed (use assms in auto)

lemma chan_ok_fresh [simp]: "chan_ok fresh_channel"
  by (simp add: chan_ok_def fresh_channel_def)

lemma chan_ok_settle: "chan_ok cs \<Longrightarrow> mode \<noteq> modePending \<Longrightarrow> chan_ok (settle mode cs)"
  by (simp add: chan_ok_def settle_def)

lemma chan_ok_clearDown [simp]: "chan_ok cs \<Longrightarrow> chan_ok (clearDown s cs)"
  by (simp add: chan_ok_def clearDown_def forgetDown_def)

lemma chan_ok_forgetDown [simp]: "chan_ok cs \<Longrightarrow> chan_ok (forgetDown s cs)"
  by (simp add: chan_ok_def forgetDown_def)

lemma chan_ok_markDown [simp]: "chan_ok cs \<Longrightarrow> chan_ok (markDown s t cs)"
  by (simp add: chan_ok_def markDown_def)

lemma chan_ok_pruneDown [simp]: "chan_ok cs \<Longrightarrow> chan_ok (pruneDown t d cs)"
  by (simp add: chan_ok_def pruneDown_def)

lemma chan_ok_take [simp]: "chan_ok cs \<Longrightarrow> chan_ok (takeIndividual s cs)"
  by (simp add: chan_ok_def takeIndividual_def)

lemma chan_ok_drop: "chan_ok cs \<Longrightarrow> cs_mode cs = modePending \<Longrightarrow> chan_ok (drop_pending s cs)"
  by (auto simp: chan_ok_def drop_pending_def settle_def Let_def) (auto simp: gm_del_def)

lemma mode_sel [simp]:
  "cs_mode (clearDown s cs) = cs_mode cs" "cs_mode (forgetDown s cs) = cs_mode cs"
  "cs_mode (markDown s t cs) = cs_mode cs" "cs_mode (pruneDown t d cs) = cs_mode cs"
  "cs_mode (takeIndividual s cs) = cs_mode cs" "cs_mode (settle m cs) = m"
  "cs_pending (clearDown s cs) = cs_pending cs" "cs_pending (forgetDown s cs) = cs_pending cs"
  "cs_pending (markDown s t cs) = cs_pending cs" "cs_pending (pruneDown t d cs) = cs_pending cs"
  "cs_pending (takeIndividual s cs) = cs_pending cs"
  "cs_individual (settle m cs) = cs_individual cs" "cs_individual (pruneDown t d cs) = cs_individual cs"
  by (simp_all add: clearDown_def forgetDown_def markDown_def pruneDown_def takeIndividual_def settle_def)

lemma channelStateFor_ok:
  assumes "mgr_inv m"
  shows "chan_ok (channelStateFor ch m)"
    and "gm_get (mg_groups m) ch \<noteq> None \<Longrightarrow> cs_mode (channelStateFor ch m) = modeGroup"
proof -
  have a: "at_ok ch m" using assms by (simp add: mgr_inv_def)
  show "gm_get (mg_groups m) ch \<noteq> None \<Longrightarrow> cs_mode (channelStateFor ch m) = modeGroup"
    by (simp add: channelStateFor_def Let_def)
  show "chan_ok (channelStateFor ch m)"
  proof (cases "gm_get (mg_channels m) ch")
    case None
    then show ?thesis by (auto simp: channelStateFor_def Let_def chan_ok_def fresh_channel_def)
  next
    case (Some cs)
    with a have "chan_ok cs" "gm_get (mg_groups m) ch \<noteq> None \<Longrightarrow> cs_mode cs \<noteq> modePending"
      by (auto simp: at_ok_def)
    then show ?thesis using Some by (auto simp: channelStateFor_def Let_def chan_ok_def)
  qed
qed

lemma inv_put_channel:
  assumes "mgr_inv (w_mgr w)" and "chan_ok cs"
    and "gm_get (mg_groups (w_mgr w)) ch \<noteq> None \<Longrightarrow> cs_mode cs \<noteq> modePending"
  shows "mgr_inv (w_mgr (put_channel ch cs w))"
  using assms(1)
  by (rule mgr_inv_step [where ch = ch]) (use assms in \<open>auto simp: mgr_inv_def at_ok_def\<close>)

lemma inv_put_group:
  assumes "mgr_inv (w_mgr w)" and "group_ok ch lg"
    and "\<And>cs. gm_get (mg_channels (w_mgr w)) ch = Some cs \<Longrightarrow> cs_mode cs \<noteq> modePending"
  shows "mgr_inv (w_mgr (put_group ch lg w))"
  using assms(1)
  by (rule mgr_inv_step [where ch = ch]) (use assms in \<open>auto simp: mgr_inv_def at_ok_def\<close>)

lemma inv_at: "mgr_inv m \<Longrightarrow> at_ok ch m"
  by (simp add: mgr_inv_def)

lemma inv_group: "mgr_inv m \<Longrightarrow> gm_get (mg_groups m) ch = Some lg \<Longrightarrow> group_ok ch lg"
  by (simp add: mgr_inv_def at_ok_def)

lemma inv_chan: "mgr_inv m \<Longrightarrow> gm_get (mg_channels m) ch = Some cs \<Longrightarrow> chan_ok cs"
  by (simp add: mgr_inv_def at_ok_def)

lemma inv_oks: "mgr_inv m \<Longrightarrow> gm_ok (mg_groups m) \<and> gm_ok (mg_channels m)"
  by (simp add: mgr_inv_def)

lemma inv_mode: "mgr_inv m \<Longrightarrow> gm_get (mg_channels m) ch = Some cs \<Longrightarrow>
    gm_get (mg_groups m) ch \<noteq> None \<Longrightarrow> cs_mode cs \<noteq> modePending"
  by (simp add: mgr_inv_def at_ok_def)

section \<open>Finding the group\<close>

lemma fromRow_group_ok: "group_ok (gr_channel_slug r) (fromRow cfg r)"
proof -
  have "gm_ok (fold (\<lambda>mr. gm_put (gm_monitor_slug mr) (row_member mr)) rs m) \<and>
      (\<forall>(k, x) \<in> set (fold (\<lambda>mr. gm_put (gm_monitor_slug mr) (row_member mr)) rs m). m_slug x = k)"
    if "gm_ok m" and "\<forall>(k, x) \<in> set m. m_slug x = k" for rs and m :: "(string, member) gomap"
    using that
  proof (induction rs arbitrary: m)
    case (Cons r rs)
    have "\<forall>(k, x) \<in> set (gm_put (gm_monitor_slug r) (row_member r) m). m_slug x = k"
      using set_gm_put [of "gm_monitor_slug r" "row_member r" m] Cons.prems(2)
      by (fastforce simp: row_member_def)
    then show ?case using Cons.IH [of "gm_put (gm_monitor_slug r) (row_member r) m"] Cons.prems(1)
      by simp
  qed simp
  from this [of "[]"] show ?thesis
    by (simp add: group_ok_def fromRow_def keyed_def Group.New_def Let_def)
qed

lemma ensureGroup_frame:
  assumes "ensureGroup ch at w = (r, w')"
    and inv: "mgr_inv (w_mgr w)"
  shows "w_mgr w' = (w_mgr w)\<lparr>mg_groups := mg_groups (w_mgr w')\<rparr>"
    and "w_calls w' = w_calls w" and "w_now w' = w_now w" and "w_answers w' = w_answers w"
    and "ch' \<noteq> ch \<Longrightarrow> gm_get (mg_groups (w_mgr w')) ch' = gm_get (mg_groups (w_mgr w)) ch'"
    and "gm_ok (mg_groups (w_mgr w'))"
    and "gm_get (mg_groups (w_mgr w')) ch = r"
    and "r = Some lg \<Longrightarrow> group_ok ch lg"
proof -
  note gok = inv_group [OF inv, of ch] inv_oks [OF inv, THEN conjunct1]
  have new: "group_ok ch \<lparr>lg_id = i, lg_g = Group.New ch at cfg, lg_info = []\<rparr>" for i cfg
    by (simp add: group_ok_def keyed_New) (simp add: Group.New_def)
  have found: "group_ok ch (fromRow cfg row)" if "FindOpenIncidentGroup ch d = (d', Inr (Some row))"
    for cfg row d d'
  proof -
    from that [unfolded FindOpenIncidentGroup_def] have "gr_channel_slug row = ch"
    proof (cases rule: db_call_elim)
      case (runs d1)
      then show ?thesis by (auto simp: find_Some_iff load_members_def)
    qed simp
    then show ?thesis using fromRow_group_ok [of row cfg] by simp
  qed
  obtain d1 f where f: "FindOpenIncidentGroup ch (w_db w) = (d1, f)" by fastforce
  obtain d2 c where c: "CreateIncidentGroup ch at d1 = (d2, c)" by fastforce
  have "w_mgr w' = (w_mgr w)\<lparr>mg_groups := mg_groups (w_mgr w')\<rparr> \<and> w_calls w' = w_calls w \<and>
    w_now w' = w_now w \<and> w_answers w' = w_answers w \<and>
    (ch' \<noteq> ch \<longrightarrow> gm_get (mg_groups (w_mgr w')) ch' = gm_get (mg_groups (w_mgr w)) ch') \<and>
    gm_ok (mg_groups (w_mgr w')) \<and> gm_get (mg_groups (w_mgr w')) ch = r \<and>
    (r = Some lg \<longrightarrow> group_ok ch lg)"
  proof (cases "gm_get (mg_groups (w_mgr w)) ch")
    case (Some l)
    then have "r = Some l" "w' = w" using assms(1) by (auto simp: ensureGroup_def)
    then show ?thesis using Some gok by auto
  next
    case None
    show ?thesis
    proof (cases "\<exists>row. f = Inr (Some row)")
      case True
      then obtain row where row: "f = Inr (Some row)" by blast
      then have "r = Some (fromRow (mg_cfg (w_mgr w)) row)"
        "w' = put_group ch (fromRow (mg_cfg (w_mgr w)) row) (w\<lparr>w_db := d1\<rparr>)"
        using assms(1) f None by (auto simp: ensureGroup_def Let_def)
      then show ?thesis using found f row gok by (auto simp: put_group_def)
    next
      case False
      then have e: "ensureGroup ch at w = (case c of
            Inl _ \<Rightarrow> (None, w\<lparr>w_db := d2\<rparr>)
          | Inr i \<Rightarrow> (let lg = \<lparr>lg_id = i, lg_g = Group.New ch at (mg_cfg (w_mgr w)), lg_info = []\<rparr> in
              (Some lg, put_group ch lg (w\<lparr>w_db := d2\<rparr>))))"
        using f c None by (auto simp: ensureGroup_def Let_def split: sum.splits option.splits)
      show ?thesis using assms(1) gok None new by (auto simp: e put_group_def Let_def split: sum.splits)
    qed
  qed
  then show "w_mgr w' = (w_mgr w)\<lparr>mg_groups := mg_groups (w_mgr w')\<rparr>"
    and "w_calls w' = w_calls w" and "w_now w' = w_now w" and "w_answers w' = w_answers w"
    and "ch' \<noteq> ch \<Longrightarrow> gm_get (mg_groups (w_mgr w')) ch' = gm_get (mg_groups (w_mgr w)) ch'"
    and "gm_ok (mg_groups (w_mgr w'))"
    and "gm_get (mg_groups (w_mgr w')) ch = r"
    and "r = Some lg \<Longrightarrow> group_ok ch lg"
    by blast+
qed

section \<open>Every operation keeps the invariant\<close>

lemma group_ok_upd:
  "group_ok ch lg \<Longrightarrow> keyed g \<Longrightarrow> g_channel g = ch \<Longrightarrow> group_ok ch (lg\<lparr>lg_g := g, lg_info := i\<rparr>)"
  "group_ok ch lg \<Longrightarrow> keyed g \<Longrightarrow> g_channel g = ch \<Longrightarrow> group_ok ch (lg\<lparr>lg_g := g\<rparr>)"
  by (simp_all add: group_ok_def)

lemma mark_channel [simp]:
  "g_channel (MarkDown k t g) = g_channel g" "g_channel (MarkUp k t g) = g_channel g"
  "g_channel (MarkPaused k t g) = g_channel g"
  by (simp_all add: MarkDown_def MarkUp_def MarkPaused_def split: option.split)

lemma group_ok_mark:
  "group_ok ch lg \<Longrightarrow> group_ok ch (lg\<lparr>lg_g := MarkDown k t (lg_g lg)\<rparr>)"
  "group_ok ch lg \<Longrightarrow> group_ok ch (lg\<lparr>lg_g := MarkUp k t (lg_g lg)\<rparr>)"
  "group_ok ch lg \<Longrightarrow> group_ok ch (lg\<lparr>lg_g := MarkPaused k t (lg_g lg)\<rparr>)"
  "group_ok ch lg \<Longrightarrow> group_ok ch (lg\<lparr>lg_info := i, lg_g := MarkDown k t (lg_g lg)\<rparr>)"
  by (simp_all add: group_ok_def keyed_MarkDown keyed_MarkUp keyed_MarkPaused)

lemma same_group_ok: "same_group lg lg' \<Longrightarrow> group_ok ch lg \<Longrightarrow> group_ok ch lg'"
  by (auto simp: same_group_def group_ok_def)

lemma inv_on_group:
  assumes "mgr_inv (w_mgr w)" and "\<And>lg. group_ok ch lg \<Longrightarrow> group_ok ch (lg\<lparr>lg_g := f (lg_g lg)\<rparr>)"
  shows "mgr_inv (w_mgr (on_group ch f w))"
proof (cases "gm_get (mg_groups (w_mgr w)) ch")
  case (Some lg)
  then show ?thesis
    using assms inv_group [OF assms(1) Some] inv_mode [OF assms(1), of ch]
    by (simp add: on_group_def) (rule inv_put_group, auto)
qed (use assms in \<open>simp add: on_group_def\<close>)

lemma drop_pending_mode:
  "cs_mode (drop_pending s cs) = modePending \<Longrightarrow> cs_mode cs = modePending"
  by (auto simp: drop_pending_def Let_def split: if_splits)

lemma csf_modes:
  assumes "mgr_inv m"
  shows "gm_get (mg_groups m) ch \<noteq> None \<Longrightarrow> cs_mode (channelStateFor ch m) \<noteq> modePending"
    and "cs_mode (channelStateFor ch m) = modePending \<Longrightarrow> gm_get (mg_groups m) ch = None"
  using channelStateFor_ok(2) [OF assms, of ch] by (cases "gm_get (mg_groups m) ch"; simp)+

lemma inv_Up: "mgr_inv (w_mgr w) \<Longrightarrow> mgr_inv (w_mgr (Up ch s t w))"
proof -
  assume i: "mgr_inv (w_mgr w)"
  note c = channelStateFor_ok(1) [OF i, of ch] and m = csf_modes [OF i, of ch]
  let ?cs = "clearDown s (channelStateFor ch (w_mgr w))"
  have p: "mgr_inv (w_mgr (put_channel ch ?cs w))" by (rule inv_put_channel) (use i c m in auto)
  show ?thesis
  proof (cases "cs_mode (channelStateFor ch (w_mgr w))")
    case modeIndividual
    then show ?thesis using p by (simp add: Up_def)
  next
    case modePending
    have "mgr_inv (w_mgr (put_channel ch (drop_pending s ?cs) w))"
      by (rule inv_put_channel) (use i c m modePending in \<open>auto intro: chan_ok_drop\<close>)
    then show ?thesis using modePending by (simp add: Up_def)
  next
    case modeGroup
    then show ?thesis using inv_on_group [OF p] group_ok_mark(2) by (simp add: Up_def)
  qed
qed

lemma inv_Pause: "mgr_inv (w_mgr w) \<Longrightarrow> mgr_inv (w_mgr (Pause ch s t w))"
proof -
  assume i: "mgr_inv (w_mgr w)"
  note c = channelStateFor_ok(1) [OF i, of ch] and m = csf_modes [OF i, of ch]
  let ?cs = "forgetDown s (channelStateFor ch (w_mgr w))"
  have p: "mgr_inv (w_mgr (put_channel ch ?cs w))" by (rule inv_put_channel) (use i c m in auto)
  show ?thesis
  proof (cases "cs_mode (channelStateFor ch (w_mgr w))")
    case modeIndividual
    then show ?thesis using p by (simp add: Pause_def)
  next
    case modePending
    have "mgr_inv (w_mgr (put_channel ch (drop_pending s ?cs) w))"
      by (rule inv_put_channel) (use i c m modePending in \<open>auto intro: chan_ok_drop\<close>)
    then show ?thesis using modePending by (simp add: Pause_def)
  next
    case modeGroup
    then show ?thesis using inv_on_group [OF p] group_ok_mark(3) by (simp add: Pause_def)
  qed
qed

lemma inv_routeResolve: "mgr_inv (w_mgr w) \<Longrightarrow> mgr_inv (w_mgr (routeResolve ch e ev w))"
proof -
  assume i: "mgr_inv (w_mgr w)"
  note c = channelStateFor_ok(1) [OF i, of ch] and m = csf_modes [OF i, of ch]
  let ?s = "mi_slug (en_member e)"
  let ?cs = "clearDown ?s (channelStateFor ch (w_mgr w))"
  have p: "mgr_inv (w_mgr (put_channel ch ?cs w))" by (rule inv_put_channel) (use i c m in auto)
  have d: "mgr_inv (w_mgr (put_channel ch (drop_pending ?s ?cs) w))"
    if "cs_mode (channelStateFor ch (w_mgr w)) = modePending"
    by (rule inv_put_channel) (use i c m that in \<open>auto intro: chan_ok_drop\<close>)
  have g: "mgr_inv (w_mgr (on_group ch (MarkUp ?s (e_at ev)) (put_channel ch ?cs w)))"
    by (rule inv_on_group [OF p]) (rule group_ok_mark)
  show ?thesis
    using p d g
    by (cases "cs_mode (channelStateFor ch (w_mgr w))") (auto simp: routeResolve_def Let_def)
qed

lemma inv_routeReminder: "mgr_inv (w_mgr w) \<Longrightarrow> mgr_inv (w_mgr (routeReminder ch e w))"
proof -
  assume i: "mgr_inv (w_mgr w)"
  have "mgr_inv (w_mgr (put_channel ch (channelStateFor ch (w_mgr w)) w))"
    by (rule inv_put_channel) (use i channelStateFor_ok(1) [OF i, of ch] csf_modes [OF i, of ch] in auto)
  then show ?thesis by (simp add: routeReminder_def Let_def)
qed

lemma inv_routeOpen: "mgr_inv (w_mgr w) \<Longrightarrow> mgr_inv (w_mgr (routeOpen ch e ev w))"
proof -
  assume i: "mgr_inv (w_mgr w)"
  note c = channelStateFor_ok(1) [OF i, of ch] and m = csf_modes [OF i, of ch]
  let ?s = "mi_slug (en_member e)"
  let ?cs = "markDown ?s (e_at ev) (channelStateFor ch (w_mgr w))"
  let ?pe = "\<lparr>pe_entry = e, pe_entered_at = e_at ev\<rparr>"
  have p: "mgr_inv (w_mgr (put_channel ch ?cs w))" by (rule inv_put_channel) (use i c m in auto)
  show ?thesis
  proof (cases "cs_mode (channelStateFor ch (w_mgr w))")
    case modeIndividual
    then have "gm_get (mg_groups (w_mgr w)) ch = None"
      using channelStateFor_ok(2) [OF i, of ch] by (cases "gm_get (mg_groups (w_mgr w)) ch") simp_all
    then have "mgr_inv (w_mgr (put_channel ch (?cs\<lparr>cs_mode := modePending, cs_pending := [(?s, ?pe)],
             cs_pending_due := e_at ev + mg_pending_wait (w_mgr w)\<rparr>) w))"
      by (intro inv_put_channel) (use i c in \<open>auto simp: chan_ok_def markDown_def\<close>)
    then show ?thesis using modeIndividual by (simp add: routeOpen_def Let_def)
  next
    case modePending
    have "gm_put ?s ?pe (cs_pending ?cs) \<noteq> []"
      using gm.keys_put [of ?s ?pe "cs_pending ?cs"] by (auto simp: gm_keys_def)
    then have "mgr_inv (w_mgr (put_channel ch (?cs\<lparr>cs_pending := gm_put ?s ?pe (cs_pending ?cs)\<rparr>) w))"
      using set_gm_put [of ?s ?pe "cs_pending (channelStateFor ch (w_mgr w))"]
      by (intro inv_put_channel) (use i c m modePending in \<open>fastforce simp: chan_ok_def markDown_def\<close>)+
    then show ?thesis using modePending by (simp add: routeOpen_def Let_def)
  next
    case modeGroup
    obtain r w1 where e: "ensureGroup ch (e_at ev) (put_channel ch ?cs w) = (r, w1)" by fastforce
    note f = ensureGroup_frame [OF e p]
    have chs: "mg_channels (w_mgr w1) = mg_channels (w_mgr (put_channel ch ?cs w))"
      using arg_cong [OF f(1), of mg_channels] by simp
    show ?thesis
    proof (cases r)
      case None
      have "mgr_inv (w_mgr w1)"
        by (rule mgr_inv_step [OF p, where ch = ch])
           (use f(5-7) chs inv_oks [OF p] None c modeGroup in \<open>auto simp: at_ok_def\<close>)
      then show ?thesis using modeGroup e None by (simp add: routeOpen_def Let_def)
    next
      case (Some lg)
      let ?lg = "lg\<lparr>lg_info := gm_put ?s (en_member e) (lg_info lg),
          lg_g := MarkDown ?s (e_at ev) (lg_g lg)\<rparr>"
      have "group_ok ch ?lg" by (rule group_ok_mark(4)) (rule f(8) [OF Some])
      then have "mgr_inv (w_mgr (put_group ch ?lg w1))"
        by (intro mgr_inv_step [OF p, where ch = ch])
           (use f(5-6) chs inv_oks [OF p] c modeGroup in \<open>auto simp: at_ok_def\<close>)
      then show ?thesis using modeGroup e Some by (simp add: routeOpen_def Let_def)
    qed
  qed
qed

lemma inv_Route: "mgr_inv (w_mgr w) \<Longrightarrow> mgr_inv (w_mgr (Route ch e w))"
  by (auto simp: Route_def inv_routeOpen inv_routeResolve inv_routeReminder
      split: option.split event_type.split)

section \<open>Expiry of a pool\<close>

definition down_in :: "group \<Rightarrow> string \<Rightarrow> bool" where
  "down_in g k \<longleftrightarrow> map_option m_state (gm_get (g_members g) k) = Some MemberDown"

lemma down_in_MarkDown: "down_in (MarkDown k t g) k' \<longleftrightarrow> k' = k \<or> down_in g k'"
  by (auto simp: down_in_def MarkDown_def split: option.split)

lemma down_in_commit [simp]: "down_in (commitRender g) k = down_in g k"
  by (simp add: down_in_def commitRender_def option.map_comp comp_def)

lemma down_in_Open: "down_in (fst (Open now g)) k = down_in g k"
  by (simp add: Open_def) (simp add: down_in_def)

lemma join_pool_Cons:
  "join_pool ((k, pe) # pool) lg = join_pool pool
     (lg\<lparr>lg_info := gm_put (mi_slug (en_member (pe_entry pe))) (en_member (pe_entry pe)) (lg_info lg),
        lg_g := MarkDown (mi_slug (en_member (pe_entry pe))) (pe_entered_at pe) (lg_g lg)\<rparr>)"
  by (simp add: join_pool_def)

lemma join_pool_ok: "group_ok ch lg \<Longrightarrow> group_ok ch (join_pool pool lg)"
proof (induction pool arbitrary: lg)
  case Nil
  then show ?case by (simp add: join_pool_def)
next
  case (Cons x pool)
  obtain k pe where x: "x = (k, pe)" by fastforce
  show ?case unfolding x join_pool_Cons by (rule Cons.IH) (rule group_ok_mark(4) [OF Cons.prems])
qed

lemma join_pool_down:
  "down_in (lg_g (join_pool pool lg)) k \<longleftrightarrow>
   down_in (lg_g lg) k \<or> k \<in> (\<lambda>(_, pe). mi_slug (en_member (pe_entry pe))) ` set pool"
proof (induction pool arbitrary: lg)
  case Nil
  then show ?case by (simp add: join_pool_def)
next
  case (Cons x pool)
  obtain k pe where x: "x = (k, pe)" by fastforce
  show ?case unfolding x join_pool_Cons by (simp add: Cons.IH down_in_MarkDown) auto
qed

lemma pool_slugs:
  assumes "chan_ok cs"
  shows "(\<lambda>(_, pe). mi_slug (en_member (pe_entry pe))) ` set (cs_pending cs) = fst ` set (cs_pending cs)"
  using assms by (intro image_cong) (auto simp: chan_ok_def)

lemma same_group_down: "same_group lg lg' \<Longrightarrow> down_in (lg_g lg') k = down_in (lg_g lg) k"
  by (auto simp: same_group_def down_in_def)

lemma group_ok_Open:
  assumes "group_ok ch lg"
  shows "group_ok ch (lg\<lparr>lg_g := fst (Open now (lg_g lg))\<rparr>)"
  using assms keyed_Open [of "lg_g lg" now] by (simp add: group_ok_def Open_def)

lemma promote_pool_spec:
  assumes inv: "mgr_inv (w_mgr w)" and cs: "chan_ok cs"
    and e: "ensureGroup ch (earliest_entered now (cs_pending cs)) w = (r, w1)"
  defines "w' \<equiv> promote_pool ch cs now w"
  shows "mgr_inv (w_mgr w')"
    and "gm_get (mg_channels (w_mgr w')) ch = Some (settle modeGroup cs)"
    and "r = None \<Longrightarrow> gm_get (mg_groups (w_mgr w')) ch = None \<and> w_calls w' = w_calls w"
    and "r \<noteq> None \<Longrightarrow> \<exists>lg. gm_get (mg_groups (w_mgr w')) ch = Some lg \<and>
           (\<forall>k \<in> fst ` set (cs_pending cs). down_in (lg_g lg) k)"
    and "\<exists>cs. w_calls w' = w_calls w @ cs \<and> list_all (\<lambda>c. \<not> is_sink_call c) cs"
proof -
  note f = ensureGroup_frame [OF e inv]
  note oks = inv_oks [OF inv]
  have chs: "mg_channels (w_mgr w1) = mg_channels (w_mgr w)"
    using arg_cong [OF f(1), of mg_channels] by simp
  have settled: "chan_ok (settle modeGroup cs)" using cs by (simp add: chan_ok_settle)
  have "mgr_inv (w_mgr w') \<and>
    gm_get (mg_channels (w_mgr w')) ch = Some (settle modeGroup cs) \<and>
    (r = None \<longrightarrow> gm_get (mg_groups (w_mgr w')) ch = None \<and> w_calls w' = w_calls w) \<and>
    (r \<noteq> None \<longrightarrow> (\<exists>lg. gm_get (mg_groups (w_mgr w')) ch = Some lg \<and>
       (\<forall>k \<in> fst ` set (cs_pending cs). down_in (lg_g lg) k))) \<and>
    (\<exists>cs. w_calls w' = w_calls w @ cs \<and> list_all (\<lambda>c. \<not> is_sink_call c) cs)"
  proof (cases r)
    case None
    then have w': "w' = put_channel ch (settle modeGroup cs) w1"
      using e by (simp add: w'_def promote_pool_def)
    have "mgr_inv (w_mgr w')"
      by (rule mgr_inv_step [OF inv, where ch = ch])
         (use f(5-7) chs oks None settled in \<open>auto simp: w' at_ok_def\<close>)
    then show ?thesis using None f(2,7) by (simp add: w')
  next
    case (Some lg)
    let ?lg1 = "join_pool (cs_pending cs) lg"
    let ?lg2 = "?lg1\<lparr>lg_g := fst (Open now (lg_g ?lg1))\<rparr>"
    let ?d = "fst (dispatch now [snd (Open now (lg_g ?lg1))] (?lg2, w1))"
    have ok2: "group_ok ch ?lg2"
      by (rule group_ok_Open) (rule join_pool_ok [OF f(8) [OF Some]])
    have down2: "\<forall>k \<in> fst ` set (cs_pending cs). down_in (lg_g ?lg2) k"
      using join_pool_down [of "cs_pending cs" lg] pool_slugs [OF cs] by (simp add: down_in_Open)
    define nothing where "nothing \<longleftrightarrow> ac_kind (snd (Open now (lg_g ?lg1))) = ActionNone"
    define lg3 where "lg3 = (if nothing then ?lg2 else fst ?d)"
    define w2 where "w2 = (if nothing then w1 else snd ?d)"
    have step: "slack_step (?lg2, w1) (lg3, w2)"
      using slack_dispatch [of "(?lg2, w1)" now] by (simp add: lg3_def w2_def del: dispatch.simps)
    have w': "w' = put_channel ch (settle modeGroup cs)
        (if nothing then put_group ch lg3 w2 else save_group lg3 (put_group ch lg3 w2))"
      using e Some
      by (simp add: w'_def promote_pool_def Let_def split_beta nothing_def lg3_def w2_def del: dispatch.simps)
    have same: "same_group ?lg2 lg3" and mgr: "w_mgr w2 = w_mgr w1"
      and calls: "\<exists>cs. w_calls w2 = w_calls w1 @ cs \<and> list_all (\<lambda>c. \<not> is_sink_call c) cs"
      using step by (simp_all add: slack_step_def)
    have ok3: "group_ok ch lg3" by (rule same_group_ok [OF same ok2])
    have grp: "mg_groups (w_mgr w') = gm_put ch lg3 (mg_groups (w_mgr w1))"
      and chn: "mg_channels (w_mgr w') = gm_put ch (settle modeGroup cs) (mg_channels (w_mgr w1))"
      and cll: "w_calls w' = w_calls w2"
      by (simp_all add: w' mgr)
    have "mgr_inv (w_mgr w')"
      by (rule mgr_inv_step [OF inv, where ch = ch])
         (use f(5,6) chs oks ok3 settled in \<open>auto simp: grp chn at_ok_def\<close>)
    moreover have "\<forall>k \<in> fst ` set (cs_pending cs). down_in (lg_g lg3) k"
      using down2 same_group_down [OF same] by blast
    ultimately show ?thesis
      using Some calls f(2) by (simp add: grp chn cll)
  qed
  then show "mgr_inv (w_mgr w')"
    and "gm_get (mg_channels (w_mgr w')) ch = Some (settle modeGroup cs)"
    and "r = None \<Longrightarrow> gm_get (mg_groups (w_mgr w')) ch = None \<and> w_calls w' = w_calls w"
    and "r \<noteq> None \<Longrightarrow> \<exists>lg. gm_get (mg_groups (w_mgr w')) ch = Some lg \<and>
           (\<forall>k \<in> fst ` set (cs_pending cs). down_in (lg_g lg) k)"
    and "\<exists>cs. w_calls w' = w_calls w @ cs \<and> list_all (\<lambda>c. \<not> is_sink_call c) cs"
    by blast+
qed

lemma fold_take:
  "chan_ok cs \<Longrightarrow> chan_ok (fold (\<lambda>e. takeIndividual (mi_slug (en_member e))) es cs)"
  "cs_mode (fold (\<lambda>e. takeIndividual (mi_slug (en_member e))) es cs) = cs_mode cs"
  "set (cs_individual (fold (\<lambda>e. takeIndividual (mi_slug (en_member e))) es cs)) =
     set (cs_individual cs) \<union> (\<lambda>e. mi_slug (en_member e)) ` set es"
proof -
  show "chan_ok cs \<Longrightarrow> chan_ok (fold (\<lambda>e. takeIndividual (mi_slug (en_member e))) es cs)"
    by (induction es arbitrary: cs) simp_all
  show "cs_mode (fold (\<lambda>e. takeIndividual (mi_slug (en_member e))) es cs) = cs_mode cs"
    by (induction es arbitrary: cs) simp_all
  show "set (cs_individual (fold (\<lambda>e. takeIndividual (mi_slug (en_member e))) es cs)) =
     set (cs_individual cs) \<union> (\<lambda>e. mi_slug (en_member e)) ` set es"
    by (induction es arbitrary: cs) (auto simp: takeIndividual_def)
qed

lemma fold_flushSink:
  "w_mgr (fold (flushSink ch) es w) = w_mgr w"
  "w_calls (fold (flushSink ch) es w) =
     w_calls w @ (if mg_has_sink (w_mgr w) then map (CallSink ch) es else [])"
  by (induction es arbitrary: w) auto

lemma flush_pool_spec:
  fixes ch :: string
  assumes inv: "mgr_inv (w_mgr w)" and cs: "chan_ok cs"
  defines "w' \<equiv> flush_pool ch cs w"
  shows "mgr_inv (w_mgr w')"
    and "mg_groups (w_mgr w') = mg_groups (w_mgr w)"
    and "w_calls w' = w_calls w @ (if mg_has_sink (w_mgr w)
           then map (CallSink ch \<circ> pe_entry \<circ> snd) (cs_pending cs) else [])"
    and "\<exists>cs'. gm_get (mg_channels (w_mgr w')) ch = Some cs' \<and> cs_mode cs' = modeIndividual \<and>
           set (cs_individual cs') = set (cs_individual cs) \<union> fst ` set (cs_pending cs)"
proof -
  let ?es = "map (pe_entry \<circ> snd) (cs_pending cs)"
  let ?cs = "settle modeIndividual (fold (\<lambda>e. takeIndividual (mi_slug (en_member e))) ?es cs)"
  have w': "w' = fold (flushSink ch) ?es (put_channel ch ?cs w)"
    by (simp add: w'_def flush_pool_def Let_def)
  have "mgr_inv (w_mgr (put_channel ch ?cs w))"
    using fold_take(1) [OF cs, of ?es] by (intro inv_put_channel) (use inv in \<open>auto simp: chan_ok_settle\<close>)
  then show "mgr_inv (w_mgr w')" by (simp add: w' fold_flushSink)
  show "mg_groups (w_mgr w') = mg_groups (w_mgr w)" by (simp add: w' fold_flushSink)
  show "w_calls w' = w_calls w @ (if mg_has_sink (w_mgr w)
           then map (CallSink ch \<circ> pe_entry \<circ> snd) (cs_pending cs) else [])"
    by (simp add: w' fold_flushSink comp_assoc)
  have "(\<lambda>e. mi_slug (en_member e)) ` set ?es = fst ` set (cs_pending cs)"
    using pool_slugs [OF cs] by (simp add: image_image case_prod_unfold)
  then show "\<exists>cs'. gm_get (mg_channels (w_mgr w')) ch = Some cs' \<and> cs_mode cs' = modeIndividual \<and>
           set (cs_individual cs') = set (cs_individual cs) \<union> fst ` set (cs_pending cs)"
    using fold_take(3) [of ?es cs] by (simp add: w' fold_flushSink)
qed

lemma inv_decide_pool:
  assumes inv: "mgr_inv (w_mgr w)"
  shows "mgr_inv (w_mgr (decide_pool ch now w))"
proof (cases "gm_get (mg_channels (w_mgr w)) ch")
  case None
  then show ?thesis using inv by (simp add: decide_pool_def)
next
  case (Some cs)
  have ok: "chan_ok cs" by (rule inv_chan [OF inv Some])
  let ?cs = "pruneDown now (mg_burst_window (w_mgr w)) cs"
  have okp: "chan_ok ?cs" using ok by simp
  obtain r w1 where e: "ensureGroup ch (earliest_entered now (cs_pending ?cs)) w = (r, w1)" by fastforce
  have "mgr_inv (w_mgr (put_channel ch (settle modeIndividual cs) w))"
    by (rule inv_put_channel) (use inv ok in \<open>auto simp: chan_ok_settle\<close>)
  then show ?thesis
    using Some promote_pool_spec(1) [OF inv okp e] flush_pool_spec(1) [OF inv okp]
    by (simp add: decide_pool_def Let_def)
qed

definition probe_ok :: "(string \<Rightarrow> world \<Rightarrow> world) \<Rightarrow> bool" where
  "probe_ok probe \<longleftrightarrow> (\<forall>p w. mgr_inv (w_mgr w) \<longrightarrow> mgr_inv (w_mgr (probe p w)))"

lemma inv_fold:
  assumes "\<And>x w. mgr_inv (w_mgr w) \<Longrightarrow> mgr_inv (w_mgr (f x w))"
  shows "mgr_inv (w_mgr w) \<Longrightarrow> mgr_inv (w_mgr (fold f xs w))"
  by (induction xs arbitrary: w) (auto intro: assms)

lemma inv_expirePending:
  assumes p: "probe_ok probe" and inv: "mgr_inv (w_mgr w)"
  shows "mgr_inv (w_mgr (expirePending probe ch now w))"
proof -
  have "mgr_inv (w_mgr (fold probe hot w))" for hot
    by (rule inv_fold) (use p inv in \<open>auto simp: probe_ok_def\<close>)
  then show ?thesis
    using inv inv_decide_pool by (auto simp: expirePending_def Let_def split: option.split)
qed

lemma inv_expire_channel:
  "probe_ok probe \<Longrightarrow> mgr_inv (w_mgr w) \<Longrightarrow> mgr_inv (w_mgr (expire_channel probe now ch w))"
  by (auto simp: expire_channel_def inv_expirePending split: option.split)

lemma Evaluate_channel_name [simp]: "g_channel (fst (Evaluate now g)) = g_channel g"
  by (rule Evaluate_cases [where g = g and now = now])
     (simp_all add: eval_remind_def eval_flush_def Let_def)

lemma inv_evaluate_channel:
  assumes inv: "mgr_inv (w_mgr w)"
  shows "mgr_inv (w_mgr (evaluate_channel now ch w))"
proof (cases "gm_get (mg_groups (w_mgr w)) ch")
  case None
  then show ?thesis using inv by (simp add: evaluate_channel_def)
next
  case (Some lg)
  let ?lg1 = "lg\<lparr>lg_g := fst (Evaluate now (lg_g lg))\<rparr>"
  let ?d = "dispatch now (snd (Evaluate now (lg_g lg))) (?lg1, w)"
  let ?w2 = "save_group (fst (fst ?d)) (put_group ch (fst (fst ?d)) (snd (fst ?d)))"
  have step: "slack_step (?lg1, w) (fst ?d)" by (rule slack_dispatch)
  then have mgr: "w_mgr (snd (fst ?d)) = w_mgr w" by (simp add: slack_step_def)
  have "group_ok ch ?lg1"
    using inv_group [OF inv Some] keyed_Evaluate by (simp add: group_ok_def)
  then have "group_ok ch (fst (fst ?d))" using step same_group_ok by (auto simp: slack_step_def)
  then have inv2: "mgr_inv (w_mgr ?w2)"
    using inv_put_group [of "snd (fst ?d)" ch "fst (fst ?d)"] inv mgr inv_mode [OF inv, of ch] Some
    by auto
  have ev: "evaluate_channel now ch w =
      (if snd ?d then retireGroupChannel ch (del_group ch ?w2) else ?w2)"
    using Some by (simp add: evaluate_channel_def Let_def split_beta)
  have inv3: "mgr_inv (w_mgr (del_group ch ?w2))"
    by (rule mgr_inv_step [OF inv2, where ch = ch])
       (use inv_oks [OF inv2] inv_at [OF inv2, of ch] in \<open>auto simp: at_ok_def\<close>)
  have "mgr_inv (w_mgr (retireGroupChannel ch (del_group ch ?w2)))"
  proof (cases "gm_get (mg_channels (w_mgr (del_group ch ?w2))) ch")
    case None
    then show ?thesis using inv3 by (simp add: retireGroupChannel_def del: del_group_sel)
  next
    case cs: (Some cs)
    have "chan_ok cs" by (rule inv_chan [OF inv3 cs])
    then have "chan_ok ((settle modeIndividual cs)
        \<lparr>cs_down := filter (\<lambda>(slug, _). ownedByIndividual slug cs) (cs_down cs)\<rparr>)"
      by (simp add: chan_ok_def settle_def)
    then show ?thesis
      using cs inv_put_channel [OF inv3, of _ ch] by (simp add: retireGroupChannel_def del: del_group_sel)
  qed
  then show ?thesis using ev inv2 by simp
qed

lemma inv_evaluateAll:
  assumes "probe_ok probe" and "mgr_inv (w_mgr w)"
  shows "mgr_inv (w_mgr (evaluateAll probe w))"
  unfolding evaluateAll_def Let_def
  by (rule inv_fold [OF inv_evaluate_channel], assumption, rule inv_fold [OF inv_expire_channel])
     (use assms in auto)

lemma inv_Reattach:
  assumes inv: "mgr_inv (w_mgr w)" and none: "mg_channels (w_mgr w) = []"
  shows "mgr_inv (w_mgr (fst (Reattach w)))"
proof -
  have "mgr_inv (w_mgr (fold (\<lambda>row. put_group (gr_channel_slug row) (fromRow cfg row)) rows v)) \<and>
      mg_channels (w_mgr (fold (\<lambda>row. put_group (gr_channel_slug row) (fromRow cfg row)) rows v)) = []"
    if "mgr_inv (w_mgr v)" "mg_channels (w_mgr v) = []" for rows v cfg
    using that
  proof (induction rows arbitrary: v)
    case (Cons r rows)
    have "mgr_inv (w_mgr (put_group (gr_channel_slug r) (fromRow cfg r) v))"
      by (rule inv_put_group) (use Cons.prems fromRow_group_ok in auto)
    then show ?case using Cons.IH [of "put_group (gr_channel_slug r) (fromRow cfg r) v"] Cons.prems by simp
  qed simp
  then show ?thesis
    using assms by (auto simp: Reattach_def split: prod.split sum.split)
qed

section \<open>Runs\<close>

datatype mgr_op =
    OpRoute string entry | OpUp string string time | OpPause string string time
  | OpDown string member_info time
  | OpEvaluate time "(string \<times> string) option list" "string \<Rightarrow> world \<Rightarrow> world"
  | OpFaults "bool list"

definition mgr_step :: "world \<Rightarrow> mgr_op \<Rightarrow> world \<times> call list" where
  "mgr_step w op = (case op of
      OpRoute ch e \<Rightarrow> (Route ch e w, [])
    | OpUp ch s t \<Rightarrow> (Up ch s t w, [])
    | OpPause ch s t \<Rightarrow> (Pause ch s t w, [])
    | OpDown ch i t \<Rightarrow> (Down ch i t w, [])
    | OpEvaluate t answers probe \<Rightarrow> (evaluateAll probe (w\<lparr>w_now := t, w_answers := answers\<rparr>), [])
    | OpFaults fs \<Rightarrow> (w\<lparr>w_db := (w_db w)\<lparr>db_faults := fs\<rparr>\<rparr>, []))"

fun good_op :: "mgr_op \<Rightarrow> bool" where
  "good_op (OpEvaluate t as probe) = probe_ok probe" | "good_op _ = True"

interpretation dispatcher: machine mgr_step "\<lambda>w :: world. mgr_inv (w_mgr w)" good_op
proof unfold_locales
  fix w :: world and e assume "mgr_inv (w_mgr w)" "good_op e"
  then show "mgr_inv (w_mgr (fst (mgr_step w e)))"
    by (cases e) (simp_all add: mgr_step_def inv_Route inv_Up inv_Pause inv_evaluateAll Down_def)
qed

section \<open>The burst count\<close>

lemma burst_size_card:
  assumes ok: "chan_ok cs"
  shows "burst_size cs = card (fst ` set (cs_down cs) \<union> fst ` set (cs_pending cs))"
proof -
  let ?D = "fst ` set (cs_down cs)" and ?P = "fst ` set (cs_pending cs)"
  have dd: "distinct (map fst (cs_down cs))" and dp: "distinct (map fst (cs_pending cs))"
    using ok by (simp_all add: chan_ok_def gm_ok_def)
  have "card ?D = length (cs_down cs)" using distinct_card [OF dd] by simp
  moreover have "card (?P - ?D) = length (filter (\<lambda>(slug, _). gm_get (cs_down cs) slug = None) (cs_pending cs))"
  proof -
    let ?f = "filter (\<lambda>(slug, _). gm_get (cs_down cs) slug = None) (cs_pending cs)"
    have "fst ` set ?f = ?P - ?D"
      by (force simp: map_of_eq_None_iff)
    moreover have "distinct (map fst ?f)" by (rule distinct_map_filter [OF dp])
    ultimately show ?thesis using distinct_card [of "map fst ?f"] by simp
  qed
  moreover have "card (?D \<union> ?P) = card ?D + card (?P - ?D)"
    using card_Un_disjoint [of ?D "?P - ?D"] by simp
  ultimately show ?thesis by (simp add: burst_size_def)
qed

lemma pool_le_burst: "chan_ok cs \<Longrightarrow> length (cs_pending cs) \<le> burst_size cs"
  using distinct_card [of "map fst (cs_pending cs)"]
    card_mono [of "fst ` set (cs_down cs) \<union> fst ` set (cs_pending cs)" "fst ` set (cs_pending cs)"]
  by (simp add: burst_size_card) (simp add: chan_ok_def gm_ok_def)

lemma ensureGroup_some:
  assumes "db_faults (w_db w) = []"
  shows "fst (ensureGroup ch at w) \<noteq> None"
proof (cases "gm_get (mg_groups (w_mgr w)) ch")
  case None
  have f: "FindOpenIncidentGroup ch (w_db w) = (w_db w, Inr (map_option load_members
        (find (\<lambda>g. gr_channel_slug g = ch \<and> \<not> gr_closed g) (db_groups (w_db w)))))"
    using assms by (simp add: FindOpenIncidentGroup_def)
  show ?thesis
  proof (cases "find (\<lambda>g. gr_channel_slug g = ch \<and> \<not> gr_closed g) (db_groups (w_db w))")
    case Some
    then show ?thesis using None f by (simp add: ensureGroup_def Let_def)
  next
    case nf: None
    then have "\<not> list_ex (\<lambda>g. gr_channel_slug g = ch \<and> \<not> gr_closed g) (db_groups (w_db w))"
      by (auto simp: find_None_iff list_ex_iff)
    then show ?thesis
      using None f nf assms by (simp add: ensureGroup_def Let_def CreateIncidentGroup_def)
  qed
qed (simp add: ensureGroup_def)

section \<open>Properties\<close>

text \<open>C2: Whatever is routed, staged, paused, probed or evaluated, in whatever order, with whatever
  failures of the store and answers of Slack: a channel has a pending pool exactly while it is in
  pending mode, never together with a live incident, every pool entry sits under its own monitor's
  slug, and every live incident belongs to its channel and is keyed by its members' slugs.\<close>

theorem dispatcher_state_consistent:
  assumes "list_all good_op ops" and "mg_channels (w_mgr w0) = []" and "mg_groups (w_mgr w0) = []"
    and w: "w = fst (run_machine mgr_step (fst (Reattach w0)) ops)"
  shows "(\<forall>ch cs. gm_get (mg_channels (w_mgr w)) ch = Some cs \<longrightarrow>
       (cs_mode cs = modePending \<longleftrightarrow> cs_pending cs \<noteq> []) \<and>
       (cs_mode cs = modePending \<longrightarrow> gm_get (mg_groups (w_mgr w)) ch = None) \<and>
       distinct (map fst (cs_pending cs)) \<and>
       (\<forall>(k, pe) \<in> set (cs_pending cs). mi_slug (en_member (pe_entry pe)) = k)) \<and>
     (\<forall>ch lg. gm_get (mg_groups (w_mgr w)) ch = Some lg \<longrightarrow>
       g_channel (lg_g lg) = ch \<and> keyed (lg_g lg))"
proof -
  have "mgr_inv (w_mgr w0)" using assms(2,3) by (simp add: mgr_inv_def at_ok_def)
  then have "mgr_inv (w_mgr w)"
    unfolding w using dispatcher.run_inv [OF _ assms(1)] inv_Reattach assms(2) by blast
  note i = this
  have "chan_ok cs \<and> (cs_mode cs = modePending \<longrightarrow> gm_get (mg_groups (w_mgr w)) ch = None)"
    if "gm_get (mg_channels (w_mgr w)) ch = Some cs" for ch cs
    using inv_chan [OF i that] inv_mode [OF i that] by blast
  moreover have "group_ok ch lg" if "gm_get (mg_groups (w_mgr w)) ch = Some lg" for ch lg
    by (rule inv_group [OF i that])
  ultimately show ?thesis
    unfolding chan_ok_def group_ok_def gm_ok_def by blast
qed

definition sample_entry :: "string \<Rightarrow> event_type \<Rightarrow> time \<Rightarrow> entry" where
  "sample_entry slug t at =
    \<lparr>en_member = \<lparr>mi_slug = slug, mi_friendly_name = [], mi_mentions = [], mi_detail_url = []\<rparr>,
     en_row = None, en_event = Some \<lparr>e_type = t, e_at = at, e_status_code = 0, e_error = [],
       e_downtime = 0\<rparr>, en_mentions = []\<rparr>"

definition sample_world :: world where
  "sample_world = \<lparr>w_db = empty_db 0,
     w_mgr = NewManager True \<lparr>cf_group_wait = 0, cf_group_interval = 0, cf_repeat_interval = 0,
       cf_resolve_debounce = 0\<rparr> 10 2 100 ''here'',
     w_now = 0, w_calls = [], w_answers = []\<rparr>"

lemma dispatcher_state_consistent_witness:
  "let w = fst (run_machine mgr_step (fst (Reattach sample_world))
      [OpRoute ''ops'' (sample_entry ''a'' EventOpen 1), OpRoute ''ops'' (sample_entry ''b'' EventOpen 2),
       OpRoute ''ops'' (sample_entry ''a'' EventResolve 3)]) in
   map_option (map fst \<circ> cs_pending) (gm_get (mg_channels (w_mgr w)) ''ops'') = Some [''b'']
   \<and> gm_get (mg_groups (w_mgr w)) ''ops'' = None"
proof -
  define ops where "ops = [OpRoute ''ops'' (sample_entry ''a'' EventOpen 1),
    OpRoute ''ops'' (sample_entry ''b'' EventOpen 2), OpRoute ''ops'' (sample_entry ''a'' EventResolve 3)]"
  define w where "w = fst (run_machine mgr_step (fst (Reattach sample_world)) ops)"
  have g: "list_all good_op ops" by (simp add: ops_def)
  have e: "mg_channels (w_mgr sample_world) = []" "mg_groups (w_mgr sample_world) = []"
    by (simp_all add: sample_world_def NewManager_def Let_def)
  have r: "fst (Reattach sample_world) = sample_world"
    by (simp add: Reattach_def sample_world_def ListOpenIncidentGroups_def empty_db_def)
  obtain cs where cs: "gm_get (mg_channels (w_mgr w)) ''ops'' = Some cs" "cs_mode cs = modePending"
      "map fst (cs_pending cs) = [''b'']"
    unfolding w_def ops_def r
    by (simp add: mgr_step_def Route_def routeOpen_def routeResolve_def sample_entry_def
        sample_world_def NewManager_def channelStateFor_def fresh_channel_def markDown_def
        clearDown_def forgetDown_def drop_pending_def ownedByIndividual_def put_channel_def Let_def)
  then show ?thesis
    using dispatcher_state_consistent [OF g e w_def]
    unfolding Let_def ops_def [symmetric] w_def [symmetric] by auto
qed

end
