(* ===== verification/Coalesce_Claims.thy ===== *)
theory Coalesce_Claims
  imports Dispatch_Props
begin

text \<open>
  The properties of the coalescing manager: what becomes of a pool, who answers a recovery, and that
  an incident survives a restart; with the two executions in which the code loses a notification.
\<close>




text \<open>C7: A recovery of a monitor whose incident the per-monitor notifier owns goes to that notifier,
  exactly once, whatever mode the channel is in and whether or not an incident is open, and releases
  the ownership; a recovery that the notifier does not own is told by the incident that carries the
  monitor, if there is one, and by the notifier otherwise, except in a pending window.\<close>

theorem recovery_reaches_its_owner:
  assumes sink: "mg_has_sink (w_mgr w)" and ev: "en_event e = Some ev" "e_type ev = EventResolve"
    and s: "s = mi_slug (en_member e)" and cs: "cs = channelStateFor ch (w_mgr w)"
    and w': "w' = Route ch e w"
  shows "(ownedByIndividual s cs \<longrightarrow> w_calls w' = w_calls w @ [CallSink ch e] \<and>
       mg_groups (w_mgr w') = mg_groups (w_mgr w) \<and>
       (\<forall>cs'. gm_get (mg_channels (w_mgr w')) ch = Some cs' \<longrightarrow> \<not> ownedByIndividual s cs')) \<and>
     (\<not> ownedByIndividual s cs \<and> cs_mode cs \<noteq> modePending \<longrightarrow>
       (case gm_get (mg_groups (w_mgr w)) ch of
          Some lg \<Rightarrow> (if gm_get (g_members (lg_g lg)) s \<noteq> None
             then w_calls w' = w_calls w \<and>
               gm_get (mg_groups (w_mgr w')) ch = Some (lg\<lparr>lg_g := MarkUp s (e_at ev) (lg_g lg)\<rparr>)
             else w_calls w' = w_calls w @ [CallSink ch e])
        | None \<Rightarrow> w_calls w' = w_calls w @ [CallSink ch e])) \<and>
     (\<not> ownedByIndividual s cs \<and> cs_mode cs = modePending \<longrightarrow> w_calls w' = w_calls w \<and>
       (\<forall>cs'. gm_get (mg_channels (w_mgr w')) ch = Some cs' \<longrightarrow> gm_get (cs_pending cs') s = None))"
proof -
  have r: "w' = routeResolve ch e ev w" using ev by (simp add: w' Route_def)
  have grp: "gm_get (mg_groups (w_mgr w)) ch \<noteq> None \<Longrightarrow> cs_mode cs = modeGroup"
    by (simp add: cs channelStateFor_def Let_def)
  show ?thesis
  proof (cases "ownedByIndividual s cs")
    case True
    then show ?thesis
      using sink by (simp add: r routeResolve_def s [symmetric] cs [symmetric] Let_def ownedByIndividual_def
          clearDown_def)
  next
    case False
    show ?thesis
    proof (cases "cs_mode cs")
      case modePending
      then show ?thesis
        using False by (auto simp: r routeResolve_def s [symmetric] cs [symmetric] Let_def
            drop_pending_def settle_def)
    next
      case modeIndividual
      then have "gm_get (mg_groups (w_mgr w)) ch = None"
        using grp by (cases "gm_get (mg_groups (w_mgr w)) ch") auto
      then show ?thesis
        using False modeIndividual sink
        by (simp add: r routeResolve_def s [symmetric] cs [symmetric] Let_def)
    next
      case modeGroup
      then show ?thesis
        using False sink
        by (auto simp: r routeResolve_def s [symmetric] cs [symmetric] Let_def digestOwns_def on_group_def
            split: option.splits)
    qed
  qed
qed

lemma recovery_reaches_its_owner_witness:
  "let w = decide_pool ''ops'' 20 (Route ''ops'' (sample_entry ''a'' EventOpen 1) sample_world) in
   w_calls w = [CallSink ''ops'' (sample_entry ''a'' EventOpen 1)] \<and>
   w_calls (Route ''ops'' (sample_entry ''a'' EventResolve 30) w) =
     w_calls w @ [CallSink ''ops'' (sample_entry ''a'' EventResolve 30)]"
proof -
  define w where "w = decide_pool ''ops'' 20 (Route ''ops'' (sample_entry ''a'' EventOpen 1) sample_world)"
  note d = Route_def routeOpen_def sample_entry_def sample_world_def NewManager_def decide_pool_def
    channelStateFor_def fresh_channel_def markDown_def put_channel_def Let_def empty_db_def pruneDown_def
    time_sub_def max_duration_def min_duration_def burst_size_def flush_pool_def takeIndividual_def
    settle_def flushSink_def send_def ownedByIndividual_def
  have "mg_has_sink (w_mgr w)" "ownedByIndividual ''a'' (channelStateFor ''ops'' (w_mgr w))"
    "w_calls w = [CallSink ''ops'' (sample_entry ''a'' EventOpen 1)]"
    unfolding w_def by (simp_all add: d)
  moreover have "en_event (sample_entry ''a'' EventResolve 30) = Some \<lparr>e_type = EventResolve, e_at = 30,
      e_status_code = 0, e_error = [], e_downtime = 0\<rparr>" "''a'' = mi_slug (en_member (sample_entry ''a'' EventResolve 30))"
    by (simp_all add: sample_entry_def)
  ultimately show ?thesis
    using recovery_reaches_its_owner [of w "sample_entry ''a'' EventResolve 30" _ "''a''" _ "''ops''", OF _ _ _ _ refl refl]
    unfolding w_def [symmetric] Let_def by simp
qed

section \<open>The persisted form\<close>

definition pg_mem :: "member \<Rightarrow> member" where
  "pg_mem m = m\<lparr>m_joined_at := pg_time (m_joined_at m), m_down_since := pg_time (m_down_since m),
     m_up_since := pg_time (m_up_since m), m_changed_at := pg_time (m_changed_at m)\<rparr>"

definition canonical :: "member_state \<Rightarrow> bool" where
  "canonical s \<longleftrightarrow> parse_state (state_string s) = s"

lemma canonical_known: "(\<And>x. s \<noteq> MemberOther x) \<Longrightarrow> canonical s"
  by (cases s) (auto simp: canonical_def parse_state_def)

lemma deref_pg_opt: "derefTime (pg_opt (timePtr t)) = pg_time t"
  by (simp add: derefTime_def pg_opt_def timePtr_def is_zero_def)

lemma row_member_roundtrip:
  "canonical (m_state m) \<Longrightarrow> row_member (pg_member (member_row m)) = pg_mem m"
  by (simp add: row_member_def pg_member_def member_row_def pg_mem_def canonical_def deref_pg_opt)

definition row_get :: "group_member_row list \<Rightarrow> string \<Rightarrow> group_member_row option" where
  "row_get rs k = find (\<lambda>r. gm_monitor_slug r = k) rs"

lemma row_get_upsert: "row_get (upsert_member m rs) k = (if k = gm_monitor_slug m then Some m else row_get rs k)"
  by (induction rs) (auto simp: row_get_def)

lemma slugs_upsert:
  "map gm_monitor_slug (upsert_member m rs) = (if gm_monitor_slug m \<in> gm_monitor_slug ` set rs
     then map gm_monitor_slug rs else map gm_monitor_slug rs @ [gm_monitor_slug m])"
  by (induction rs) auto

lemma distinct_upsert:
  "distinct (map gm_monitor_slug rs) \<Longrightarrow> distinct (map gm_monitor_slug (upsert_member m rs))"
  by (simp add: slugs_upsert)

lemma fold_upsert_distinct:
  "distinct (map gm_monitor_slug rs) \<Longrightarrow> distinct (map gm_monitor_slug (fold (\<lambda>m. upsert_member (f m)) ms rs))"
  by (induction ms arbitrary: rs) (simp_all add: distinct_upsert)

lemma fold_upsert_get:
  "distinct (map (\<lambda>m. gm_monitor_slug (f m)) ms) \<Longrightarrow>
   row_get (fold (\<lambda>m. upsert_member (f m)) ms rs) k =
   (case find (\<lambda>m. gm_monitor_slug (f m) = k) ms of None \<Rightarrow> row_get rs k | Some m \<Rightarrow> Some (f m))"
proof (induction ms arbitrary: rs)
  case (Cons m ms)
  have "find (\<lambda>m. gm_monitor_slug (f m) = k) ms = None" if "gm_monitor_slug (f m) = k"
    using Cons.prems that by (auto simp: find_None_iff image_iff)
  with Cons show ?case by (auto simp: row_get_upsert split: option.split)
qed simp

lemma row_get_iff:
  "distinct (map gm_monitor_slug rs) \<Longrightarrow> row_get rs k = Some r \<longleftrightarrow> r \<in> set rs \<and> gm_monitor_slug r = k"
  by (induction rs) (auto simp: row_get_def)

lemma row_get_sort:
  assumes "distinct (map gm_monitor_slug rs)"
  shows "row_get (sort_key gm_monitor_slug rs) k = row_get rs k"
proof -
  have "distinct (map gm_monitor_slug (sort_key gm_monitor_slug rs))"
    using assms by (simp add: distinct_map inj_on_def)
  then have "row_get (sort_key gm_monitor_slug rs) k = Some r \<longleftrightarrow> row_get rs k = Some r" for r
    using assms by (simp add: row_get_iff)
  then show ?thesis by (metis not_Some_eq)
qed

lemma fold_gm_put_get:
  "distinct (map gm_monitor_slug rs) \<Longrightarrow>
   gm_get (fold (\<lambda>mr. gm_put (gm_monitor_slug mr) (row_member mr)) rs m) k =
   (case row_get rs k of None \<Rightarrow> gm_get m k | Some r \<Rightarrow> Some (row_member r))"
proof (induction rs arbitrary: m)
  case (Cons r rs)
  have "row_get rs k = None" if "gm_monitor_slug r = k"
    using Cons.prems that by (auto simp: row_get_def find_None_iff image_iff)
  with Cons show ?case by (auto simp: row_get_def split: option.split)
qed (simp add: row_get_def)

text \<open>The open incident's row: the only open one of its channel, with no members it no longer has.\<close>

definition stored :: "db \<Rightarrow> live_group \<Rightarrow> bool" where
  "stored d lg \<longleftrightarrow> distinct (map gr_id (db_groups d)) \<and>
     (\<exists>r \<in> set (db_groups d). gr_id r = lg_id lg) \<and>
     (\<forall>r \<in> set (db_groups d).
        (gr_id r = lg_id lg \<longrightarrow> gr_channel_slug r = g_channel (lg_g lg) \<and>
           gr_opened_at r = pg_time (g_opened_at (lg_g lg)) \<and>
           distinct (map gm_monitor_slug (gr_members r)) \<and>
           gm_monitor_slug ` set (gr_members r) \<subseteq> fst ` set (g_members (lg_g lg))) \<and>
        (gr_channel_slug r = g_channel (lg_g lg) \<and> \<not> gr_closed r \<longrightarrow> gr_id r = lg_id lg))"

lemma save_row_members:
  assumes k: "keyed (lg_g lg)" and can: "\<forall>m \<in> set (map snd (g_members (lg_g lg))). canonical (m_state m)"
    and dist: "distinct (map gm_monitor_slug (gr_members old))"
    and sub: "gm_monitor_slug ` set (gr_members old) \<subseteq> fst ` set (g_members (lg_g lg))"
  shows "gm_get (g_members (lg_g (fromRow cfg (load_members (save_row (toRow lg) old))))) slug =
     map_option pg_mem (gm_get (g_members (lg_g lg)) slug)"
proof -
  let ?ms = "map (member_row \<circ> snd) (g_members (lg_g lg))"
  let ?rs = "fold (\<lambda>m. upsert_member (pg_member m)) ?ms (gr_members old)"
  have slug_eq: "map (\<lambda>m. gm_monitor_slug (pg_member m)) ?ms = map fst (g_members (lg_g lg))"
    using k by (auto simp: keyed_def pg_member_def member_row_def)
  then have dms: "distinct (map (\<lambda>m. gm_monitor_slug (pg_member m)) ?ms)"
    using k by (simp only: keyed_def gm_ok_def)
  have drs: "distinct (map gm_monitor_slug ?rs)" by (rule fold_upsert_distinct [OF dist])
  have "gm_get (g_members (lg_g (fromRow cfg (load_members (save_row (toRow lg) old))))) slug =
      map_option row_member (row_get ?rs slug)"
  proof -
    have "distinct (map gm_monitor_slug (sort_key gm_monitor_slug ?rs))"
      using drs by (simp add: distinct_map inj_on_def)
    then show ?thesis
      using fold_gm_put_get [of "sort_key gm_monitor_slug ?rs" "[]" slug] row_get_sort [OF drs]
      by (simp add: fromRow_def load_members_def save_row_def toRow_def Let_def split: option.split)
  qed
  also have "row_get ?rs slug = map_option (pg_member \<circ> member_row) (gm_get (g_members (lg_g lg)) slug)"
  proof (cases "gm_get (g_members (lg_g lg)) slug")
    case None
    then have nk: "slug \<notin> fst ` set (g_members (lg_g lg))" by (simp add: map_of_eq_None_iff)
    then have "find (\<lambda>m. gm_monitor_slug (pg_member m) = slug) ?ms = None"
      using arg_cong [OF slug_eq, of set] by (auto simp: find_None_iff image_iff)
    moreover have "row_get (gr_members old) slug = None"
      using nk sub by (auto simp: row_get_def find_None_iff)
    ultimately show ?thesis using fold_upsert_get [OF dms] None by simp
  next
    case (Some m)
    then have mem: "(slug, m) \<in> set (g_members (lg_g lg))" by (rule map_of_SomeD)
    have "\<exists>x. find (\<lambda>m. gm_monitor_slug (pg_member m) = slug) ?ms = Some x \<and> x = member_row m"
    proof -
      have ex: "member_row m \<in> set ?ms" "gm_monitor_slug (pg_member (member_row m)) = slug"
        using mem k by (force, auto simp: keyed_def pg_member_def member_row_def)
      then obtain x where x: "find (\<lambda>m. gm_monitor_slug (pg_member m) = slug) ?ms = Some x"
        by (cases "find (\<lambda>m. gm_monitor_slug (pg_member m) = slug) ?ms") (auto simp: find_None_iff)
      then have "x \<in> set ?ms" "gm_monitor_slug (pg_member x) = slug" by (auto simp: find_Some_iff)
      moreover have "inj_on (\<lambda>m. gm_monitor_slug (pg_member m)) (set ?ms)"
        using dms unfolding distinct_map by blast
      ultimately have "x = member_row m" using ex unfolding inj_on_def by blast
      with x show ?thesis by blast
    qed
    then show ?thesis using fold_upsert_get [OF dms] Some by auto
  qed
  finally show ?thesis
    using can row_member_roundtrip
    by (cases "gm_get (g_members (lg_g lg)) slug")
       (auto dest!: map_of_SomeD simp: comp_def)
qed

text \<open>C30: An open incident that was saved is read back by a later process as the same incident: same
  row, channel, digest message, posted flag, timers and members with their states, render classes
  and times, to the microsecond; so after a restart its digest is edited and not posted again, and
  the next delta is computed against what was last shown.\<close>

theorem incident_survives_restart:
  assumes k: "keyed (lg_g lg)" and can: "\<forall>m \<in> set (map snd (g_members (lg_g lg))). canonical (m_state m)"
    and st: "stored d lg" and op: "\<not> g_closed (lg_g lg)"
    and s: "SaveIncidentGroup (toRow lg) d = (d1, Inr ())"
    and f: "FindOpenIncidentGroup (g_channel (lg_g lg)) d1 = (d2, Inr found)"
  shows "\<exists>row. found = Some row \<and> lg_id (fromRow cfg row) = lg_id lg \<and>
    (let g = lg_g lg; g' = lg_g (fromRow cfg row) in
      g_channel g' = g_channel g \<and> g_digest_ts g' = g_digest_ts g \<and>
      g_digest_channel g' = g_digest_channel g \<and> g_posted g' = g_posted g \<and> \<not> g_closed g' \<and>
      g_opened_at g' = pg_time (g_opened_at g) \<and> g_last_flush_at g' = pg_time (g_last_flush_at g) \<and>
      g_last_reminder_at g' = pg_time (g_last_reminder_at g) \<and>
      (\<forall>slug. gm_get (g_members g') slug = map_option pg_mem (gm_get (g_members g) slug)))"
proof -
  obtain da where da: "db_data da = db_data d"
    and sv: "db_groups d1 = map (\<lambda>old. if gr_id old = lg_id lg then save_row (toRow lg) old else old) (db_groups d)"
    using s [unfolded SaveIncidentGroup_def]
  proof (cases rule: db_call_elim)
    case (runs da)
    note g = db_data_sel(4) [OF runs(1)]
    have "list_ex (\<lambda>old. gr_id old = gr_id (toRow lg)) (db_groups da)"
      using st g by (auto simp: stored_def list_ex_iff toRow_def Let_def)
    then show ?thesis
      using that [OF runs(1)] runs(2) g by (auto simp: toRow_def Let_def)
  qed simp
  obtain old where old: "old \<in> set (db_groups d)" "gr_id old = lg_id lg" using st by (auto simp: stored_def)
  have props: "gr_channel_slug old = g_channel (lg_g lg)" "gr_opened_at old = pg_time (g_opened_at (lg_g lg))"
      "distinct (map gm_monitor_slug (gr_members old))"
      "gm_monitor_slug ` set (gr_members old) \<subseteq> fst ` set (g_members (lg_g lg))"
    using st old by (auto simp: stored_def)
  let ?new = "save_row (toRow lg) old"
  let ?P = "\<lambda>g. gr_channel_slug g = g_channel (lg_g lg) \<and> \<not> gr_closed g"
  have new: "?P ?new" "?new \<in> set (db_groups d1)"
    using op props old by (auto simp: save_row_def toRow_def Let_def sv)
  have uniq: "r = ?new" if "r \<in> set (db_groups d1)" "?P r" for r
  proof -
    from that(1) obtain o' where o': "o' \<in> set (db_groups d)"
      "r = (if gr_id o' = lg_id lg then save_row (toRow lg) o' else o')" by (auto simp: sv)
    then have "gr_id o' = lg_id lg"
      using that(2) st by (auto simp: stored_def split: if_splits)
    moreover from this have "o' = old"
      using o'(1) old st by (auto simp: stored_def distinct_map inj_on_def)
    ultimately show ?thesis using o' by simp
  qed
  have fd: "find ?P (db_groups d1) = Some ?new"
  proof (cases "find ?P (db_groups d1)")
    case None
    then show ?thesis using new by (auto simp: find_None_iff)
  next
    case (Some r)
    then have "r \<in> set (db_groups d1)" "?P r" by (auto simp: find_Some_iff)
    then show ?thesis using Some uniq by simp
  qed
  have fnd: "found = Some (load_members ?new)"
    using f [unfolded FindOpenIncidentGroup_def]
  proof (cases rule: db_call_elim)
    case (runs db)
    then show ?thesis using fd db_data_sel(4) [OF runs(1)] by auto
  qed simp
  have "gm_get (g_members (lg_g (fromRow cfg (load_members ?new)))) slug =
     map_option pg_mem (gm_get (g_members (lg_g lg)) slug)" for slug
    by (rule save_row_members [OF k can props(3,4)])
  then show ?thesis
    using fnd op props old
    by (auto simp: Let_def) (auto simp: fromRow_def load_members_def save_row_def toRow_def Let_def
        deref_pg_opt Group.New_def)
qed

lemma incident_survives_restart_witness:
  "let cfg = \<lparr>cf_group_wait = 0, cf_group_interval = 0, cf_repeat_interval = 0, cf_resolve_debounce = 0\<rparr>;
       lg = \<lparr>lg_id = 1, lg_g = MarkDown ''a'' 5500 (Group.New ''ops'' 1700 cfg), lg_info = []\<rparr>;
       d = fst (CreateIncidentGroup ''ops'' 1700 (empty_db 0));
       d1 = fst (SaveIncidentGroup (toRow lg) d) in
   \<exists>row. snd (FindOpenIncidentGroup ''ops'' d1) = Inr (Some row) \<and>
     map_option m_down_since (gm_get (g_members (lg_g (fromRow cfg row))) ''a'') = Some 5000"
proof -
  define cfg where "cfg = \<lparr>cf_group_wait = 0, cf_group_interval = 0, cf_repeat_interval = 0,
    cf_resolve_debounce = 0\<rparr>"
  define lg where "lg = \<lparr>lg_id = 1, lg_g = MarkDown ''a'' 5500 (Group.New ''ops'' 1700 cfg), lg_info = []\<rparr>"
  define d where "d = fst (CreateIncidentGroup ''ops'' 1700 (empty_db 0))"
  define d1 where "d1 = fst (SaveIncidentGroup (toRow lg) d)"
  have k: "keyed (lg_g lg)" by (simp add: lg_def keyed_MarkDown keyed_New)
  have m: "g_members (lg_g lg) = [(''a'', \<lparr>m_slug = ''a'', m_state = MemberDown, m_joined_at = 5500,
      m_down_since = 5500, m_up_since = zero_time, m_changed_at = 5500, m_rendered = renderNone\<rparr>)]"
    and g: "g_channel (lg_g lg) = ''ops''" "\<not> g_closed (lg_g lg)" "g_opened_at (lg_g lg) = 1700" "lg_id lg = 1"
    by (simp_all add: lg_def MarkDown_def Group.New_def)
  have can: "\<forall>m \<in> set (map snd (g_members (lg_g lg))). canonical (m_state m)"
    by (simp add: m canonical_known)
  have st: "stored d lg"
    by (simp add: stored_def d_def CreateIncidentGroup_def empty_db_def g)
  have s: "SaveIncidentGroup (toRow lg) d = (d1, Inr ())" and fl: "db_faults d1 = []"
    by (simp_all add: d1_def SaveIncidentGroup_def d_def CreateIncidentGroup_def empty_db_def
        toRow_def g Let_def)
  obtain d2 found where f: "FindOpenIncidentGroup ''ops'' d1 = (d2, Inr found)"
    by (simp add: FindOpenIncidentGroup_def fl)
  from incident_survives_restart [OF k can st g(2) s f [folded g(1)], of cfg]
  obtain row where "found = Some row"
    "gm_get (g_members (lg_g (fromRow cfg row))) ''a'' = map_option pg_mem (gm_get (g_members (lg_g lg)) ''a'')"
    unfolding Let_def by blast
  then have "\<exists>row. snd (FindOpenIncidentGroup ''ops'' d1) = Inr (Some row) \<and>
     map_option m_down_since (gm_get (g_members (lg_g (fromRow cfg row))) ''a'') = Some 5000"
    using f by (simp add: m pg_mem_def pg_time_def)
  then show ?thesis
    by (simp only: Let_def cfg_def [symmetric] lg_def [symmetric] d_def [symmetric] d1_def [symmetric])
qed

section \<open>Two executions that lose a notification\<close>

text \<open>
  The pool reaches the threshold while the store refuses both calls: the pool is cleared, no
  incident exists and nobody is told.
\<close>

lemma promotion_store_failure_loses_pool:
  "let w = Route ''ops'' (sample_entry ''b'' EventOpen 2) (Route ''ops'' (sample_entry ''a'' EventOpen 1) sample_world);
       w' = decide_pool ''ops'' 20 (w\<lparr>w_db := (w_db w)\<lparr>db_faults := [True, True]\<rparr>\<rparr>) in
   map_option cs_pending (gm_get (mg_channels (w_mgr w')) ''ops'') = Some [] \<and>
   gm_get (mg_groups (w_mgr w')) ''ops'' = None \<and> w_calls w' = []"
  by (simp add: Route_def routeOpen_def sample_entry_def sample_world_def NewManager_def
      channelStateFor_def fresh_channel_def markDown_def put_channel_def Let_def empty_db_def
      decide_pool_def pruneDown_def time_sub_def max_duration_def min_duration_def burst_size_def
      promote_pool_def ensureGroup_def FindOpenIncidentGroup_def CreateIncidentGroup_def db_call_def
      settle_def earliest_entered_def)

text \<open>
  After a restart the ownership set is empty.  While another monitor's failure keeps the channel in
  its pending window, the recovery of a monitor that was paged before the restart is dropped.
\<close>

lemma pending_window_swallows_recovery:
  "let w = Route ''ops'' (sample_entry ''b'' EventOpen 2) sample_world in
   w_calls (Route ''ops'' (sample_entry ''a'' EventResolve 3) w) = [] \<and>
   w_calls (Route ''ops'' (sample_entry ''a'' EventResolve 3) sample_world) =
     [CallSink ''ops'' (sample_entry ''a'' EventResolve 3)]"
  by (simp add: Route_def routeOpen_def routeResolve_def sample_entry_def sample_world_def NewManager_def
      channelStateFor_def fresh_channel_def markDown_def put_channel_def Let_def empty_db_def
      ownedByIndividual_def clearDown_def forgetDown_def drop_pending_def flushSink_def send_def)

end
