(* ===== verification/Slack.thy ===== *)
theory Slack
  imports Store
begin

text \<open>
  The Slack client of \<^verbatim>\<open>internal/slack\<close>: the classification of failures (\<^verbatim>\<open>errors.go\<close>), one request
  and the retry loop (\<^verbatim>\<open>client.go\<close>), and the resolution of mentions (\<^verbatim>\<open>mentions.go\<close>).  What the
  network, the clock, the context and the random jitter do at an attempt is an argument.  The loop
  has no bound in the code, so it is a partial function; that it returns is a theorem.
\<close>

section \<open>Classification of failures\<close>

datatype error_kind = KindUnknown | KindTransient | KindPersistent | KindPermanentBug

fun kind_String :: "error_kind \<Rightarrow> string" where
  "kind_String KindTransient = ''transient''"
| "kind_String KindPersistent = ''persistent''"
| "kind_String KindPermanentBug = ''permanent_bug''"
| "kind_String KindUnknown = ''unknown''"

datatype transport_layer =
    LayerDNS | LayerOp string | LayerRefused | LayerUnreachable | LayerReset | LayerEOF
  | LayerCanceled | LayerDeadline | LayerOther

record transport_error =
  te_chain :: "transport_layer list" \<comment> \<open>the unwrap chain, outermost first\<close>
  te_mentions_eof :: bool \<comment> \<open>whether the text contains \<^verbatim>\<open>EOF\<close>\<close>

record slack_error =
  sl_method :: string
  sl_code :: string
  sl_kind :: error_kind
  sl_http_status :: int
  sl_retry_after :: duration
  sl_attempts :: nat
  sl_elapsed :: duration
  sl_exhausted :: bool
  sl_cause :: "transport_layer list"
  sl_safe :: bool

definition Retryable :: "slack_error option \<Rightarrow> bool" where
  "Retryable e = (case e of None \<Rightarrow> False | Some se \<Rightarrow> sl_kind se = KindTransient)"

definition transient_codes :: "string list" where
  "transient_codes = [''ratelimited'', ''service_unavailable'', ''internal_error'',
     ''request_timeout'', ''fatal_error'']"

definition persistent_codes :: "string list" where
  "persistent_codes = [''invalid_auth'', ''token_revoked'', ''token_expired'', ''account_inactive'',
     ''not_authed'', ''not_in_channel'', ''channel_not_found'', ''is_archived'', ''missing_scope'',
     ''no_permission'', ''team_added_to_org'', ''user_not_found'', ''user_not_visible'',
     ''message_not_found'', ''cant_delete_message'', ''compliance_exports_prevent_deletion'']"

definition permanent_bug_codes :: "string list" where
  "permanent_bug_codes = [''msg_too_long'', ''invalid_blocks'', ''invalid_blocks_format'',
     ''invalid_arguments'', ''invalid_argument_name'', ''invalid_attachments'',
     ''too_many_attachments'', ''too_many_contexts'']"

definition classifySlackCode :: "string \<Rightarrow> error_kind" where
  "classifySlackCode code =
    (if code \<in> set transient_codes then KindTransient
     else if code \<in> set persistent_codes then KindPersistent
     else if code \<in> set permanent_bug_codes then KindPermanentBug
     else KindUnknown)"

definition classifyHTTPStatus :: "int \<Rightarrow> error_kind" where
  "classifyHTTPStatus st =
    (if 200 \<le> st \<and> st < 300 then KindUnknown
     else if st = 400 then KindPermanentBug
     else if st = 401 \<or> st = 403 \<or> st = 404 then KindPersistent
     else if st = 429 then KindTransient
     else if 500 \<le> st then KindTransient
     else KindUnknown)"

text \<open>The operation of the first \<^verbatim>\<open>net.OpError\<close> in the chain.\<close>

fun first_op :: "transport_layer list \<Rightarrow> string option" where
  "first_op [] = None"
| "first_op (LayerOp s # _) = Some s"
| "first_op (_ # ls) = first_op ls"

definition classifyErrno :: "transport_error \<Rightarrow> error_kind \<times> string \<times> bool" where
  "classifyErrno e =
    (if LayerRefused \<in> set (te_chain e) \<or> LayerUnreachable \<in> set (te_chain e)
     then (KindTransient, ''dial'', True)
     else if LayerReset \<in> set (te_chain e) then (KindTransient, ''reset'', False)
     else if LayerEOF \<in> set (te_chain e) \<or> te_mentions_eof e then (KindTransient, ''eof'', False)
     else (KindTransient, ''transport'', False))"

definition classifyTransport :: "transport_error option \<Rightarrow> error_kind \<times> string \<times> bool" where
  "classifyTransport err = (case err of
      None \<Rightarrow> (KindUnknown, [], False)
    | Some e \<Rightarrow>
        if LayerDNS \<in> set (te_chain e) then (KindTransient, ''dns'', True)
        else if first_op (te_chain e) = Some ''dial'' then (KindTransient, ''dial'', True)
        else if first_op (te_chain e) = Some ''read'' then (KindTransient, ''read'', False)
        else if first_op (te_chain e) = Some ''write'' then (KindTransient, ''write'', False)
        else classifyErrno e)"

section \<open>One request\<close>

datatype reply_body =
    BodyUnreadable
  | Body bool string bool \<comment> \<open>\<^verbatim>\<open>ok\<close>, \<^verbatim>\<open>error\<close>, whether it decodes into the caller's struct\<close>

datatype outcome =
    NoResponse transport_error
  | HTTPResponse int string reply_body \<comment> \<open>status, \<^verbatim>\<open>Retry-After\<close>, body\<close>

definition httpStatusCode :: "int \<Rightarrow> string" where
  "httpStatusCode st = ''http_'' @ itoa st"

text \<open>\<^verbatim>\<open>time.ParseDuration\<close> is the argument; a negative or unreadable value counts as absent.\<close>

definition parseRetryAfter :: "(string \<Rightarrow> duration option) \<Rightarrow> string \<Rightarrow> duration" where
  "parseRetryAfter parse_duration s =
    (if s = [] then 0
     else (case parse_duration (s @ ''s'') of
        None \<Rightarrow> 0 | Some secs \<Rightarrow> if secs < 0 then 0 else secs))"

definition plain_error :: "string \<Rightarrow> string \<Rightarrow> error_kind \<Rightarrow> slack_error" where
  "plain_error meth code k = \<lparr>sl_method = meth, sl_code = code, sl_kind = k, sl_http_status = 0,
     sl_retry_after = 0, sl_attempts = 0, sl_elapsed = 0, sl_exhausted = False, sl_cause = [],
     sl_safe = False\<rparr>"

text \<open>\<^verbatim>\<open>StatusCode/100\<close> truncates toward zero, so it is 2 exactly from 200 to 299.\<close>

definition attempt :: "(string \<Rightarrow> duration option) \<Rightarrow> string \<Rightarrow> outcome \<Rightarrow> slack_error option" where
  "attempt pd meth r = (case r of
      NoResponse e \<Rightarrow>
        (let (kind, code, safe) = classifyTransport (Some e) in
         Some ((plain_error meth code kind)\<lparr>sl_cause := te_chain e, sl_safe := safe\<rparr>))
    | HTTPResponse st retry_after body \<Rightarrow>
        if \<not> (200 \<le> st \<and> st < 300) then
          Some ((plain_error meth (httpStatusCode st) (classifyHTTPStatus st))
            \<lparr>sl_http_status := st, sl_retry_after := parseRetryAfter pd retry_after, sl_safe := True\<rparr>)
        else (case body of
            BodyUnreadable \<Rightarrow> Some (plain_error meth ''decode'' KindTransient)
          | Body ok err decodes \<Rightarrow>
              if \<not> ok \<and> err \<noteq> [] then
                Some ((plain_error meth err
                    (if classifySlackCode err = KindUnknown then KindPersistent
                     else classifySlackCode err))
                  \<lparr>sl_http_status := st, sl_retry_after := parseRetryAfter pd retry_after,
                   sl_safe := True\<rparr>)
              else if \<not> decodes then Some (plain_error meth ''decode'' KindTransient)
              else None))"

section \<open>The retry loop\<close>

definition millisecond :: duration where
  "millisecond = 1000000"

text \<open>\<open>jitter\<close> is \<^verbatim>\<open>rand.Int64N(base/2)\<close>, read modulo its range.\<close>

definition nextBackoff :: "int \<Rightarrow> nat \<Rightarrow> duration \<Rightarrow> duration" where
  "nextBackoff jitter att retry_after =
    (if 0 < retry_after then (if 60 * second < retry_after then 60 * second else retry_after)
     else (let base = (if att = 1 then 500 * millisecond else if att = 2 then 1000 * millisecond
                       else 2000 * millisecond) in
       base + (jitter mod (base div 2) - base div 4)))"

record attempt_env =
  at_ctx_done :: bool \<comment> \<open>\<^verbatim>\<open>ctx.Err()\<close> at the head of the loop\<close>
  at_builds :: bool \<comment> \<open>whether \<^verbatim>\<open>build()\<close> succeeds\<close>
  at_outcome :: outcome
  at_ctx_done_after :: bool \<comment> \<open>\<^verbatim>\<open>ctx.Err()\<close> after the request\<close>
  at_time :: time \<comment> \<open>the clock after the request\<close>
  at_jitter :: int
  at_cancelled_waiting :: bool

datatype do_result = DoOk | DoCancelled | DoFailed slack_error

datatype retry_metric = SlackRetry string string

definition codeOrEmpty :: "slack_error option \<Rightarrow> string" where
  "codeOrEmpty e = (case e of None \<Rightarrow> [] | Some se \<Rightarrow> sl_code se)"

text \<open>
  One pass of the loop: either the call is over, or the wait is over and the error is remembered.
\<close>

definition retry_pass :: "(string \<Rightarrow> duration option) \<Rightarrow> duration \<Rightarrow> bool \<Rightarrow> string \<Rightarrow> time
    \<Rightarrow> nat \<Rightarrow> slack_error option \<Rightarrow> attempt_env \<Rightarrow> (do_result \<times> retry_metric list) + slack_error" where
  "retry_pass pd budget metrics meth start att prev a =
    (let elapsed = time_sub (at_time a) start in
     if at_ctx_done a then Inl (DoCancelled, [])
     else if \<not> at_builds a then
       Inl (DoFailed ((plain_error meth ''build_request'' KindPermanentBug)
         \<lparr>sl_attempts := att, sl_elapsed := elapsed\<rparr>), [])
     else (case attempt pd meth (at_outcome a) of
         None \<Rightarrow> Inl (DoOk, if 1 < att \<and> metrics then [SlackRetry ''recovered'' (codeOrEmpty prev)] else [])
       | Some se0 \<Rightarrow>
           (let se = se0\<lparr>sl_attempts := att, sl_elapsed := elapsed\<rparr>;
                wait = nextBackoff (at_jitter a) att (sl_retry_after se) in
            if (LayerCanceled \<in> set (sl_cause se) \<or> LayerDeadline \<in> set (sl_cause se))
               \<and> at_ctx_done_after a then Inl (DoCancelled, [])
            else if sl_kind se \<noteq> KindTransient then Inl (DoFailed se, [])
            else if sl_http_status se = 0 \<and> \<not> sl_safe se then Inl (DoFailed se, [])
            else if start + budget < at_time a + wait \<or> budget = 0 then
              Inl (DoFailed (se\<lparr>sl_exhausted := 1 < att\<rparr>),
                   if metrics \<and> 1 < att then [SlackRetry ''exhausted'' (sl_code se)] else [])
            else if at_cancelled_waiting a then Inl (DoCancelled, [])
            else Inr se)))"

text \<open>The loop returns what ended it and the number of that attempt.\<close>

partial_function (option) retry_loop ::
  "(nat \<Rightarrow> slack_error option \<Rightarrow> 'r + slack_error) \<Rightarrow> nat \<Rightarrow> slack_error option \<Rightarrow> ('r \<times> nat) option" where
  "retry_loop pass att prev = (case pass att prev of
       Inl r \<Rightarrow> Some (r, att)
     | Inr se \<Rightarrow> retry_loop pass (Suc att) (Some se))"

definition retryingDo :: "(string \<Rightarrow> duration option) \<Rightarrow> duration \<Rightarrow> bool \<Rightarrow> string \<Rightarrow> time
    \<Rightarrow> (nat \<Rightarrow> attempt_env) \<Rightarrow> ((do_result \<times> retry_metric list) \<times> nat) option" where
  "retryingDo pd retry_budget metrics meth start env =
    (let budget = (if retry_budget < 0 then 0 else retry_budget) in
     retry_loop (\<lambda>att prev. retry_pass pd budget metrics meth start att prev (env att)) 1 None)"

section \<open>Mentions\<close>

definition isRawMarkup :: "string \<Rightarrow> bool" where
  "isRawMarkup s \<longleftrightarrow> 2 \<le> length s \<and> hd s = CHR ''<'' \<and> last s = CHR ''>''"

definition resolve_mention :: "(string, string) gomap \<Rightarrow> string \<Rightarrow> string option" where
  "resolve_mention mapping raw = (case gm_get mapping raw of
      Some i \<Rightarrow> if has_prefix i ''U'' then Some (''<@'' @ i @ ''>'')
        else if has_prefix i ''S'' then Some (''<!subteam^'' @ i @ ''>'') else None
    | None \<Rightarrow> if isRawMarkup raw then Some raw else None)"

fun resolve_from :: "string list \<Rightarrow> (string, string) gomap \<Rightarrow> string list \<Rightarrow> string list" where
  "resolve_from seen mapping [] = []"
| "resolve_from seen mapping (raw # rest) = (case resolve_mention mapping raw of
      None \<Rightarrow> resolve_from seen mapping rest
    | Some r \<Rightarrow> if r \<in> set seen then resolve_from seen mapping rest
        else r # resolve_from (r # seen) mapping rest)"

definition ResolveMentions :: "string list \<Rightarrow> (string, string) gomap \<Rightarrow> string list" where
  "ResolveMentions notify mapping = resolve_from [] mapping notify"

section \<open>What is retried\<close>

text \<open>
  The outcomes after which Slack cannot have acted on the request: it was never sent, or Slack
  answered that it refused it.
\<close>

fun not_delivered :: "outcome \<Rightarrow> bool" where
  "not_delivered (NoResponse e) \<longleftrightarrow> LayerDNS \<in> set (te_chain e) \<or> first_op (te_chain e) = Some ''dial''
     \<or> (first_op (te_chain e) \<notin> {Some ''read'', Some ''write''}
        \<and> (LayerRefused \<in> set (te_chain e) \<or> LayerUnreachable \<in> set (te_chain e)))"
| "not_delivered (HTTPResponse st _ body) \<longleftrightarrow> st = 429 \<or> 500 \<le> st
     \<or> (200 \<le> st \<and> st < 300 \<and> (\<exists>err d. body = Body False err d \<and> err \<in> set transient_codes))"

lemma classifyTransport_safe:
  "classifyTransport (Some e) = (kind, code, True) \<Longrightarrow> not_delivered (NoResponse e)"
  by (auto simp: classifyTransport_def classifyErrno_def split: if_splits)

lemma plain_error_sel [simp]:
  "sl_http_status (plain_error m c k) = 0" "sl_safe (plain_error m c k) = False"
  "sl_kind (plain_error m c k) = k" "sl_method (plain_error m c k) = m"
  by (simp_all add: plain_error_def)

lemma attempt_retryable:
  assumes "attempt pd meth r = Some se" and "sl_kind se = KindTransient"
    and "sl_http_status se \<noteq> 0 \<or> sl_safe se"
  shows "not_delivered r"
proof (cases r)
  case (NoResponse e)
  obtain kind code safe where c: "classifyTransport (Some e) = (kind, code, safe)"
    by (metis prod_cases3)
  with NoResponse assms have safe by (auto simp: attempt_def)
  with c have "not_delivered (NoResponse e)" by (intro classifyTransport_safe) simp
  with NoResponse show ?thesis by simp
next
  case (HTTPResponse st ra body)
  show ?thesis
  proof (cases "200 \<le> st \<and> st < 300")
    case True
    with HTTPResponse assms show ?thesis
      by (auto simp: attempt_def classifySlackCode_def split: reply_body.splits if_splits)
  next
    case False
    with HTTPResponse assms show ?thesis
      by (auto simp: attempt_def classifyHTTPStatus_def split: if_splits)
  qed
qed

lemma attempt_method: "attempt pd meth r = Some se \<Longrightarrow> sl_method se = meth"
  by (auto simp: attempt_def Let_def split: outcome.splits reply_body.splits if_splits prod.splits)

text \<open>The wait that follows attempt \<open>k\<close>.\<close>

definition retry_wait :: "(string \<Rightarrow> duration option) \<Rightarrow> string \<Rightarrow> (nat \<Rightarrow> attempt_env) \<Rightarrow> nat \<Rightarrow> duration" where
  "retry_wait pd meth env k = nextBackoff (at_jitter (env k)) k
     (case attempt pd meth (at_outcome (env k)) of None \<Rightarrow> 0 | Some se \<Rightarrow> sl_retry_after se)"

lemma nextBackoff_default:
  "r \<le> 0 \<Longrightarrow> 375 * millisecond \<le> nextBackoff j att r \<and> nextBackoff j att r < 2500 * millisecond"
proof -
  assume r: "r \<le> 0"
  have "0 \<le> j mod b \<and> j mod b < b" if "0 < b" for b :: int using that by simp
  from this [of "250000000"] this [of "500000000"] this [of "1000000000"] r show ?thesis
    by (auto simp: nextBackoff_def millisecond_def Let_def)
qed

lemma nextBackoff_pos: "0 < nextBackoff j att r"
  using nextBackoff_default [of r j att]
  by (cases "r \<le> 0") (auto simp: nextBackoff_def millisecond_def)

lemma retry_pass_again:
  assumes "retry_pass pd budget metrics meth start att prev (env att) = Inr se"
  shows "not_delivered (at_outcome (env att))"
    and "at_time (env att) + retry_wait pd meth env att \<le> start + budget"
    and "\<not> at_ctx_done (env att)" and "attempt pd meth (at_outcome (env att)) \<noteq> None"
  using assms attempt_retryable [of pd meth "at_outcome (env att)"]
  by (auto simp: retry_pass_def retry_wait_def Let_def split: if_splits option.splits)

lemma retry_pass_end:
  assumes "retry_pass pd budget metrics meth start att prev a = Inl (r, ms)"
  shows "r = DoOk \<Longrightarrow> attempt pd meth (at_outcome a) = None"
    and "r = DoFailed se \<Longrightarrow> sl_attempts se = att \<and> sl_method se = meth"
  using assms attempt_method [of pd meth "at_outcome a"]
  by (auto simp: retry_pass_def Let_def split: if_splits option.splits)

text \<open>The attempts before the last one asked for another pass.\<close>

lemma retry_loop_passes:
  assumes "retry_loop pass att prev = Some (r, n)"
  shows "att \<le> n \<and> (\<forall>k. att \<le> k \<and> k < n \<longrightarrow> (\<exists>p se. pass k p = Inr se)) \<and> (\<exists>p. pass n p = Inl r)"
proof -
  let ?P = "\<lambda>pass att prev y. att \<le> snd y \<and> (\<forall>k. att \<le> k \<and> k < snd y \<longrightarrow> (\<exists>p se. pass k p = Inr se))
      \<and> (\<exists>p. pass (snd y) p = Inl (fst y))"
  have "?P pass att prev (r, n)"
  proof (rule retry_loop.raw_induct [where P = ?P, OF _ assms])
    fix loop :: "(nat \<Rightarrow> slack_error option \<Rightarrow> 'a + slack_error) \<Rightarrow> nat \<Rightarrow> slack_error option \<Rightarrow> ('a \<times> nat) option"
      and pass :: "nat \<Rightarrow> slack_error option \<Rightarrow> 'a + slack_error" and att prev y
    assume ih: "\<And>pass att prev y. loop pass att prev = Some y \<Longrightarrow> ?P pass att prev y"
      and eq: "(case pass att prev of Inl r \<Rightarrow> Some (r, att)
        | Inr se \<Rightarrow> loop pass (Suc att) (Some se)) = Some y"
    show "?P pass att prev y"
    proof (cases "pass att prev")
      case (Inl r)
      with eq show ?thesis by auto
    next
      case (Inr se)
      with eq have "loop pass (Suc att) (Some se) = Some y" by simp
      have split: "k = att \<or> Suc att \<le> k" if "att \<le> k" for k using that by linarith
      from ih [OF \<open>loop pass (Suc att) (Some se) = Some y\<close>] Inr
      show ?thesis by (auto dest!: split)
    qed
  qed
  then show ?thesis by simp
qed

text \<open>A loop whose remaining time is used up by every pass returns.\<close>

lemma retry_loop_returns:
  assumes dec: "\<And>k p se. att \<le> k \<Longrightarrow> pass k p = Inr se \<Longrightarrow> 0 < left k \<and> left (Suc k) < (left k :: int)"
  shows "\<exists>res. retry_loop pass att prev = Some res"
  using dec
proof (induction "nat (left att)" arbitrary: att prev rule: less_induct)
  case less
  show ?case
  proof (cases "pass att prev")
    case (Inl r)
    then show ?thesis by (simp add: retry_loop.simps)
  next
    case (Inr se)
    then have "nat (left (Suc att)) < nat (left att)" using less.prems [of att prev se] by simp
    then have "\<exists>res. retry_loop pass (Suc att) (Some se) = Some res"
      by (rule less.hyps) (use less.prems in auto)
    then show ?thesis using Inr by (subst retry_loop.simps) simp
  qed
qed

section \<open>The properties\<close>


text \<open>C32: A Slack call returns: with a clock that advances by at least the wait after each attempt, the
  retry loop ends, and the last wait it starts ends within the retry budget.  Without a
  \<^verbatim>\<open>Retry-After\<close> header every wait lies between 375 ms and 2.5 s.\<close>

theorem slack_call_returns:
  assumes clock: "\<And>k. 1 \<le> k \<Longrightarrow> at_time (env k) + retry_wait pd meth env k \<le> at_time (env (Suc k))"
  shows "\<exists>r ms n. retryingDo pd b metrics meth start env = Some ((r, ms), n)
    \<and> (1 < n \<longrightarrow> at_time (env (n - 1)) + retry_wait pd meth env (n - 1) \<le> start + max 0 b)
    \<and> (\<forall>j att ra. ra \<le> 0 \<longrightarrow> 375 * millisecond \<le> nextBackoff j att ra
         \<and> nextBackoff j att ra < 2500 * millisecond)"
proof -
  define budget where "budget = (if b < 0 then 0 else b)"
  let ?pass = "\<lambda>att prev. retry_pass pd budget metrics meth start att prev (env att)"
  let ?left = "\<lambda>k. start + budget - at_time (env k) + 1"
  have dec: "0 < ?left k \<and> ?left (Suc k) < ?left k" if "1 \<le> k" "?pass k p = Inr se" for k p se
  proof -
    have "0 < retry_wait pd meth env k" by (simp add: retry_wait_def nextBackoff_pos)
    with retry_pass_again(2) [where env = env, OF that(2)] clock [OF that(1)] show ?thesis by linarith
  qed
  then obtain r ms n where loop: "retry_loop ?pass 1 None = Some ((r, ms), n)"
    using retry_loop_returns [of 1 ?pass ?left None] by auto
  have "at_time (env (n - 1)) + retry_wait pd meth env (n - 1) \<le> start + max 0 b" if "1 < n"
  proof -
    from that have "1 \<le> n - 1 \<and> n - 1 < n" by simp
    with retry_loop_passes [OF loop] obtain p se where "?pass (n - 1) p = Inr se" by blast
    from retry_pass_again(2) [where env = env, OF this] show ?thesis
      by (simp add: budget_def split: if_splits)
  qed
  with loop nextBackoff_default show ?thesis
    by (auto simp: retryingDo_def budget_def Let_def)
qed

text \<open>The witness: two dial failures, then success, one second apart, in a budget of ten.\<close>

definition dial_failure :: outcome where
  "dial_failure = NoResponse \<lparr>te_chain = [LayerOp ''dial'', LayerRefused], te_mentions_eof = False\<rparr>"

definition sample_env :: "nat \<Rightarrow> attempt_env" where
  "sample_env k = \<lparr>at_ctx_done = False, at_builds = True,
     at_outcome = (if k < 3 then dial_failure else HTTPResponse 200 [] (Body True [] True)),
     at_ctx_done_after = False, at_time = int k * (3 * second), at_jitter = 0,
     at_cancelled_waiting = False\<rparr>"

lemma sample_env_run:
  "retryingDo (\<lambda>_. None) (10 * second) True ''chat.postMessage'' 0 sample_env =
     Some ((DoOk, [SlackRetry ''recovered'' ''dial'']), 3)"
proof -
  define pass where "pass = (\<lambda>att prev. retry_pass (\<lambda>_. None) (10 * second) True
      ''chat.postMessage'' 0 att prev (sample_env att))"
  define e where "e n = (plain_error ''chat.postMessage'' ''dial'' KindTransient)
      \<lparr>sl_cause := [LayerOp ''dial'', LayerRefused], sl_safe := True, sl_attempts := n,
       sl_elapsed := int n * (3 * second)\<rparr>" for n :: nat
  have "pass 1 None = Inr (e 1)" and "pass 2 (Some (e 1)) = Inr (e 2)"
    and "pass 3 (Some (e 2)) = Inl (DoOk, [SlackRetry ''recovered'' ''dial''])"
    unfolding pass_def e_def by code_simp+
  then have "retry_loop pass 1 None = Some ((DoOk, [SlackRetry ''recovered'' ''dial'']), 3)"
    by (simp add: retry_loop.simps numeral_2_eq_2 numeral_3_eq_3)
  then show ?thesis by (simp add: retryingDo_def pass_def)
qed


theorem slack_call_returns_witness:
  "\<exists>r ms n. retryingDo (\<lambda>_. None) (10 * second) True ''chat.postMessage'' 0 sample_env = Some ((r, ms), n)"
proof -
  have "retry_wait (\<lambda>_. None) ''chat.postMessage'' sample_env k \<le> 3 * second" for k
    using nextBackoff_default [of 0 0 k]
    by (auto simp: retry_wait_def sample_env_def dial_failure_def attempt_def millisecond_def
        parseRetryAfter_def plain_error_def classifyTransport_def)
  then have "\<And>k. 1 \<le> k \<Longrightarrow> at_time (sample_env k) + retry_wait (\<lambda>_. None) ''chat.postMessage'' sample_env k
      \<le> at_time (sample_env (Suc k))"
    by (simp add: sample_env_def)
  from slack_call_returns [OF this, of "10 * second" True 0] show ?thesis by blast
qed

lemma resolve_from_dedup:
  "resolve_from seen mapping notify = dedup_from seen (List.map_filter (resolve_mention mapping) notify)"
  by (induction seen mapping notify rule: resolve_from.induct)
     (auto simp: List.map_filter_simps split: option.splits)

text \<open>Resolving a notify list gives the markup of the entries that resolve, in the order of the
  list and each once: a mapped user or subteam becomes its mention, raw markup passes through,
  anything else is dropped.\<close>

theorem mentions_resolved_once:
  "ResolveMentions notify mapping = dedup_from [] (List.map_filter (resolve_mention mapping) notify)
   \<and> distinct (ResolveMentions notify mapping)
   \<and> (\<forall>m \<in> set (ResolveMentions notify mapping). isRawMarkup m)
   \<and> set (ResolveMentions notify mapping) = {m. \<exists>raw \<in> set notify. resolve_mention mapping raw = Some m}"
proof -
  have markup: "isRawMarkup m" if "resolve_mention mapping raw = Some m" for raw m
    using that by (auto simp: resolve_mention_def isRawMarkup_def split: option.splits if_splits)
  have "set (List.map_filter f xs) = {y. \<exists>x \<in> set xs. f x = Some y}"
    for f :: "string \<Rightarrow> string option" and xs
    by (induction xs) (auto simp: List.map_filter_simps split: option.splits)
  then show ?thesis
    using markup by (auto simp: ResolveMentions_def resolve_from_dedup)
qed

theorem mentions_resolved_once_witness:
  "isRawMarkup ''<@U1>'' \<and> ResolveMentions [''ops'', ''<@U1>'', ''nobody''] [(''ops'', ''U1'')] = [''<@U1>'']"
proof -
  have eq: "ResolveMentions [''ops'', ''<@U1>'', ''nobody''] [(''ops'', ''U1'')] = [''<@U1>'']"
    by code_simp
  then have "''<@U1>'' \<in> set (ResolveMentions [''ops'', ''<@U1>'', ''nobody''] [(''ops'', ''U1'')])"
    by simp
  with eq mentions_resolved_once [of "[''ops'', ''<@U1>'', ''nobody'']" "[(''ops'', ''U1'')]"]
  show ?thesis by blast
qed

end
