(* ===== verification/Scheduler.thy ===== *)
theory Scheduler
  imports Dispatch Selfhealth Slack
begin

text \<open>
  The scheduler of \<^verbatim>\<open>internal/scheduler\<close>: the plan of a monitor, one check cycle (\<^verbatim>\<open>Tick\<close>), the book
  of unresolved parents and the reconciliation of the running workers (\<^verbatim>\<open>RunDynamic\<close>).

  The seams the scheduler calls (event sinks, group sink, push propagation) are the fields of a
  record, as the Go struct holds them; \<^verbatim>\<open>None\<close> is a nil seam.  What a probe returned, whether the
  context was cancelled and when is the input \<open>probe_try\<close>.  The readings of the clock between two
  calls that take time are one reading.
\<close>

section \<open>Plans\<close>

record http_config =
  hc_url :: string
  hc_method :: string
  hc_accepted :: "int list"
  hc_timeout :: duration
  hc_follow_redirects :: bool
  hc_insecure :: bool
  hc_proxy_dialer :: "string option"
  hc_user_agent :: string

record smtp_config =
  sc_host :: string
  sc_port :: int
  sc_tls_mode :: string
  sc_ehlo_name :: string
  sc_timeout :: duration
  sc_insecure :: bool
  sc_proxy_dialer :: "string option"

datatype prober = HTTPProber http_config | SMTPProber smtp_config

record plan =
  p_slug :: string
  p_kind :: string
  p_friendly_name :: string
  p_url :: string
  p_http_method :: string
  p_host :: string
  p_port :: int
  p_tls_mode :: string
  p_accepted :: "int list"
  p_interval :: duration
  p_timeout :: duration
  p_retries :: int
  p_retry_backoff :: duration
  p_follow_redirects :: bool
  p_prober :: "prober option"
  p_insecure :: bool
  p_proxy_dialer :: "string option" \<comment> \<open>the dialer of this proxy, or a direct dial\<close>
  p_proxy :: string
  p_preset :: string
  p_user_agent :: string
  p_reminder_interval :: duration
  p_channel :: string
  p_mentions :: "string list"
  p_depends_on :: "string list"
  p_critical :: bool
  p_ssl_alert :: duration
  p_ssl_escalation :: duration
  p_ssl_reminder :: duration
  p_tls_bearing :: bool

section \<open>The seams\<close>

record group_member =
  gmb_slug :: string
  gmb_friendly_name :: string
  gmb_mentions :: "string list"

datatype sink_error = SinkCancelled | SinkSlack slack_error | SinkOther

record group_sink =
  gs_down :: "string \<Rightarrow> group_member \<Rightarrow> time \<Rightarrow> world \<Rightarrow> world"
  gs_up :: "string \<Rightarrow> string \<Rightarrow> time \<Rightarrow> world \<Rightarrow> world"
  gs_pause :: "string \<Rightarrow> string \<Rightarrow> time \<Rightarrow> world \<Rightarrow> world"
  gs_route :: "string \<Rightarrow> group_member \<Rightarrow> monitor_row \<Rightarrow> string list \<Rightarrow> event \<Rightarrow> world \<Rightarrow> world"

record seams =
  sm_sink :: "(monitor_row \<Rightarrow> string \<Rightarrow> string list \<Rightarrow> event \<Rightarrow> world \<Rightarrow> world \<times> sink_error option) option"
  sm_ssl_sink :: "(monitor_row \<Rightarrow> string \<Rightarrow> string list \<Rightarrow> ssl_event \<Rightarrow> world \<Rightarrow> world \<times> sink_error option) option"
  sm_group :: "group_sink option"
  sm_push :: "(string \<Rightarrow> time \<Rightarrow> world \<Rightarrow> world) option"
  sm_metrics :: bool

datatype log_level = LogWarn | LogError

datatype sched_out =
    ObserveCheck string string duration
  | SetWorkerLastTick time
  | SetActiveIncident string string bool
  | EventSunk string event \<comment> \<open>the event sink was called for this monitor\<close>
  | SSLSunk string ssl_event
  | LogSink log_level

record sched =
  sd_w :: world
  sd_missing :: "(string, (string, time) gomap) gomap"
  sd_det :: "detector option" \<comment> \<open>\<^verbatim>\<open>WithSelfHealth\<close>\<close>
  sd_out :: "sched_out list"

definition emit :: "sched_out list \<Rightarrow> sched \<Rightarrow> sched" where
  "emit xs s = s\<lparr>sd_out := sd_out s @ xs\<rparr>"

definition on_world :: "(world \<Rightarrow> world) \<Rightarrow> sched \<Rightarrow> sched" where
  "on_world f s = s\<lparr>sd_w := f (sd_w s)\<rparr>"

definition sched_db :: "(db \<Rightarrow> db \<times> 'a) \<Rightarrow> sched \<Rightarrow> sched \<times> 'a" where
  "sched_db f s = (case f (w_db (sd_w s)) of
      (d, r) \<Rightarrow> (s\<lparr>sd_w := (sd_w s)\<lparr>w_db := d\<rparr>\<rparr>, r))"

section \<open>Unresolved parents\<close>

definition recordMissingParent :: "string \<Rightarrow> string \<Rightarrow> sched \<Rightarrow> sched \<times> bool" where
  "recordMissingParent parent child s =
    (let kids = gm_get0 [] (sd_missing s) parent in
     (s\<lparr>sd_missing := gm_put parent (gm_put child (w_now (sd_w s)) kids) (sd_missing s)\<rparr>,
      gm_get kids child = None))"

definition ClearMissingParent :: "string \<Rightarrow> sched \<Rightarrow> sched" where
  "ClearMissingParent parent s = s\<lparr>sd_missing := gm_del parent (sd_missing s)\<rparr>"

record missing_parent =
  mp_parent :: string
  mp_children :: "string list"
  mp_last_seen :: time

definition missing_entry :: "string \<times> (string, time) gomap \<Rightarrow> missing_parent" where
  "missing_entry e = \<lparr>mp_parent = fst e, mp_children = sort_strings (map fst (snd e)),
     mp_last_seen = fold (\<lambda>(_, t) l. if l < t then t else l) (snd e) zero_time\<rparr>"

definition MissingParents :: "sched \<Rightarrow> missing_parent list" where
  "MissingParents s = (if sd_missing s = [] then []
     else sort_key mp_parent (map missing_entry (sd_missing s)))"

fun anyParentDown :: "string \<Rightarrow> string list \<Rightarrow> sched \<Rightarrow> sched \<times> bool" where
  "anyParentDown child [] s = (s, False)"
| "anyParentDown child (slug # rest) s =
    (case sched_db (GetMonitor slug) s of
       (s1, Inl _) \<Rightarrow> anyParentDown child rest (fst (recordMissingParent slug child s1))
     | (s1, Inr row) \<Rightarrow>
         (let s2 = ClearMissingParent slug s1 in
          if mr_status row = StatusDown then (s2, True) else anyParentDown child rest s2))"

section \<open>The attempts of one cycle\<close>

record probe_try =
  ty_slept :: bool \<comment> \<open>the back-off before it ended without a cancellation\<close>
  ty_result :: result
  ty_cancelled :: bool \<comment> \<open>\<^verbatim>\<open>ctx.Err()\<close> after the probe\<close>
  ty_at :: time

definition no_result :: result where
  "no_result = \<lparr>r_code = 0, r_error = [], r_fail_kind = FailKindNone, r_duration = 0, r_tls = None\<rparr>"

text \<open>\<open>None\<close> is a cancelled cycle; otherwise the last result and the time it arrived.\<close>

fun try_from :: "nat \<Rightarrow> nat \<Rightarrow> (nat \<Rightarrow> probe_try) \<Rightarrow> result \<times> time \<Rightarrow> (result \<times> time) option" where
  "try_from k 0 tries res = Some res"
| "try_from k (Suc n) tries res =
    (if 0 < k \<and> \<not> ty_slept (tries k) then None
     else if ty_cancelled (tries k) then None
     else if r_error (ty_result (tries k)) = [] then Some (ty_result (tries k), ty_at (tries k))
     else try_from (Suc k) n tries (ty_result (tries k), ty_at (tries k)))"

definition probe_cycle :: "plan \<Rightarrow> (nat \<Rightarrow> probe_try) \<Rightarrow> time \<Rightarrow> (result \<times> time) option" where
  "probe_cycle p tries start = try_from 0 (nat (p_retries p + 1)) tries (no_result, start)"

section \<open>The uptime half of a tick\<close>

definition logSinkError :: "sink_error option \<Rightarrow> sched_out list" where
  "logSinkError err = (case err of
      None \<Rightarrow> []
    | Some SinkCancelled \<Rightarrow> []
    | Some (SinkSlack se) \<Rightarrow> if sl_kind se = KindTransient then [LogSink LogWarn] else [LogSink LogError]
    | Some SinkOther \<Rightarrow> [LogSink LogError])"

definition resume_status :: "monitor_row \<Rightarrow> monitor_row" where
  "resume_status row = (if mr_status row = StatusTemporaryPaused
     then row\<lparr>mr_status := (if mr_opened_at row \<noteq> None then StatusDown else StatusUp)\<rparr> else row)"

definition result_check :: "plan \<Rightarrow> result \<Rightarrow> time \<Rightarrow> check" where
  "result_check p res now = \<lparr>c_outcome = (if r_error res = [] then OutcomeOK else OutcomeFail),
     c_at = now, c_status_code = r_code res, c_error = r_error res,
     c_reminder_interval = p_reminder_interval p\<rparr>"

definition incident_gauge :: "seams \<Rightarrow> plan \<Rightarrow> event option \<Rightarrow> sched_out list" where
  "incident_gauge sm p ev = (case ev of
      None \<Rightarrow> []
    | Some e \<Rightarrow> if \<not> sm_metrics sm then []
        else if e_type e = EventOpen then [SetActiveIncident ''uptime'' (p_slug p) True]
        else if e_type e = EventResolve then [SetActiveIncident ''uptime'' (p_slug p) False]
        else [])"

definition call_sink :: "seams \<Rightarrow> plan \<Rightarrow> monitor_row \<Rightarrow> event \<Rightarrow> sched \<Rightarrow> sched" where
  "call_sink sm p row e s = (case sm_sink sm of
      None \<Rightarrow> s
    | Some sink \<Rightarrow> (case sink row (p_channel p) (p_mentions p) e (sd_w s) of
        (w, err) \<Rightarrow> emit (EventSunk (p_slug p) e # logSinkError err) (s\<lparr>sd_w := w\<rparr>)))"

definition dispatch_event :: "seams \<Rightarrow> plan \<Rightarrow> monitor_row \<Rightarrow> event option \<Rightarrow> sched \<Rightarrow> sched" where
  "dispatch_event sm p row ev s = (case ev of
      None \<Rightarrow> s
    | Some e \<Rightarrow> if p_channel p = [] then s
        else if p_critical p then call_sink sm p row e s
        else (case sm_group sm of
            Some g \<Rightarrow> on_world (gs_route g (p_channel p)
              \<lparr>gmb_slug = p_slug p, gmb_friendly_name = p_friendly_name p, gmb_mentions = p_mentions p\<rparr>
              row (p_mentions p) e) s
          | None \<Rightarrow> call_sink sm p row e s))"

definition push_open :: "seams \<Rightarrow> plan \<Rightarrow> event option \<Rightarrow> time \<Rightarrow> sched \<Rightarrow> sched" where
  "push_open sm p ev now s = (case (ev, sm_push sm) of
      (Some e, Some push) \<Rightarrow> if e_type e = EventOpen then on_world (push (p_slug p) now) s else s
    | _ \<Rightarrow> s)"

section \<open>The certificate half\<close>

definition tick_ssl :: "seams \<Rightarrow> plan \<Rightarrow> monitor_row \<Rightarrow> result \<Rightarrow> time \<Rightarrow> sched \<Rightarrow> sched" where
  "tick_ssl sm p row res now s =
    (let expires = (case r_tls res of None \<Rightarrow> zero_time | Some c \<Rightarrow> ci_not_after c);
         issuer = (case r_tls res of None \<Rightarrow> [] | Some c \<Rightarrow> ci_issuer c);
         subject = (case r_tls res of None \<Rightarrow> [] | Some c \<Rightarrow> ci_subject c);
         chk = \<lparr>sc_at = now, sc_expires_at = expires,
            sc_tls_bearing = p_tls_bearing p \<and> \<not> p_insecure p,
            sc_alert_threshold = p_ssl_alert p, sc_escalation_threshold = p_ssl_escalation p,
            sc_reminder_interval = p_ssl_reminder p\<rparr>;
         (next_ssl, ev) = ApplySSL (row_SSL row) chk in
     case sched_db (ApplySSLCheck (p_slug p) next_ssl expires issuer subject ev) s of
       (s1, Inl _) \<Rightarrow> s1
     | (s1, Inr _) \<Rightarrow>
         (case ev of
            None \<Rightarrow> s1
          | Some e \<Rightarrow>
             (let s2 = emit (if \<not> sm_metrics sm then []
                    else if se_type e = EventSSLOpen then [SetActiveIncident ''ssl'' (p_slug p) True]
                    else if se_type e = EventSSLResolve then [SetActiveIncident ''ssl'' (p_slug p) False]
                    else []) s1 in
              case sm_ssl_sink sm of
                None \<Rightarrow> s2
              | Some sink \<Rightarrow> if p_channel p = [] then s2
                  else (case sink row (p_channel p) (p_mentions p) e (sd_w s2) of
                    (w, err) \<Rightarrow> emit (SSLSunk (p_slug p) e # logSinkError err) (s2\<lparr>sd_w := w\<rparr>)))))"

section \<open>Tick\<close>

datatype tick_error = TickCancelled | TickStore store_error

definition lift_err :: "sched \<times> (store_error + unit) \<Rightarrow> sched \<times> (tick_error + unit)" where
  "lift_err sr = (case sr of (s, Inl e) \<Rightarrow> (s, Inl (TickStore e)) | (s, Inr u) \<Rightarrow> (s, Inr u))"

definition pause_tick :: "seams \<Rightarrow> plan \<Rightarrow> sched \<Rightarrow> sched \<times> (tick_error + unit)" where
  "pause_tick sm p s =
    (let s1 = emit (if sm_metrics sm then [ObserveCheck (p_slug p) ''paused'' 0] else []) s;
         s2 = (case sm_group sm of
            None \<Rightarrow> s1
          | Some g \<Rightarrow> if p_channel p = [] then s1
              else on_world (gs_pause g (p_channel p) (p_slug p) (w_now (sd_w s1))) s1)
     in lift_err (sched_db (MarkTemporaryPaused (p_slug p)) s2))"

definition commit_result :: "seams \<Rightarrow> plan \<Rightarrow> result \<Rightarrow> sched \<Rightarrow> sched \<times> (tick_error + unit)" where
  "commit_result sm p res s =
    (case sched_db (GetMonitor (p_slug p)) s of
       (s1, Inl e) \<Rightarrow> (s1, Inl (TickStore e))
     | (s1, Inr row0) \<Rightarrow>
        (let row = resume_status row0; now = w_now (sd_w s1);
             (next_state, ev) = Apply (row_State row) (result_check p res now) in
         case sched_db (ApplyCheck (p_slug p) next_state now (r_code res) (r_error res) ev) s1 of
           (s2, Inl e) \<Rightarrow> (s2, Inl (TickStore e))
         | (s2, Inr _) \<Rightarrow>
             (tick_ssl sm p row res now
               (push_open sm p ev now
                 (dispatch_event sm p row ev (emit (incident_gauge sm p ev) s2))), Inr ())))"

definition probe_tick :: "seams \<Rightarrow> plan \<Rightarrow> (nat \<Rightarrow> probe_try) \<Rightarrow> sched \<Rightarrow> sched \<times> (tick_error + unit)" where
  "probe_tick sm p tries s =
    (case probe_cycle p tries (w_now (sd_w s)) of
       None \<Rightarrow> (s, Inl TickCancelled)
     | Some (res, now) \<Rightarrow>
        (let s1 = on_world (\<lambda>w. w\<lparr>w_now := now\<rparr>) s;
             s2 = emit (if sm_metrics sm
                  then [ObserveCheck (p_slug p) (if r_error res = [] then ''ok'' else ''fail'')
                          (time_sub now (w_now (sd_w s))), SetWorkerLastTick now]
                  else []) s1 in
         case sd_det s2 of
           None \<Rightarrow> commit_result sm p res s2
         | Some det \<Rightarrow>
            (let s3 = s2\<lparr>sd_det := Some (Report (p_slug p) (r_fail_kind res) (r_error res = []) now det)\<rparr> in
             if r_fail_kind res = FailKindDNS then (s3, Inr ()) else commit_result sm p res s3)))"

definition Tick :: "seams \<Rightarrow> plan \<Rightarrow> (nat \<Rightarrow> probe_try) \<Rightarrow> sched \<Rightarrow> sched \<times> (tick_error + unit)" where
  "Tick sm p tries s =
    (case (if p_depends_on p = [] then (s, False) else anyParentDown (p_slug p) (p_depends_on p) s) of
       (s1, down) \<Rightarrow> if down then pause_tick sm p s1 else probe_tick sm p tries s1)"

section \<open>The running workers\<close>

record worker =
  wk_id :: nat
  wk_plan :: plan

record workers =
  ws_running :: "(string, worker) gomap"
  ws_cancelled :: "nat list"
  ws_next :: nat

definition desired_plans :: "plan list \<Rightarrow> (string, plan) gomap" where
  "desired_plans plans = fold (\<lambda>p. gm_put (p_slug p) p) plans []"

definition cancel_worker :: "string \<Rightarrow> workers \<Rightarrow> workers" where
  "cancel_worker slug ws = (case gm_get (ws_running ws) slug of
      None \<Rightarrow> ws
    | Some wk \<Rightarrow> ws\<lparr>ws_running := gm_del slug (ws_running ws),
        ws_cancelled := ws_cancelled ws @ [wk_id wk]\<rparr>)"

definition spawn :: "plan \<Rightarrow> workers \<Rightarrow> workers" where
  "spawn p ws = ws\<lparr>ws_running := gm_put (p_slug p) \<lparr>wk_id = ws_next ws, wk_plan = p\<rparr> (ws_running ws),
     ws_next := Suc (ws_next ws)\<rparr>"

definition cancel_removed :: "(string, plan) gomap \<Rightarrow> workers \<Rightarrow> workers" where
  "cancel_removed desired ws = fold (\<lambda>slug ws. if gm_get desired slug = None then cancel_worker slug ws else ws)
     (gm_keys (ws_running ws)) ws"

definition start_or_keep :: "string \<times> plan \<Rightarrow> workers \<Rightarrow> workers" where
  "start_or_keep sp ws = (case gm_get (ws_running ws) (fst sp) of
      None \<Rightarrow> spawn (snd sp) ws
    | Some wk \<Rightarrow> if wk_plan wk = snd sp then ws else spawn (snd sp) (cancel_worker (fst sp) ws))"

definition reconcile :: "plan list \<Rightarrow> workers \<Rightarrow> workers" where
  "reconcile plans ws =
    (let desired = desired_plans plans in fold start_or_keep desired (cancel_removed desired ws))"

end
