(* ===== verification/Notifier.thy ===== *)
theory Notifier
  imports Slack
begin

text \<open>
  The per-monitor notifier of \<^verbatim>\<open>internal/slack/notifier.go\<close>: which Slack calls an alert event turns
  into, and the thread references it stores.  A message is the input its Block Kit builder gets;
  the builders themselves (\<^verbatim>\<open>blocks.go\<close>, \<^verbatim>\<open>ssl_blocks.go\<close>) only lay it out.  The answers of Slack to
  the calls still to come are a list; an empty one answers with an error.
\<close>

section \<open>Views and messages\<close>

record channel_info =
  chi_id :: string
  chi_token :: string

record monitor_view =
  mv_slug :: string
  mv_friendly_name :: string
  mv_tags :: "string list"
  mv_url :: string
  mv_opened_at :: time
  mv_status_code :: int
  mv_status_text :: string
  mv_last_error :: string
  mv_uptime_thread_channel :: string
  mv_uptime_thread_ts :: string
  mv_ssl_thread_channel :: string
  mv_ssl_thread_ts :: string
  mv_ssl_issuer :: string
  mv_ssl_subject :: string

record down_input =
  di_friendly_name :: string
  di_tags :: "string list"
  di_url :: string
  di_mentions :: "string list"
  di_status_code :: int
  di_status_text :: string
  di_failure_at :: time
  di_last_error :: string
  di_detail_url :: string
  di_note :: string
  di_banner :: string

record ssl_down_input =
  sd_friendly_name :: string
  sd_tags :: "string list"
  sd_url :: string
  sd_mentions :: "string list"
  sd_expires_at :: time
  sd_issuer :: string
  sd_subject :: string
  sd_days_remaining :: int
  sd_detail_url :: string
  sd_detected_at :: time
  sd_banner :: string

datatype message =
    DownParent down_input
  | ReminderReply duration time string
  | ResolveEdit down_input time duration
  | ResolveReply down_input time duration
  | SSLParent ssl_down_input
  | SSLReminderReply ssl_down_input
  | SSLResolveEdit ssl_down_input time time
  | SSLResolveReply ssl_down_input time time

datatype request =
    PostMessage string string message \<comment> \<open>channel, thread (empty: a new parent), content\<close>
  | UpdateMessage string string message

datatype client_error = ClientCancelled | ClientSlack slack_error | ClientOther

datatype notify_error = Unregistered string | ClientError client_error

datatype notifier_metric = SlackPost string string | SlackFreshParent string

record notifier_config =
  nf_channels :: "string \<Rightarrow> channel_info option"
  nf_dependents_max :: int
  nf_public_base :: string
  nf_observer :: bool

definition NewNotifier :: "(string \<Rightarrow> channel_info option) \<Rightarrow> int \<Rightarrow> string \<Rightarrow> bool \<Rightarrow> notifier_config" where
  "NewNotifier channels dependents_max base observer =
    \<lparr>nf_channels = channels, nf_dependents_max = (if dependents_max \<le> 0 then 5 else dependents_max),
     nf_public_base = base, nf_observer = observer\<rparr>"

record slack_io =
  io_db :: db
  io_answers :: "(client_error + string \<times> string) list"
  io_sent :: "request list"
  io_metrics :: "notifier_metric list"

definition call_slack :: "request \<Rightarrow> slack_io \<Rightarrow> slack_io \<times> (client_error + string \<times> string)" where
  "call_slack r io = (case io_answers io of
      [] \<Rightarrow> (io\<lparr>io_sent := io_sent io @ [r]\<rparr>, Inl ClientOther)
    | a # rest \<Rightarrow> (io\<lparr>io_sent := io_sent io @ [r], io_answers := rest\<rparr>, a))"

definition io_store :: "(db \<Rightarrow> db \<times> 'a) \<Rightarrow> slack_io \<Rightarrow> slack_io \<times> 'a" where
  "io_store f io = (case f (io_db io) of (d, r) \<Rightarrow> (io\<lparr>io_db := d\<rparr>, r))"

section \<open>Pieces of a message\<close>

text \<open>The ellipsis, the pause and play signs and the banner are UTF-8 in the source.\<close>

definition freshParentBanner :: string where
  "freshParentBanner = [CHR 0xE2, CHR 0x9A, CHR 0xA0, CHR 0xEF, CHR 0xB8, CHR 0x8F] @
     '' Initial notification delivery failed. This alert is current.''"

definition pauses_prefix :: string where
  "pauses_prefix = [CHR 0xE2, CHR 0x8F, CHR 0xB8] @ '' Pauses dependents''"

definition resumes_prefix :: string where
  "resumes_prefix = [CHR 0xE2, CHR 0x96, CHR 0xB6] @ '' Resumes dependents''"

definition FormatDependentsNote :: "string \<Rightarrow> string list \<Rightarrow> int \<Rightarrow> string" where
  "FormatDependentsNote prefix slugs max_shown =
    (if slugs = [] then []
     else (let m = nat (if max_shown \<le> 0 then 5 else max_shown);
               extra = length slugs - m;
               line = prefix @ '': '' @ join '', '' (map (\<lambda>c. [CHR 0x60] @ c @ [CHR 0x60]) (take m slugs)) in
       if 0 < extra
       then line @ '', '' @ [CHR 0xE2, CHR 0x80, CHR 0xA6] @ ''and '' @ itoa (int extra) @ '' more''
       else line))"

definition detailURL :: "notifier_config \<Rightarrow> string \<Rightarrow> string" where
  "detailURL n slug = (if nf_public_base n = [] then [] else nf_public_base n @ ''/monitor/'' @ slug)"

definition dependentsNote :: "notifier_config \<Rightarrow> string \<Rightarrow> string \<Rightarrow> slack_io \<Rightarrow> slack_io \<times> string" where
  "dependentsNote n slug prefix io = (case io_store (ListChildrenOf slug) io of
      (io1, Inl _) \<Rightarrow> (io1, [])
    | (io1, Inr children) \<Rightarrow> (io1, FormatDependentsNote prefix children (nf_dependents_max n)))"

definition observe_fresh :: "notifier_config \<Rightarrow> string \<Rightarrow> slack_io \<Rightarrow> slack_io" where
  "observe_fresh n kind io =
     (if nf_observer n then io\<lparr>io_metrics := io_metrics io @ [SlackFreshParent kind]\<rparr> else io)"

definition observePost :: "notifier_config \<Rightarrow> notify_error option \<Rightarrow> slack_io \<Rightarrow> slack_io" where
  "observePost n err io =
    (if \<not> nf_observer n then io
     else io\<lparr>io_metrics := io_metrics io @ [case err of
         None \<Rightarrow> SlackPost ''success'' ''ok''
       | Some (ClientError (ClientSlack se)) \<Rightarrow> SlackPost ''fail'' (kind_String (sl_kind se))
       | Some _ \<Rightarrow> SlackPost ''fail'' ''unknown'']\<rparr>)"

section \<open>Uptime\<close>

text \<open>A parent message: post it and remember its thread; a failed store is only logged.\<close>

definition post_parent :: "channel_info \<Rightarrow> message \<Rightarrow> (string \<Rightarrow> string \<Rightarrow> db \<Rightarrow> db \<times> (store_error + unit))
    \<Rightarrow> (slack_io \<Rightarrow> slack_io) \<Rightarrow> slack_io \<Rightarrow> slack_io \<times> client_error option" where
  "post_parent ch msg set_thread observe io =
    (case call_slack (PostMessage (chi_id ch) [] msg) io of
       (io1, Inl e) \<Rightarrow> (io1, Some e)
     | (io1, Inr (channel, ts)) \<Rightarrow> (fst (io_store (set_thread channel ts) (observe io1)), None))"

definition post_only :: "request \<Rightarrow> slack_io \<Rightarrow> slack_io \<times> client_error option" where
  "post_only r io = (case call_slack r io of (io1, Inl e) \<Rightarrow> (io1, Some e) | (io1, Inr _) \<Rightarrow> (io1, None))"

text \<open>An edit of the parent followed by a reply, which is only sent when the edit succeeded.\<close>

definition edit_then_reply :: "request \<Rightarrow> request \<Rightarrow> slack_io \<Rightarrow> slack_io \<times> client_error option" where
  "edit_then_reply edit reply io =
    (case post_only edit io of (io1, Some e) \<Rightarrow> (io1, Some e) | (io1, None) \<Rightarrow> post_only reply io1)"

definition view_down :: "notifier_config \<Rightarrow> string list \<Rightarrow> monitor_view \<Rightarrow> string \<Rightarrow> string \<Rightarrow> down_input" where
  "view_down n mentions m note banner =
    \<lparr>di_friendly_name = mv_friendly_name m, di_tags = mv_tags m, di_url = mv_url m,
     di_mentions = mentions, di_status_code = mv_status_code m, di_status_text = mv_status_text m,
     di_failure_at = mv_opened_at m, di_last_error = mv_last_error m,
     di_detail_url = detailURL n (mv_slug m), di_note = note, di_banner = banner\<rparr>"

definition notifyOpen :: "notifier_config \<Rightarrow> channel_info \<Rightarrow> string list \<Rightarrow> monitor_view \<Rightarrow> event
    \<Rightarrow> slack_io \<Rightarrow> slack_io \<times> client_error option" where
  "notifyOpen n ch mentions m ev io =
    (let (io1, note) = dependentsNote n (mv_slug m) pauses_prefix io;
         msg = DownParent ((view_down n mentions m note [])
           \<lparr>di_status_code := e_status_code ev, di_failure_at := e_at ev, di_last_error := e_error ev\<rparr>)
     in post_parent ch msg (SetUptimeThread (mv_slug m)) id io1)"

definition postFreshUptimeParent :: "notifier_config \<Rightarrow> channel_info \<Rightarrow> string list \<Rightarrow> monitor_view
    \<Rightarrow> slack_io \<Rightarrow> slack_io \<times> client_error option" where
  "postFreshUptimeParent n ch mentions m io =
    (let (io1, note) = dependentsNote n (mv_slug m) pauses_prefix io
     in post_parent ch (DownParent (view_down n mentions m note freshParentBanner))
          (SetUptimeThread (mv_slug m)) (observe_fresh n ''uptime'') io1)"

definition notifyReminder :: "notifier_config \<Rightarrow> channel_info \<Rightarrow> string list \<Rightarrow> monitor_view \<Rightarrow> event
    \<Rightarrow> slack_io \<Rightarrow> slack_io \<times> client_error option" where
  "notifyReminder n ch mentions m ev io =
    (if mv_uptime_thread_ts m = [] then postFreshUptimeParent n ch mentions m io
     else post_only (PostMessage (chi_id ch) (mv_uptime_thread_ts m)
            (ReminderReply (time_sub (e_at ev) (mv_opened_at m)) (e_at ev) (e_error ev))) io)"

definition notifyResolve :: "notifier_config \<Rightarrow> channel_info \<Rightarrow> string list \<Rightarrow> monitor_view \<Rightarrow> event
    \<Rightarrow> slack_io \<Rightarrow> slack_io \<times> client_error option" where
  "notifyResolve n ch mentions m ev io =
    (if mv_uptime_thread_ts m = [] then
       post_only (PostMessage (chi_id ch) []
         (ResolveEdit (view_down n mentions m [] freshParentBanner) (e_at ev) (e_downtime ev))) io
     else (let (io1, note) = dependentsNote n (mv_slug m) resumes_prefix io;
               inp = view_down n mentions m note [] in
       edit_then_reply
         (UpdateMessage (mv_uptime_thread_channel m) (mv_uptime_thread_ts m)
            (ResolveEdit inp (e_at ev) (e_downtime ev)))
         (PostMessage (mv_uptime_thread_channel m) (mv_uptime_thread_ts m)
            (ResolveReply inp (e_at ev) (e_downtime ev))) io1))"

text \<open>A cancelled call is not a delivery failure and is not counted.\<close>

definition observed :: "notifier_config \<Rightarrow> slack_io \<times> client_error option \<Rightarrow> slack_io \<times> notify_error option" where
  "observed n r = (case r of
      (io, Some ClientCancelled) \<Rightarrow> (io, Some (ClientError ClientCancelled))
    | (io, err) \<Rightarrow> (observePost n (map_option ClientError err) io, map_option ClientError err))"

definition Notify :: "notifier_config \<Rightarrow> string \<Rightarrow> string list \<Rightarrow> monitor_view \<Rightarrow> event option
    \<Rightarrow> slack_io \<Rightarrow> slack_io \<times> notify_error option" where
  "Notify n channel mentions m ev io =
    (case ev of None \<Rightarrow> (io, None)
     | Some e \<Rightarrow> (case nf_channels n channel of
         None \<Rightarrow> (io, Some (Unregistered channel))
       | Some ch \<Rightarrow> (case e_type e of
             EventOpen \<Rightarrow> observed n (notifyOpen n ch mentions m e io)
           | EventReminder \<Rightarrow> observed n (notifyReminder n ch mentions m e io)
           | EventResolve \<Rightarrow> observed n (notifyResolve n ch mentions m e io)
           | _ \<Rightarrow> (io, None))))"

section \<open>Certificates\<close>

text \<open>\<^verbatim>\<open>int(d.Hours() / 24)\<close> truncates toward zero; the float is exact at this size.\<close>

definition days_of :: "duration \<Rightarrow> int" where
  "days_of d = (if 0 \<le> d then d div (24 * hour) else - ((- d) div (24 * hour)))"

definition ssl_input :: "notifier_config \<Rightarrow> string list \<Rightarrow> monitor_view \<Rightarrow> time \<Rightarrow> ssl_event \<Rightarrow> ssl_down_input" where
  "ssl_input n mentions m expires ev =
    \<lparr>sd_friendly_name = mv_friendly_name m, sd_tags = mv_tags m, sd_url = mv_url m,
     sd_mentions = mentions, sd_expires_at = expires, sd_issuer = mv_ssl_issuer m,
     sd_subject = mv_ssl_subject m, sd_days_remaining = days_of (time_sub expires (se_at ev)),
     sd_detail_url = detailURL n (mv_slug m), sd_detected_at = se_at ev, sd_banner = []\<rparr>"

definition postFreshSSLParent :: "notifier_config \<Rightarrow> channel_info \<Rightarrow> ssl_down_input \<Rightarrow> string
    \<Rightarrow> slack_io \<Rightarrow> slack_io \<times> client_error option" where
  "postFreshSSLParent n ch inp slug =
     post_parent ch (SSLParent (inp\<lparr>sd_banner := freshParentBanner\<rparr>)) (SetSSLThread slug)
       (observe_fresh n ''ssl'')"

definition notifySSL :: "notifier_config \<Rightarrow> channel_info \<Rightarrow> string list \<Rightarrow> monitor_view \<Rightarrow> time \<Rightarrow> ssl_event
    \<Rightarrow> slack_io \<Rightarrow> slack_io \<times> client_error option" where
  "notifySSL n ch mentions m expires ev io =
    (let inp = ssl_input n mentions m expires ev in case se_type ev of
       EventSSLOpen \<Rightarrow> post_parent ch (SSLParent inp) (SetSSLThread (mv_slug m)) id io
     | EventSSLReminder \<Rightarrow>
         if mv_ssl_thread_ts m = [] then postFreshSSLParent n ch inp (mv_slug m) io
         else post_only (PostMessage (chi_id ch) (mv_ssl_thread_ts m) (SSLReminderReply inp)) io
     | EventSSLResolve \<Rightarrow>
         if mv_ssl_thread_ts m = []
         then post_only (PostMessage (chi_id ch) [] (SSLResolveReply inp expires (se_at ev))) io
         else edit_then_reply
           (UpdateMessage (mv_ssl_thread_channel m) (mv_ssl_thread_ts m) (SSLResolveEdit inp expires (se_at ev)))
           (PostMessage (mv_ssl_thread_channel m) (mv_ssl_thread_ts m) (SSLResolveReply inp expires (se_at ev))) io
     | _ \<Rightarrow> (io, None))"

definition NotifySSL :: "notifier_config \<Rightarrow> string \<Rightarrow> string list \<Rightarrow> monitor_view \<Rightarrow> time \<Rightarrow> ssl_event option
    \<Rightarrow> slack_io \<Rightarrow> slack_io \<times> notify_error option" where
  "NotifySSL n channel mentions m expires ev io =
    (case ev of None \<Rightarrow> (io, None)
     | Some e \<Rightarrow> (case nf_channels n channel of
         None \<Rightarrow> (io, Some (Unregistered channel))
       | Some ch \<Rightarrow> observed n (notifySSL n ch mentions m expires e io)))"

section \<open>The sink the scheduler calls\<close>

definition monitorViewFromRow :: "(int \<Rightarrow> string) \<Rightarrow> monitor_row \<Rightarrow> monitor_view" where
  "monitorViewFromRow status_text row =
    (let str = (\<lambda>s. case s of None \<Rightarrow> [] | Some x \<Rightarrow> x);
         code = (case mr_last_status_code row of None \<Rightarrow> 0 | Some c \<Rightarrow> c) in
     \<lparr>mv_slug = ms_slug row, mv_friendly_name = ms_friendly_name row, mv_tags = ms_tags row,
      mv_url = ms_url row,
      mv_opened_at = (case mr_opened_at row of None \<Rightarrow> zero_time | Some t \<Rightarrow> t),
      mv_status_code = code, mv_status_text = status_text code,
      mv_last_error = str (mr_last_error row),
      mv_uptime_thread_channel = str (mr_uptime_thread_channel row),
      mv_uptime_thread_ts = str (mr_uptime_thread_ts row),
      mv_ssl_thread_channel = str (mr_ssl_thread_channel row),
      mv_ssl_thread_ts = str (mr_ssl_thread_ts row),
      mv_ssl_issuer = str (mr_ssl_issuer row), mv_ssl_subject = str (mr_ssl_subject row)\<rparr>)"

definition event_view :: "(int \<Rightarrow> string) \<Rightarrow> monitor_row \<Rightarrow> event \<Rightarrow> monitor_view" where
  "event_view status_text row ev =
    (let mv = monitorViewFromRow status_text row;
         mv = (if e_status_code ev \<noteq> 0 then mv\<lparr>mv_status_code := e_status_code ev\<rparr> else mv);
         mv = (if e_error ev \<noteq> [] then mv\<lparr>mv_last_error := e_error ev\<rparr> else mv)
     in mv\<lparr>mv_status_text := status_text (mv_status_code mv)\<rparr>)"

definition buildSink :: "(int \<Rightarrow> string) \<Rightarrow> notifier_config \<Rightarrow> monitor_row \<Rightarrow> string \<Rightarrow> string list \<Rightarrow> event
    \<Rightarrow> slack_io \<Rightarrow> slack_io \<times> notify_error option" where
  "buildSink status_text n row channel mentions ev =
     Notify n channel mentions (event_view status_text row ev) (Some ev)"

definition buildSSLSink :: "(int \<Rightarrow> string) \<Rightarrow> notifier_config \<Rightarrow> monitor_row \<Rightarrow> string \<Rightarrow> string list \<Rightarrow> ssl_event
    \<Rightarrow> slack_io \<Rightarrow> slack_io \<times> notify_error option" where
  "buildSSLSink status_text n row channel mentions ev =
     NotifySSL n channel mentions (monitorViewFromRow status_text row) (se_expires_at ev) (Some ev)"

section \<open>The thread of an incident\<close>

text \<open>One event delivered the way the sinks deliver it, with the row read from the store.\<close>

definition deliver :: "(int \<Rightarrow> string) \<Rightarrow> notifier_config \<Rightarrow> string \<Rightarrow> string \<Rightarrow> string list \<Rightarrow> event
    \<Rightarrow> slack_io \<Rightarrow> slack_io" where
  "deliver status_text n slug channel mentions ev io =
    (case GetMonitor slug (io_db io) of
       (d, Inl _) \<Rightarrow> io\<lparr>io_db := d\<rparr>
     | (d, Inr row) \<Rightarrow> fst (buildSink status_text n row channel mentions ev (io\<lparr>io_db := d\<rparr>)))"

definition thread_of :: "string \<Rightarrow> db \<Rightarrow> (string option \<times> string option) option" where
  "thread_of slug d = map_option (\<lambda>c. (mr_uptime_thread_channel c, mr_uptime_thread_ts c))
     (gm_get (db_monitors d) slug)"

lemma observePost_sel [simp]:
  "io_db (observePost n e io) = io_db io" "io_sent (observePost n e io) = io_sent io"
  "io_answers (observePost n e io) = io_answers io"
  by (simp_all add: observePost_def)

lemma observe_fresh_sel [simp]:
  "io_db (observe_fresh n k io) = io_db io" "io_sent (observe_fresh n k io) = io_sent io"
  "io_answers (observe_fresh n k io) = io_answers io"
  by (simp_all add: observe_fresh_def)

lemma observed_sel [simp]:
  "io_db (fst (observed n r)) = io_db (fst r)" "io_sent (fst (observed n r)) = io_sent (fst r)"
  "io_answers (fst (observed n r)) = io_answers (fst r)"
  by (cases r; auto simp: observed_def split: option.split client_error.split)+

lemma dependentsNote_ok:
  "db_faults (io_db io) = [] \<Longrightarrow> \<exists>note. dependentsNote n slug p io = (io, note)"
  by (simp add: dependentsNote_def io_store_def ListChildrenOf_def)

lemma event_view_sel [simp]:
  "mv_slug (event_view st row ev) = ms_slug row"
  "mv_uptime_thread_ts (event_view st row ev) = (case mr_uptime_thread_ts row of None \<Rightarrow> [] | Some t \<Rightarrow> t)"
  "mv_uptime_thread_channel (event_view st row ev) =
     (case mr_uptime_thread_channel row of None \<Rightarrow> [] | Some t \<Rightarrow> t)"
  by (simp_all add: event_view_def monitorViewFromRow_def Let_def)

lemma deliver_unfold:
  assumes "db_faults (io_db io) = []" and "gm_get (db_monitors (io_db io)) slug = Some c"
  shows "deliver st n slug channel mentions ev io =
    fst (Notify n channel mentions (event_view st (scanMonitor c) ev) (Some ev) io)"
  using assms by (simp add: deliver_def GetMonitor_def buildSink_def)

text \<open>Posting a parent, with an answer and a working store.\<close>

definition with_thread :: "string \<Rightarrow> string \<Rightarrow> string \<Rightarrow> db \<Rightarrow> db" where
  "with_thread slug channel ts = update_monitor slug
     (\<lambda>c. c\<lparr>mr_uptime_thread_channel := Some channel, mr_uptime_thread_ts := Some ts\<rparr>)"

lemma with_thread_sel [simp]:
  "db_faults (with_thread slug ch ts d) = db_faults d"
  "gm_get (db_monitors (with_thread slug ch ts d)) slug = map_option
     (\<lambda>c. c\<lparr>mr_uptime_thread_channel := Some ch, mr_uptime_thread_ts := Some ts\<rparr>) (gm_get (db_monitors d) slug)"
  by (simp_all add: with_thread_def update_monitor_get)

lemma post_parent_ok:
  assumes "db_faults (io_db io) = []" and "io_answers io = Inr (cid, ts) # rest"
    and obs: "\<And>x. io_db (f x) = io_db x \<and> io_sent (f x) = io_sent x \<and> io_answers (f x) = io_answers x"
  shows "io_db (fst (post_parent ch msg (SetUptimeThread slug) f io)) = with_thread slug cid ts (io_db io)"
    and "io_sent (fst (post_parent ch msg (SetUptimeThread slug) f io)) =
      io_sent io @ [PostMessage (chi_id ch) [] msg]"
    and "io_answers (fst (post_parent ch msg (SetUptimeThread slug) f io)) = rest"
  using assms by (simp_all add: post_parent_def call_slack_def io_store_def SetUptimeThread_def with_thread_def)

lemma post_parent_failed:
  assumes "io_answers io = Inl e # rest"
  shows "io_db (fst (post_parent ch msg st f io)) = io_db io"
    and "io_sent (fst (post_parent ch msg st f io)) = io_sent io @ [PostMessage (chi_id ch) [] msg]"
    and "io_answers (fst (post_parent ch msg st f io)) = rest"
  using assms by (simp_all add: post_parent_def call_slack_def)

lemma deliver_open:
  assumes io: "db_faults (io_db io) = []" "gm_get (db_monitors (io_db io)) slug = Some c"
    and ch: "nf_channels n channel = Some ch" and key: "ms_slug c = slug" and ev: "e_type ev = EventOpen"
  shows "\<exists>inp. di_banner inp = [] \<and>
    (\<forall>cid ts rest. io_answers io = Inr (cid, ts) # rest \<longrightarrow>
      (let io' = deliver st n slug channel mentions ev io in
       io_db io' = with_thread slug cid ts (io_db io) \<and> io_answers io' = rest
       \<and> io_sent io' = io_sent io @ [PostMessage (chi_id ch) [] (DownParent inp)])) \<and>
    (\<forall>e rest. io_answers io = Inl e # rest \<longrightarrow>
      (let io' = deliver st n slug channel mentions ev io in
       io_db io' = io_db io \<and> io_answers io' = rest
       \<and> io_sent io' = io_sent io @ [PostMessage (chi_id ch) [] (DownParent inp)]))"
proof -
  let ?m = "event_view st (scanMonitor c) ev"
  obtain nt where nt: "dependentsNote n slug pauses_prefix io = (io, nt)"
    using dependentsNote_ok [OF io(1)] by blast
  define inp where "inp = (view_down n mentions ?m nt [])
      \<lparr>di_status_code := e_status_code ev, di_failure_at := e_at ev, di_last_error := e_error ev\<rparr>"
  have "deliver st n slug channel mentions ev io =
      fst (observed n (post_parent ch (DownParent inp) (SetUptimeThread slug) id io))"
    by (simp add: deliver_unfold [OF io] Notify_def ch ev notifyOpen_def key nt inp_def)
  moreover have "di_banner inp = []" by (simp add: inp_def view_down_def)
  ultimately show ?thesis
    using post_parent_ok [OF io(1), where f = id] post_parent_failed [of io]
    by (intro exI [of _ inp]) (simp add: Let_def)
qed

lemma deliver_reminder_fresh:
  assumes io: "db_faults (io_db io) = []" "gm_get (db_monitors (io_db io)) slug = Some c"
    and ch: "nf_channels n channel = Some ch" and key: "ms_slug c = slug" and ev: "e_type ev = EventReminder"
    and none: "mr_uptime_thread_ts c = None" and ans: "io_answers io = Inr (cid, ts) # rest"
  shows "\<exists>inp. di_banner inp = freshParentBanner \<and>
      (let io' = deliver st n slug channel mentions ev io in
       io_db io' = with_thread slug cid ts (io_db io) \<and> io_answers io' = rest
       \<and> io_sent io' = io_sent io @ [PostMessage (chi_id ch) [] (DownParent inp)])"
proof -
  let ?m = "event_view st (scanMonitor c) ev"
  obtain nt where nt: "dependentsNote n slug pauses_prefix io = (io, nt)"
    using dependentsNote_ok [OF io(1)] by blast
  let ?inp = "view_down n mentions ?m nt freshParentBanner"
  have "deliver st n slug channel mentions ev io =
      fst (observed n (post_parent ch (DownParent ?inp) (SetUptimeThread slug) (observe_fresh n ''uptime'') io))"
    by (simp add: deliver_unfold [OF io] Notify_def ch ev notifyReminder_def none
        postFreshUptimeParent_def key nt)
  then show ?thesis
    using post_parent_ok [OF io(1) ans, where f = "observe_fresh n ''uptime''"]
    by (intro exI [of _ ?inp]) (simp add: Let_def view_down_def)
qed

lemma deliver_reminder:
  assumes io: "db_faults (io_db io) = []" "gm_get (db_monitors (io_db io)) slug = Some c"
    and ch: "nf_channels n channel = Some ch" and ev: "e_type ev = EventReminder"
    and ts: "mr_uptime_thread_ts c = Some ts" "ts \<noteq> []" and ans: "io_answers io = a # rest"
  shows "\<exists>down. let io' = deliver st n slug channel mentions ev io in
       io_db io' = io_db io \<and> io_answers io' = rest
       \<and> io_sent io' = io_sent io @ [PostMessage (chi_id ch) ts (ReminderReply down (e_at ev) (e_error ev))]"
  using ts ans
  by (auto simp: deliver_unfold [OF io] Notify_def ch ev notifyReminder_def post_only_def call_slack_def Let_def
      split: sum.split)

lemma deliver_resolve:
  assumes io: "db_faults (io_db io) = []" "gm_get (db_monitors (io_db io)) slug = Some c"
    and ch: "nf_channels n channel = Some ch" and key: "ms_slug c = slug" and ev: "e_type ev = EventResolve"
    and ts: "mr_uptime_thread_ts c = Some ts" "ts \<noteq> []" and cid: "mr_uptime_thread_channel c = Some cid"
    and ans: "io_answers io = Inr a # Inr b # rest"
  shows "\<exists>inp. let io' = deliver st n slug channel mentions ev io in
       io_db io' = io_db io \<and> io_answers io' = rest
       \<and> io_sent io' = io_sent io @ [UpdateMessage cid ts (ResolveEdit inp (e_at ev) (e_downtime ev)),
            PostMessage cid ts (ResolveReply inp (e_at ev) (e_downtime ev))]"
proof -
  obtain nt where nt: "dependentsNote n slug resumes_prefix io = (io, nt)"
    using dependentsNote_ok [OF io(1)] by blast
  show ?thesis
    using ts ans
    by (auto simp: deliver_unfold [OF io] Notify_def ch ev notifyResolve_def key nt cid edit_then_reply_def
        post_only_def call_slack_def Let_def)
qed

section \<open>The properties\<close>

text \<open>C29: An incident is one Slack thread: once the open was posted and its reference stored, a later
  reminder replies in that thread, the resolve edits that parent message and replies to it, and
  nothing else is posted; the stored reference is exactly what Slack answered.\<close>

theorem incident_is_one_thread:
  assumes io: "db_faults (io_db io) = []" "gm_get (db_monitors (io_db io)) slug = Some c"
    and ch: "nf_channels n channel = Some ch" and key: "ms_slug c = slug"
    and evs: "e_type opened = EventOpen" "e_type reminded = EventReminder" "e_type resolved = EventResolve"
    and ans: "io_answers io = [Inr (cid, ts), Inr x, Inr y, Inr z]" and ts: "ts \<noteq> []"
  shows "\<exists>inp down res. let send = deliver status_text n slug channel mentions;
        io' = send resolved (send reminded (send opened io)) in
      io_sent io' = io_sent io @
        [PostMessage (chi_id ch) [] (DownParent inp),
         PostMessage (chi_id ch) ts (ReminderReply down (e_at reminded) (e_error reminded)),
         UpdateMessage cid ts (ResolveEdit res (e_at resolved) (e_downtime resolved)),
         PostMessage cid ts (ResolveReply res (e_at resolved) (e_downtime resolved))]
      \<and> thread_of slug (io_db io') = Some (Some cid, Some ts)"
proof -
  let ?send = "deliver status_text n slug channel mentions"
  let ?io1 = "?send opened io"
  let ?io2 = "?send reminded ?io1"
  let ?c = "c\<lparr>mr_uptime_thread_channel := Some cid, mr_uptime_thread_ts := Some ts\<rparr>"
  from deliver_open [OF io ch key evs(1), of status_text mentions] ans
  obtain inp where o1: "io_db ?io1 = with_thread slug cid ts (io_db io)" "io_answers ?io1 = [Inr x, Inr y, Inr z]"
      "io_sent ?io1 = io_sent io @ [PostMessage (chi_id ch) [] (DownParent inp)]"
    by (auto simp: Let_def)
  have r1: "db_faults (io_db ?io1) = []" "gm_get (db_monitors (io_db ?io1)) slug = Some ?c"
    by (simp_all add: o1 io)
  from deliver_reminder [OF r1 ch evs(2) _ ts, of _ "[Inr y, Inr z]" status_text mentions] o1(2)
  obtain down where o2: "io_db ?io2 = io_db ?io1" "io_answers ?io2 = [Inr y, Inr z]"
      "io_sent ?io2 = io_sent ?io1 @ [PostMessage (chi_id ch) ts (ReminderReply down (e_at reminded) (e_error reminded))]"
    by (auto simp: Let_def)
  have r2: "db_faults (io_db ?io2) = []" "gm_get (db_monitors (io_db ?io2)) slug = Some ?c"
    using r1 by (simp_all add: o2)
  from deliver_resolve [OF r2 ch _ evs(3) _ ts, of cid y z "[]" status_text mentions] o2(2) key
  obtain res where o3: "io_db (?send resolved ?io2) = io_db ?io2"
      "io_sent (?send resolved ?io2) = io_sent ?io2 @ [UpdateMessage cid ts (ResolveEdit res (e_at resolved) (e_downtime resolved)),
         PostMessage cid ts (ResolveReply res (e_at resolved) (e_downtime resolved))]"
    by (auto simp: Let_def)
  show ?thesis
    using o1(3) o2(3) o3(2) r2(2) by (auto simp: Let_def thread_of_def o3(1))
qed

text \<open>A lost open is made up for: if the post of the open fails, the next reminder posts a new
  parent that carries the late-notice banner and stores its reference, and the reminder after it
  replies in that thread.\<close>

theorem lost_open_is_replaced:
  assumes io: "db_faults (io_db io) = []" "gm_get (db_monitors (io_db io)) slug = Some c"
    and ch: "nf_channels n channel = Some ch" and key: "ms_slug c = slug"
    and none: "mr_uptime_thread_ts c = None"
    and evs: "e_type opened = EventOpen" "e_type first = EventReminder" "e_type again = EventReminder"
    and ans: "io_answers io = [Inl e, Inr (cid, ts), Inr x]" and ts: "ts \<noteq> []"
  shows "\<exists>lost late down. let send = deliver status_text n slug channel mentions;
        io' = send again (send first (send opened io)) in
      di_banner late = freshParentBanner \<and>
      io_sent io' = io_sent io @
        [PostMessage (chi_id ch) [] (DownParent lost),
         PostMessage (chi_id ch) [] (DownParent late),
         PostMessage (chi_id ch) ts (ReminderReply down (e_at again) (e_error again))]
      \<and> thread_of slug (io_db io') = Some (Some cid, Some ts)"
proof -
  let ?send = "deliver status_text n slug channel mentions"
  let ?io1 = "?send opened io"
  let ?io2 = "?send first ?io1"
  let ?c = "c\<lparr>mr_uptime_thread_channel := Some cid, mr_uptime_thread_ts := Some ts\<rparr>"
  from deliver_open [OF io ch key evs(1), of status_text mentions] ans
  obtain lost where o1: "io_db ?io1 = io_db io" "io_answers ?io1 = [Inr (cid, ts), Inr x]"
      "io_sent ?io1 = io_sent io @ [PostMessage (chi_id ch) [] (DownParent lost)]"
    by (auto simp: Let_def)
  have r1: "db_faults (io_db ?io1) = []" "gm_get (db_monitors (io_db ?io1)) slug = Some c"
    by (simp_all add: o1 io)
  from deliver_reminder_fresh [OF r1 ch key evs(2) none o1(2), of status_text mentions]
  obtain late where o2: "di_banner late = freshParentBanner"
      "io_db ?io2 = with_thread slug cid ts (io_db ?io1)" "io_answers ?io2 = [Inr x]"
      "io_sent ?io2 = io_sent ?io1 @ [PostMessage (chi_id ch) [] (DownParent late)]"
    by (auto simp: Let_def)
  have r2: "db_faults (io_db ?io2) = []" "gm_get (db_monitors (io_db ?io2)) slug = Some ?c"
    using r1 by (simp_all add: o2)
  from deliver_reminder [OF r2 ch evs(3) _ ts, of _ "[]" status_text mentions] o2(3)
  obtain down where o3: "io_db (?send again ?io2) = io_db ?io2"
      "io_sent (?send again ?io2) = io_sent ?io2 @ [PostMessage (chi_id ch) ts (ReminderReply down (e_at again) (e_error again))]"
    by (auto simp: Let_def)
  show ?thesis
    using o1(3) o2(1,4) o3(2) r2(2) by (auto simp: Let_def thread_of_def o3(1))
qed

text \<open>Witnesses: a monitor in a fresh database, one registered channel.\<close>

definition sample_row :: monitor_cols where
  "sample_row = (default_cols ''web'')\<lparr>ms_friendly_name := ''Web'', mc_slack_channel_slug := Some ''ops''\<rparr>"

definition sample_io :: "(client_error + string \<times> string) list \<Rightarrow> slack_io" where
  "sample_io answers = \<lparr>io_db = (empty_db 0)\<lparr>db_monitors := [(''web'', sample_row)]\<rparr>,
     io_answers = answers, io_sent = [], io_metrics = []\<rparr>"

definition sample_notifier :: notifier_config where
  "sample_notifier = NewNotifier (\<lambda>s. if s = ''ops'' then Some \<lparr>chi_id = ''C1'', chi_token = ''xoxb''\<rparr> else None)
     0 [] True"

definition sample_event :: "event_type \<Rightarrow> time \<Rightarrow> event" where
  "sample_event t at = \<lparr>e_type = t, e_at = at, e_status_code = 503, e_error = ''boom'', e_downtime = 0\<rparr>"

lemma sample_facts:
  "db_faults (io_db (sample_io as)) = []" "gm_get (db_monitors (io_db (sample_io as))) ''web'' = Some sample_row"
  "nf_channels sample_notifier ''ops'' = Some \<lparr>chi_id = ''C1'', chi_token = ''xoxb''\<rparr>"
  "ms_slug sample_row = ''web''" "mr_uptime_thread_ts sample_row = None" "io_answers (sample_io as) = as"
  "e_type (sample_event t at) = t"
  by (simp_all add: sample_io_def empty_db_def sample_notifier_def NewNotifier_def sample_row_def
      default_cols_def sample_event_def)

abbreviation sample_send :: "event_type \<Rightarrow> time \<Rightarrow> slack_io \<Rightarrow> slack_io" where
  "sample_send t at \<equiv> deliver (\<lambda>_. []) sample_notifier ''web'' ''ops'' [] (sample_event t at)"

theorem incident_is_one_thread_witness:
  "let as = [Inr (''C1'', ''17.1''), Inr ([], []), Inr ([], []), Inr ([], [])];
       io = sample_send EventResolve 3 (sample_send EventReminder 2 (sample_send EventOpen 1 (sample_io as)))
   in thread_of ''web'' (io_db io) = Some (Some ''C1'', Some ''17.1'') \<and> length (io_sent io) = 4"
proof -
  let ?as = "[Inr (''C1'', ''17.1''), Inr ([], []), Inr ([], []), Inr ([], [])]"
  have "io_sent (sample_io ?as) = []" by (simp add: sample_io_def)
  with incident_is_one_thread [OF sample_facts(1,2,3,4) sample_facts(7) [of _ 1] sample_facts(7) [of _ 2]
      sample_facts(7) [of _ 3] sample_facts(6) [of ?as], where status_text = "\<lambda>_. []" and mentions = "[]"]
  show ?thesis unfolding Let_def by auto
qed

theorem lost_open_is_replaced_witness:
  "let as = [Inl ClientOther, Inr (''C1'', ''17.2''), Inr ([], [])];
       io = sample_send EventReminder 3 (sample_send EventReminder 2 (sample_send EventOpen 1 (sample_io as)))
   in thread_of ''web'' (io_db io) = Some (Some ''C1'', Some ''17.2'') \<and> length (io_sent io) = 3"
proof -
  let ?as = "[Inl ClientOther, Inr (''C1'', ''17.2''), Inr ([], [])]"
  have "io_sent (sample_io ?as) = []" by (simp add: sample_io_def)
  with lost_open_is_replaced [OF sample_facts(1,2,3,4,5) sample_facts(7) [of _ 1] sample_facts(7) [of _ 2]
      sample_facts(7) [of _ 3] sample_facts(6) [of ?as], where status_text = "\<lambda>_. []" and mentions = "[]"]
  show ?thesis unfolding Let_def by auto
qed

end
