(* ===== verification/Lifecycle.thy ===== *)
theory Lifecycle
  imports Scheduler Depindex Notifier
begin

text \<open>
  The wiring of \<^verbatim>\<open>internal/lifecycle\<close> that carries alerting logic: the adapter from the scheduler's
  group sink to the coalescing manager, push propagation, the on-demand parent probe and the commit
  of a held DNS failure (\<^verbatim>\<open>coalesce_wiring.go\<close>), and the removal of a Kubernetes monitor
  (\<^verbatim>\<open>lifecycle.go\<close>).  The current plans, what a probe answers and the per-monitor notifier are
  arguments.
\<close>

section \<open>The group sink\<close>

definition sink_member :: "group_member \<Rightarrow> member_info" where
  "sink_member gm = \<lparr>mi_slug = gmb_slug gm, mi_friendly_name = gmb_friendly_name gm,
     mi_mentions = gmb_mentions gm, mi_detail_url = []\<rparr>"

definition adapter_Down :: "string \<Rightarrow> group_member \<Rightarrow> time \<Rightarrow> world \<Rightarrow> world" where
  "adapter_Down channel gm at = Route channel
     \<lparr>en_member = sink_member gm, en_row = None,
      en_event = Some \<lparr>e_type = EventOpen, e_at = at, e_status_code = 0, e_error = [], e_downtime = 0\<rparr>,
      en_mentions = []\<rparr>"

definition adapter_Route ::
  "string \<Rightarrow> group_member \<Rightarrow> monitor_row \<Rightarrow> string list \<Rightarrow> event \<Rightarrow> world \<Rightarrow> world" where
  "adapter_Route channel gm row mentions ev = Route channel
     \<lparr>en_member = sink_member gm, en_row = Some row, en_event = Some ev, en_mentions = mentions\<rparr>"

definition groupSinkAdapter :: group_sink where
  "groupSinkAdapter = \<lparr>gs_down = adapter_Down, gs_up = Up, gs_pause = Pause, gs_route = adapter_Route\<rparr>"

section \<open>Push propagation\<close>

definition plan_spec :: "plan \<Rightarrow> spec" where
  "plan_spec p = \<lparr>sp_slug = p_slug p, sp_depends_on = p_depends_on p\<rparr>"

definition channel_map :: "plan list \<Rightarrow> (string, string) gomap" where
  "channel_map plans = fold (\<lambda>p. gm_put (p_slug p) (p_channel p)) plans []"

definition pause_child :: "plan list \<Rightarrow> time \<Rightarrow> string \<Rightarrow> world \<Rightarrow> world" where
  "pause_child plans at child w =
    (case MarkTemporaryPaused child (w_db w) of
       (d, Inl _) \<Rightarrow> w\<lparr>w_db := d\<rparr>
     | (d, Inr _) \<Rightarrow>
         (let channel = gm_get0 [] (channel_map plans) child in
          if channel = [] then w\<lparr>w_db := d\<rparr> else Pause channel child at (w\<lparr>w_db := d\<rparr>)))"

definition makePushPropagation :: "plan list \<Rightarrow> string \<Rightarrow> time \<Rightarrow> world \<Rightarrow> world" where
  "makePushPropagation plans parent at w =
     fold (pause_child plans at) (Children (Some (Build (map plan_spec plans))) parent) w"

section \<open>Probes outside the tick\<close>

definition find_plan :: "plan list \<Rightarrow> string \<Rightarrow> plan option" where
  "find_plan plans slug = find (\<lambda>p. p_slug p = slug) plans"

text \<open>The previous state a probe outside the tick starts from.\<close>

definition resume_state :: "monitor_row \<Rightarrow> state" where
  "resume_state row = (if mr_status row = StatusTemporaryPaused
     then (row_State row)\<lparr>s_status := (if mr_opened_at row \<noteq> None then StatusDown else StatusUp)\<rparr>
     else row_State row)"

definition fail_check :: "plan \<Rightarrow> result \<Rightarrow> time \<Rightarrow> check" where
  "fail_check pl res at = \<lparr>c_outcome = OutcomeFail, c_at = at, c_status_code = r_code res,
     c_error = r_error res, c_reminder_interval = p_reminder_interval pl\<rparr>"

definition plan_entry :: "plan \<Rightarrow> monitor_row \<Rightarrow> event \<Rightarrow> entry" where
  "plan_entry pl row ev =
    \<lparr>en_member = \<lparr>mi_slug = p_slug pl, mi_friendly_name = p_friendly_name pl,
        mi_mentions = p_mentions pl, mi_detail_url = []\<rparr>,
     en_row = Some row, en_event = Some ev, en_mentions = p_mentions pl\<rparr>"

definition probed_down :: "plan \<Rightarrow> result \<times> bool \<Rightarrow> bool" where
  "probed_down pl answer \<longleftrightarrow> p_prober pl \<noteq> None \<and> \<not> snd answer \<and> r_error (fst answer) \<noteq> []"

text \<open>\<open>answer\<close> is the result of the probe and whether its context was over by then.\<close>

definition makeOnDemandParentProbe :: "plan list \<Rightarrow> (plan \<Rightarrow> result \<times> bool)
    \<Rightarrow> (string \<Rightarrow> time \<Rightarrow> world \<Rightarrow> world) option \<Rightarrow> string \<Rightarrow> world \<Rightarrow> world" where
  "makeOnDemandParentProbe plans answer push parent w =
    (case find_plan plans parent of
       None \<Rightarrow> w
     | Some pl \<Rightarrow>
        if \<not> probed_down pl (answer pl) then w
        else (let res = fst (answer pl); run_push = (case push of None \<Rightarrow> id | Some f \<Rightarrow> f parent (w_now w)) in
         case GetMonitor parent (w_db w) of
           (d1, Inl _) \<Rightarrow> w\<lparr>w_db := d1\<rparr>
         | (d1, Inr row) \<Rightarrow>
            (let (next_state, ev) = Apply (resume_state row) (fail_check pl res (w_now w)) in
             case ev of
               Some e \<Rightarrow>
                (if e_type e = EventOpen then
                  (case ApplyCheck parent next_state (w_now w) (r_code res) (r_error res) ev d1 of
                     (d2, Inl _) \<Rightarrow> w\<lparr>w_db := d2\<rparr>
                   | (d2, Inr _) \<Rightarrow>
                      (let w2 = run_push (w\<lparr>w_db := d2\<rparr>) in
                       if \<not> p_critical pl \<and> p_channel pl \<noteq> []
                       then Route (p_channel pl) (plan_entry pl row e) w2 else w2))
                 else run_push (w\<lparr>w_db := d1\<rparr>))
             | None \<Rightarrow> run_push (w\<lparr>w_db := d1\<rparr>))))"

definition makeSelfHealthCommit :: "plan list \<Rightarrow> (plan \<Rightarrow> result \<times> bool)
    \<Rightarrow> (string \<Rightarrow> time \<Rightarrow> world \<Rightarrow> world) option
    \<Rightarrow> (monitor_row \<Rightarrow> string \<Rightarrow> string list \<Rightarrow> event \<Rightarrow> world \<Rightarrow> world) \<Rightarrow> string \<Rightarrow> world \<Rightarrow> world" where
  "makeSelfHealthCommit plans answer push notify slug w =
    (case find_plan plans slug of
       None \<Rightarrow> w
     | Some pl \<Rightarrow>
        if \<not> probed_down pl (answer pl) then w
        else (let res = fst (answer pl) in
         case GetMonitor slug (w_db w) of
           (d1, Inl _) \<Rightarrow> w\<lparr>w_db := d1\<rparr>
         | (d1, Inr row) \<Rightarrow>
            (let (next_state, ev) = Apply (resume_state row) (fail_check pl res (w_now w)) in
             case ApplyCheck slug next_state (w_now w) (r_code res) (r_error res) ev d1 of
               (d2, Inl _) \<Rightarrow> w\<lparr>w_db := d2\<rparr>
             | (d2, Inr _) \<Rightarrow>
                (case ev of
                   None \<Rightarrow> w\<lparr>w_db := d2\<rparr>
                 | Some e \<Rightarrow> if p_channel pl = [] then w\<lparr>w_db := d2\<rparr>
                    else (let w2 = w\<lparr>w_db := d2\<rparr>;
                              w3 = (if p_critical pl then notify row (p_channel pl) (p_mentions pl) e w2
                                    else Route (p_channel pl) (plan_entry pl row e) w2) in
                      case push of
                        None \<Rightarrow> w3
                      | Some f \<Rightarrow> if e_type e = EventOpen then f slug (w_now w) w3 else w3)))))"

section \<open>The notifier behind the sinks\<close>

fun sink_error_of :: "notify_error \<Rightarrow> sink_error" where
  "sink_error_of (ClientError ClientCancelled) = SinkCancelled"
| "sink_error_of (ClientError (ClientSlack se)) = SinkSlack se"
| "sink_error_of _ = SinkOther"

text \<open>The notifier shares the store with the rest of the program; \<open>answers\<close> is what Slack says to it.\<close>

definition with_notifier :: "(slack_io \<Rightarrow> slack_io \<times> notify_error option)
    \<Rightarrow> (client_error + string \<times> string) list \<Rightarrow> world \<Rightarrow> world \<times> sink_error option" where
  "with_notifier f answers w =
    (case f \<lparr>io_db = w_db w, io_answers = answers, io_sent = [], io_metrics = []\<rparr> of
       (io, err) \<Rightarrow> (w\<lparr>w_db := io_db io\<rparr>, map_option sink_error_of err))"

definition notifier_sink :: "(int \<Rightarrow> string) \<Rightarrow> notifier_config \<Rightarrow> (event \<Rightarrow> (client_error + string \<times> string) list)
    \<Rightarrow> monitor_row \<Rightarrow> string \<Rightarrow> string list \<Rightarrow> event \<Rightarrow> world \<Rightarrow> world \<times> sink_error option" where
  "notifier_sink st n answers row channel mentions ev =
     with_notifier (buildSink st n row channel mentions ev) (answers ev)"

definition notifier_ssl_sink :: "(int \<Rightarrow> string) \<Rightarrow> notifier_config
    \<Rightarrow> (ssl_event \<Rightarrow> (client_error + string \<times> string) list)
    \<Rightarrow> monitor_row \<Rightarrow> string \<Rightarrow> string list \<Rightarrow> ssl_event \<Rightarrow> world \<Rightarrow> world \<times> sink_error option" where
  "notifier_ssl_sink st n answers row channel mentions ev =
     with_notifier (buildSSLSink st n row channel mentions ev) (answers ev)"

text \<open>The view a committed failure is announced with: the status text is the row's.\<close>

definition commit_view :: "(int \<Rightarrow> string) \<Rightarrow> monitor_row \<Rightarrow> event \<Rightarrow> monitor_view" where
  "commit_view st row ev =
    (let mv = monitorViewFromRow st row;
         mv = (if e_status_code ev \<noteq> 0 then mv\<lparr>mv_status_code := e_status_code ev\<rparr> else mv)
     in if e_error ev \<noteq> [] then mv\<lparr>mv_last_error := e_error ev\<rparr> else mv)"

definition commit_notify :: "(int \<Rightarrow> string) \<Rightarrow> notifier_config \<Rightarrow> (event \<Rightarrow> (client_error + string \<times> string) list)
    \<Rightarrow> monitor_row \<Rightarrow> string \<Rightarrow> string list \<Rightarrow> event \<Rightarrow> world \<Rightarrow> world" where
  "commit_notify st n answers row channel mentions ev w =
     fst (with_notifier (Notify n channel mentions (commit_view st row ev) (Some ev)) (answers ev) w)"

section \<open>Plans and removals\<close>

definition CurrentPlans :: "plan list \<Rightarrow> plan list option \<Rightarrow> plan list" where
  "CurrentPlans static_plans kube = (case kube of None \<Rightarrow> static_plans | Some ks \<Rightarrow> static_plans @ ks)"

datatype removal = Removed string monitor_row string string \<comment> \<open>channel, row, reason, source\<close>

definition OnKubeMonitorRemoved :: "string \<Rightarrow> string \<Rightarrow> db \<Rightarrow> db \<times> removal list" where
  "OnKubeMonitorRemoved slug reason d =
    (case GetMonitor slug d of
       (d1, Inl _) \<Rightarrow> (d1, [])
     | (d1, Inr row) \<Rightarrow>
        if mr_archived row then (d1, [])
        else (case SoftDeleteMonitor slug reason d1 of
           (d2, Inl _) \<Rightarrow> (d2, [])
         | (d2, Inr _) \<Rightarrow> (d2, if ms_slack_channel_slug row = [] then []
             else [Removed (ms_slack_channel_slug row) row reason ''k8s ingress''])))"

text \<open>
  The static monitors at boot: each declared one is reconciled, a failure aborts the boot, and the
  active static rows that are no longer declared are soft-deleted and announced.
\<close>

fun reconcile_all :: "monitor_spec list \<Rightarrow> db \<Rightarrow> db \<times> (store_error + unit)" where
  "reconcile_all [] d = (d, Inr ())"
| "reconcile_all (m # ms) d = (case ReconcileMonitor m d of
      (d1, Inl e) \<Rightarrow> (d1, Inl e) | (d1, Inr _) \<Rightarrow> reconcile_all ms d1)"

definition remove_prior :: "string set \<Rightarrow> monitor_row \<Rightarrow> db \<times> removal list \<Rightarrow> db \<times> removal list" where
  "remove_prior declared m acc =
    (let (d, out) = acc in
     if ms_slug m \<in> declared then (d, out)
     else (case SoftDeleteMonitor (ms_slug m) ''removed from config'' d of
        (d1, Inl _) \<Rightarrow> (d1, out)
      | (d1, Inr _) \<Rightarrow> (d1, out @ (if ms_slack_channel_slug m = [] then []
          else [Removed (ms_slack_channel_slug m) m ''removed from config'' ''static config'']))))"

definition boot_static :: "monitor_spec list \<Rightarrow> db \<Rightarrow> db \<times> (store_error + removal list)" where
  "boot_static specs d =
    (case reconcile_all specs d of
       (d1, Inl e) \<Rightarrow> (d1, Inl e)
     | (d1, Inr _) \<Rightarrow> (case ListActiveBySource ''static'' d1 of
         (d2, Inl _) \<Rightarrow> (d2, Inr [])
       | (d2, Inr prior) \<Rightarrow>
           (case fold (remove_prior (ms_slug ` set specs)) prior (d2, []) of (d3, out) \<Rightarrow> (d3, Inr out))))"

end
