(* ===== verification/Lifecycle_Props.thy ===== *)
theory Lifecycle_Props
  imports Lifecycle Dispatch_Props
begin

text \<open>
  The whole alerting pipeline as one state machine: ticks, the evaluator with its on-demand probes,
  commits of held failures, removals and restarts.  The invariant says that the state of every
  monitor and its recorded history tell one story, and that the dispatcher is consistent.
\<close>

section \<open>What the dispatcher leaves alone\<close>

definition mon_frame :: "db \<Rightarrow> db \<Rightarrow> bool" where
  "mon_frame d d' \<longleftrightarrow> db_monitors d' = db_monitors d \<and> db_events d' = db_events d"

lemma mon_frame_refl [simp]: "mon_frame d d"
  by (simp add: mon_frame_def)

lemma mon_frame_trans: "mon_frame a b \<Longrightarrow> mon_frame b c \<Longrightarrow> mon_frame a c"
  by (simp add: mon_frame_def)

lemma mon_frame_data: "db_data d' = db_data d \<Longrightarrow> mon_frame d d'"
  using db_data_sel(1,2) [of d' d] by (simp add: mon_frame_def)

lemma mon_frame_fold:
  assumes "\<And>x w. mon_frame (w_db w) (w_db (f x w))"
  shows "mon_frame (w_db w) (w_db (fold f xs w))"
proof (induction xs arbitrary: w)
  case (Cons x xs)
  have "mon_frame (w_db (f x w)) (w_db (fold f xs (f x w)))" by (rule Cons.IH)
  then show ?case using assms [of w x] mon_frame_trans by auto
qed simp

lemma db_call_frame:
  assumes "db_call what f d = (d', res)"
    and "\<And>d1 d2 r. f d1 = (d2, r) \<Longrightarrow> mon_frame d1 d2"
  shows "mon_frame d d'"
  using assms(1)
proof (cases rule: db_call_elim)
  case fault
  then show ?thesis by (simp add: mon_frame_data)
next
  case (runs d1)
  then show ?thesis using assms(2) mon_frame_data mon_frame_trans by blast
qed

lemma SaveIncidentGroup_frame: "SaveIncidentGroup g d = (d', res) \<Longrightarrow> mon_frame d d'"
  unfolding SaveIncidentGroup_def
  by (erule db_call_frame) (auto simp: mon_frame_def split: if_splits)

lemma CreateIncidentGroup_frame: "CreateIncidentGroup ch t d = (d', i) \<Longrightarrow> mon_frame d d'"
  unfolding CreateIncidentGroup_def
  by (erule db_call_frame) (auto simp: mon_frame_def Let_def split: if_splits)

lemma FindOpenIncidentGroup_frame: "FindOpenIncidentGroup ch d = (d', f) \<Longrightarrow> mon_frame d d'"
  unfolding FindOpenIncidentGroup_def by (erule db_call_frame) auto

lemma ListOpenIncidentGroups_frame: "ListOpenIncidentGroups d = (d', l) \<Longrightarrow> mon_frame d d'"
  unfolding ListOpenIncidentGroups_def by (erule db_call_frame) auto

lemma save_group_frame: "mon_frame (w_db w) (w_db (save_group lg w))"
  using SaveIncidentGroup_frame [of "toRow lg" "w_db w"]
  by (cases "SaveIncidentGroup (toRow lg) (w_db w)") (simp add: save_group_def)

lemma put_db [simp]: "w_db (put_channel ch cs w) = w_db w" "w_db (put_group ch lg w) = w_db w"
  "w_db (del_group ch w) = w_db w" "w_db (flushSink ch e w) = w_db w"
  "w_db (on_group ch f w) = w_db w"
  by (simp_all add: put_channel_def put_group_def del_group_def flushSink_def on_group_def
      split: option.split)

lemma ensureGroup_db: "mon_frame (w_db w) (w_db (snd (ensureGroup ch at w)))"
proof -
  obtain d1 f where f: "FindOpenIncidentGroup ch (w_db w) = (d1, f)" by fastforce
  obtain d2 c where c: "CreateIncidentGroup ch at d1 = (d2, c)" by fastforce
  note frames = FindOpenIncidentGroup_frame [OF f] CreateIncidentGroup_frame [OF c]
  show ?thesis
    using frames mon_frame_trans [OF frames]
    by (auto simp: ensureGroup_def f c Let_def split: option.splits sum.splits)
qed

lemma Pause_db [simp]: "w_db (Pause ch s t w) = w_db w" "w_calls (Pause ch s t w) = w_calls w"
  "w_now (Pause ch s t w) = w_now w"
  by (simp_all add: Pause_def Let_def put_channel_def put_group_def on_group_def
      split: channel_mode.splits option.splits)

lemma Route_frame: "mon_frame (w_db w) (w_db (Route ch e w))"
proof -
  have "mon_frame (w_db w) (w_db (routeOpen ch e ev w))" for ev
  proof -
    let ?cs = "markDown (mi_slug (en_member e)) (e_at ev) (channelStateFor ch (w_mgr w))"
    obtain r w1 where g: "ensureGroup ch (e_at ev) (put_channel ch ?cs w) = (r, w1)" by fastforce
    then have "mon_frame (w_db w) (w_db w1)"
      using ensureGroup_db [of "put_channel ch ?cs w" ch "e_at ev"] by simp
    with g show ?thesis
      by (auto simp: routeOpen_def Let_def split: channel_mode.split option.split)
  qed
  then show ?thesis
    by (simp add: Route_def routeResolve_def routeReminder_def Let_def
        split: option.split event_type.split channel_mode.split)
qed

lemma dispatch_db: "w_db (snd (fst (dispatch now as lw))) = w_db (snd lw)"
proof -
  have post: "w_db (snd (postDigest c lw)) = w_db (snd lw)" for c lw
    by (auto simp: postDigest_def send_def take_answer_def Let_def split: prod.splits option.splits list.splits)
  have ens: "w_db (snd (ensurePosted lw)) = w_db (snd lw)" for lw
    by (simp add: ensurePosted_def post)
  have edit: "w_db (snd (editDigest c lw)) = w_db (snd lw)" for c lw
    by (auto simp: editDigest_def send_def split: prod.splits)
  have reply: "w_db (snd (send_reply r lw)) = w_db (snd lw)" for r lw
    by (auto simp: send_reply_def send_def split: prod.splits)
  have "w_db (snd (fst (run_action now a lw))) = w_db (snd lw)" for a lw
    by (simp add: run_action_def Let_def post ens edit reply split: action_kind.split)
  then show ?thesis by (induction "as" arbitrary: lw) (simp_all add: Let_def split_beta)
qed

lemma promote_pool_frame: "mon_frame (w_db w) (w_db (promote_pool ch cs now w))"
proof -
  obtain r w1 where e: "ensureGroup ch (earliest_entered now (cs_pending cs)) w = (r, w1)" by fastforce
  then have f: "mon_frame (w_db w) (w_db w1)" using ensureGroup_db [of w ch] by (metis snd_conv)
  show ?thesis
  proof (cases r)
    case None
    then show ?thesis using e f by (simp add: promote_pool_def)
  next
    case (Some lg)
    obtain g2 act where o2: "Open now (lg_g (join_pool (cs_pending cs) lg)) = (g2, act)" by fastforce
    obtain lg3 w2 b where d: "dispatch now [act] ((join_pool (cs_pending cs) lg)\<lparr>lg_g := g2\<rparr>, w1) = ((lg3, w2), b)"
      by (metis surj_pair)
    have "w_db w2 = w_db w1" using dispatch_db [of now "[act]" "((join_pool (cs_pending cs) lg)\<lparr>lg_g := g2\<rparr>, w1)"] d by simp
    then have "mon_frame (w_db w) (w_db (save_group lg3 (put_group ch lg3 w2)))"
      using f save_group_frame [of "put_group ch lg3 w2" lg3] mon_frame_trans by auto
    then show ?thesis using Some e f o2 d by (simp add: promote_pool_def Let_def del: dispatch.simps)
  qed
qed

lemma flush_pool_frame: "w_db (flush_pool ch cs w) = w_db w"
proof -
  have "w_db (fold (flushSink ch) es v) = w_db v" for es v
    by (induction es arbitrary: v) simp_all
  then show ?thesis by (simp add: flush_pool_def Let_def)
qed

lemma decide_pool_frame: "mon_frame (w_db w) (w_db (decide_pool ch now w))"
  by (simp add: decide_pool_def Let_def flush_pool_frame promote_pool_frame split: option.split)

lemma evaluate_channel_frame: "mon_frame (w_db w) (w_db (evaluate_channel now ch w))"
proof (cases "gm_get (mg_groups (w_mgr w)) ch")
  case None
  then show ?thesis by (simp add: evaluate_channel_def)
next
  case (Some lg)
  obtain g1 acts where ev: "Evaluate now (lg_g lg) = (g1, acts)" by fastforce
  obtain lg2 w1 r where d: "dispatch now acts (lg\<lparr>lg_g := g1\<rparr>, w) = ((lg2, w1), r)" by (metis surj_pair)
  have "w_db w1 = w_db w" using dispatch_db [of now acts "(lg\<lparr>lg_g := g1\<rparr>, w)"] d by simp
  then have "mon_frame (w_db w) (w_db (save_group lg2 (put_group ch lg2 w1)))"
    by (metis put_db(2) save_group_frame)
  then show ?thesis
    using Some ev d by (auto simp: evaluate_channel_def Let_def retireGroupChannel_def split: option.split)
qed

section \<open>The story of a monitor\<close>

text \<open>
  The uptime events recorded for a monitor; an observer who reads them knows whether an incident is
  open.  Certificate events are a separate story.
\<close>

definition is_uptime :: "event_type \<Rightarrow> bool" where
  "is_uptime t \<longleftrightarrow> t \<in> {EventOpen, EventReminder, EventResolve}"

definition uptime_history :: "string \<Rightarrow> db \<Rightarrow> event_type list" where
  "uptime_history slug d =
     filter is_uptime (map ae_type (filter (\<lambda>a. ae_monitor_slug a = slug) (db_events d)))"

definition story_step :: "bool \<Rightarrow> event_type \<Rightarrow> bool option" where
  "story_step in_incident t =
    (if t = EventOpen then (if in_incident then None else Some True)
     else if t = EventReminder then (if in_incident then Some True else None)
     else if t = EventResolve then (if in_incident then Some False else None)
     else Some in_incident)"

definition row_ok :: "monitor_cols \<Rightarrow> bool" where
  "row_ok c \<longleftrightarrow> (mr_status c = StatusUp \<and> mr_opened_at c = None
      \<or> mr_status c = StatusDown \<and> mr_opened_at c \<noteq> None
      \<or> mr_status c = StatusTemporaryPaused)
    \<and> (\<forall>t. mr_opened_at c = Some t \<longrightarrow> 1000 \<le> t)"

definition slug_ok :: "string \<Rightarrow> db \<Rightarrow> bool" where
  "slug_ok slug d \<longleftrightarrow> (case gm_get (db_monitors d) slug of
      None \<Rightarrow> uptime_history slug d = []
    | Some c \<Rightarrow> row_ok c \<and>
        feed story_step False (uptime_history slug d) = Some (mr_opened_at c \<noteq> None))"

definition story_ok :: "db \<Rightarrow> bool" where
  "story_ok d \<longleftrightarrow> (\<forall>slug. slug_ok slug d)"

text \<open>An operation that changes neither status nor opening time nor the uptime history.\<close>

definition keeps_story :: "db \<Rightarrow> db \<Rightarrow> bool" where
  "keeps_story d d' \<longleftrightarrow> (\<forall>slug. uptime_history slug d' = uptime_history slug d
     \<and> map_option (\<lambda>c. (mr_status c, mr_opened_at c)) (gm_get (db_monitors d') slug)
       = map_option (\<lambda>c. (mr_status c, mr_opened_at c)) (gm_get (db_monitors d) slug))"

lemma keeps_story_ok: "keeps_story d d' \<Longrightarrow> story_ok d \<Longrightarrow> story_ok d'"
proof -
  assume k: "keeps_story d d'" and ok: "story_ok d"
  have "slug_ok slug d'" for slug
  proof -
    from k have h: "uptime_history slug d' = uptime_history slug d"
      and m: "map_option (\<lambda>c. (mr_status c, mr_opened_at c)) (gm_get (db_monitors d') slug)
        = map_option (\<lambda>c. (mr_status c, mr_opened_at c)) (gm_get (db_monitors d) slug)"
      by (auto simp: keeps_story_def)
    from ok have "slug_ok slug d" by (simp add: story_ok_def)
    with h m show ?thesis
      by (cases "gm_get (db_monitors d) slug"; cases "gm_get (db_monitors d') slug")
         (auto simp: slug_ok_def row_ok_def)
  qed
  then show ?thesis by (simp add: story_ok_def)
qed

lemma keeps_story_trans: "keeps_story a b \<Longrightarrow> keeps_story b c \<Longrightarrow> keeps_story a c"
  by (simp add: keeps_story_def)

lemma frame_keeps_story: "mon_frame d d' \<Longrightarrow> keeps_story d d'"
  by (simp add: mon_frame_def keeps_story_def uptime_history_def)

lemma data_keeps_story: "db_data d' = db_data d \<Longrightarrow> keeps_story d d'"
  by (rule frame_keeps_story [OF mon_frame_data])

lemma story_ok_data: "db_data d' = db_data d \<Longrightarrow> story_ok d' = story_ok d"
  using data_keeps_story [of d' d] data_keeps_story [of d d'] keeps_story_ok by auto

lemma uptime_history_append:
  "uptime_history slug (append_event k t at sc msg dt d) =
     uptime_history slug d @ (if k = slug \<and> is_uptime t then [t] else [])"
  by (simp add: uptime_history_def append_event_def)

lemma uptime_history_update [simp]: "uptime_history slug (update_monitor k f d) = uptime_history slug d"
  by (simp add: uptime_history_def)

lemma keeps_story_update:
  assumes "\<And>c. mr_status (f c) = mr_status c \<and> mr_opened_at (f c) = mr_opened_at c"
  shows "keeps_story d (update_monitor slug f d)"
  using assms by (auto simp: keeps_story_def update_monitor_get option.map_comp o_def)

section \<open>Each store operation and the story\<close>

lemma story_ok_call:
  assumes "db_call what f d = (d', res)" and "story_ok d"
    and "\<And>d1 d2 r. f d1 = (d2, r) \<Longrightarrow> story_ok d1 \<Longrightarrow> story_ok d2"
  shows "story_ok d'"
  using assms(1)
proof (cases rule: db_call_elim)
  case fault
  then show ?thesis using story_ok_data assms(2) by blast
next
  case (runs d1)
  then show ?thesis using story_ok_data [of d1 d] assms(2,3) by blast
qed

lemma GetMonitor_data: "GetMonitor slug d = (d', res) \<Longrightarrow> db_data d' = db_data d"
  unfolding GetMonitor_def by (erule db_call_elim) auto

lemma GetMonitor_row:
  "GetMonitor slug d = (d', Inr row) \<Longrightarrow> \<exists>c. gm_get (db_monitors d) slug = Some c \<and> row = scanMonitor c"
  unfolding GetMonitor_def
  by (erule db_call_elim) (auto split: option.splits dest!: db_data_sel(1))

lemma MarkTemporaryPaused_story:
  assumes "MarkTemporaryPaused slug d = (d', res)" and ok: "story_ok d"
  shows "story_ok d'"
  using assms(1) [unfolded MarkTemporaryPaused_def] ok
proof (rule story_ok_call)
  fix d1 d2 :: db and r :: "store_error + unit"
  assume "(update_monitor slug (\<lambda>c. c\<lparr>mr_status := StatusTemporaryPaused\<rparr>) d1, Inr ()) = (d2, r)"
    and ok1: "story_ok d1"
  then have d2: "d2 = update_monitor slug (\<lambda>c. c\<lparr>mr_status := StatusTemporaryPaused\<rparr>) d1" by simp
  have "slug_ok k d2" for k
    using ok1 [unfolded story_ok_def, rule_format, of k]
    by (auto simp: slug_ok_def d2 update_monitor_get row_ok_def split: option.splits)
  then show "story_ok d2" by (simp add: story_ok_def)
qed

lemma SoftDelete_story: "SoftDeleteMonitor slug reason d = (d', res) \<Longrightarrow> story_ok d \<Longrightarrow> story_ok d'"
  unfolding SoftDeleteMonitor_def
  by (erule story_ok_call, assumption)
     (auto intro!: keeps_story_ok [OF keeps_story_update])

lemma story_ok_append:
  "\<not> is_uptime t \<Longrightarrow> story_ok (append_event k t at sc msg dt d) = story_ok d"
proof -
  assume "\<not> is_uptime t"
  then have "uptime_history k' (append_event k t at sc msg dt d) = uptime_history k' d" for k'
    by (simp add: uptime_history_append)
  then show ?thesis by (simp add: story_ok_def slug_ok_def cong: option.case_cong)
qed

lemma story_ok_ssl:
  assumes ok: "story_ok d" and f: "\<And>c. mr_status (f c) = mr_status c \<and> mr_opened_at (f c) = mr_opened_at c"
    and ssl: "\<And>e. ev = Some e \<Longrightarrow> \<not> is_uptime (se_type e)"
  shows "story_ok (case ev of None \<Rightarrow> update_monitor slug f d
     | Some e \<Rightarrow> append_event slug (se_type e) (se_at e) sc msg dt (update_monitor slug f d))"
proof -
  have "story_ok (update_monitor slug f d)" by (rule keeps_story_ok [OF keeps_story_update [OF f] ok])
  then show ?thesis
    using ssl story_ok_append by (simp split: option.split)
qed

lemma ApplySSLCheck_story:
  assumes "ApplySSLCheck slug s ex iss sub ev d = (d', res)" and ok: "story_ok d"
    and ssl: "\<And>e. ev = Some e \<Longrightarrow> \<not> is_uptime (se_type e)"
  shows "story_ok d'"
  using assms(1) [unfolded ApplySSLCheck_def Let_def] ok
  by (rule story_ok_call) (simp only: prod.inject, elim conjE, hypsubst, rule story_ok_ssl, use ssl in auto)

text \<open>
  A check: the transition from the (resumed) row and its write.  This is the step that opens and
  closes incidents, so it is where the story could break.
\<close>

lemma pg_time_1000: "1000 \<le> t \<Longrightarrow> 1000 \<le> pg_time t"
  using pg_time_mono [of 1000 t] by (simp add: pg_time_def)

lemma null_if_zero_1000:
  "1000 \<le> t \<Longrightarrow> null_if_zero t = Some (pg_time t)" "null_if_zero zero_time = None"
  by (auto simp: null_if_zero_def is_zero_def zero_time_def)

text \<open>The transition itself: the event fits the story and the next state matches it.\<close>

lemma Apply_story:
  assumes row: "row_ok c" and at: "1000 \<le> c_at chk"
    and app: "Apply (resume_state (scanMonitor c)) chk = (ns, ev)"
  shows "(s_status ns = StatusUp \<and> s_opened_at ns = zero_time \<or> s_status ns = StatusDown \<and> 1000 \<le> s_opened_at ns)
    \<and> (case ev of None \<Rightarrow> s_status ns = (if mr_opened_at c = None then StatusUp else StatusDown)
       | Some e \<Rightarrow> is_uptime (e_type e)
           \<and> story_step (mr_opened_at c \<noteq> None) (e_type e) = Some (s_status ns = StatusDown))"
proof -
  have prev: "s_status (resume_state (scanMonitor c)) = (if mr_opened_at c = None then StatusUp else StatusDown)"
    and opened: "s_opened_at (resume_state (scanMonitor c)) =
      (case mr_opened_at c of None \<Rightarrow> zero_time | Some t \<Rightarrow> t)"
    using row by (auto simp: row_ok_def resume_state_def row_State_def split: option.split)
  show ?thesis
  proof (cases "mr_opened_at c")
    case None
    then show ?thesis
      using app at prev opened
      by (cases "c_outcome chk") (auto simp: Apply_def is_uptime_def story_step_def split: if_splits)
  next
    case (Some t)
    then have "1000 \<le> t" using row by (simp add: row_ok_def)
    with Some show ?thesis
      using app at prev opened
      by (cases "c_outcome chk")
         (auto simp: Apply_def up_state_def is_uptime_def story_step_def split: if_splits)
  qed
qed

lemma check_story:
  assumes row: "gm_get (db_monitors d) slug = Some c" and ok: "story_ok d" and at: "1000 \<le> c_at chk"
    and app: "Apply (resume_state (scanMonitor c)) chk = (ns, ev)"
    and call: "ApplyCheck slug ns t code msg ev d = (d', res)"
  shows "story_ok d'"
proof (cases res)
  case (Inl e)
  then show ?thesis
    using ApplyCheck_data [OF call [unfolded Inl]] story_ok_data ok by blast
next
  case (Inr u)
  with ApplyCheck_write [OF call [unfolded Inr] row]
  obtain c' where c': "gm_get (db_monitors d') slug = Some c'"
    and st: "mr_status c' = s_status ns" and op: "mr_opened_at c' = null_if_zero (s_opened_at ns)"
    and others: "\<And>k. k \<noteq> slug \<Longrightarrow> gm_get (db_monitors d') k = gm_get (db_monitors d) k"
    and evs: "db_events d' = db_events d @
      (case ev of None \<Rightarrow> [] | Some e \<Rightarrow> [event_row slug code msg (db_next_event d) e])"
    by blast
  have ok_row: "row_ok c \<and> feed story_step False (uptime_history slug d) = Some (mr_opened_at c \<noteq> None)"
    using ok [unfolded story_ok_def, rule_format, of slug] row by (simp add: slug_ok_def)
  note A = Apply_story [OF conjunct1 [OF ok_row] at app]
  have hist: "uptime_history k d' = uptime_history k d @
      (case ev of None \<Rightarrow> [] | Some e \<Rightarrow> if k = slug \<and> is_uptime (e_type e) then [e_type e] else [])" for k
    by (simp add: uptime_history_def evs event_row_def split: option.split)
  have row': "row_ok c'" and inc: "(mr_opened_at c' \<noteq> None) = (s_status ns = StatusDown)"
    using A null_if_zero_1000 pg_time_1000 by (auto simp: row_ok_def st op)
  have "slug_ok k d'" for k
  proof (cases "k = slug")
    case True
    then show ?thesis
      using A ok_row row' inc c' hist [of slug]
      by (cases ev) (auto simp: slug_ok_def feed_append split: if_splits)
  next
    case False
    then show ?thesis
      using ok [unfolded story_ok_def, rule_format, of k] others hist [of k]
      by (simp add: slug_ok_def split: option.splits)
  qed
  then show ?thesis by (simp add: story_ok_def)
qed

section \<open>The clock stands still within a step\<close>

lemma put_now [simp]: "w_now (put_channel ch cs w) = w_now w" "w_now (put_group ch lg w) = w_now w"
  "w_now (del_group ch w) = w_now w" "w_now (flushSink ch e w) = w_now w"
  "w_now (on_group ch f w) = w_now w" "w_now (save_group lg w) = w_now w" "w_now (send c w) = w_now w"
  by (simp_all add: put_channel_def put_group_def del_group_def flushSink_def on_group_def
      save_group_def send_def split: option.split)

lemma ensureGroup_now: "w_now (snd (ensureGroup ch at w)) = w_now w"
  by (simp add: ensureGroup_def Let_def split: option.split prod.split sum.split)

lemma dispatch_now: "w_now (snd (fst (dispatch now as lw))) = w_now (snd lw)"
proof -
  have post: "w_now (snd (postDigest c lw)) = w_now (snd lw)" for c lw
    by (auto simp: postDigest_def take_answer_def Let_def split: prod.splits option.splits list.splits)
  have ens: "w_now (snd (ensurePosted lw)) = w_now (snd lw)" for lw
    by (simp add: ensurePosted_def post)
  have edit: "w_now (snd (editDigest c lw)) = w_now (snd lw)" for c lw
    by (auto simp: editDigest_def split: prod.splits)
  have reply: "w_now (snd (send_reply r lw)) = w_now (snd lw)" for r lw
    by (auto simp: send_reply_def split: prod.splits)
  have "w_now (snd (fst (run_action now a lw))) = w_now (snd lw)" for a lw
    by (simp add: run_action_def Let_def post ens edit reply split: action_kind.split)
  then show ?thesis by (induction "as" arbitrary: lw) (simp_all add: Let_def split_beta)
qed

lemma Route_now: "w_now (Route ch e w) = w_now w"
proof -
  have "w_now (routeOpen ch e ev w) = w_now w" for ev
  proof -
    let ?cs = "markDown (mi_slug (en_member e)) (e_at ev) (channelStateFor ch (w_mgr w))"
    obtain r w1 where g: "ensureGroup ch (e_at ev) (put_channel ch ?cs w) = (r, w1)" by fastforce
    then have "w_now w1 = w_now w" using ensureGroup_now [of ch "e_at ev" "put_channel ch ?cs w"] by simp
    with g show ?thesis by (auto simp: routeOpen_def Let_def split: channel_mode.split option.split)
  qed
  then show ?thesis
    by (simp add: Route_def routeResolve_def routeReminder_def Let_def
        split: option.split event_type.split channel_mode.split)
qed

lemma promote_pool_now: "w_now (promote_pool ch cs now w) = w_now w"
proof -
  obtain r w1 where e: "ensureGroup ch (earliest_entered now (cs_pending cs)) w = (r, w1)" by fastforce
  then have f: "w_now w1 = w_now w" using ensureGroup_now [of ch _ w] by (metis snd_conv)
  show ?thesis
  proof (cases r)
    case (Some lg)
    let ?lg = "join_pool (cs_pending cs) lg"
    obtain g2 act where o2: "Open now (lg_g ?lg) = (g2, act)" by fastforce
    obtain lg3 w2 b where d: "dispatch now [act] (?lg\<lparr>lg_g := g2\<rparr>, w1) = ((lg3, w2), b)"
      by (metis surj_pair)
    have "w_now w2 = w_now w1" using dispatch_now [of now "[act]" "(?lg\<lparr>lg_g := g2\<rparr>, w1)"] d by simp
    then show ?thesis using Some e f o2 d by (simp add: promote_pool_def Let_def del: dispatch.simps)
  qed (use e f in \<open>simp add: promote_pool_def\<close>)
qed

lemma decide_pool_now: "w_now (decide_pool ch now w) = w_now w"
proof -
  have "w_now (fold (flushSink ch) es v) = w_now v" for es v by (induction es arbitrary: v) simp_all
  then show ?thesis by (simp add: decide_pool_def flush_pool_def Let_def promote_pool_now split: option.split)
qed

lemma evaluate_channel_now: "w_now (evaluate_channel now ch w) = w_now w"
proof (cases "gm_get (mg_groups (w_mgr w)) ch")
  case (Some lg)
  obtain g1 acts where ev: "Evaluate now (lg_g lg) = (g1, acts)" by fastforce
  obtain lg2 w1 r where d: "dispatch now acts (lg\<lparr>lg_g := g1\<rparr>, w) = ((lg2, w1), r)" by (metis surj_pair)
  have "w_now w1 = w_now w" using dispatch_now [of now acts "(lg\<lparr>lg_g := g1\<rparr>, w)"] d by simp
  then show ?thesis
    using Some ev d by (auto simp: evaluate_channel_def Let_def retireGroupChannel_def split: option.split)
qed (simp add: evaluate_channel_def)

section \<open>The invariant of the world\<close>

definition world_ok :: "world \<Rightarrow> bool" where
  "world_ok w \<longleftrightarrow> story_ok (w_db w) \<and> 1000 \<le> w_now w"

lemma world_ok_frame: "world_ok w \<Longrightarrow> mon_frame (w_db w) (w_db w') \<Longrightarrow> w_now w' = w_now w \<Longrightarrow> world_ok w'"
  using keeps_story_ok frame_keeps_story by (auto simp: world_ok_def)

lemma world_ok_db: "world_ok w \<Longrightarrow> story_ok d \<Longrightarrow> world_ok (w\<lparr>w_db := d\<rparr>)"
  by (simp add: world_ok_def)

lemma world_ok_Route: "world_ok w \<Longrightarrow> world_ok (Route ch e w)"
  by (rule world_ok_frame [OF _ Route_frame Route_now])

lemma world_ok_Pause: "world_ok w \<Longrightarrow> world_ok (Pause ch s t w)"
  by (simp add: world_ok_def)

lemma world_ok_fold: "(\<And>x w. world_ok w \<Longrightarrow> world_ok (f x w)) \<Longrightarrow> world_ok w \<Longrightarrow> world_ok (fold f xs w)"
  by (induction xs arbitrary: w) auto

lemma world_ok_evaluateAll:
  assumes probe: "\<And>p w. world_ok w \<Longrightarrow> world_ok (probe p w)" and ok: "world_ok w"
  shows "world_ok (evaluateAll probe w)"
proof -
  have decide: "world_ok v \<Longrightarrow> world_ok (decide_pool ch now v)" for ch now v
    by (rule world_ok_frame [OF _ decide_pool_frame decide_pool_now])
  have "world_ok v \<Longrightarrow> world_ok (expire_channel probe now ch v)" for now ch v
    using world_ok_fold [where f = probe and w = v, OF probe] decide
    by (simp add: expire_channel_def expirePending_def Let_def split: option.split)
  moreover have "world_ok v \<Longrightarrow> world_ok (evaluate_channel now ch v)" for now ch v
    by (rule world_ok_frame [OF _ evaluate_channel_frame evaluate_channel_now])
  ultimately show ?thesis
    using ok unfolding evaluateAll_def Let_def by (intro world_ok_fold) auto
qed

section \<open>The wiring keeps both invariants\<close>

text \<open>
  Both invariants are kept by every transformation of the world the wiring is made of.  The
  dispatcher's is kept on its own, since a probe may meet any database.
\<close>

definition safe_op :: "(world \<Rightarrow> world) \<Rightarrow> bool" where
  "safe_op f \<longleftrightarrow> (\<forall>w. (world_ok w \<longrightarrow> world_ok (f w)) \<and> (mgr_inv (w_mgr w) \<longrightarrow> mgr_inv (w_mgr (f w))))"

lemma safe_opD:
  "safe_op f \<Longrightarrow> world_ok w \<Longrightarrow> world_ok (f w)"
  "safe_op f \<Longrightarrow> mgr_inv (w_mgr w) \<Longrightarrow> mgr_inv (w_mgr (f w))"
  by (simp_all add: safe_op_def)

lemma safe_op_id [simp]: "safe_op id"
  by (simp add: safe_op_def)

lemma safe_op_Route: "safe_op (Route ch e)"
  by (simp add: safe_op_def world_ok_Route inv_Route)

lemma safe_op_Pause: "safe_op (Pause ch s t)"
  by (simp add: safe_op_def world_ok_Pause inv_Pause)

lemma safe_op_fold: "(\<And>x. safe_op (f x)) \<Longrightarrow> safe_op (fold f xs)"
  by (induction xs) (simp_all add: safe_op_def)

text \<open>Replacing the database by the result of a store call.\<close>

lemma db_step:
  assumes "world_ok w \<Longrightarrow> story_ok d"
  shows "world_ok w \<Longrightarrow> world_ok (w\<lparr>w_db := d\<rparr>)" "mgr_inv (w_mgr w) \<Longrightarrow> mgr_inv (w_mgr (w\<lparr>w_db := d\<rparr>))"
  using assms by (simp_all add: world_ok_db)

lemma safe_pause_child: "safe_op (pause_child plans at c)"
  unfolding safe_op_def
proof (intro allI)
  fix w :: world
  obtain d r where m: "MarkTemporaryPaused c (w_db w) = (d, r)" by fastforce
  have d: "world_ok w \<Longrightarrow> story_ok d" using MarkTemporaryPaused_story [OF m] by (simp add: world_ok_def)
  show "(world_ok w \<longrightarrow> world_ok (pause_child plans at c w))
      \<and> (mgr_inv (w_mgr w) \<longrightarrow> mgr_inv (w_mgr (pause_child plans at c w)))"
    using db_step [OF d] safe_opD [OF safe_op_Pause]
    by (simp add: pause_child_def m Let_def split: sum.split)
qed

lemma safe_push: "safe_op (makePushPropagation plans parent at)"
  unfolding makePushPropagation_def by (rule safe_op_fold) (rule safe_pause_child)

text \<open>A probe outside the tick: the row is read, the transition computed and written.\<close>

lemma probe_check_story:
  assumes ok: "world_ok w" and get: "GetMonitor slug (w_db w) = (d1, Inr row)"
    and app: "Apply (resume_state row) (fail_check pl res (w_now w)) = (ns, ev)"
    and call: "ApplyCheck slug ns t code msg ev d1 = (d2, r)"
  shows "story_ok d2"
proof -
  from GetMonitor_row [OF get] obtain c where c: "gm_get (db_monitors (w_db w)) slug = Some c"
    and row: "row = scanMonitor c" by blast
  have data: "db_data d1 = db_data (w_db w)" by (rule GetMonitor_data [OF get])
  have c1: "gm_get (db_monitors d1) slug = Some c" using c db_data_sel(1) [OF data] by simp
  have ok1: "story_ok d1" using ok story_ok_data [OF data] by (simp add: world_ok_def)
  have "1000 \<le> c_at (fail_check pl res (w_now w))" using ok by (simp add: world_ok_def fail_check_def)
  from check_story [OF c1 ok1 this app [unfolded row] call] show ?thesis .
qed

lemma GetMonitor_ok: "GetMonitor slug (w_db w) = (d1, r) \<Longrightarrow> world_ok w \<Longrightarrow> story_ok d1"
  using GetMonitor_data story_ok_data by (metis world_ok_def)

lemma safe_probe:
  assumes push: "\<And>f p t. push = Some f \<Longrightarrow> safe_op (f p t)"
  shows "safe_op (makeOnDemandParentProbe plans answer push parent)"
  unfolding safe_op_def
proof (intro allI)
  fix w :: world
  let ?f = "makeOnDemandParentProbe plans answer push parent"
  let ?run = "case push of None \<Rightarrow> id | Some f \<Rightarrow> f parent (w_now w)"
  have run: "safe_op ?run" using push by (auto split: option.split)
  obtain d1 r1 where get: "GetMonitor parent (w_db w) = (d1, r1)" by fastforce
  note g = db_step [OF GetMonitor_ok [OF get]]
  show "(world_ok w \<longrightarrow> world_ok (?f w)) \<and> (mgr_inv (w_mgr w) \<longrightarrow> mgr_inv (w_mgr (?f w)))"
  proof (cases "find_plan plans parent")
    case None
    then show ?thesis by (simp add: makeOnDemandParentProbe_def)
  next
    case (Some pl)
    show ?thesis
    proof (cases "probed_down pl (answer pl)")
      case False
      with Some show ?thesis by (simp add: makeOnDemandParentProbe_def)
    next
      case True
      show ?thesis
      proof (cases r1)
        case (Inl e)
        with Some True get g show ?thesis by (simp add: makeOnDemandParentProbe_def Let_def)
      next
        case (Inr row)
        obtain ns ev where app: "Apply (resume_state row) (fail_check pl (fst (answer pl)) (w_now w)) = (ns, ev)"
          by fastforce
        obtain d2 r2 where call: "ApplyCheck parent ns (w_now w) (r_code (fst (answer pl)))
            (r_error (fst (answer pl))) ev d1 = (d2, r2)" by fastforce
        note h = db_step [OF probe_check_story [OF _ get [unfolded Inr] app call]]
        let ?done = "if \<not> p_critical pl \<and> p_channel pl \<noteq> []
          then Route (p_channel pl) (plan_entry pl row (the ev)) (?run (w\<lparr>w_db := d2\<rparr>)) else ?run (w\<lparr>w_db := d2\<rparr>)"
        have "?f w = ?run (w\<lparr>w_db := d1\<rparr>) \<or> ?f w = w\<lparr>w_db := d2\<rparr> \<or> ?f w = ?done"
          using Some True get Inr app call
          by (cases ev; cases r2) (simp_all add: makeOnDemandParentProbe_def Let_def)
        moreover have "(world_ok w \<longrightarrow> world_ok ?done) \<and> (mgr_inv (w_mgr w) \<longrightarrow> mgr_inv (w_mgr ?done))"
          using safe_opD [OF safe_op_Route] safe_opD [OF run] h by simp
        ultimately show ?thesis using safe_opD [OF run, of "w\<lparr>w_db := d1\<rparr>"] g h by (elim disjE; simp)
      qed
    qed
  qed
qed

lemma safe_commit:
  assumes push: "\<And>f p t. push = Some f \<Longrightarrow> safe_op (f p t)"
    and notify: "\<And>row ch ms e. safe_op (notify row ch ms e)"
  shows "safe_op (makeSelfHealthCommit plans answer push notify slug)"
  unfolding safe_op_def
proof (intro allI)
  fix w :: world
  let ?f = "makeSelfHealthCommit plans answer push notify slug"
  obtain d1 r1 where get: "GetMonitor slug (w_db w) = (d1, r1)" by fastforce
  note g = db_step [OF GetMonitor_ok [OF get]]
  show "(world_ok w \<longrightarrow> world_ok (?f w)) \<and> (mgr_inv (w_mgr w) \<longrightarrow> mgr_inv (w_mgr (?f w)))"
  proof (cases "find_plan plans slug")
    case None
    then show ?thesis by (simp add: makeSelfHealthCommit_def)
  next
    case (Some pl)
    show ?thesis
    proof (cases "probed_down pl (answer pl)")
      case False
      with Some show ?thesis by (simp add: makeSelfHealthCommit_def)
    next
      case True
      show ?thesis
      proof (cases r1)
        case (Inl e)
        with Some True get g show ?thesis by (simp add: makeSelfHealthCommit_def Let_def)
      next
        case (Inr row)
        obtain ns ev where app: "Apply (resume_state row) (fail_check pl (fst (answer pl)) (w_now w)) = (ns, ev)"
          by fastforce
        obtain d2 r2 where call: "ApplyCheck slug ns (w_now w) (r_code (fst (answer pl)))
            (r_error (fst (answer pl))) ev d1 = (d2, r2)" by fastforce
        note h = db_step [OF probe_check_story [OF _ get [unfolded Inr] app call]]
        have run: "safe_op (f slug (w_now w))" if "push = Some f" for f using push that by blast
        let ?sent = "if p_critical pl then notify row (p_channel pl) (p_mentions pl) (the ev) (w\<lparr>w_db := d2\<rparr>)
          else Route (p_channel pl) (plan_entry pl row (the ev)) (w\<lparr>w_db := d2\<rparr>)"
        have "?f w = w\<lparr>w_db := d2\<rparr> \<or> ?f w = ?sent \<or> (\<exists>f. push = Some f \<and> ?f w = f slug (w_now w) ?sent)"
          using Some True get Inr app call
          by (cases ev; cases r2; cases push) (simp_all add: makeSelfHealthCommit_def Let_def)
        moreover have sent: "(world_ok w \<longrightarrow> world_ok ?sent) \<and> (mgr_inv (w_mgr w) \<longrightarrow> mgr_inv (w_mgr ?sent))"
          using safe_opD [OF safe_op_Route] safe_opD [OF notify] h by simp
        moreover have "(world_ok w \<longrightarrow> world_ok (f slug (w_now w) ?sent))
            \<and> (mgr_inv (w_mgr w) \<longrightarrow> mgr_inv (w_mgr (f slug (w_now w) ?sent)))" if "push = Some f" for f
          using safe_opD [OF run [OF that]] sent by simp
        ultimately show ?thesis using h by (elim disjE exE conjE; simp)
      qed
    qed
  qed
qed

section \<open>A tick\<close>

text \<open>
  What the pipeline needs from an event sink, and from the sink of certificate events: that they
  leave status, opening times, history and the dispatcher alone.
\<close>

lemma row_State_resume: "row_State (resume_status row) = resume_state row"
  by (auto simp: row_State_def resume_status_def resume_state_def)

lemma ApplySSL_events: "ApplySSL s c = (s', Some e) \<Longrightarrow> \<not> is_uptime (se_type e)"
  by (auto simp: ApplySSL_def is_uptime_def Let_def split: if_splits ssl_status.splits)

definition good :: "sched \<Rightarrow> bool" where
  "good s \<longleftrightarrow> world_ok (sd_w s) \<and> mgr_inv (w_mgr (sd_w s))"

lemma good_safe: "safe_op f \<Longrightarrow> good s \<Longrightarrow> good (on_world f s)"
  by (simp add: good_def on_world_def safe_opD)

lemma good_set: "safe_op f \<Longrightarrow> good s \<Longrightarrow> good (s\<lparr>sd_w := f (sd_w s)\<rparr>)"
  by (simp add: good_def safe_opD)

lemma good_emit [simp]: "good (emit xs s) = good s"
  by (simp add: good_def emit_def)

lemma good_missing [simp]: "good (s\<lparr>sd_missing := m\<rparr>) = good s" "good (s\<lparr>sd_det := d\<rparr>) = good s"
  by (simp_all add: good_def)

lemma good_sched_db:
  assumes "sched_db f s = (s', r)" and "good s" and "\<And>d. f (w_db (sd_w s)) = (d, r) \<Longrightarrow> story_ok d"
  shows "good s'"
  using assms by (auto simp: sched_db_def good_def world_ok_def split: prod.splits)

lemma good_story: "good s \<Longrightarrow> story_ok (w_db (sd_w s))"
  by (simp add: good_def world_ok_def)

lemma good_GetMonitor: "sched_db (GetMonitor slug) s = (s', r) \<Longrightarrow> good s \<Longrightarrow> good s'"
  by (rule good_sched_db [of "GetMonitor slug" s s' r])
     (use GetMonitor_data story_ok_data good_story in blast)+

lemma good_anyParentDown: "good s \<Longrightarrow> good (fst (anyParentDown child ps s))"
proof (induction child ps s rule: anyParentDown.induct)
  case (2 child slug rest s)
  obtain s1 r where g: "sched_db (GetMonitor slug) s = (s1, r)" by fastforce
  have s1: "good s1" using good_GetMonitor [OF g 2(3)] .
  show ?case
  proof (cases r)
    case (Inl e)
    have "good (fst (recordMissingParent slug child s1))" using s1 by (simp add: recordMissingParent_def Let_def)
    then show ?thesis using 2(1) [OF g [symmetric] Inl] g Inl by simp
  next
    case (Inr row)
    have "good (ClearMissingParent slug s1)" using s1 by (simp add: ClearMissingParent_def)
    then show ?thesis using 2(2) [OF g [symmetric] Inr refl] g Inr by (simp add: Let_def)
  qed
qed simp

lemma good_pause_tick:
  assumes "sm_group sm = Some groupSinkAdapter" and ok: "good s"
  shows "good (fst (pause_tick sm p s))"
proof -
  let ?s1 = "emit (if sm_metrics sm then [ObserveCheck (p_slug p) ''paused'' 0] else []) s"
  let ?s2 = "if p_channel p = [] then ?s1
    else on_world (Pause (p_channel p) (p_slug p) (w_now (sd_w ?s1))) ?s1"
  have s2: "good ?s2" using ok good_safe [OF safe_op_Pause] by simp
  obtain s3 r where m: "sched_db (MarkTemporaryPaused (p_slug p)) ?s2 = (s3, r)" by fastforce
  have "good s3"
    by (rule good_sched_db [OF m s2]) (use MarkTemporaryPaused_story good_story [OF s2] in blast)
  moreover have "fst (pause_tick sm p s) = s3"
    using m assms(1) by (cases r) (auto simp: pause_tick_def lift_err_def groupSinkAdapter_def Let_def)
  ultimately show ?thesis by simp
qed

locale sinks =
  fixes sink :: "monitor_row \<Rightarrow> string \<Rightarrow> string list \<Rightarrow> event \<Rightarrow> world \<Rightarrow> world \<times> sink_error option"
    and ssl_sink :: "monitor_row \<Rightarrow> string \<Rightarrow> string list \<Rightarrow> ssl_event \<Rightarrow> world \<Rightarrow> world \<times> sink_error option"
  assumes sink_safe: "safe_op (\<lambda>w. fst (sink row channel mentions e w))"
    and ssl_sink_safe: "safe_op (\<lambda>w. fst (ssl_sink row channel mentions se w))"
begin

lemma good_sunk:
  "sink row channel mentions e (sd_w s) = (w, err) \<Longrightarrow> good s \<Longrightarrow> good (s\<lparr>sd_w := w\<rparr>)"
  using good_set [OF sink_safe, of s row channel mentions e] by simp

lemma good_ssl_sunk:
  "ssl_sink row channel mentions se (sd_w s) = (w, err) \<Longrightarrow> good s \<Longrightarrow> good (s\<lparr>sd_w := w\<rparr>)"
  using good_set [OF ssl_sink_safe, of s row channel mentions se] by simp

lemma good_call_sink: "sm_sink sm = Some sink \<Longrightarrow> good s \<Longrightarrow> good (call_sink sm p row e s)"
  by (auto simp: call_sink_def good_sunk split: prod.split)

lemma good_dispatch:
  assumes "sm_sink sm = Some sink" "sm_group sm = Some groupSinkAdapter" "good s"
  shows "good (dispatch_event sm p row ev s)"
  using assms good_call_sink good_safe [OF safe_op_Route]
  by (simp add: dispatch_event_def groupSinkAdapter_def adapter_Route_def [abs_def] split: option.split)

lemma good_push:
  assumes "sm_push sm = Some (makePushPropagation plans)" "good s"
  shows "good (push_open sm p ev now s)"
  using assms good_safe [OF safe_push] by (simp add: push_open_def split: option.split)

lemma good_tick_ssl:
  assumes sm: "sm_ssl_sink sm = Some ssl_sink" and ok: "good s"
  shows "good (tick_ssl sm p row res now s)"
proof -
  obtain ns ev where app: "ApplySSL (row_SSL row) \<lparr>sc_at = now,
      sc_expires_at = (case r_tls res of None \<Rightarrow> zero_time | Some c \<Rightarrow> ci_not_after c),
      sc_tls_bearing = p_tls_bearing p \<and> \<not> p_insecure p,
      sc_alert_threshold = p_ssl_alert p, sc_escalation_threshold = p_ssl_escalation p,
      sc_reminder_interval = p_ssl_reminder p\<rparr> = (ns, ev)" by fastforce
  obtain s1 r where call: "sched_db (ApplySSLCheck (p_slug p) ns
      (case r_tls res of None \<Rightarrow> zero_time | Some c \<Rightarrow> ci_not_after c)
      (case r_tls res of None \<Rightarrow> [] | Some c \<Rightarrow> ci_issuer c)
      (case r_tls res of None \<Rightarrow> [] | Some c \<Rightarrow> ci_subject c) ev) s = (s1, r)" by fastforce
  have s1: "good s1"
    by (rule good_sched_db [OF call ok])
       (use ApplySSLCheck_story good_story [OF ok] ApplySSL_events [of _ _ ns] app in blast)
  then have sunk: "good (s1\<lparr>sd_w := w\<rparr>)"
    if "ssl_sink row (p_channel p) (p_mentions p) e (sd_w s1) = (w, err)" for e w err
    using good_ssl_sunk [OF that] by blast
  have "sd_w (emit xs s1) = sd_w s1" "emit xs s1\<lparr>sd_w := w\<rparr> = emit xs (s1\<lparr>sd_w := w\<rparr>)" for xs w
    by (simp_all add: emit_def)
  then show ?thesis
    using app call sm s1 sunk
    by (simp add: tick_ssl_def Let_def split: sum.split option.split prod.split)
qed

lemma good_commit_result:
  assumes sm: "sm_sink sm = Some sink" "sm_group sm = Some groupSinkAdapter" "sm_ssl_sink sm = Some ssl_sink"
      "sm_push sm = Some (makePushPropagation plans)" and ok: "good s"
  shows "good (fst (commit_result sm p res s))"
proof -
  obtain s1 r1 where get: "sched_db (GetMonitor (p_slug p)) s = (s1, r1)" by fastforce
  have s1: "good s1" using good_GetMonitor [OF get ok] .
  show ?thesis
  proof (cases r1)
    case (Inl e)
    then show ?thesis using get s1 by (simp add: commit_result_def)
  next
    case (Inr row)
    define now where "now = w_now (sd_w s1)"
    obtain ns ev where app: "Apply (resume_state row) (result_check p res now) = (ns, ev)" by fastforce
    obtain s2 r2 where call: "sched_db (ApplyCheck (p_slug p) ns now (r_code res) (r_error res) ev) s1 = (s2, r2)"
      by fastforce
    from get have "GetMonitor (p_slug p) (w_db (sd_w s)) = (w_db (sd_w s1), Inr row)"
      by (auto simp: sched_db_def Inr split: prod.splits)
    note g = GetMonitor_row [OF this] GetMonitor_data [OF this]
    then obtain c where c: "gm_get (db_monitors (w_db (sd_w s1))) (p_slug p) = Some c" "row = scanMonitor c"
      using db_data_sel(1) [OF g(2)] by auto
    have at: "1000 \<le> c_at (result_check p res now)"
      using s1 by (simp add: result_check_def now_def good_def world_ok_def)
    have s2: "good s2"
    proof (rule good_sched_db [OF call s1])
      fix d
      assume "ApplyCheck (p_slug p) ns now (r_code res) (r_error res) ev (w_db (sd_w s1)) = (d, r2)"
      from check_story [OF c(1) good_story [OF s1] at app [unfolded c(2)] this] show "story_ok d" .
    qed
    have "good (fst (s2, u))" for u :: "tick_error + unit" using s2 by simp
    moreover have "good (tick_ssl sm p (resume_status row) res now (push_open sm p ev now
        (dispatch_event sm p (resume_status row) ev (emit (incident_gauge sm p ev) s2))))"
      using sm s2 by (intro good_tick_ssl good_push good_dispatch) auto
    ultimately show ?thesis
      using get Inr app call by (simp add: commit_result_def Let_def now_def row_State_resume split: sum.split)
  qed
qed

lemma try_from_time:
  "try_from k n tries (r, t) = Some (res, now) \<Longrightarrow> P t \<Longrightarrow> (\<And>k. P (ty_at (tries k))) \<Longrightarrow> P now"
  by (induction n arbitrary: k r t) (auto split: if_splits)

lemma good_probe_tick:
  assumes sm: "sm_sink sm = Some sink" "sm_group sm = Some groupSinkAdapter" "sm_ssl_sink sm = Some ssl_sink"
      "sm_push sm = Some (makePushPropagation plans)" and ok: "good s"
    and clock: "\<And>k. 1000 \<le> ty_at (tries k)"
  shows "good (fst (probe_tick sm p tries s))"
proof (cases "probe_cycle p tries (w_now (sd_w s))")
  case None
  then show ?thesis using ok by (simp add: probe_tick_def)
next
  case (Some rn)
  obtain res now where rn: "rn = (res, now)" by fastforce
  have "1000 \<le> now"
    using try_from_time [where P = "\<lambda>t. 1000 \<le> t"] Some [unfolded rn probe_cycle_def] clock ok
    by (auto simp: good_def world_ok_def)
  then have "good (on_world (\<lambda>w. w\<lparr>w_now := now\<rparr>) s)"
    using ok by (simp add: good_def world_ok_def on_world_def)
  then show ?thesis
    using Some rn good_commit_result [OF sm]
    by (simp add: probe_tick_def Let_def split: option.split)
qed

lemma good_Tick:
  assumes sm: "sm_sink sm = Some sink" "sm_group sm = Some groupSinkAdapter" "sm_ssl_sink sm = Some ssl_sink"
      "sm_push sm = Some (makePushPropagation plans)" and ok: "good s"
    and clock: "\<And>k. 1000 \<le> ty_at (tries k)"
  shows "good (fst (Tick sm p tries s))"
  using good_anyParentDown [OF ok, of "p_slug p" "p_depends_on p"] ok
    good_probe_tick [OF sm _ clock] good_pause_tick [OF sm(2)]
  by (auto simp: Tick_def split: prod.split)

end

end
