(* ===== verification/Workers.thy ===== *)
theory Workers
  imports Scheduler
begin

text \<open>
  The set of running workers follows the desired plans: \<^verbatim>\<open>reconcile\<close> of \<^verbatim>\<open>RunDynamic\<close>, for every order
  in which the two maps are iterated.
\<close>

text \<open>
  The book of workers: one per slug, running the plan of that slug, with an identity of its own
  that was never cancelled.
\<close>

definition workers_ok :: "workers \<Rightarrow> bool" where
  "workers_ok ws \<longleftrightarrow> gm_ok (ws_running ws)
     \<and> (\<forall>k wk. gm_get (ws_running ws) k = Some wk \<longrightarrow>
          wk_id wk < ws_next ws \<and> wk_id wk \<notin> set (ws_cancelled ws) \<and> p_slug (wk_plan wk) = k)
     \<and> (\<forall>k k' wk wk'. gm_get (ws_running ws) k = Some wk \<and> gm_get (ws_running ws) k' = Some wk'
          \<and> wk_id wk = wk_id wk' \<longrightarrow> k = k')
     \<and> (\<forall>i \<in> set (ws_cancelled ws). i < ws_next ws)"

lemma workers_okD:
  assumes "workers_ok ws"
  shows "gm_ok (ws_running ws)"
    and "gm_get (ws_running ws) k = Some wk \<Longrightarrow>
          wk_id wk < ws_next ws \<and> wk_id wk \<notin> set (ws_cancelled ws) \<and> p_slug (wk_plan wk) = k"
    and "gm_get (ws_running ws) k = Some wk \<Longrightarrow> gm_get (ws_running ws) k' = Some wk' \<Longrightarrow>
          wk_id wk = wk_id wk' \<Longrightarrow> k = k'"
    and "i \<in> set (ws_cancelled ws) \<Longrightarrow> i < ws_next ws"
  using assms unfolding workers_ok_def by blast+

text \<open>Nothing is lost: a worker that is no longer running was cancelled.\<close>

definition accounted :: "workers \<Rightarrow> workers \<Rightarrow> bool" where
  "accounted ws ws' \<longleftrightarrow> set (ws_cancelled ws) \<subseteq> set (ws_cancelled ws')
     \<and> (\<forall>k wk. gm_get (ws_running ws) k = Some wk \<and> gm_get (ws_running ws') k \<noteq> Some wk \<longrightarrow>
          wk_id wk \<in> set (ws_cancelled ws'))"

lemma accounted_refl [simp]: "accounted ws ws"
  by (simp add: accounted_def)

lemma accounted_trans: "accounted a b \<Longrightarrow> accounted b c \<Longrightarrow> accounted a c"
  unfolding accounted_def by blast

lemma cancel_worker_get:
  "gm_get (ws_running (cancel_worker slug ws)) k = (if k = slug then None else gm_get (ws_running ws) k)"
  by (simp add: cancel_worker_def split: option.split)

lemma cancel_worker_accounted: "accounted ws (cancel_worker slug ws)"
  by (auto simp: accounted_def cancel_worker_def split: option.split if_splits)

lemma cancel_worker_ok:
  assumes ok: "workers_ok ws"
  shows "workers_ok (cancel_worker slug ws)"
proof (cases "gm_get (ws_running ws) slug")
  case None
  then show ?thesis using ok by (simp add: cancel_worker_def)
next
  case (Some wk)
  let ?ws = "ws\<lparr>ws_running := gm_del slug (ws_running ws), ws_cancelled := ws_cancelled ws @ [wk_id wk]\<rparr>"
  have running: "gm_get (ws_running ?ws) k = Some w \<longleftrightarrow> k \<noteq> slug \<and> gm_get (ws_running ws) k = Some w" for k w
    by simp
  have other: "wk_id w \<noteq> wk_id wk" if "gm_get (ws_running ws) k = Some w" "k \<noteq> slug" for k w
    using workers_okD(3) [OF ok that(1) Some] that(2) by blast
  have "workers_ok ?ws"
    unfolding workers_ok_def running
  proof (intro conjI allI impI)
    show "gm_ok (ws_running ?ws)" using workers_okD(1) [OF ok] by simp
    show "\<forall>i \<in> set (ws_cancelled ?ws). i < ws_next ?ws"
      using workers_okD(4) [OF ok] workers_okD(2) [OF ok Some] by auto
  next
    fix k w
    assume "k \<noteq> slug \<and> gm_get (ws_running ws) k = Some w"
    then show "wk_id w < ws_next ?ws" "wk_id w \<notin> set (ws_cancelled ?ws)" "p_slug (wk_plan w) = k"
      using workers_okD(2) [OF ok, of k w] other by auto
  next
    fix k k' w w'
    assume "(k \<noteq> slug \<and> gm_get (ws_running ws) k = Some w)
        \<and> (k' \<noteq> slug \<and> gm_get (ws_running ws) k' = Some w') \<and> wk_id w = wk_id w'"
    then show "k = k'" using workers_okD(3) [OF ok] by blast
  qed
  then show ?thesis using Some by (simp add: cancel_worker_def)
qed

lemma spawn_get:
  "gm_get (ws_running (spawn p ws)) k =
     (if k = p_slug p then Some \<lparr>wk_id = ws_next ws, wk_plan = p\<rparr> else gm_get (ws_running ws) k)"
  by (simp add: spawn_def)

lemma spawn_ok: "workers_ok ws \<Longrightarrow> workers_ok (spawn p ws)"
  by (fastforce simp: workers_ok_def spawn_def)

lemma spawn_accounted: "gm_get (ws_running ws) (p_slug p) = None \<Longrightarrow> accounted ws (spawn p ws)"
  by (auto simp: accounted_def spawn_def)

section \<open>The two passes\<close>

lemma cancel_pass:
  assumes "workers_ok ws"
  shows "let ws' = fold (\<lambda>slug ws. if gm_get desired slug = None then cancel_worker slug ws else ws) ks ws in
    workers_ok ws' \<and> accounted ws ws'
    \<and> (\<forall>k. gm_get (ws_running ws') k =
         (if k \<in> set ks \<and> gm_get desired k = None then None else gm_get (ws_running ws) k))"
  using assms
proof (induction ks arbitrary: ws)
  case (Cons slug ks)
  let ?ws = "if gm_get desired slug = None then cancel_worker slug ws else ws"
  have "workers_ok ?ws" "accounted ws ?ws"
    using Cons.prems cancel_worker_ok cancel_worker_accounted by auto
  with Cons.IH [of ?ws] accounted_trans [of ws ?ws] show ?case
    by (auto simp: Let_def cancel_worker_get)
qed (simp add: Let_def)

lemma start_or_keep_step:
  assumes ok: "workers_ok ws" and slug: "p_slug p = k"
  shows "workers_ok (start_or_keep (k, p) ws) \<and> accounted ws (start_or_keep (k, p) ws)
    \<and> (\<forall>j. j \<noteq> k \<longrightarrow> gm_get (ws_running (start_or_keep (k, p) ws)) j = gm_get (ws_running ws) j)
    \<and> (\<exists>wk. gm_get (ws_running (start_or_keep (k, p) ws)) k = Some wk \<and> wk_plan wk = p)
    \<and> (\<forall>wk. gm_get (ws_running ws) k = Some wk \<and> wk_plan wk = p \<longrightarrow>
         gm_get (ws_running (start_or_keep (k, p) ws)) k = Some wk)"
proof (cases "gm_get (ws_running ws) k")
  case None
  then show ?thesis
    using spawn_ok [OF ok, of p] spawn_accounted [of ws p] slug
    by (simp add: start_or_keep_def spawn_get)
next
  case (Some wk)
  show ?thesis
  proof (cases "wk_plan wk = p")
    case True
    then show ?thesis using Some ok by (simp add: start_or_keep_def)
  next
    case False
    have "gm_get (ws_running (cancel_worker k ws)) (p_slug p) = None"
      by (simp add: cancel_worker_get slug)
    then have "accounted ws (spawn p (cancel_worker k ws))"
      using accounted_trans [OF cancel_worker_accounted spawn_accounted] by blast
    then show ?thesis
      using False Some slug spawn_ok [OF cancel_worker_ok [OF ok, of k], of p]
      by (simp add: start_or_keep_def spawn_get cancel_worker_get)
  qed
qed

lemma start_pass:
  assumes "workers_ok ws" and "gm_ok ds" and "\<forall>(k, p) \<in> set ds. p_slug p = k"
  shows "let ws' = fold start_or_keep ds ws in
    workers_ok ws' \<and> accounted ws ws'
    \<and> (\<forall>k. gm_get ds k = None \<longrightarrow> gm_get (ws_running ws') k = gm_get (ws_running ws) k)
    \<and> (\<forall>k p. gm_get ds k = Some p \<longrightarrow>
        (\<exists>wk. gm_get (ws_running ws') k = Some wk \<and> wk_plan wk = p)
        \<and> (\<forall>wk. gm_get (ws_running ws) k = Some wk \<and> wk_plan wk = p \<longrightarrow>
             gm_get (ws_running ws') k = Some wk))"
  using assms
proof (induction ds arbitrary: ws)
  case (Cons kp ds)
  obtain k p where kp: "kp = (k, p)" by fastforce
  let ?ws = "start_or_keep (k, p) ws"
  have step: "workers_ok ?ws \<and> accounted ws ?ws
    \<and> (\<forall>j. j \<noteq> k \<longrightarrow> gm_get (ws_running ?ws) j = gm_get (ws_running ws) j)
    \<and> (\<exists>wk. gm_get (ws_running ?ws) k = Some wk \<and> wk_plan wk = p)
    \<and> (\<forall>wk. gm_get (ws_running ws) k = Some wk \<and> wk_plan wk = p \<longrightarrow>
         gm_get (ws_running ?ws) k = Some wk)"
    by (rule start_or_keep_step) (use Cons.prems kp in auto)
  have fresh: "gm_get ds k = None" using Cons.prems kp by (auto simp: map_of_eq_None_iff)
  have "gm_ok ds" "\<forall>(k, p) \<in> set ds. p_slug p = k" using Cons.prems kp by auto
  with Cons.IH [of ?ws] step have IH: "let ws' = fold start_or_keep ds ?ws in
    workers_ok ws' \<and> accounted ?ws ws'
    \<and> (\<forall>k. gm_get ds k = None \<longrightarrow> gm_get (ws_running ws') k = gm_get (ws_running ?ws) k)
    \<and> (\<forall>k p. gm_get ds k = Some p \<longrightarrow>
        (\<exists>wk. gm_get (ws_running ws') k = Some wk \<and> wk_plan wk = p)
        \<and> (\<forall>wk. gm_get (ws_running ?ws) k = Some wk \<and> wk_plan wk = p \<longrightarrow>
             gm_get (ws_running ws') k = Some wk))" by blast
  then have acc: "accounted ws (fold start_or_keep ds ?ws)"
    using step accounted_trans unfolding Let_def by blast
  show ?case
    using IH step fresh acc kp by (auto simp: Let_def)
qed (simp add: Let_def)

lemma desired_plans_ok: "gm_ok (desired_plans plans) \<and> (\<forall>(k, p) \<in> set (desired_plans plans). p_slug p = k)"
proof -
  have "gm_ok (fold (\<lambda>p. gm_put (p_slug p) p) plans m)
      \<and> (\<forall>(k, p) \<in> set (fold (\<lambda>p. gm_put (p_slug p) p) plans m). p_slug p = k)"
    if "gm_ok m" "\<forall>(k, p) \<in> set m. p_slug p = k" for m :: "(string, plan) gomap"
    using that
  proof (induction plans arbitrary: m)
    case (Cons q plans)
    have "\<forall>(k, p) \<in> set (gm_put (p_slug q) q m). p_slug p = k"
      using set_gm_put [of "p_slug q" q m] Cons.prems(2) by auto
    then show ?case using Cons.IH [of "gm_put (p_slug q) q m"] Cons.prems(1) by simp
  qed simp
  from this [of "[]"] show ?thesis by (simp add: desired_plans_def)
qed

text \<open>The last plan of a slug wins.\<close>

lemma desired_plans_get: "gm_get (desired_plans plans) slug = find (\<lambda>p. p_slug p = slug) (rev plans)"
proof -
  have "gm_get (fold (\<lambda>p. gm_put (p_slug p) p) plans m) slug =
      (case find (\<lambda>p. p_slug p = slug) (rev plans) of None \<Rightarrow> gm_get m slug | Some p \<Rightarrow> Some p)" for m
    by (induction plans arbitrary: m) (auto simp: find_append split: option.split)
  from this [of "[]"] show ?thesis by (simp add: desired_plans_def split: option.split)
qed

lemma reconcile_ok: "workers_ok ws \<Longrightarrow> workers_ok (reconcile plans ws)"
proof -
  assume ok: "workers_ok ws"
  have "workers_ok (cancel_removed (desired_plans plans) ws)"
    using cancel_pass [OF ok, of "desired_plans plans" "gm_keys (ws_running ws)"]
    by (simp add: cancel_removed_def Let_def)
  then show ?thesis
    using start_pass [of "cancel_removed (desired_plans plans) ws" "desired_plans plans"] desired_plans_ok
    by (simp add: reconcile_def Let_def)
qed

section \<open>The property\<close>

text \<open>After a reconcile the workers are exactly the desired plans: a slug runs a worker with the
  plan listed last for it and no other slug runs one; a worker whose plan is unchanged is not
  restarted; every worker that was removed or replaced is cancelled, and no cancelled worker
  runs.  The book stays well formed, so this holds for every sequence of plan lists.\<close>

theorem reconcile_follows_plans:
  assumes ok: "workers_ok ws"
  shows "let ws' = reconcile plans ws in
    workers_ok ws'
    \<and> (\<forall>slug. map_option wk_plan (gm_get (ws_running ws') slug) = find (\<lambda>p. p_slug p = slug) (rev plans))
    \<and> (\<forall>slug wk. gm_get (ws_running ws) slug = Some wk
         \<and> find (\<lambda>p. p_slug p = slug) (rev plans) = Some (wk_plan wk) \<longrightarrow>
         gm_get (ws_running ws') slug = Some wk)
    \<and> (\<forall>slug wk. gm_get (ws_running ws) slug = Some wk \<and> gm_get (ws_running ws') slug \<noteq> Some wk \<longrightarrow>
         wk_id wk \<in> set (ws_cancelled ws'))
    \<and> (\<forall>slug wk. gm_get (ws_running ws') slug = Some wk \<longrightarrow> wk_id wk \<notin> set (ws_cancelled ws'))"
proof -
  define desired where "desired = desired_plans plans"
  define ws1 where "ws1 = cancel_removed desired ws"
  define ws' where "ws' = fold start_or_keep desired ws1"
  have get: "gm_get desired slug = find (\<lambda>p. p_slug p = slug) (rev plans)" for slug
    by (simp add: desired_def desired_plans_get)
  have one: "workers_ok ws1 \<and> accounted ws ws1 \<and> (\<forall>k. gm_get (ws_running ws1) k =
      (if gm_get desired k = None then None else gm_get (ws_running ws) k))"
    using cancel_pass [OF ok, of desired "gm_keys (ws_running ws)"]
    by (auto simp: ws1_def cancel_removed_def Let_def gm.keys_get split: if_splits)
  have two: "workers_ok ws' \<and> accounted ws1 ws'
    \<and> (\<forall>k. gm_get desired k = None \<longrightarrow> gm_get (ws_running ws') k = gm_get (ws_running ws1) k)
    \<and> (\<forall>k p. gm_get desired k = Some p \<longrightarrow>
        (\<exists>wk. gm_get (ws_running ws') k = Some wk \<and> wk_plan wk = p)
        \<and> (\<forall>wk. gm_get (ws_running ws1) k = Some wk \<and> wk_plan wk = p \<longrightarrow>
             gm_get (ws_running ws') k = Some wk))"
    using start_pass [of ws1 desired] one desired_plans_ok [of plans]
    by (simp add: ws'_def desired_def Let_def)
  have acc: "accounted ws ws'" using one two accounted_trans by blast
  have plan: "map_option wk_plan (gm_get (ws_running ws') slug) = gm_get desired slug" for slug
  proof (cases "gm_get desired slug")
    case None
    with one two show ?thesis by simp
  next
    case (Some p)
    with two show ?thesis by fastforce
  qed
  have keep: "gm_get (ws_running ws') slug = Some wk"
    if "gm_get (ws_running ws) slug = Some wk" "gm_get desired slug = Some (wk_plan wk)" for slug wk
    using one two that by auto
  have "ws' = reconcile plans ws"
    by (simp add: ws'_def ws1_def desired_def reconcile_def Let_def)
  moreover have "wk_id wk \<notin> set (ws_cancelled ws')" if "gm_get (ws_running ws') slug = Some wk" for slug wk
    using workers_okD(2) [OF conjunct1 [OF two] that] by simp
  moreover have "\<forall>slug wk. gm_get (ws_running ws) slug = Some wk \<and> gm_get (ws_running ws') slug \<noteq> Some wk \<longrightarrow>
         wk_id wk \<in> set (ws_cancelled ws')" using acc unfolding accounted_def by blast
  ultimately show ?thesis
    using two plan keep unfolding Let_def get by blast
qed

text \<open>Two monitors run; one is dropped and one changes its channel.\<close>

definition sample_plan :: "string \<Rightarrow> plan" where
  "sample_plan slug = \<lparr>p_slug = slug, p_kind = ''http'', p_friendly_name = ''Web'', p_url = ''https://x'',
     p_http_method = ''GET'', p_host = [], p_port = 0, p_tls_mode = [], p_accepted = [200],
     p_interval = minute, p_timeout = second, p_retries = 0, p_retry_backoff = second,
     p_follow_redirects = True, p_prober = Some (SMTPProber \<lparr>sc_host = [], sc_port = 25, sc_tls_mode = [],
       sc_ehlo_name = [], sc_timeout = second, sc_insecure = False, sc_proxy_dialer = None\<rparr>),
     p_insecure = False, p_proxy_dialer = None, p_proxy = [], p_preset = [], p_user_agent = [],
     p_reminder_interval = hour, p_channel = ''ops'', p_mentions = [], p_depends_on = [],
     p_critical = False, p_ssl_alert = 0, p_ssl_escalation = 0, p_ssl_reminder = 0,
     p_tls_bearing = False\<rparr>"

definition no_workers :: workers where
  "no_workers = \<lparr>ws_running = [], ws_cancelled = [], ws_next = 0\<rparr>"

lemma no_workers_ok: "workers_ok no_workers"
  by (simp add: workers_ok_def no_workers_def)

definition two_workers :: workers where
  "two_workers = reconcile [sample_plan ''a'', sample_plan ''b''] no_workers"

lemma two_workers_ok: "workers_ok two_workers"
  unfolding two_workers_def by (rule reconcile_ok [OF no_workers_ok])

theorem reconcile_follows_plans_witness:
  "let ws = reconcile [(sample_plan ''a'')\<lparr>p_channel := ''dev''\<rparr>] two_workers in
   workers_ok ws \<and> gm_get (ws_running ws) ''b'' = None \<and> set (ws_cancelled ws) = {0, 1}"
proof -
  define ws where "ws = reconcile [(sample_plan ''a'')\<lparr>p_channel := ''dev''\<rparr>] two_workers"
  have "set (ws_cancelled ws) = {0, 1}" unfolding ws_def by code_simp
  moreover have "workers_ok ws \<and> map_option wk_plan (gm_get (ws_running ws) ''b'') = None"
    using reconcile_follows_plans [OF two_workers_ok, of "[(sample_plan ''a'')\<lparr>p_channel := ''dev''\<rparr>]"]
    by (simp add: ws_def Let_def sample_plan_def)
  ultimately show ?thesis by (simp add: Let_def ws_def [symmetric])
qed

end
