(* ===== verification/Pipeline.thy ===== *)
theory Pipeline
  imports Lifecycle_Props Workers
begin

text \<open>
  The alerting pipeline as a step relation: whatever the scheduler, the evaluator, the self-health
  commit, the boot, the removal of monitors, restarts and failures of the store and of Slack do, in
  any order.  Each read-modify-write of a monitor is one step.
\<close>

section \<open>The notifier meets the contract of a sink\<close>

lemma SetThread_story:
  "SetUptimeThread slug ch ts d = (d', r) \<Longrightarrow> story_ok d \<Longrightarrow> story_ok d'"
  "SetSSLThread slug ch ts d = (d', r) \<Longrightarrow> story_ok d \<Longrightarrow> story_ok d'"
  unfolding SetUptimeThread_def SetSSLThread_def
  by (erule story_ok_call, assumption, auto intro!: keeps_story_ok [OF keeps_story_update])+

lemma dependentsNote_story:
  assumes "dependentsNote n slug p io = (io', s)"
  shows "io_answers io' = io_answers io" "story_ok (io_db io) \<Longrightarrow> story_ok (io_db io')"
proof -
  obtain d r where l: "ListChildrenOf slug (io_db io) = (d, r)" by fastforce
  then have "db_data d = db_data (io_db io)"
    unfolding ListChildrenOf_def by (rule db_call_elim) auto
  then show "io_answers io' = io_answers io" "story_ok (io_db io) \<Longrightarrow> story_ok (io_db io')"
    using assms l story_ok_data [of d "io_db io"] by (auto simp: dependentsNote_def io_store_def split: sum.splits)
qed

lemma call_slack_db: "call_slack r io = (io', a) \<Longrightarrow> io_db io' = io_db io"
  by (auto simp: call_slack_def split: list.splits)

lemma post_only_db: "io_db (fst (post_only r io)) = io_db io"
proof -
  obtain io1 a where c: "call_slack r io = (io1, a)" by fastforce
  then show ?thesis using call_slack_db [OF c] by (simp add: post_only_def split: sum.split)
qed

lemma edit_then_reply_db: "io_db (fst (edit_then_reply r q io)) = io_db io"
proof -
  obtain io1 e where p: "post_only r io = (io1, e)" by fastforce
  then show ?thesis
    using post_only_db [of r io] post_only_db [of q io1] by (simp add: edit_then_reply_def split: option.split)
qed

lemma post_parent_story:
  assumes st: "\<And>ch ts d d' r. st ch ts d = (d', r) \<Longrightarrow> story_ok d \<Longrightarrow> story_ok d'"
    and obs: "\<And>x. io_db (f x) = io_db x" and ok: "story_ok (io_db io)"
  shows "story_ok (io_db (fst (post_parent ch msg st f io)))"
proof -
  obtain io1 a where c: "call_slack (PostMessage (chi_id ch) [] msg) io = (io1, a)" by fastforce
  have "story_ok (io_db (f io1))" using ok call_slack_db [OF c] obs by simp
  then show ?thesis
    using c st call_slack_db [OF c] ok
    by (auto simp: post_parent_def io_store_def split: sum.split prod.split)
qed

lemma observed_story: "story_ok (io_db (fst r)) \<Longrightarrow> story_ok (io_db (fst (observed n r)))"
  by simp

lemma uptime_parent_story:
  assumes "dependentsNote n s p io = (io1, nt)" and "story_ok (io_db io)" and "\<And>x. io_db (f x) = io_db x"
  shows "story_ok (io_db (fst (post_parent ch msg (SetUptimeThread slug) f io1)))"
  by (rule post_parent_story) (use assms SetThread_story(1) dependentsNote_story(2) in blast)+

lemma notifyOpen_story: "story_ok (io_db io) \<Longrightarrow> story_ok (io_db (fst (notifyOpen n ch ms m e io)))"
proof -
  obtain io1 nt where d: "dependentsNote n (mv_slug m) pauses_prefix io = (io1, nt)" by fastforce
  assume "story_ok (io_db io)"
  from uptime_parent_story [OF d this, of id] show ?thesis by (simp add: notifyOpen_def d)
qed

lemma notifyReminder_story: "story_ok (io_db io) \<Longrightarrow> story_ok (io_db (fst (notifyReminder n ch ms m e io)))"
proof -
  obtain io1 nt where d: "dependentsNote n (mv_slug m) pauses_prefix io = (io1, nt)" by fastforce
  assume ok: "story_ok (io_db io)"
  from uptime_parent_story [OF d ok, of "observe_fresh n ''uptime''"] ok show ?thesis
    by (simp add: notifyReminder_def postFreshUptimeParent_def d post_only_db)
qed

lemma notifyResolve_story: "story_ok (io_db io) \<Longrightarrow> story_ok (io_db (fst (notifyResolve n ch ms m e io)))"
proof -
  obtain io1 nt where d: "dependentsNote n (mv_slug m) resumes_prefix io = (io1, nt)" by fastforce
  assume ok: "story_ok (io_db io)"
  with dependentsNote_story(2) [OF d] show ?thesis
    by (simp add: notifyResolve_def d post_only_db edit_then_reply_db Let_def)
qed

lemma Notify_story: "story_ok (io_db io) \<Longrightarrow> story_ok (io_db (fst (Notify n channel ms m ev io)))"
  by (simp add: Notify_def notifyOpen_story notifyReminder_story notifyResolve_story
      split: option.split event_type.split)

lemma NotifySSL_story: "story_ok (io_db io) \<Longrightarrow> story_ok (io_db (fst (NotifySSL n channel ms m ex ev io)))"
proof -
  assume ok: "story_ok (io_db io)"
  have parent: "story_ok (io_db (fst (post_parent ch msg (SetSSLThread slug) f io)))"
    if "\<And>x. io_db (f x) = io_db x" for ch msg slug f
    by (rule post_parent_story) (use SetThread_story that ok in blast)+
  show ?thesis
    using ok parent
    by (simp add: NotifySSL_def notifySSL_def postFreshSSLParent_def Let_def post_only_db edit_then_reply_db
        split: option.split event_type.split)
qed

lemma safe_with_notifier:
  assumes "\<And>io. story_ok (io_db io) \<Longrightarrow> story_ok (io_db (fst (f io)))"
  shows "safe_op (\<lambda>w. fst (with_notifier f answers w))"
  unfolding safe_op_def
proof (intro allI)
  fix w :: world
  obtain io err where f: "f \<lparr>io_db = w_db w, io_answers = answers, io_sent = [], io_metrics = []\<rparr> = (io, err)"
    by fastforce
  then have "story_ok (w_db w) \<Longrightarrow> story_ok (io_db io)"
    using assms [of "\<lparr>io_db = w_db w, io_answers = answers, io_sent = [], io_metrics = []\<rparr>"] by simp
  then show "(world_ok w \<longrightarrow> world_ok (fst (with_notifier f answers w)))
      \<and> (mgr_inv (w_mgr w) \<longrightarrow> mgr_inv (w_mgr (fst (with_notifier f answers w))))"
    by (simp add: with_notifier_def f world_ok_def)
qed

interpretation notifier: sinks "notifier_sink st n answers" "notifier_ssl_sink st n ssl_answers"
  for st n answers ssl_answers
  by unfold_locales
     (auto simp: notifier_sink_def notifier_ssl_sink_def buildSink_def buildSSLSink_def
       intro!: safe_with_notifier Notify_story NotifySSL_story)

lemma safe_commit_notify: "safe_op (commit_notify st n answers row ch ms e)"
  unfolding commit_notify_def by (rule safe_with_notifier) (rule Notify_story)

section \<open>The step relation\<close>

definition wired :: "(int \<Rightarrow> string) \<Rightarrow> notifier_config \<Rightarrow> (event \<Rightarrow> (client_error + string \<times> string) list)
    \<Rightarrow> (ssl_event \<Rightarrow> (client_error + string \<times> string) list) \<Rightarrow> plan list \<Rightarrow> seams" where
  "wired st n answers ssl_answers plans =
    \<lparr>sm_sink = Some (notifier_sink st n answers), sm_ssl_sink = Some (notifier_ssl_sink st n ssl_answers),
     sm_group = Some groupSinkAdapter, sm_push = Some (makePushPropagation plans), sm_metrics = True\<rparr>"

definition on_demand :: "plan list \<Rightarrow> (plan \<Rightarrow> result \<times> bool) \<Rightarrow> string \<Rightarrow> world \<Rightarrow> world" where
  "on_demand plans answer = makeOnDemandParentProbe plans answer (Some (makePushPropagation plans))"

definition commit_held :: "(int \<Rightarrow> string) \<Rightarrow> notifier_config \<Rightarrow> (event \<Rightarrow> (client_error + string \<times> string) list)
    \<Rightarrow> plan list \<Rightarrow> (plan \<Rightarrow> result \<times> bool) \<Rightarrow> string \<Rightarrow> world \<Rightarrow> world" where
  "commit_held st n answers plans answer =
     makeSelfHealthCommit plans answer (Some (makePushPropagation plans)) (commit_notify st n answers)"

definition set_db :: "db \<Rightarrow> sched \<Rightarrow> sched" where
  "set_db d s = on_world (\<lambda>w. w\<lparr>w_db := d\<rparr>) s"

text \<open>What a process starts with: the manager and the detector are in memory only.\<close>

definition restart :: "manager \<Rightarrow> detector option \<Rightarrow> sched \<Rightarrow> sched" where
  "restart m det s = \<lparr>sd_w = fst (Reattach ((sd_w s)\<lparr>w_mgr := SetOnDemandParentProbe m\<rparr>)),
     sd_missing = [], sd_det = det, sd_out = []\<rparr>"

definition fresh_state :: "time \<Rightarrow> sched" where
  "fresh_state now = \<lparr>sd_w = \<lparr>w_db = empty_db now, w_mgr = NewManager True
       \<lparr>cf_group_wait = 0, cf_group_interval = 0, cf_repeat_interval = 0, cf_resolve_debounce = 0\<rparr> 0 0 0 [],
       w_now = now, w_calls = [], w_answers = []\<rparr>,
     sd_missing = [], sd_det = None, sd_out = []\<rparr>"

inductive pipeline_step :: "(int \<Rightarrow> string) \<Rightarrow> notifier_config \<Rightarrow> sched \<Rightarrow> sched \<Rightarrow> bool"
  for st n where
  step_tick: "(\<And>k. 1000 \<le> ty_at (tries k)) \<Longrightarrow>
     pipeline_step st n s (fst (Tick (wired st n answers ssl_answers plans) p tries s))"
| step_evaluate: "pipeline_step st n s (on_world (evaluateAll (on_demand plans answer)) s)"
| step_commit: "pipeline_step st n s (on_world (commit_held st n answers plans answer slug) s)"
| step_declare: "pipeline_step st n s (set_db (fst (boot_static specs (w_db (sd_w s)))) s)"
| step_discover: "pipeline_step st n s (set_db (fst (ReconcileMonitor spec (w_db (sd_w s)))) s)"
| step_remove: "pipeline_step st n s (set_db (fst (OnKubeMonitorRemoved slug reason (w_db (sd_w s)))) s)"
| step_restart: "pipeline_step st n s (restart (NewManager True cfg pending threshold burst mention) det s)"
| step_time: "w_now (sd_w s) \<le> now \<Longrightarrow> pipeline_step st n s
     (on_world (\<lambda>w. w\<lparr>w_now := now, w_db := (w_db w)\<lparr>db_now := now\<rparr>\<rparr>) s)"
| step_outside: "pipeline_step st n s
     (on_world (\<lambda>w. w\<lparr>w_answers := as, w_db := (w_db w)\<lparr>db_faults := fs\<rparr>\<rparr>) s)"

inductive_cases pipeline_stepE: "pipeline_step st n s s'"

section \<open>Every step keeps the invariant\<close>

lemma Reconcile_story:
  assumes "ReconcileMonitor spec d = (d', r)" and "story_ok d"
  shows "story_ok d'"
  using assms(1) [unfolded ReconcileMonitor_def Let_def] assms(2)
proof (rule story_ok_call)
  fix d1 d2 :: db and r :: "store_error + unit"
  let ?old = "case gm_get (db_monitors d1) (ms_slug spec) of None \<Rightarrow> default_cols (ms_slug spec) | Some c \<Rightarrow> c"
  assume eq: "(d1\<lparr>db_monitors := gm_put (ms_slug spec) (?old
           \<lparr>ms_kind := (if ms_kind spec = [] then ''http'' else ms_kind spec),
            ms_friendly_name := ms_friendly_name spec, ms_url := ms_url spec,
            mc_host := null_if_empty (ms_host spec),
            mc_port := (if ms_port spec = 0 then None else Some (ms_port spec)),
            mc_tls_mode := null_if_empty (ms_tls_mode spec),
            ms_source := (if ms_source spec = [] then ''static'' else ms_source spec),
            ms_depends_on := ms_depends_on spec,
            mc_slack_channel_slug := null_if_empty (ms_slack_channel_slug spec),
            ms_tags := ms_tags spec,
            mr_archived := False, mr_archived_at := None, mr_archive_reason := None\<rparr>)
          (db_monitors d1)\<rparr>, Inr ()) = (d2, r)" and ok: "story_ok d1"
  have hist: "uptime_history k d2 = uptime_history k d1" for k
    using eq by (auto simp: uptime_history_def)
  have "slug_ok k d2" for k
  proof (cases "k = ms_slug spec")
    case True
    then show ?thesis
      using ok [unfolded story_ok_def, rule_format, of k] eq hist [of k]
      by (auto simp: slug_ok_def row_ok_def default_cols_def split: option.splits)
  next
    case False
    then show ?thesis
      using ok [unfolded story_ok_def, rule_format, of k] eq hist [of k]
      by (auto simp: slug_ok_def split: option.splits)
  qed
  then show "story_ok d2" by (simp add: story_ok_def)
qed

lemma reconcile_all_story: "reconcile_all specs d = (d', r) \<Longrightarrow> story_ok d \<Longrightarrow> story_ok d'"
proof (induction specs arbitrary: d)
  case (Cons m ms)
  obtain d1 r1 where c: "ReconcileMonitor m d = (d1, r1)" by fastforce
  with Cons Reconcile_story [OF c] show ?case by (auto split: sum.splits)
qed simp

lemma remove_prior_story: "story_ok (fst acc) \<Longrightarrow> story_ok (fst (remove_prior declared m acc))"
proof -
  assume ok: "story_ok (fst acc)"
  obtain d1 r1 where c: "SoftDeleteMonitor (ms_slug m) ''removed from config'' (fst acc) = (d1, r1)" by fastforce
  show ?thesis
    using c SoftDelete_story [OF c ok] ok by (cases acc) (simp add: remove_prior_def split: sum.split)
qed

lemma boot_static_story: "boot_static specs d = (d', r) \<Longrightarrow> story_ok d \<Longrightarrow> story_ok d'"
proof -
  assume b: "boot_static specs d = (d', r)" and ok: "story_ok d"
  obtain d1 r1 where c: "reconcile_all specs d = (d1, r1)" by fastforce
  obtain d2 r2 where l: "ListActiveBySource ''static'' d1 = (d2, r2)" by fastforce
  have d1: "story_ok d1" by (rule reconcile_all_story [OF c ok])
  have "db_data d2 = db_data d1"
    using l unfolding ListActiveBySource_def by (rule db_call_elim) auto
  then have d2: "story_ok d2" using story_ok_data [of d2 d1] d1 by simp
  have "story_ok (fst (fold (remove_prior D) prior acc))" if "story_ok (fst acc)" for D prior acc
    using that by (induction prior arbitrary: acc) (simp_all add: remove_prior_story)
  from this [of "(d2, [])"] show ?thesis
    using b c l d1 d2 by (auto simp: boot_static_def split: sum.splits prod.splits)
      (metis fst_conv)+
qed

lemma removed_story: "OnKubeMonitorRemoved slug reason d = (d', out) \<Longrightarrow> story_ok d \<Longrightarrow> story_ok d'"
proof -
  assume b: "OnKubeMonitorRemoved slug reason d = (d', out)" and ok: "story_ok d"
  obtain d1 r1 where g: "GetMonitor slug d = (d1, r1)" by fastforce
  have d1: "story_ok d1" using GetMonitor_data [OF g] story_ok_data [of d1 d] ok by simp
  obtain d2 r2 where c: "SoftDeleteMonitor slug reason d1 = (d2, r2)" by fastforce
  show ?thesis
    using b g c d1 SoftDelete_story [OF c d1]
    by (auto simp: OnKubeMonitorRemoved_def split: sum.splits if_splits)
qed

lemma NewManager_inv: "mgr_inv (NewManager sink cfg a b c d)"
  by (simp add: mgr_inv_def NewManager_def at_ok_def Let_def)

lemma good_set_db: "good s \<Longrightarrow> story_ok d \<Longrightarrow> good (set_db d s)"
  by (simp add: good_def world_ok_def set_db_def on_world_def)

lemma good_restart: "good s \<Longrightarrow> good (restart (NewManager True cfg a b c d) det s)"
proof -
  assume g: "good s"
  let ?w = "(sd_w s)\<lparr>w_mgr := SetOnDemandParentProbe (NewManager True cfg a b c d)\<rparr>"
  have inv: "mgr_inv (w_mgr ?w)" "mg_channels (w_mgr ?w) = []"
    using NewManager_inv [of True cfg a b c d]
    by (simp_all add: SetOnDemandParentProbe_def NewManager_def Let_def mgr_inv_def at_ok_def)
  obtain d1 r where l: "ListOpenIncidentGroups (w_db ?w) = (d1, r)" by fastforce
  have f: "mon_frame (w_db ?w) d1" by (rule ListOpenIncidentGroups_frame [OF l])
  have fold: "w_db (fold (\<lambda>row. put_group (gr_channel_slug row) (h row)) rows w) = w_db w"
      "w_now (fold (\<lambda>row. put_group (gr_channel_slug row) (h row)) rows w) = w_now w" for h rows w
    by (induction rows arbitrary: w) simp_all
  have "mon_frame (w_db ?w) (w_db (fst (Reattach ?w))) \<and> w_now (fst (Reattach ?w)) = w_now ?w"
    using l f by (auto simp: Reattach_def fold split: sum.split)
  moreover have "world_ok ?w" using g by (simp add: good_def world_ok_def)
  ultimately show ?thesis
    using world_ok_frame inv_Reattach [OF inv] by (auto simp: good_def restart_def)
qed

lemma story_ok_faults [simp]: "story_ok (d\<lparr>db_faults := fs\<rparr>) = story_ok d"
  by (rule story_ok_data) simp

lemma story_ok_now [simp]: "story_ok (d\<lparr>db_now := t\<rparr>) = story_ok d"
  by (simp add: story_ok_def slug_ok_def uptime_history_def cong: option.case_cong)

lemma step_good: "pipeline_step st n s s' \<Longrightarrow> good s \<Longrightarrow> good s'"
proof (induction rule: pipeline_step.induct)
  case (step_tick tries s answers ssl_answers plans p)
  show ?case
    by (rule notifier.good_Tick [where st = st and n = n and answers = answers and ssl_answers = ssl_answers])
       (use step_tick in \<open>simp_all add: wired_def\<close>)
next
  case (step_evaluate s plans answer)
  have p: "safe_op (on_demand plans answer x)" for x
    unfolding on_demand_def by (rule safe_probe) (use safe_push in auto)
  have "probe_ok (on_demand plans answer)" using safe_opD(2) [OF p] by (simp add: probe_ok_def)
  then have "safe_op (evaluateAll (on_demand plans answer))"
    using world_ok_evaluateAll [of "on_demand plans answer"] safe_opD(1) [OF p] inv_evaluateAll
    by (simp add: safe_op_def)
  then show ?case using step_evaluate by (rule good_safe)
next
  case (step_commit s answers plans answer slug)
  have "safe_op (commit_held st n answers plans answer slug)"
    unfolding commit_held_def by (rule safe_commit) (use safe_push safe_commit_notify in auto)
  then show ?case using step_commit by (rule good_safe)
next
  case (step_declare s specs)
  then show ?case using boot_static_story good_set_db good_story by (metis prod.collapse)
next
  case (step_discover s spec)
  then show ?case using Reconcile_story good_set_db good_story by (metis prod.collapse)
next
  case (step_remove s slug reason)
  then show ?case using removed_story good_set_db good_story by (metis prod.collapse)
next
  case (step_restart s cfg pending threshold burst mention det)
  then show ?case by (rule good_restart)
next
  case (step_time s now)
  then show ?case by (simp add: good_def world_ok_def on_world_def)
next
  case (step_outside s as fs)
  then show ?case by (simp add: good_def world_ok_def on_world_def)
qed

lemma fresh_good: "1000 \<le> now \<Longrightarrow> good (fresh_state now)"
  using NewManager_inv
  by (simp add: good_def world_ok_def fresh_state_def story_ok_def slug_ok_def uptime_history_def empty_db_def)

lemma reachable_good:
  "rtranclp (pipeline_step st n) (fresh_state now) s \<Longrightarrow> 1000 \<le> now \<Longrightarrow> good s"
  by (induction rule: rtranclp_induct) (use fresh_good step_good in auto)

section \<open>The property\<close>


text \<open>A run: a monitor is declared, fails, and the failure is ticked.\<close>

definition refused :: result where
  "refused = \<lparr>r_code = 0, r_error = ''refused'', r_fail_kind = FailKindDial, r_duration = 0, r_tls = None\<rparr>"

definition failing :: "nat \<Rightarrow> probe_try" where
  "failing k = \<lparr>ty_slept = True, ty_result = refused, ty_cancelled = False, ty_at = 5000\<rparr>"

definition sample_run :: sched where
  "sample_run = (let s = fresh_state 1000;
       s1 = set_db (fst (ReconcileMonitor (sample_spec ''web'') (w_db (sd_w s)))) s
     in fst (Tick (wired (\<lambda>_. []) sample_notifier (\<lambda>_. []) (\<lambda>_. []) [sample_plan ''web''])
          (sample_plan ''web'') failing s1))"

lemma sample_run_history:
  "uptime_history ''web'' (w_db (sd_w sample_run)) = [EventOpen]
   \<and> map_option mr_opened_at (gm_get (db_monitors (w_db (sd_w sample_run))) ''web'') = Some (Some 5000)"
  by code_simp


end
