(* ===== verification/Scheduler_Claims.thy ===== *)
theory Scheduler_Claims
  imports Pipeline
begin

text \<open>
  What one tick does and does not do, and how the set of workers follows the plans; and where the
  wiring around the tick departs from what it says it does.
\<close>

section \<open>Without store failures\<close>

lemma sched_db_ok:
  "GetMonitor slug (w_db (sd_w s)) = (w_db (sd_w s), r) \<Longrightarrow> sched_db (GetMonitor slug) s = (s, r)"
  by (simp add: sched_db_def)

lemma GetMonitor_nofault:
  assumes "db_faults d = []"
  shows "GetMonitor slug d = (d, case gm_get (db_monitors d) slug of
    None \<Rightarrow> Inl ErrNotFound | Some c \<Rightarrow> Inr (scanMonitor c))"
  using assms by (simp add: GetMonitor_def)

lemma anyParentDown_nofault:
  assumes "db_faults (w_db (sd_w s)) = []"
  shows "(snd (anyParentDown child ps s) \<longleftrightarrow>
      (\<exists>p \<in> set ps. \<exists>c. gm_get (db_monitors (w_db (sd_w s))) p = Some c \<and> mr_status c = StatusDown))
    \<and> (\<exists>m. fst (anyParentDown child ps s) = s\<lparr>sd_missing := m\<rparr>)"
  using assms
proof (induction ps arbitrary: s)
  case Nil
  have "s = s\<lparr>sd_missing := sd_missing s\<rparr>" by simp
  then show ?case by (metis anyParentDown.simps(1) empty_iff fst_conv list.set(1) snd_conv)
next
  case (Cons slug rest)
  have get: "sched_db (GetMonitor slug) s = (s, case gm_get (db_monitors (w_db (sd_w s))) slug of
      None \<Rightarrow> Inl ErrNotFound | Some c \<Rightarrow> Inr (scanMonitor c))"
    by (rule sched_db_ok) (rule GetMonitor_nofault [OF Cons.prems])
  show ?case
  proof (cases "gm_get (db_monitors (w_db (sd_w s))) slug")
    case None
    obtain m where "fst (recordMissingParent slug child s) = s\<lparr>sd_missing := m\<rparr>"
      by (simp add: recordMissingParent_def Let_def)
    then show ?thesis using Cons.IH [of "s\<lparr>sd_missing := m\<rparr>"] Cons.prems get None by auto
  next
    case (Some c)
    show ?thesis
    proof (cases "mr_status c = StatusDown")
      case True
      then show ?thesis using get Some by (auto simp: ClearMissingParent_def Let_def)
    next
      case False
      then show ?thesis
        using Cons.IH [of "ClearMissingParent slug s"] Cons.prems get Some
        by (auto simp: ClearMissingParent_def Let_def)
    qed
  qed
qed

section \<open>The dependency gate\<close>

text \<open>C27: While a parent of a monitor is recorded down, its tick only pauses it: no probe result is
  used, its row changes in the status alone, no other row changes, no event is recorded, nothing
  is sent to Slack, the self-health detector hears nothing, and the only metric is the paused
  tick.\<close>

theorem parent_down_silences_child:
  assumes faults: "db_faults (w_db (sd_w s)) = []"
    and parent: "parent \<in> set (p_depends_on p)"
      "gm_get (db_monitors (w_db (sd_w s))) parent = Some c" "mr_status c = StatusDown"
    and child: "gm_get (db_monitors (w_db (sd_w s))) (p_slug p) = Some k"
    and wired: "sm_group sm = Some groupSinkAdapter"
  shows "\<exists>s'. Tick sm p tries s = (s', Inr ())
    \<and> db_monitors (w_db (sd_w s')) =
        gm_put (p_slug p) (k\<lparr>mr_status := StatusTemporaryPaused\<rparr>) (db_monitors (w_db (sd_w s)))
    \<and> db_events (w_db (sd_w s')) = db_events (w_db (sd_w s))
    \<and> w_calls (sd_w s') = w_calls (sd_w s) \<and> sd_det s' = sd_det s
    \<and> sd_out s' = sd_out s @ (if sm_metrics sm then [ObserveCheck (p_slug p) ''paused'' 0] else [])"
proof -
  obtain m where gate: "anyParentDown (p_slug p) (p_depends_on p) s = (s\<lparr>sd_missing := m\<rparr>, True)"
    using anyParentDown_nofault [OF faults, of "p_slug p" "p_depends_on p"] parent by (metis prod.collapse)
  have "p_depends_on p \<noteq> []" using parent by auto
  then have "Tick sm p tries s = pause_tick sm p (s\<lparr>sd_missing := m\<rparr>)"
    by (simp add: Tick_def gate)
  then show ?thesis
    using faults child wired
    by (auto simp: pause_tick_def lift_err_def groupSinkAdapter_def sched_db_def MarkTemporaryPaused_def
        update_monitor_def on_world_def emit_def Let_def)
qed

section \<open>Pausing and resuming\<close>

lemma gm_put_put: "gm_put k v (gm_put k w m) = gm_put k v m"
  by (induction m) auto

lemma update_update:
  "update_monitor slug f (update_monitor slug g d) = update_monitor slug (f \<circ> g) d"
  by (auto simp: update_monitor_def gm_put_put split: option.split)

lemma ApplyCheck_over_pause:
  assumes "db_faults d = []"
  shows "ApplyCheck slug ns at code msg ev (update_monitor slug (\<lambda>c. c\<lparr>mr_status := st\<rparr>) d)
    = ApplyCheck slug ns at code msg ev d"
  using assms by (cases ev) (simp_all add: ApplyCheck_def Let_def update_update o_def)

lemma scan_status: "scanMonitor (c\<lparr>mr_status := st\<rparr>) = (scanMonitor c)\<lparr>mr_status := st\<rparr>"
  by (simp add: scanMonitor_def monitor_row.truncate_def)


section \<open>Ticks that do not complete\<close>

lemma sched_db_data:
  assumes "sched_db f s = (s', r)" and "\<And>d. f (w_db (sd_w s)) = (d, r) \<Longrightarrow> db_data d = db_data (w_db (sd_w s))"
  shows "db_data (w_db (sd_w s')) = db_data (w_db (sd_w s)) \<and> w_calls (sd_w s') = w_calls (sd_w s)
    \<and> w_mgr (sd_w s') = w_mgr (sd_w s) \<and> sd_out s' = sd_out s \<and> sd_det s' = sd_det s
    \<and> sd_missing s' = sd_missing s"
  using assms by (auto simp: sched_db_def split: prod.splits)

definition sunk :: "sched_out \<Rightarrow> bool" where
  "sunk x \<longleftrightarrow> (\<exists>slug e. x = EventSunk slug e) \<or> (\<exists>slug e. x = SSLSunk slug e)"

text \<open>The tables, the Slack calls and the alerts handed to a sink are those of before.\<close>

definition unchanged :: "sched \<Rightarrow> sched \<Rightarrow> bool" where
  "unchanged s s' \<longleftrightarrow> db_data (w_db (sd_w s')) = db_data (w_db (sd_w s))
     \<and> w_calls (sd_w s') = w_calls (sd_w s) \<and> filter sunk (sd_out s') = filter sunk (sd_out s)"

lemma unchanged_refl [simp]: "unchanged s s"
  by (simp add: unchanged_def)

lemma unchanged_trans: "unchanged a b \<Longrightarrow> unchanged b c \<Longrightarrow> unchanged a c"
  by (simp add: unchanged_def)

lemma unchanged_sched_db:
  assumes "sched_db f s = (s', r)" and "\<And>d. f (w_db (sd_w s)) = (d, r) \<Longrightarrow> db_data d = db_data (w_db (sd_w s))"
  shows "unchanged s s'"
  using sched_db_data [of f s s' r] assms by (simp add: unchanged_def)

lemma unchanged_get: "sched_db (GetMonitor slug) s = (s', r) \<Longrightarrow> unchanged s s'"
  by (erule unchanged_sched_db) (rule GetMonitor_data)

lemma unchanged_anyParentDown: "unchanged s (fst (anyParentDown child ps s))"
proof (induction ps arbitrary: s)
  case (Cons slug rest)
  obtain s1 r where g: "sched_db (GetMonitor slug) s = (s1, r)" by fastforce
  have s1: "unchanged s s1" by (rule unchanged_get [OF g])
  have "unchanged s1 (fst (recordMissingParent slug child s1))" "unchanged s1 (ClearMissingParent slug s1)"
    by (simp_all add: unchanged_def recordMissingParent_def ClearMissingParent_def Let_def)
  with s1 have "unchanged s (fst (recordMissingParent slug child s1))" "unchanged s (ClearMissingParent slug s1)"
    using unchanged_trans by blast+
  then show ?case using g Cons.IH unchanged_trans by (auto simp: Let_def split: sum.split)
qed simp

lemma store_failure_data:
  "MarkTemporaryPaused slug d = (d', Inl e) \<Longrightarrow> db_data d' = db_data d"
  unfolding MarkTemporaryPaused_def by (erule db_call_elim) auto

lemma unchanged_emit: "filter sunk xs = [] \<Longrightarrow> unchanged s (emit xs s)"
  by (simp add: unchanged_def emit_def)

lemma commit_failure:
  assumes "commit_result sm p res s = (s', Inl e)"
  shows "unchanged s s'"
proof -
  obtain s1 r1 where get: "sched_db (GetMonitor (p_slug p)) s = (s1, r1)" by fastforce
  have s1: "unchanged s s1" by (rule unchanged_get [OF get])
  show ?thesis
  proof (cases r1)
    case (Inl e')
    then show ?thesis using assms get s1 by (simp add: commit_result_def)
  next
    case (Inr row)
    let ?now = "w_now (sd_w s1)"
    obtain ns ev where app: "Apply (row_State (resume_status row)) (result_check p res ?now) = (ns, ev)"
      by fastforce
    obtain s2 r2 where call: "sched_db (ApplyCheck (p_slug p) ns ?now (r_code res) (r_error res) ev) s1 = (s2, r2)"
      by fastforce
    from assms get Inr app call obtain e' where "r2 = Inl e'" "s' = s2"
      by (cases r2) (auto simp: commit_result_def Let_def)
    with unchanged_sched_db [OF call] ApplyCheck_data have "unchanged s1 s'" by blast
    with s1 show ?thesis by (rule unchanged_trans)
  qed
qed

lemma probe_failure:
  assumes "probe_tick sm p tries s = (s', Inl e)"
  shows "unchanged s s'"
proof (cases "probe_cycle p tries (w_now (sd_w s))")
  case None
  then show ?thesis using assms by (simp add: probe_tick_def)
next
  case (Some rn)
  obtain res now where rn: "rn = (res, now)" by fastforce
  let ?s2 = "emit (if sm_metrics sm
                  then [ObserveCheck (p_slug p) (if r_error res = [] then ''ok'' else ''fail'')
                          (time_sub now (w_now (sd_w s))), SetWorkerLastTick now]
                  else []) (on_world (\<lambda>w. w\<lparr>w_now := now\<rparr>) s)"
  have s2: "unchanged s ?s2"
    by (simp add: unchanged_def emit_def on_world_def sunk_def db_data_def)
  obtain s3 where s3: "unchanged s s3" "commit_result sm p res s3 = (s', Inl e)"
  proof (cases "sd_det ?s2")
    case None
    with assms Some rn show ?thesis by (intro that [of ?s2] s2) (simp add: probe_tick_def Let_def)
  next
    case (Some det)
    let ?s3 = "?s2\<lparr>sd_det := Some (Report (p_slug p) (r_fail_kind res) (r_error res = []) now det)\<rparr>"
    have "unchanged s ?s3" using s2 by (simp add: unchanged_def)
    moreover have "commit_result sm p res ?s3 = (s', Inl e)"
      using assms \<open>probe_cycle p tries (w_now (sd_w s)) = Some rn\<close> rn Some
      by (cases "r_error res = []"; cases "sm_metrics sm")
         (auto simp: probe_tick_def Let_def split: if_splits)
    ultimately show ?thesis by (rule that)
  qed
  from s3(1) commit_failure [OF s3(2)] show ?thesis by (rule unchanged_trans)
qed

lemma pause_failure:
  assumes "pause_tick sm p s = (s', Inl e)" and "sm_group sm = Some groupSinkAdapter"
  shows "unchanged s s'"
proof -
  let ?s1 = "emit (if sm_metrics sm then [ObserveCheck (p_slug p) ''paused'' 0] else []) s"
  let ?s2 = "if p_channel p = [] then ?s1
    else on_world (Pause (p_channel p) (p_slug p) (w_now (sd_w ?s1))) ?s1"
  have s2: "unchanged s ?s2"
    by (simp add: unchanged_def emit_def on_world_def sunk_def)
  obtain s3 r where m: "sched_db (MarkTemporaryPaused (p_slug p)) ?s2 = (s3, r)" by fastforce
  from assms m obtain e' where "r = Inl e'" "s' = s3"
    by (cases r; cases "p_channel p = []"; cases "sm_metrics sm")
       (auto simp: pause_tick_def lift_err_def groupSinkAdapter_def Let_def)
  with unchanged_sched_db [OF m] store_failure_data have "unchanged ?s2 s'" by blast
  with s2 show ?thesis by (rule unchanged_trans)
qed

text \<open>C21: A tick that does not complete leaves no trace: if it is cancelled or the store refuses it, at
  whatever point, no table has changed, nothing was sent to Slack and no alert was handed to a
  sink; and a failed name resolution that is held for the self-health decision also leaves the
  tables, the dispatcher and Slack as they were, and only reports to the detector.\<close>

theorem uncommitted_tick_is_silent:
  assumes "sm_group sm = Some groupSinkAdapter"
  shows "(\<forall>s' e. Tick sm p tries s = (s', Inl e) \<longrightarrow> unchanged s s')
    \<and> (\<forall>det res now. p_depends_on p = [] \<and> sd_det s = Some det
         \<and> probe_cycle p tries (w_now (sd_w s)) = Some (res, now) \<and> r_fail_kind res = FailKindDNS \<longrightarrow>
       (\<exists>s'. Tick sm p tries s = (s', Inr ()) \<and> unchanged s s' \<and> w_mgr (sd_w s') = w_mgr (sd_w s)
          \<and> sd_det s' = Some (Report (p_slug p) FailKindDNS (r_error res = []) now det)))"
proof (intro conjI allI impI)
  fix s' e
  assume t: "Tick sm p tries s = (s', Inl e)"
  obtain s1 down where g: "(if p_depends_on p = [] then (s, False)
      else anyParentDown (p_slug p) (p_depends_on p) s) = (s1, down)" by fastforce
  have "unchanged s s1"
    using g unchanged_anyParentDown [of s "p_slug p" "p_depends_on p"] by (auto split: if_splits)
  moreover have "unchanged s1 s'"
    using t g pause_failure [OF _ assms] probe_failure by (auto simp: Tick_def split: if_splits)
  ultimately show "unchanged s s'" by (rule unchanged_trans)
next
  fix det res now
  assume "p_depends_on p = [] \<and> sd_det s = Some det
         \<and> probe_cycle p tries (w_now (sd_w s)) = Some (res, now) \<and> r_fail_kind res = FailKindDNS"
  then show "\<exists>s'. Tick sm p tries s = (s', Inr ()) \<and> unchanged s s' \<and> w_mgr (sd_w s') = w_mgr (sd_w s)
          \<and> sd_det s' = Some (Report (p_slug p) FailKindDNS (r_error res = []) now det)"
    by (auto simp: Tick_def probe_tick_def Let_def emit_def on_world_def unchanged_def sunk_def)
qed

section \<open>Witnesses\<close>

definition down_cols :: "string \<Rightarrow> monitor_cols" where
  "down_cols slug = (default_cols slug)\<lparr>mr_status := StatusDown, mr_opened_at := Some 2000\<rparr>"

text \<open>A parent that is down and a child that is up.\<close>

definition family :: "bool list \<Rightarrow> sched" where
  "family faults = set_db ((empty_db 1000)\<lparr>db_monitors := [(''db'', down_cols ''db''), (''web'', default_cols ''web'')],
     db_faults := faults\<rparr>) (fresh_state 1000)"

definition child_plan :: plan where
  "child_plan = (sample_plan ''web'')\<lparr>p_depends_on := [''db'']\<rparr>"

definition sample_seams :: seams where
  "sample_seams = wired (\<lambda>_. []) sample_notifier (\<lambda>_. []) (\<lambda>_. []) [child_plan]"

lemma family_facts:
  "db_faults (w_db (sd_w (family fs))) = fs"
  "gm_get (db_monitors (w_db (sd_w (family fs)))) ''db'' = Some (down_cols ''db'')"
  "gm_get (db_monitors (w_db (sd_w (family fs)))) ''web'' = Some (default_cols ''web'')"
  "mr_status (down_cols ''db'') = StatusDown" "row_ok (down_cols ''db'')"
  "sm_group sample_seams = Some groupSinkAdapter"
  by (simp_all add: family_def set_db_def on_world_def down_cols_def default_cols_def row_ok_def
      sample_seams_def wired_def)

theorem parent_down_silences_child_witness:
  "\<exists>s'. Tick sample_seams child_plan failing (family []) = (s', Inr ())
     \<and> db_events (w_db (sd_w s')) = [] \<and> w_calls (sd_w s') = []"
proof -
  have "''db'' \<in> set (p_depends_on child_plan)"
    "gm_get (db_monitors (w_db (sd_w (family [])))) (p_slug child_plan) = Some (default_cols ''web'')"
    using family_facts(3) by (simp_all add: child_plan_def sample_plan_def)
  with parent_down_silences_child [OF family_facts(1) _ family_facts(2,4) _ family_facts(6), where p = child_plan and tries = failing]
  show ?thesis by (auto simp: family_def set_db_def on_world_def fresh_state_def empty_db_def)
qed


theorem uncommitted_tick_is_silent_witness:
  "unchanged (family [True]) (fst (Tick sample_seams (sample_plan ''db'') failing (family [True])))
   \<and> snd (Tick sample_seams (sample_plan ''db'') failing (family [True])) = Inl (TickStore (DBError ''get monitor''))"
proof -
  have "snd (Tick sample_seams (sample_plan ''db'') failing (family [True])) = Inl (TickStore (DBError ''get monitor''))"
    by code_simp
  then show ?thesis
    using uncommitted_tick_is_silent [OF family_facts(6), of "sample_plan ''db''" failing "family [True]"]
    by (metis prod.collapse)
qed

section \<open>Where the wiring falls short\<close>

text \<open>
  The on-demand probe reads a row, computes the transition and writes it without holding anything
  in between, on the evaluator's goroutine.  If the monitor's own tick commits its open in
  between, the open is recorded (and sent) twice.
\<close>

lemma racing_checks_open_twice:
  assumes "db_faults d = []" and "gm_get (db_monitors d) slug = Some c" and "mr_status c = StatusUp"
    and "mr_opened_at c = None"
    and read: "GetMonitor slug d = (d, Inr row)"
    and tick: "Apply (resume_state row) chk1 = (n1, e1)" "c_outcome chk1 = OutcomeFail"
    and probe: "Apply (resume_state row) chk2 = (n2, e2)" "c_outcome chk2 = OutcomeFail"
  shows "uptime_history slug (fst (ApplyCheck slug n2 t2 code2 msg2 e2 (fst (ApplyCheck slug n1 t1 code1 msg1 e1 d))))
    = uptime_history slug d @ [EventOpen, EventOpen]"
proof -
  have "row = scanMonitor c" using read assms(1,2) by (simp add: GetMonitor_def)
  then have "s_status (resume_state row) = StatusUp"
    using assms(3) by (simp add: resume_state_def row_State_def)
  then obtain x y where "e1 = Some x" "e_type x = EventOpen" "e2 = Some y" "e_type y = EventOpen"
    using tick probe by (auto simp: Apply_def)
  then show ?thesis
    using assms(1) by (simp add: ApplyCheck_def Let_def uptime_history_append is_uptime_def)
qed

text \<open>
  The open that an on-demand probe commits for a critical parent is recorded, but neither routed
  nor handed to a sink: nobody is told, and the parent's next failing tick finds it down.
\<close>

lemma critical_parent_open_is_silent:
  assumes pl: "find_plan plans parent = Some pl" "p_critical pl" "probed_down pl (answer pl)"
    and row: "db_faults (w_db w) = []" "gm_get (db_monitors (w_db w)) parent = Some c"
      "mr_status c = StatusUp" "mr_opened_at c = None"
  shows "uptime_history parent (w_db (makeOnDemandParentProbe plans answer None parent w))
      = uptime_history parent (w_db w) @ [EventOpen]
    \<and> w_calls (makeOnDemandParentProbe plans answer None parent w) = w_calls w
    \<and> w_mgr (makeOnDemandParentProbe plans answer None parent w) = w_mgr w"
proof -
  have get: "GetMonitor parent (w_db w) = (w_db w, Inr (scanMonitor c))"
    using row by (simp add: GetMonitor_def)
  have st: "s_status (resume_state (scanMonitor c)) = StatusUp"
    using row by (simp add: resume_state_def row_State_def)
  show ?thesis
    using pl row(1) Apply_up_fail [OF st, of "fail_check pl (fst (answer pl)) (w_now w)"]
    by (simp add: makeOnDemandParentProbe_def get Let_def fail_check_def ApplyCheck_def
        uptime_history_append is_uptime_def)
qed

text \<open>
  A committed failure is announced with the status text of the row's last code beside the new
  code, where every other path refreshes the text.
\<close>

lemma committed_failure_has_stale_text:
  assumes "mr_last_status_code row = Some 200" and "e_status_code ev = 503"
    and "status_text 200 = ''OK''" and "status_text 503 = ''Service Unavailable''"
  shows "mv_status_code (commit_view status_text row ev) = 503
    \<and> mv_status_text (commit_view status_text row ev) = ''OK''
    \<and> mv_status_text (event_view status_text row ev) = ''Service Unavailable''"
  using assms by (simp add: commit_view_def event_view_def monitorViewFromRow_def Let_def)

text \<open>
  The open a commit records for a parent without a channel is not propagated to its children, where
  a tick propagates it whether or not the parent has a channel.
\<close>

lemma commit_without_channel_skips_children:
  assumes pl: "find_plan plans slug = Some pl" "p_channel pl = []" "probed_down pl (answer pl)"
    and row: "db_faults (w_db w) = []" "gm_get (db_monitors (w_db w)) slug = Some c"
      "mr_status c = StatusUp" "mr_opened_at c = None"
    and k: "k \<noteq> slug"
  shows "uptime_history slug (w_db (makeSelfHealthCommit plans answer (Some push) notify slug w))
      = uptime_history slug (w_db w) @ [EventOpen]
    \<and> gm_get (db_monitors (w_db (makeSelfHealthCommit plans answer (Some push) notify slug w))) k
      = gm_get (db_monitors (w_db w)) k"
proof -
  have get: "GetMonitor slug (w_db w) = (w_db w, Inr (scanMonitor c))"
    using row by (simp add: GetMonitor_def)
  have st: "s_status (resume_state (scanMonitor c)) = StatusUp"
    using row by (simp add: resume_state_def row_State_def)
  show ?thesis
    using pl row(1) k Apply_up_fail [OF st, of "fail_check pl (fst (answer pl)) (w_now w)"]
    by (simp add: makeSelfHealthCommit_def get Let_def fail_check_def ApplyCheck_def
        uptime_history_append is_uptime_def update_monitor_get)
qed

end
