(* ===== verification/Values.thy ===== *)
theory Values
  imports Go_Prelude
begin

text \<open>
  What the two routing cascades share: the annotation-valued config blocks of
  \<^verbatim>\<open>internal/config\<close>, the parsing of an annotation value, and the union of lists that
  \<^verbatim>\<open>internal/alertmanager/match.go\<close> and \<^verbatim>\<open>internal/merger/merger.go\<close> each define for
  themselves with the same body.  Strings are UTF-8 byte sequences, as in Go.
\<close>

section \<open>Trimming\<close>

text \<open>
  \<^verbatim>\<open>strings.TrimSpace\<close> removes the white space of Unicode: six ASCII bytes, two code points of two
  bytes and seventeen of three.  Both directions are one loop, over the bytes and over their reverse.
\<close>

definition ascii_space :: "char \<Rightarrow> bool" where
  "ascii_space c \<longleftrightarrow> c = CHR 0x20 \<or> c = CHR 0x09 \<or> c = CHR 0x0A \<or> c = CHR 0x0B \<or> c = CHR 0x0C \<or> c = CHR 0x0D"

definition space2 :: "char \<Rightarrow> char \<Rightarrow> bool" where
  "space2 a b \<longleftrightarrow> a = CHR 0xC2 \<and> (b = CHR 0x85 \<or> b = CHR 0xA0)"

definition space3 :: "char \<Rightarrow> char \<Rightarrow> char \<Rightarrow> bool" where
  "space3 a b c \<longleftrightarrow>
     (a = CHR 0xE1 \<and> b = CHR 0x9A \<and> c = CHR 0x80) \<or>
     (a = CHR 0xE2 \<and> b = CHR 0x80 \<and>
        (128 \<le> (of_char c :: nat) \<and> (of_char c :: nat) \<le> 138 \<or> c \<in> {CHR 0xA8, CHR 0xA9, CHR 0xAF})) \<or>
     (a = CHR 0xE2 \<and> b = CHR 0x81 \<and> c = CHR 0x9F) \<or>
     (a = CHR 0xE3 \<and> b = CHR 0x80 \<and> c = CHR 0x80)"

fun trim_with :: "(char \<Rightarrow> char \<Rightarrow> bool) \<Rightarrow> (char \<Rightarrow> char \<Rightarrow> char \<Rightarrow> bool) \<Rightarrow> string \<Rightarrow> string" where
  "trim_with two three (a # b # c # s) =
     (if ascii_space a then trim_with two three (b # c # s)
      else if two a b then trim_with two three (c # s)
      else if three a b c then trim_with two three s
      else a # b # c # s)"
| "trim_with two three [a, b] =
     (if ascii_space a then trim_with two three [b] else if two a b then [] else [a, b])"
| "trim_with two three [a] = (if ascii_space a then [] else [a])"
| "trim_with two three [] = []"

definition TrimSpace :: "string \<Rightarrow> string" where
  "TrimSpace s = rev (trim_with (\<lambda>a b. space2 b a) (\<lambda>a b c. space3 c b a)
     (rev (trim_with space2 space3 s)))"

lemma trim_with_mono: "set (trim_with two three s) \<subseteq> set s"
  by (induction two three s rule: trim_with.induct) auto

lemma TrimSpace_mono: "set (TrimSpace s) \<subseteq> set s"
  using trim_with_mono [of space2 space3 s] trim_with_mono unfolding TrimSpace_def by fastforce

lemma trim_with_idem: "trim_with two three (trim_with two three s) = trim_with two three s"
  by (induction two three s rule: trim_with.induct) auto

section \<open>Annotation values\<close>

definition SplitAnnotationList :: "string \<Rightarrow> string list" where
  "SplitAnnotationList s = filter (\<lambda>p. p \<noteq> []) (map TrimSpace (split_on CHR '','' s))"

text \<open>An entry is never empty and never holds a separator.\<close>

lemma SplitAnnotationList_entry:
  "e \<in> set (SplitAnnotationList s) \<Longrightarrow> e \<noteq> [] \<and> CHR '','' \<notin> set e"
  using TrimSpace_mono split_on_chars unfolding SplitAnnotationList_def by fastforce

record value_source =
  vsrc_annotation :: string
  vsrc_namespace_annotation :: string
  vsrc_namespace_label :: string
  vsrc_default_scalar :: string
  vsrc_default_list :: "string list"
  vsrc_has_default :: bool
  vsrc_default_is_list :: bool

record string_list =
  nl_values :: "string list"
  nl_override :: bool

definition no_list :: string_list where
  "no_list = \<lparr>nl_values = [], nl_override = False\<rparr>"

definition formatList :: "string list \<Rightarrow> string" where
  "formatList vs = ''['' @ join '','' vs @ '']''"

section \<open>Matchers\<close>

text \<open>
  The two matchers of Go's library are arguments of the model: \<open>mt_glob\<close> is \<^verbatim>\<open>path.Match\<close>,
  \<open>mt_regex\<close> compiles a pattern to a predicate; both answer \<open>None\<close> for a pattern they refuse.
\<close>

record matchers =
  mt_glob :: "string \<Rightarrow> string \<Rightarrow> bool option"
  mt_regex :: "string \<Rightarrow> (string \<Rightarrow> bool) option"

definition matchGlob :: "matchers \<Rightarrow> string \<Rightarrow> string \<Rightarrow> bool" where
  "matchGlob mt pattern v =
    (if pattern = [] then False else if pattern = v then True
     else (case mt_glob mt pattern v of None \<Rightarrow> False | Some ok \<Rightarrow> ok))"

text \<open>\<^verbatim>\<open>strconv.Atoi\<close>: an optional sign and decimal digits, within 64 bits.\<close>

definition digit_value :: "char \<Rightarrow> int" where
  "digit_value c = of_char c - 48"

definition all_digits :: "string \<Rightarrow> bool" where
  "all_digits s \<longleftrightarrow> s \<noteq> [] \<and> list_all (\<lambda>c. CHR ''0'' \<le> c \<and> c \<le> CHR ''9'') s"

definition atoi :: "string \<Rightarrow> int option" where
  "atoi s =
    (let (neg, body) = (case s of c # cs \<Rightarrow> if c = CHR ''-'' then (True, cs)
           else if c = CHR ''+'' then (False, cs) else (False, s) | [] \<Rightarrow> (False, []));
         v = fold (\<lambda>c n. 10 * n + digit_value c) body 0; n = (if neg then - v else v)
     in if all_digits body \<and> min_duration \<le> n \<and> n \<le> max_duration then Some n else None)"

section \<open>Merging lists\<close>

definition mergeStrings :: "string list \<Rightarrow> string list \<Rightarrow> bool \<Rightarrow> string list" where
  "mergeStrings accum incoming override =
    (if override then dedup_from [] incoming else dedup_from [] (accum @ incoming))"

text \<open>One layer of the stack: a list is set when it has values or is an explicit override.\<close>

definition merge_layer :: "string_list \<Rightarrow> string list \<Rightarrow> string list" where
  "merge_layer l accum =
    (if nl_values l \<noteq> [] \<or> nl_override l then mergeStrings accum (nl_values l) (nl_override l)
     else accum)"

lemma set_merge_layer:
  "set (merge_layer l acc) = (if nl_override l then {} else set acc) \<union> set (nl_values l)"
  by (auto simp: merge_layer_def mergeStrings_def)

text \<open>
  The whole stack at once: the values from the last override on, in order of their first appearance.
\<close>

fun from_last_override :: "string_list list \<Rightarrow> string_list list" where
  "from_last_override [] = []"
| "from_last_override (l # ls) =
     (if list_ex nl_override ls then from_last_override ls else l # ls)"

definition merged_values :: "string_list list \<Rightarrow> string list" where
  "merged_values ls = dedup_from [] (concat (map nl_values (from_last_override ls)))"

lemma dedup_from_dedup: "dedup_from s (dedup_from [] xs @ ys) = dedup_from s (xs @ ys)"
proof -
  have "dedup_from s (dedup_from t xs) = dedup_from s xs" if "set t \<subseteq> set s" for t xs :: "'a list" and s
    using that
  proof (induction xs arbitrary: s t)
    case (Cons x xs)
    then show ?case by (cases "x \<in> set t") (auto simp: subset_insertI2)
  qed simp
  then show ?thesis
    by (simp add: dedup_from_append) (rule dedup_from_cong, auto)
qed

lemma merge_layer_plain:
  "\<not> nl_override l \<Longrightarrow> merge_layer l (dedup_from [] acc) = dedup_from [] (acc @ nl_values l)"
  by (cases "nl_values l") (auto simp: merge_layer_def mergeStrings_def dedup_from_dedup)

lemma merge_layer_override: "nl_override l \<Longrightarrow> merge_layer l acc = dedup_from [] (nl_values l)"
  by (simp add: merge_layer_def mergeStrings_def)

lemma fold_merge_plain:
  "\<not> list_ex nl_override ls \<Longrightarrow>
   fold merge_layer ls (dedup_from [] acc) = dedup_from [] (acc @ concat (map nl_values ls))"
  by (induction ls arbitrary: acc) (auto simp: merge_layer_plain)

lemma fold_merge_layers: "fold merge_layer ls [] = merged_values ls"
proof -
  have "fold merge_layer ls acc = merged_values ls" if "list_ex nl_override ls" for acc
    using that
  proof (induction ls arbitrary: acc)
    case (Cons l ls)
    show ?case
    proof (cases "list_ex nl_override ls")
      case True
      then show ?thesis using Cons.IH by (simp add: merged_values_def)
    next
      case False
      then have "nl_override l" using Cons.prems by simp
      then show ?thesis
        using False fold_merge_plain [of ls "nl_values l"]
        by (simp add: merged_values_def merge_layer_override)
    qed
  qed simp
  moreover have "from_last_override ls = ls" if "\<not> list_ex nl_override ls" for ls
    using that by (cases ls) auto
  ultimately show ?thesis
    using fold_merge_plain [of ls "[]"] by (cases "list_ex nl_override ls") (auto simp: merged_values_def)
qed

end
