(* ===== verification/AM_Match.thy ===== *)
theory AM_Match
  imports Values
begin

text \<open>
  The Alertmanager routing cascade: the webhook types (\<^verbatim>\<open>types.go\<close>), the lowering of annotation
  values (\<^verbatim>\<open>valuesource.go\<close>) and the match tree (\<^verbatim>\<open>match.go\<close>), all of
  \<^verbatim>\<open>internal/alertmanager\<close>, with the rule types of \<^verbatim>\<open>internal/config/alertmanager.go\<close>.

  The two matchers of Go's library are arguments (\<open>matchers\<close>).  The cache of compiled
  patterns is not modelled: it is keyed by the pattern and never changes an answer.
\<close>

section \<open>Webhook\<close>

record am_alert =
  aa_status :: string
  aa_labels :: "(string, string) gomap"
  aa_annotations :: "(string, string) gomap"
  aa_starts_at :: time
  aa_ends_at :: time
  aa_generator_url :: string
  aa_fingerprint :: string

record webhook =
  wh_version :: string
  wh_status :: string
  wh_receiver :: string
  wh_external_url :: string
  wh_alerts :: "am_alert list"

record envelope =
  en_receiver :: string
  en_external_url :: string

definition AlertStatusFiring :: string where "AlertStatusFiring = ''firing''"

definition AlertStatusResolved :: string where "AlertStatusResolved = ''resolved''"

datatype webhook_error =
    UnsupportedVersion string
  | NoAlerts
  | EmptyFingerprint nat
  | UnrecognizedStatus nat string
  | NoLabels nat

definition alert_error :: "nat \<Rightarrow> am_alert \<Rightarrow> webhook_error option" where
  "alert_error i a =
    (if aa_fingerprint a = [] then Some (EmptyFingerprint i)
     else if aa_status a \<noteq> AlertStatusFiring \<and> aa_status a \<noteq> AlertStatusResolved
     then Some (UnrecognizedStatus i (aa_status a))
     else if aa_labels a = [] then Some (NoLabels i) else None)"

fun first_alert_error :: "nat \<Rightarrow> am_alert list \<Rightarrow> webhook_error option" where
  "first_alert_error i [] = None"
| "first_alert_error i (a # as) =
     (case alert_error i a of Some e \<Rightarrow> Some e | None \<Rightarrow> first_alert_error (Suc i) as)"

definition webhook_Validate :: "webhook \<Rightarrow> webhook_error option" where
  "webhook_Validate w =
    (if wh_version w \<noteq> ''4'' then Some (UnsupportedVersion (wh_version w))
     else if wh_alerts w = [] then Some NoAlerts
     else first_alert_error 0 (wh_alerts w))"

section \<open>Rules\<close>

record am_when =
  wn_alertname :: string
  wn_alertname_regex :: string
  wn_labels :: "(string, string) gomap"
  wn_receiver :: string
  wn_external_url :: string

record am_config =
  mc_slack :: string
  mc_notify :: string_list
  mc_slack_from :: "value_source option"
  mc_notify_from :: "value_source option"
  mc_notify_override_from :: "value_source option"

datatype am_rule = AMRule
  (ru_when: "am_when option") (ru_ignore: "bool option") (ru_final: bool)
  (ru_config: "am_config option") (ru_nested: "am_rule list")

definition no_config :: am_config where
  "no_config = \<lparr>mc_slack = [], mc_notify = no_list, mc_slack_from = None, mc_notify_from = None,
     mc_notify_override_from = None\<rparr>"

datatype value_kind = AMValueScalar | AMValueList

record am_value_source =
  avs_field :: string
  avs_kind :: value_kind
  avs_override :: bool
  avs_source :: value_source

definition am_source :: "string \<Rightarrow> value_kind \<Rightarrow> bool \<Rightarrow> value_source option \<Rightarrow> am_value_source list" where
  "am_source field kind override src = (case src of None \<Rightarrow> []
     | Some s \<Rightarrow> [\<lparr>avs_field = field, avs_kind = kind, avs_override = override, avs_source = s\<rparr>])"

definition am_ValueSources :: "am_config \<Rightarrow> am_value_source list" where
  "am_ValueSources c =
     am_source ''slack'' AMValueScalar False (mc_slack_from c) @
     am_source ''notify'' AMValueList False (mc_notify_from c) @
     am_source ''notify'' AMValueList True (mc_notify_override_from c)"

section \<open>Lowering annotation values\<close>

record am_env =
  ev_namespaces :: "(string \<Rightarrow> (string, string) gomap) option"
  ev_known_channel :: "(string \<Rightarrow> bool) option"
  ev_known_handle :: "(string \<Rightarrow> bool) option"

datatype cause = NoCause | CauseAbsent | CauseRejected | CauseUnreadable

datatype warning_code = CodeNoSource | CodeValueRejected

datatype reject_reason = UnknownChannel | RawMarkup | UnknownHandle | NoSourceWired

datatype scope = ScopeNamespace | ScopeDefault

record provenance =
  pv_rule :: string
  pv_field :: string
  pv_key :: string
  pv_scope :: scope
  pv_value :: string
  pv_cause :: cause

record am_warning =
  wa_rule :: string
  wa_field :: string
  wa_key :: string
  wa_value :: string
  wa_code :: warning_code
  wa_reason :: reject_reason

record resolver_log =
  rs_provenance :: "provenance list"
  rs_warnings :: "am_warning list"

definition prov_note :: "string \<Rightarrow> string \<Rightarrow> string \<Rightarrow> scope \<Rightarrow> string \<Rightarrow> cause \<Rightarrow> resolver_log \<Rightarrow> resolver_log" where
  "prov_note label field key sc v c r = r\<lparr>rs_provenance := rs_provenance r @
     [\<lparr>pv_rule = label, pv_field = field, pv_key = key, pv_scope = sc, pv_value = v, pv_cause = c\<rparr>]\<rparr>"

definition prov_warn :: "string \<Rightarrow> string \<Rightarrow> string \<Rightarrow> string \<Rightarrow> warning_code \<Rightarrow> reject_reason
    \<Rightarrow> resolver_log \<Rightarrow> resolver_log" where
  "prov_warn label field key v code reason r = r\<lparr>rs_warnings := rs_warnings r @
     [\<lparr>wa_rule = label, wa_field = field, wa_key = key, wa_value = v, wa_code = code,
       wa_reason = reason\<rparr>]\<rparr>"

definition cause_text :: "cause \<Rightarrow> string" where
  "cause_text c = (case c of NoCause \<Rightarrow> ''absent'' | CauseAbsent \<Rightarrow> ''absent''
     | CauseRejected \<Rightarrow> ''rejected'' | CauseUnreadable \<Rightarrow> ''unreadable'')"

definition left_arrow :: string where "left_arrow = [CHR 0xE2, CHR 0x86, CHR 0x90]"

definition right_arrow :: string where "right_arrow = [CHR 0xE2, CHR 0x86, CHR 0x92]"

definition provenance_String :: "provenance \<Rightarrow> string" where
  "provenance_String p = pv_field p @ ''='' @ pv_value p @ '' '' @ left_arrow @
    (case pv_scope p of
       ScopeDefault \<Rightarrow> '' default ('' @ pv_key p @ '' '' @ cause_text (pv_cause p) @ '')''
     | ScopeNamespace \<Rightarrow> '' namespaceAnnotation '' @ pv_key p)"

text \<open>The annotation's value, or that no source is wired to read it from.\<close>

definition read_source :: "am_env \<Rightarrow> am_alert \<Rightarrow> value_source \<Rightarrow> string option" where
  "read_source env a src =
    (let label = (if vsrc_namespace_label src = [] then ''namespace'' else vsrc_namespace_label src);
         namespace = gm_get0 [] (aa_labels a) label in
     if namespace = [] then Some []
     else (case ev_namespaces env of
         None \<Rightarrow> None
       | Some lookup \<Rightarrow> Some (gm_get0 [] (lookup namespace) (vsrc_namespace_annotation src))))"

definition set_scalar :: "string \<Rightarrow> string \<Rightarrow> am_config \<Rightarrow> am_config" where
  "set_scalar field v c = (if field = ''slack'' then c\<lparr>mc_slack := v\<rparr> else c)"

definition set_list :: "am_value_source \<Rightarrow> string list \<Rightarrow> am_config \<Rightarrow> am_config" where
  "set_list vs values c = (if avs_field vs = ''notify''
     then c\<lparr>mc_notify := \<lparr>nl_values = values, nl_override = avs_override vs\<rparr>\<rparr> else c)"

definition fallback :: "string \<Rightarrow> am_value_source \<Rightarrow> cause \<Rightarrow> am_config \<times> resolver_log
    \<Rightarrow> am_config \<times> resolver_log" where
  "fallback label vs c cr = (case cr of (out, r) \<Rightarrow>
    (let src = avs_source vs; key = vsrc_namespace_annotation src in
     if \<not> vsrc_has_default src then (out, r)
     else (case avs_kind vs of
         AMValueScalar \<Rightarrow> (set_scalar (avs_field vs) (vsrc_default_scalar src) out,
           prov_note label (avs_field vs) key ScopeDefault (vsrc_default_scalar src) c r)
       | AMValueList \<Rightarrow>
           if vsrc_default_list src = [] then (out, r)
           else (set_list vs (vsrc_default_list src) out,
             prov_note label (avs_field vs) key ScopeDefault (formatList (vsrc_default_list src)) c r))))"

definition checkScalar :: "am_env \<Rightarrow> string \<Rightarrow> string \<Rightarrow> reject_reason option" where
  "checkScalar env field v =
    (if field = ''slack'' then (case ev_known_channel env of
         None \<Rightarrow> None
       | Some known \<Rightarrow> if known v then None else Some UnknownChannel)
     else None)"

definition checkListEntry :: "am_env \<Rightarrow> string \<Rightarrow> string \<Rightarrow> reject_reason option" where
  "checkListEntry env field entry =
    (if field = ''notify'' then
       (if has_prefix entry ''<'' \<and> has_suffix entry ''>'' then Some RawMarkup
        else (case ev_known_handle env of
            None \<Rightarrow> None
          | Some known \<Rightarrow> if known entry then None else Some UnknownHandle))
     else None)"

definition lowerScalar :: "am_env \<Rightarrow> string \<Rightarrow> am_value_source \<Rightarrow> string \<Rightarrow> am_config \<times> resolver_log
    \<Rightarrow> am_config \<times> resolver_log" where
  "lowerScalar env label vs raw cr = (case cr of (out, r) \<Rightarrow>
    (let v = TrimSpace raw; key = vsrc_namespace_annotation (avs_source vs) in
     case checkScalar env (avs_field vs) v of
       Some reason \<Rightarrow> fallback label vs CauseRejected
         (out, prov_warn label (avs_field vs) key v CodeValueRejected reason r)
     | None \<Rightarrow> (set_scalar (avs_field vs) v out,
         prov_note label (avs_field vs) key ScopeNamespace v NoCause r)))"

fun check_entries :: "am_env \<Rightarrow> string \<Rightarrow> string \<Rightarrow> string \<Rightarrow> string list
    \<Rightarrow> string list \<times> nat \<times> resolver_log \<Rightarrow> string list \<times> nat \<times> resolver_log" where
  "check_entries env label field key [] st = st"
| "check_entries env label field key (e # es) (kept, rejected, r) =
     (case checkListEntry env field e of
        Some reason \<Rightarrow> check_entries env label field key es
          (kept, Suc rejected, prov_warn label field key e CodeValueRejected reason r)
      | None \<Rightarrow> check_entries env label field key es (kept @ [e], rejected, r))"

definition lowerList :: "am_env \<Rightarrow> string \<Rightarrow> am_value_source \<Rightarrow> string \<Rightarrow> am_config \<times> resolver_log
    \<Rightarrow> am_config \<times> resolver_log" where
  "lowerList env label vs raw cr = (case cr of (out, r) \<Rightarrow>
    (let key = vsrc_namespace_annotation (avs_source vs) in
     case check_entries env label (avs_field vs) key (SplitAnnotationList raw) ([], 0, r) of
       (kept, rejected, r1) \<Rightarrow>
         if kept = []
         then fallback label vs (if 0 < rejected then CauseRejected else CauseAbsent) (out, r1)
         else (set_list vs kept out,
           prov_note label (avs_field vs) key ScopeNamespace (formatList kept) NoCause r1)))"

definition lower :: "am_env \<Rightarrow> am_alert \<Rightarrow> string \<Rightarrow> am_value_source \<Rightarrow> am_config \<times> resolver_log
    \<Rightarrow> am_config \<times> resolver_log" where
  "lower env a label vs cr =
    (case read_source env a (avs_source vs) of
       None \<Rightarrow> fallback label vs CauseUnreadable (fst cr, prov_warn label (avs_field vs)
           (vsrc_namespace_annotation (avs_source vs)) [] CodeNoSource NoSourceWired (snd cr))
     | Some raw \<Rightarrow>
         if TrimSpace raw = [] then fallback label vs CauseAbsent cr
         else (case avs_kind vs of
             AMValueScalar \<Rightarrow> lowerScalar env label vs raw cr
           | AMValueList \<Rightarrow> lowerList env label vs raw cr))"

definition apply_sources :: "am_env \<Rightarrow> am_alert \<Rightarrow> string \<Rightarrow> am_config \<Rightarrow> resolver_log
    \<Rightarrow> am_config \<times> resolver_log" where
  "apply_sources env a label c r = fold (lower env a label) (am_ValueSources c) (c, r)"

section \<open>Selectors\<close>

definition anchored :: "string \<Rightarrow> string" where
  "anchored p =
    (let p1 = (if has_prefix p ''^'' then p else ''^'' @ p)
     in if has_suffix p1 ''$'' then p1 else p1 @ ''$'')"

definition matchRegex :: "matchers \<Rightarrow> string \<Rightarrow> string \<Rightarrow> bool" where
  "matchRegex mt pattern v =
    (case mt_regex mt (anchored pattern) of None \<Rightarrow> False | Some re \<Rightarrow> re v)"

definition LabelRegexSuffix :: string where "LabelRegexSuffix = ''Regex''"

definition label_matches :: "matchers \<Rightarrow> am_alert \<Rightarrow> string \<times> string \<Rightarrow> bool" where
  "label_matches mt a kv = (case kv of (k, v) \<Rightarrow>
     if has_suffix k LabelRegexSuffix \<and> k \<noteq> LabelRegexSuffix
     then matchRegex mt v (gm_get0 [] (aa_labels a) (trim_suffix k LabelRegexSuffix))
     else matchGlob mt v (gm_get0 [] (aa_labels a) k))"

definition whenMatches :: "matchers \<Rightarrow> am_when option \<Rightarrow> am_alert \<Rightarrow> envelope \<Rightarrow> bool" where
  "whenMatches mt w a env = (case w of None \<Rightarrow> True | Some w \<Rightarrow>
     (wn_alertname w \<noteq> [] \<longrightarrow> matchGlob mt (wn_alertname w) (gm_get0 [] (aa_labels a) ''alertname'')) \<and>
     (wn_alertname_regex w \<noteq> [] \<longrightarrow>
        matchRegex mt (wn_alertname_regex w) (gm_get0 [] (aa_labels a) ''alertname'')) \<and>
     list_all (label_matches mt a) (wn_labels w) \<and>
     (wn_receiver w = [] \<or> wn_receiver w = en_receiver env) \<and>
     (wn_external_url w = [] \<or> wn_external_url w = en_external_url env))"

definition selectorSummary :: "am_when option \<Rightarrow> string" where
  "selectorSummary w = (case w of None \<Rightarrow> [] | Some w \<Rightarrow>
    (let opt = (\<lambda>name v. if v = [] then [] else [name @ ''='' @ v]);
         parts = opt ''alertname'' (wn_alertname w) @ opt ''alertnameRegex'' (wn_alertname_regex w) @
           map (\<lambda>k. ''labels.'' @ k @ ''='' @ gm_get0 [] (wn_labels w) k)
             (sort_strings (gm_keys (wn_labels w))) @
           opt ''receiver'' (wn_receiver w) @ opt ''externalURL'' (wn_external_url w)
     in if parts = [] then [] else '' ('' @ join '', '' parts @ '')''))"

section \<open>The walk\<close>

record stack_entry =
  st_cfg :: am_config
  st_ignore :: "bool option"

record walk =
  tr_stack :: "stack_entry list"
  tr_chain :: "string list"
  tr_log :: resolver_log

definition indexed :: "string \<Rightarrow> nat \<Rightarrow> string" where
  "indexed label i = label @ ''['' @ itoa (int i) @ '']''"

definition push_rule :: "am_env \<Rightarrow> am_alert \<Rightarrow> string \<Rightarrow> am_rule \<Rightarrow> walk \<Rightarrow> walk" where
  "push_rule env a label r t =
    (let (cfg, lg) = (case ru_config r of
            None \<Rightarrow> (no_config, tr_log t) | Some c \<Rightarrow> apply_sources env a label c (tr_log t))
     in \<lparr>tr_stack = tr_stack t @ [\<lparr>st_cfg = cfg, st_ignore = ru_ignore r\<rparr>],
         tr_chain = tr_chain t @
           [label @ selectorSummary (ru_when r) @ (if ru_final r then '' [final]'' else [])],
         tr_log = lg\<rparr>)"

fun visitRule :: "matchers \<Rightarrow> am_env \<Rightarrow> am_alert \<Rightarrow> envelope \<Rightarrow> string \<Rightarrow> am_rule \<Rightarrow> walk \<Rightarrow> walk \<times> bool"
  and visitRules :: "matchers \<Rightarrow> am_env \<Rightarrow> am_alert \<Rightarrow> envelope \<Rightarrow> string \<Rightarrow> nat \<Rightarrow> am_rule list \<Rightarrow> walk
    \<Rightarrow> walk \<times> bool" where
  "visitRule mt env a en label (AMRule w ig fin cfg nested) t =
    (if \<not> whenMatches mt w a en then (t, False)
     else (case visitRules mt env a en (label @ ''.nested'') 0 nested
              (push_rule env a label (AMRule w ig fin cfg nested) t) of
         (t1, halted) \<Rightarrow> (t1, halted \<or> fin)))"
| "visitRules mt env a en label i [] t = (t, False)"
| "visitRules mt env a en label i (r # rs) t =
    (case visitRule mt env a en (indexed label i) r t of
       (t1, halted) \<Rightarrow> if halted then (t1, True) else visitRules mt env a en label (Suc i) rs t1)"

definition walkRules :: "matchers \<Rightarrow> am_env \<Rightarrow> am_alert \<Rightarrow> envelope \<Rightarrow> am_rule list \<Rightarrow> walk \<times> bool" where
  "walkRules mt env a en rules = visitRules mt env a en ''match'' 0 rules
     \<lparr>tr_stack = [], tr_chain = [], tr_log = \<lparr>rs_provenance = [], rs_warnings = []\<rparr>\<rparr>"

section \<open>Resolution\<close>

definition resolve_slack :: "stack_entry \<Rightarrow> string \<Rightarrow> string" where
  "resolve_slack e s = (if mc_slack (st_cfg e) \<noteq> [] then mc_slack (st_cfg e) else s)"

definition resolveStack :: "stack_entry list \<Rightarrow> string \<times> string list" where
  "resolveStack stack = (fold resolve_slack stack [],
     fold (\<lambda>e. merge_layer (mc_notify (st_cfg e))) stack [])"

fun last_ignore :: "nat \<Rightarrow> stack_entry list \<Rightarrow> bool \<times> nat option \<Rightarrow> bool \<times> nat option" where
  "last_ignore i [] acc = acc"
| "last_ignore i (e # es) acc =
     last_ignore (Suc i) es (case st_ignore e of None \<Rightarrow> acc | Some b \<Rightarrow> (b, Some i))"

record resolved =
  rv_ignored :: bool
  rv_channel :: string
  rv_notify :: "string list"
  rv_rule_chain :: string
  rv_final :: bool
  rv_provenance :: "provenance list"
  rv_warnings :: "am_warning list"

definition render :: "string list \<Rightarrow> provenance list \<Rightarrow> string" where
  "render steps prov = join ('' '' @ right_arrow @ '' '') steps @
     concat (map (\<lambda>p. '' | '' @ provenance_String p) prov)"

definition Evaluate :: "matchers \<Rightarrow> am_rule list \<Rightarrow> am_alert \<Rightarrow> envelope \<Rightarrow> am_env \<Rightarrow> resolved" where
  "Evaluate mt rules a en env =
    (let (t, final) = walkRules mt env a en rules;
         (ignored, idx) = last_ignore 0 (tr_stack t) (False, None);
         steps = (case idx of
             Some i \<Rightarrow> if ignored \<and> i < length (tr_chain t)
               then (tr_chain t)[i := tr_chain t ! i @ '' [ignored]''] else tr_chain t
           | None \<Rightarrow> tr_chain t);
         (channel, notify) = (if ignored then ([], []) else resolveStack (tr_stack t))
     in \<lparr>rv_ignored = ignored, rv_channel = channel, rv_notify = notify,
         rv_rule_chain = render steps (rs_provenance (tr_log t)), rv_final = final,
         rv_provenance = rs_provenance (tr_log t), rv_warnings = rs_warnings (tr_log t)\<rparr>)"

end
