(* ===== verification/AM_Match_Claims.thy ===== *)
theory AM_Match_Claims
  imports AM_Match
begin

text \<open>
  What the Alertmanager cascade guarantees: it resolves as the written rules say, an annotation can
  only select from what the reviewed configuration names, and no annotation can silence an alert.
\<close>

section \<open>The entries of the stack\<close>

fun rule_configs :: "am_rule \<Rightarrow> am_config list" where
  "rule_configs (AMRule w ig fin cfg nested) =
     (case cfg of None \<Rightarrow> [] | Some c \<Rightarrow> [c]) @ concat (map rule_configs nested)"

definition from_rules :: "am_env \<Rightarrow> am_alert \<Rightarrow> am_config list \<Rightarrow> stack_entry \<Rightarrow> bool" where
  "from_rules env a cs e \<longleftrightarrow> st_cfg e = no_config \<or>
     (\<exists>c \<in> set cs. \<exists>label lg. st_cfg e = fst (apply_sources env a label c lg))"

lemma from_rules_mono: "from_rules env a cs e \<Longrightarrow> set cs \<subseteq> set ds \<Longrightarrow> from_rules env a ds e"
  unfolding from_rules_def by blast

lemma push_rule_entries:
  "e \<in> set (tr_stack (push_rule env a label r t)) \<Longrightarrow>
   e \<in> set (tr_stack t) \<or> from_rules env a (rule_configs r) e"
  by (cases r) (auto simp: push_rule_def from_rules_def Let_def split: option.splits prod.splits, metis fst_conv)

lemma visit_entries:
  "e \<in> set (tr_stack (fst (visitRule mt env a en label r t))) \<Longrightarrow>
     e \<in> set (tr_stack t) \<or> from_rules env a (rule_configs r) e"
  "e \<in> set (tr_stack (fst (visitRules mt env a en label i rs t))) \<Longrightarrow>
     e \<in> set (tr_stack t) \<or> from_rules env a (concat (map rule_configs rs)) e"
proof (induction mt env a en label r t and mt env a en label i rs t rule: visitRule_visitRules.induct)
  case (1 mt env a en label w ig fin cfg nested t)
  show ?case
  proof (cases "whenMatches mt w a en")
    case True
    let ?r = "AMRule w ig fin cfg nested"
    have "e \<in> set (tr_stack (push_rule env a label ?r t)) \<or>
        from_rules env a (concat (map rule_configs nested)) e"
      using 1 True by (auto split: prod.splits)
    then show ?thesis
    proof
      assume "e \<in> set (tr_stack (push_rule env a label ?r t))"
      then show ?thesis by (rule push_rule_entries)
    next
      assume "from_rules env a (concat (map rule_configs nested)) e"
      then have "from_rules env a (rule_configs ?r) e" by (rule from_rules_mono) simp
      then show ?thesis ..
    qed
  next
    case False
    with 1 show ?thesis by simp
  qed
next
  case (3 mt env a en label i r rs t)
  have m: "from_rules env a (rule_configs r) e \<Longrightarrow> from_rules env a (concat (map rule_configs (r # rs))) e"
    and m': "from_rules env a (concat (map rule_configs rs)) e \<Longrightarrow>
      from_rules env a (concat (map rule_configs (r # rs))) e"
    by (auto elim: from_rules_mono)
  obtain t1 h where v: "visitRule mt env a en (indexed label i) r t = (t1, h)" by fastforce
  show ?case
  proof (cases h)
    case True
    then show ?thesis using 3 v m by auto
  next
    case False
    then show ?thesis using 3(1) 3(2) [OF v [symmetric]] 3(3) v m m' by auto
  qed
qed simp

lemma walk_entries:
  "e \<in> set (tr_stack (fst (walkRules mt env a en rules))) \<Longrightarrow>
   from_rules env a (concat (map rule_configs rules)) e"
  unfolding walkRules_def by (drule visit_entries(2)) simp

section \<open>Resolution against its specification\<close>

definition last_set :: "string list \<Rightarrow> string" where
  "last_set xs = (case filter (\<lambda>s. s \<noteq> []) xs of [] \<Rightarrow> [] | y # ys \<Rightarrow> last (y # ys))"

definition last_directive :: "bool option list \<Rightarrow> bool" where
  "last_directive bs = (case filter (\<lambda>b. b \<noteq> None) bs of [] \<Rightarrow> False | y # ys \<Rightarrow> last (y # ys) = Some True)"

lemma last_set_snoc: "last_set (xs @ [x]) = (if x \<noteq> [] then x else last_set xs)"
  by (cases "filter (\<lambda>s. s \<noteq> []) xs") (auto simp: last_set_def)

lemma last_set_mem: "last_set xs = [] \<or> last_set xs \<in> set xs"
  by (induction xs rule: rev_induct) (auto simp: last_set_snoc, simp add: last_set_def)

lemma last_set_nonempty: "last_set xs \<noteq> [] \<longleftrightarrow> (\<exists>x \<in> set xs. x \<noteq> [])"
  by (induction xs rule: rev_induct) (auto simp: last_set_snoc, auto simp: last_set_def)

lemma fold_resolve_slack: "fold resolve_slack stack [] = last_set (map (mc_slack \<circ> st_cfg) stack)"
  by (induction stack rule: rev_induct) (auto simp: last_set_snoc resolve_slack_def, simp add: last_set_def)

lemma resolveStack_spec:
  "resolveStack stack = (last_set (map (mc_slack \<circ> st_cfg) stack),
     merged_values (map (mc_notify \<circ> st_cfg) stack))"
proof -
  have "fold (\<lambda>e. merge_layer (mc_notify (st_cfg e))) stack acc =
      fold merge_layer (map (mc_notify \<circ> st_cfg) stack) acc" for acc
    by (induction stack arbitrary: acc) auto
  then show ?thesis by (simp add: resolveStack_def fold_resolve_slack fold_merge_layers)
qed

lemma last_ignore_append:
  "last_ignore i (es @ fs) acc = last_ignore (i + length es) fs (last_ignore i es acc)"
  by (induction es arbitrary: i acc) auto

lemma last_ignore_spec: "fst (last_ignore 0 stack (False, None)) = last_directive (map st_ignore stack)"
proof (induction stack rule: rev_induct)
  case (snoc e es)
  then show ?case
    by (cases "st_ignore e") (auto simp: last_ignore_append last_directive_def split: list.splits)
qed (simp add: last_directive_def)

lemma Evaluate_sel:
  "rv_ignored (Evaluate mt rules a en env) =
     last_directive (map st_ignore (tr_stack (fst (walkRules mt env a en rules))))"
  "rv_final (Evaluate mt rules a en env) = snd (walkRules mt env a en rules)"
  "rv_ignored (Evaluate mt rules a en env) \<Longrightarrow> rv_channel (Evaluate mt rules a en env) = []"
  "rv_ignored (Evaluate mt rules a en env) \<Longrightarrow> rv_notify (Evaluate mt rules a en env) = []"
  "\<not> rv_ignored (Evaluate mt rules a en env) \<Longrightarrow>
     (rv_channel (Evaluate mt rules a en env), rv_notify (Evaluate mt rules a en env)) =
     resolveStack (tr_stack (fst (walkRules mt env a en rules)))"
  by (auto simp: Evaluate_def Let_def last_ignore_spec [symmetric] split: prod.splits)

text \<open>C33: The match tree resolves as its rules are written.  For the stack of matched layers of an
alert: the alert is ignored exactly when the deepest layer that says anything about it says so;
otherwise its channel is the one of the deepest layer that names one, and the people notified are
the values from the deepest overriding layer on, each once, in the order in which the layers first
name them.\<close>

theorem cascade_is_deepest_wins:
  "(let stack = tr_stack (fst (walkRules mt env a en rules)); r = Evaluate mt rules a en env in
    rv_ignored r = last_directive (map st_ignore stack) \<and>
    (rv_channel r, rv_notify r) =
      (if rv_ignored r then ([], [])
       else (last_set (map (mc_slack \<circ> st_cfg) stack), merged_values (map (mc_notify \<circ> st_cfg) stack))))"
  using Evaluate_sel [of mt rules a en env] by (auto simp: Let_def resolveStack_spec)

section \<open>A final rule ends the walk\<close>

lemma visitRules_halted:
  "visitRules mt env a en label i (rs @ qs) t =
    (case visitRules mt env a en label i rs t of
       (t1, halted) \<Rightarrow> if halted then (t1, True) else visitRules mt env a en label (i + length rs) qs t1)"
  by (induction rs arbitrary: i t) (auto split: prod.splits)

lemma final_rule_shields:
  assumes "whenMatches mt (ru_when r) a en" "ru_final r"
  shows "Evaluate mt (rs @ r # qs) a en env = Evaluate mt (rs @ [r]) a en env"
proof -
  have h: "snd (visitRule mt env a en label r t)" for label t
    using assms by (cases r) (auto split: prod.splits)
  have "visitRules mt env a en label i (r # qs) t = visitRules mt env a en label i [r] t" for label i t
    using h [of "indexed label i" t] by (auto split: prod.splits)
  then have "walkRules mt env a en (rs @ r # qs) = walkRules mt env a en (rs @ [r])"
    by (simp only: walkRules_def visitRules_halted)
  then show ?thesis by (simp only: Evaluate_def)
qed

section \<open>Anchoring\<close>

text \<open>
  The anchors are glued to the pattern, not put around it: of an alternation each branch gets one of
  them, and a pattern that ends in an escaped dollar gets none at its end.
\<close>

lemma alternation_is_half_anchored:
  "anchored ''warning|critical'' = ''^warning|critical$''"
  "anchored (''cost'' @ [CHR 0x5C] @ ''$'') = ''^cost'' @ [CHR 0x5C] @ ''$''"
  by code_simp+

section \<open>An annotation only selects\<close>

definition config_channels :: "am_config \<Rightarrow> string list" where
  "config_channels c = mc_slack c #
     (case mc_slack_from c of None \<Rightarrow> [] | Some src \<Rightarrow> [vsrc_default_scalar src])"

definition config_handles :: "am_config \<Rightarrow> string list" where
  "config_handles c = nl_values (mc_notify c) @
     (case mc_notify_from c of None \<Rightarrow> [] | Some src \<Rightarrow> vsrc_default_list src) @
     (case mc_notify_override_from c of None \<Rightarrow> [] | Some src \<Rightarrow> vsrc_default_list src)"

text \<open>What the configuration file itself names, literally or as a default.\<close>

definition reviewed_channels :: "am_rule list \<Rightarrow> string list" where
  "reviewed_channels rules = concat (map config_channels (concat (map rule_configs rules)))"

definition reviewed_handles :: "am_rule list \<Rightarrow> string list" where
  "reviewed_handles rules = concat (map config_handles (concat (map rule_configs rules)))"

definition selectable :: "am_env \<Rightarrow> am_config \<Rightarrow> am_config \<Rightarrow> bool" where
  "selectable env c d \<longleftrightarrow>
     (mc_slack d \<in> set (config_channels c) \<or> checkScalar env ''slack'' (mc_slack d) = None) \<and>
     (\<forall>h \<in> set (nl_values (mc_notify d)).
        h \<in> set (config_handles c) \<or> checkListEntry env ''notify'' h = None)"

lemma check_entries_kept:
  "check_entries env label field key es (kept, n, r) = (kept', n', r') \<Longrightarrow>
   kept' = kept @ filter (\<lambda>e. checkListEntry env field e = None) es"
proof (induction es arbitrary: kept n r)
  case (Cons e es)
  show ?case
  proof (cases "checkListEntry env field e")
    case None
    with Cons.prems have "check_entries env label field key es (kept @ [e], n, r) = (kept', n', r')" by simp
    from Cons.IH [OF this] None show ?thesis by simp
  next
    case (Some reason)
    with Cons.prems Cons.IH show ?thesis by fastforce
  qed
qed simp

definition source_of :: "am_config \<Rightarrow> am_value_source \<Rightarrow> bool" where
  "source_of c vs \<longleftrightarrow>
     (avs_kind vs = AMValueScalar \<and> avs_field vs = ''slack'' \<and> mc_slack_from c = Some (avs_source vs)) \<or>
     (avs_kind vs = AMValueList \<and> avs_field vs = ''notify'' \<and> mc_notify_from c = Some (avs_source vs)) \<or>
     (avs_kind vs = AMValueList \<and> avs_field vs = ''notify'' \<and>
        mc_notify_override_from c = Some (avs_source vs))"

lemma am_ValueSources_of: "vs \<in> set (am_ValueSources c) \<Longrightarrow> source_of c vs"
  by (auto simp: am_ValueSources_def am_source_def source_of_def split: option.splits)

lemma fallback_selectable:
  "source_of c vs \<Longrightarrow> selectable env c d \<Longrightarrow> selectable env c (fst (fallback label vs cs (d, r)))"
  by (auto simp: fallback_def source_of_def Let_def set_scalar_def set_list_def selectable_def
      config_channels_def config_handles_def)

lemma lower_selectable:
  assumes "source_of c vs" "selectable env c (fst cr)"
  shows "selectable env c (fst (lower env a label vs cr))"
proof -
  obtain d r where cr: "cr = (d, r)" by fastforce
  have s: "selectable env c (fst (lowerScalar env label vs raw (d, r)))" if "avs_kind vs = AMValueScalar" for raw
    using assms that cr fallback_selectable [OF assms(1), of env d]
    by (auto simp: lowerScalar_def Let_def set_scalar_def source_of_def selectable_def split: option.splits)
  have l: "selectable env c (fst (lowerList env label vs raw (d, r)))" if k: "avs_kind vs = AMValueList" for raw
  proof -
    obtain kept n r1 where e: "check_entries env label (avs_field vs)
        (vsrc_namespace_annotation (avs_source vs)) (SplitAnnotationList raw) ([], 0, r) = (kept, n, r1)"
      by (metis prod_cases3)
    have "\<forall>h \<in> set kept. checkListEntry env ''notify'' h = None"
      using check_entries_kept [OF e] assms(1) k by (auto simp: source_of_def)
    then show ?thesis
      using assms cr e k fallback_selectable [OF assms(1), of env d]
      by (auto simp: lowerList_def Let_def set_list_def source_of_def selectable_def)
  qed
  show ?thesis
    using assms cr s l fallback_selectable [OF assms(1), of env d]
    by (auto simp: lower_def split: option.splits value_kind.splits)
qed

lemma apply_sources_selectable: "selectable env c (fst (apply_sources env a label c lg))"
proof -
  have "selectable env c (fst (fold (lower env a label) vss cr))"
    if "\<forall>vs \<in> set vss. source_of c vs" "selectable env c (fst cr)" for vss cr
    using that by (induction vss arbitrary: cr) (auto simp: lower_selectable)
  moreover have "selectable env c c" by (simp add: selectable_def config_channels_def config_handles_def)
  ultimately show ?thesis by (simp add: apply_sources_def am_ValueSources_of)
qed

lemma set_merged_values: "set (merged_values ls) \<subseteq> (\<Union>l \<in> set ls. set (nl_values l))"
proof -
  have "set (from_last_override ls) \<subseteq> set ls" for ls by (induction ls) auto
  then show ?thesis by (fastforce simp: merged_values_def)
qed

lemma from_rules_selectable:
  assumes "from_rules env a (concat (map rule_configs rules)) e"
  shows "mc_slack (st_cfg e) = [] \<or> mc_slack (st_cfg e) \<in> set (reviewed_channels rules) \<or>
      checkScalar env ''slack'' (mc_slack (st_cfg e)) = None"
    and "h \<in> set (nl_values (mc_notify (st_cfg e))) \<Longrightarrow>
      h \<in> set (reviewed_handles rules) \<or> checkListEntry env ''notify'' h = None"
proof -
  let ?cs = "concat (map rule_configs rules)"
  have *: "st_cfg e = no_config \<or> (\<exists>c \<in> set ?cs. selectable env c (st_cfg e))"
    using assms apply_sources_selectable unfolding from_rules_def by metis
  then show "mc_slack (st_cfg e) = [] \<or> mc_slack (st_cfg e) \<in> set (reviewed_channels rules) \<or>
      checkScalar env ''slack'' (mc_slack (st_cfg e)) = None"
  proof
    assume "st_cfg e = no_config"
    then show ?thesis by (simp add: no_config_def)
  next
    assume "\<exists>c \<in> set ?cs. selectable env c (st_cfg e)"
    then show ?thesis unfolding selectable_def reviewed_channels_def by auto
  qed
  assume h: "h \<in> set (nl_values (mc_notify (st_cfg e)))"
  from * show "h \<in> set (reviewed_handles rules) \<or> checkListEntry env ''notify'' h = None"
  proof
    assume "st_cfg e = no_config"
    then show ?thesis using h by (simp add: no_config_def no_list_def)
  next
    assume "\<exists>c \<in> set ?cs. selectable env c (st_cfg e)"
    then show ?thesis using h unfolding selectable_def reviewed_handles_def by fastforce
  qed
qed

text \<open>Annotations are unreviewed input, and they can only select.  Whatever the namespaces carry,
the channel an alert resolves to is none, one that the configuration names itself, or a configured
channel; and everybody notified is named by the configuration itself or is a handle of the user
mapping that is not raw Slack markup.\<close>

theorem annotations_only_select:
  "(let r = Evaluate mt rules a en
      \<lparr>ev_namespaces = ns, ev_known_channel = Some known, ev_known_handle = Some handle\<rparr> in
    (rv_channel r = [] \<or> rv_channel r \<in> set (reviewed_channels rules) \<or> known (rv_channel r)) \<and>
    set (rv_notify r) \<subseteq> set (reviewed_handles rules) \<union>
      {h. handle h \<and> \<not> (has_prefix h ''<'' \<and> has_suffix h ''>'')})"
proof -
  let ?env = "\<lparr>ev_namespaces = ns, ev_known_channel = Some known, ev_known_handle = Some handle\<rparr>"
  let ?r = "Evaluate mt rules a en ?env"
  let ?stack = "tr_stack (fst (walkRules mt ?env a en rules))"
  have chan: "s = [] \<or> s \<in> set (reviewed_channels rules) \<or> known s" if "s \<in> mc_slack ` st_cfg ` set ?stack" for s
    using that from_rules_selectable(1) [OF walk_entries]
    by (fastforce simp: checkScalar_def split: if_splits)
  have hand: "h \<in> set (reviewed_handles rules) \<or> (handle h \<and> \<not> (has_prefix h ''<'' \<and> has_suffix h ''>''))"
    if "e \<in> set ?stack" "h \<in> set (nl_values (mc_notify (st_cfg e)))" for e h
    using from_rules_selectable(2) [OF walk_entries [OF that(1)] that(2)]
    by (auto simp: checkListEntry_def split: if_splits)
  show ?thesis
  proof (cases "rv_ignored ?r")
    case True
    then show ?thesis using Evaluate_sel(3,4) [OF True] by simp
  next
    case False
    from Evaluate_sel(5) [OF False]
    have c: "rv_channel ?r = last_set (map (mc_slack \<circ> st_cfg) ?stack)"
      and n: "rv_notify ?r = merged_values (map (mc_notify \<circ> st_cfg) ?stack)"
      by (simp_all add: resolveStack_spec)
    have "last_set (map (mc_slack \<circ> st_cfg) ?stack) = [] \<or>
        last_set (map (mc_slack \<circ> st_cfg) ?stack) \<in> mc_slack ` st_cfg ` set ?stack"
      using last_set_mem [of "map (mc_slack \<circ> st_cfg) ?stack"] by (simp add: image_comp)
    moreover have "set (rv_notify ?r) \<subseteq> set (reviewed_handles rules) \<union>
        {h. handle h \<and> \<not> (has_prefix h ''<'' \<and> has_suffix h ''>'')}"
      unfolding n using set_merged_values [of "map (mc_notify \<circ> st_cfg) ?stack"] hand by fastforce
    ultimately show ?thesis using chan c by (auto simp: Let_def)
  qed
qed

section \<open>An annotation never silences\<close>

text \<open>Two walks over the same rules, the first with no annotation to read.\<close>

definition louder :: "stack_entry \<Rightarrow> stack_entry \<Rightarrow> bool" where
  "louder e f \<longleftrightarrow> st_ignore f = st_ignore e \<and> (mc_slack (st_cfg e) \<noteq> [] \<longrightarrow> mc_slack (st_cfg f) \<noteq> [])"

lemma lower_list_slack:
  "avs_field vs = ''notify'' \<Longrightarrow> avs_kind vs = AMValueList \<Longrightarrow>
   mc_slack (fst (lower env a label vs cr)) = mc_slack (fst cr)"
proof -
  have f: "mc_slack (fst (fallback label vs c (d, r))) = mc_slack d"
    if "avs_field vs = ''notify''" "avs_kind vs = AMValueList" for c d r
    using that by (auto simp: fallback_def Let_def set_list_def)
  assume "avs_field vs = ''notify''" "avs_kind vs = AMValueList"
  then show ?thesis
    using f by (cases cr) (auto simp: lower_def lowerList_def Let_def set_list_def split: option.splits prod.splits)
qed

lemma apply_sources_slack:
  "mc_slack (fst (apply_sources env a label c lg)) =
     (case mc_slack_from c of None \<Rightarrow> mc_slack c
      | Some src \<Rightarrow> mc_slack (fst (lower env a label
          \<lparr>avs_field = ''slack'', avs_kind = AMValueScalar, avs_override = False, avs_source = src\<rparr> (c, lg))))"
  by (auto simp: apply_sources_def am_ValueSources_def am_source_def lower_list_slack split: option.splits)

lemma lower_slack_louder:
  assumes "avs_field vs = ''slack''" "avs_kind vs = AMValueScalar"
    and "mc_slack (fst (lower (env\<lparr>ev_namespaces := None\<rparr>) a label vs (c, lg))) \<noteq> []"
  shows "mc_slack (fst (lower env a label vs (c, lg'))) \<noteq> []"
proof -
  have fb: "mc_slack (fst (fallback label vs cs (c, r))) =
      (if vsrc_has_default (avs_source vs) then vsrc_default_scalar (avs_source vs) else mc_slack c)" for cs r
    using assms(1,2) by (simp add: fallback_def Let_def set_scalar_def)
  have trim: "TrimSpace [] = []" by (simp add: TrimSpace_def)
  have "(if vsrc_has_default (avs_source vs) then vsrc_default_scalar (avs_source vs) else mc_slack c) \<noteq> []"
    using assms(3) by (auto simp: lower_def fb trim read_source_def Let_def split: if_splits)
  then show ?thesis
    using assms(1,2)
    by (auto simp: lower_def fb lowerScalar_def Let_def set_scalar_def split: option.splits if_splits)
qed

lemma push_rule_louder:
  assumes "list_all2 louder (tr_stack t) (tr_stack t')"
  shows "list_all2 louder (tr_stack (push_rule (env\<lparr>ev_namespaces := None\<rparr>) a label r t))
    (tr_stack (push_rule env a label r t'))"
proof -
  have "mc_slack (fst (apply_sources env a label c lg')) \<noteq> []"
    if "mc_slack (fst (apply_sources (env\<lparr>ev_namespaces := None\<rparr>) a label c lg)) \<noteq> []" for c lg lg'
    using that lower_slack_louder [where vs = "\<lparr>avs_field = ''slack'', avs_kind = AMValueScalar,
      avs_override = False, avs_source = the (mc_slack_from c)\<rparr>" and c = c]
    by (auto simp: apply_sources_slack split: option.splits)
  then have "louder \<lparr>st_cfg = (case ru_config r of None \<Rightarrow> no_config
        | Some c \<Rightarrow> fst (apply_sources (env\<lparr>ev_namespaces := None\<rparr>) a label c (tr_log t))), st_ignore = ru_ignore r\<rparr>
      \<lparr>st_cfg = (case ru_config r of None \<Rightarrow> no_config
        | Some c \<Rightarrow> fst (apply_sources env a label c (tr_log t'))), st_ignore = ru_ignore r\<rparr>"
    by (cases "ru_config r") (simp_all add: louder_def)
  moreover have "tr_stack (push_rule env' a label r u) = tr_stack u @ [\<lparr>st_cfg = (case ru_config r of
      None \<Rightarrow> no_config | Some c \<Rightarrow> fst (apply_sources env' a label c (tr_log u))), st_ignore = ru_ignore r\<rparr>]"
    for env' u by (auto simp: push_rule_def Let_def split: option.splits prod.splits)
  ultimately show ?thesis using assms by (simp add: list_all2_appendI)
qed

lemma visit_louder:
  "list_all2 louder (tr_stack t) (tr_stack t') \<Longrightarrow>
     snd (visitRule mt env a en label r t') = snd (visitRule mt (env\<lparr>ev_namespaces := None\<rparr>) a en label r t) \<and>
     list_all2 louder (tr_stack (fst (visitRule mt (env\<lparr>ev_namespaces := None\<rparr>) a en label r t)))
       (tr_stack (fst (visitRule mt env a en label r t')))"
  "list_all2 louder (tr_stack t) (tr_stack t') \<Longrightarrow>
     snd (visitRules mt env a en label i rs t') = snd (visitRules mt (env\<lparr>ev_namespaces := None\<rparr>) a en label i rs t) \<and>
     list_all2 louder (tr_stack (fst (visitRules mt (env\<lparr>ev_namespaces := None\<rparr>) a en label i rs t)))
       (tr_stack (fst (visitRules mt env a en label i rs t')))"
proof (induction mt env a en label r t' and mt env a en label i rs t'
    arbitrary: t and t rule: visitRule_visitRules.induct)
  case (1 mt env a en label w ig fin cfg nested t')
  let ?n = "env\<lparr>ev_namespaces := None\<rparr>" and ?r = "AMRule w ig fin cfg nested"
  show ?case
  proof (cases "whenMatches mt w a en")
    case True
    from 1(1) [OF _ push_rule_louder [OF 1(2), of env a label ?r]] True
    show ?thesis by (simp add: split_beta)
  next
    case False
    with 1(2) show ?thesis by simp
  qed
next
  case (3 mt env a en label i r rs t')
  let ?n = "env\<lparr>ev_namespaces := None\<rparr>"
  obtain t1 h where v: "visitRule mt env a en (indexed label i) r t' = (t1, h)" by fastforce
  obtain u1 h' where u: "visitRule mt ?n a en (indexed label i) r t = (u1, h')" by fastforce
  from 3(1) [OF 3(3)] v u have hh: "h' = h" and l: "list_all2 louder (tr_stack u1) (tr_stack t1)" by auto
  show ?case using v u hh l 3(2) [OF v [symmetric] _ l] by (cases h) auto
qed simp

text \<open>No annotation can silence an alert.  Compared with the same delivery when no annotation can
be read at all, the annotations of the namespaces change neither whether the alert is ignored nor
where the walk ends, and an alert that has a channel without them has one with them.\<close>

theorem annotations_never_silence:
  "(let r = Evaluate mt rules a en env; r0 = Evaluate mt rules a en (env\<lparr>ev_namespaces := None\<rparr>) in
    rv_ignored r = rv_ignored r0 \<and> rv_final r = rv_final r0 \<and>
    (rv_channel r0 \<noteq> [] \<longrightarrow> rv_channel r \<noteq> []))"
proof -
  let ?n = "env\<lparr>ev_namespaces := None\<rparr>"
  let ?s = "tr_stack (fst (walkRules mt env a en rules))"
  let ?quiet = "tr_stack (fst (walkRules mt ?n a en rules))"
  let ?t = "\<lparr>tr_stack = [], tr_chain = [], tr_log = \<lparr>rs_provenance = [], rs_warnings = []\<rparr>\<rparr>"
  have "list_all2 louder (tr_stack ?t) (tr_stack ?t)" by simp
  from visit_louder(2) [OF this, of mt env a en "''match''" 0 rules]
  have w: "snd (walkRules mt env a en rules) = snd (walkRules mt ?n a en rules)"
    and l: "list_all2 louder ?quiet ?s"
    unfolding walkRules_def by blast+
  have "map st_ignore ?s = map st_ignore ?quiet"
    using l by (induction rule: list_all2_induct) (auto simp: louder_def)
  then have ig: "rv_ignored (Evaluate mt rules a en env) = rv_ignored (Evaluate mt rules a en ?n)"
    by (simp add: Evaluate_sel)
  have "last_set (map (mc_slack \<circ> st_cfg) ?quiet) \<noteq> [] \<longrightarrow> last_set (map (mc_slack \<circ> st_cfg) ?s) \<noteq> []"
    unfolding last_set_nonempty using l by (induction rule: list_all2_induct) (auto simp: louder_def)
  then have "rv_channel (Evaluate mt rules a en ?n) \<noteq> [] \<longrightarrow> rv_channel (Evaluate mt rules a en env) \<noteq> []"
    using ig Evaluate_sel(3,5) [of mt rules a en ?n] Evaluate_sel(3,5) [of mt rules a en env]
    by (cases "rv_ignored (Evaluate mt rules a en ?n)") (simp_all add: resolveStack_spec)
  then show ?thesis using ig w by (simp add: Let_def Evaluate_sel(2))
qed

definition sample_rules :: "am_rule list" where
  "sample_rules = [AMRule None None False (Some (no_config\<lparr>mc_slack := ''ops''\<rparr>))
     [AMRule (Some \<lparr>wn_alertname = ''Down*'', wn_alertname_regex = [], wn_labels = [], wn_receiver = [],
          wn_external_url = []\<rparr>) None True
        (Some (no_config\<lparr>mc_slack_from := Some \<lparr>vsrc_annotation = [], vsrc_namespace_annotation = ''slack'',
           vsrc_namespace_label = [], vsrc_default_scalar = [], vsrc_default_list = [],
           vsrc_has_default = False, vsrc_default_is_list = False\<rparr>\<rparr>)) []]]"

definition sample_alert :: am_alert where
  "sample_alert = \<lparr>aa_status = ''firing'', aa_labels = [(''alertname'', ''DownA''), (''namespace'', ''shop'')],
     aa_annotations = [], aa_starts_at = 5, aa_ends_at = 0, aa_generator_url = [], aa_fingerprint = ''f1''\<rparr>"

definition sample_matchers :: matchers where
  "sample_matchers = \<lparr>mt_glob = (\<lambda>p s. Some (p = ''Down*'' \<and> has_prefix s ''Down'')), mt_regex = (\<lambda>p. None)\<rparr>"

definition sample_am_env :: am_env where
  "sample_am_env = \<lparr>ev_namespaces = Some (\<lambda>ns. [(''slack'', if ns = ''shop'' then ''team '' else ''nobody'')]),
     ev_known_channel = Some (\<lambda>c. c = ''team''), ev_known_handle = None\<rparr>"

lemma annotations_never_silence_witness:
  "(let r = Evaluate sample_matchers sample_rules sample_alert \<lparr>en_receiver = [], en_external_url = []\<rparr>
      sample_am_env in rv_channel r = ''team'' \<and> rv_channel r \<noteq> [] \<and> rv_final r)"
proof -
  define r where "r = Evaluate sample_matchers sample_rules sample_alert
    \<lparr>en_receiver = [], en_external_url = []\<rparr> sample_am_env"
  define r0 where "r0 = Evaluate sample_matchers sample_rules sample_alert
    \<lparr>en_receiver = [], en_external_url = []\<rparr> (sample_am_env\<lparr>ev_namespaces := None\<rparr>)"
  have "rv_channel r0 = ''ops''" "rv_final r0"
    unfolding r0_def by code_simp+
  moreover have "rv_channel r = ''team''" unfolding r_def by code_simp
  moreover have "rv_final r = rv_final r0" "rv_channel r0 \<noteq> [] \<longrightarrow> rv_channel r \<noteq> []"
    using annotations_never_silence [of sample_matchers sample_rules sample_alert
      "\<lparr>en_receiver = [], en_external_url = []\<rparr>" sample_am_env, folded r_def r0_def]
    by (simp_all add: Let_def)
  ultimately show ?thesis unfolding r_def [symmetric] by (simp add: Let_def)
qed

end
