(* ===== verification/AM_Config.thy ===== *)
theory AM_Config
  imports AM_Match_Claims Slugs Limiter
begin

text \<open>
  The Alertmanager block of the configuration (\<^verbatim>\<open>internal/config/alertmanager.go\<close>): its defaults and
  its validation.  An error is its path and its kind; the message text and the line it points at are
  not modelled.  \<open>qualified\<close> is the Kubernetes library's \<^verbatim>\<open>IsQualifiedName\<close> with no complaint.
\<close>

section \<open>The block\<close>

record am_endpoint =
  ep_path :: string
  ep_token_env :: string

record am_settings =
  as_endpoint :: am_endpoint
  as_retention_days :: int
  as_rate_limit :: rate_limit_config
  as_match :: "am_rule list"

definition applyAlertmanagerDefaults :: "am_settings \<Rightarrow> am_settings" where
  "applyAlertmanagerDefaults am =
    (let am = (if ep_path (as_endpoint am) = []
           then am\<lparr>as_endpoint := (as_endpoint am)\<lparr>ep_path := ''/webhooks/alertmanager''\<rparr>\<rparr> else am);
         am = (if as_retention_days am = 0 then am\<lparr>as_retention_days := 180\<rparr> else am);
         rl = as_rate_limit am
     in if rl_per_channel rl = 0 \<and> rl_window rl = 0 \<and> rl_notice_every rl = 0
        then am\<lparr>as_rate_limit := \<lparr>rl_per_channel = 10, rl_window = 30 * minute, rl_notice_every = 24 * hour\<rparr>\<rparr>
        else am)"

section \<open>Validation\<close>

datatype config_error =
    BadPath | TokenEnvRequired | BadTokenEnv | NegativeRetention | NegativePerChannel
  | BadRateWindow | BadNoticeEvery | NoRules | RootWhenNotEmpty | RootSlackRequired
  | RootDefaultRequired | FinalNeedsSelector | LiteralAndSource | AnnotationScope
  | NamespaceAnnotationRequired | BadAnnotationKey | NeedsKube | BadLabelName
  | NeedsUserMapping | BothNotifySources | DefaultIsList | UnknownChannelSlug string
  | BadNotifyEntry string | BothAlertnames | BadGlob string | BadRegex string
  | LabelTwin string | BadLabelKey string

type_synonym path_error = "string list \<times> config_error"

record check_env =
  ce_matchers :: matchers
  ce_qualified :: "string \<Rightarrow> bool"
  ce_channels :: "string list"
  ce_user_mapping :: "(string, string) gomap"
  ce_kube :: bool

definition err_if :: "bool \<Rightarrow> string list \<Rightarrow> 'e \<Rightarrow> (string list \<times> 'e) list" where
  "err_if b path e = (if b then [(path, e)] else [])"

definition lower_digit :: "char \<Rightarrow> bool" where
  "lower_digit c \<longleftrightarrow> is_lower c \<or> is_digit c \<or> c = CHR ''_'' \<or> c = CHR ''-''"

definition path_pattern :: "string \<Rightarrow> bool" where
  "path_pattern p \<longleftrightarrow> has_prefix p ''/webhooks/'' \<and> drop 10 p \<noteq> [] \<and> list_all lower_digit (drop 10 p)"

definition env_var_pattern :: "string \<Rightarrow> bool" where
  "env_var_pattern s = (case s of [] \<Rightarrow> False | c # cs \<Rightarrow>
     is_upper c \<and> list_all (\<lambda>c. is_upper c \<or> is_digit c \<or> c = CHR ''_'') cs)"

definition label_name_pattern :: "string \<Rightarrow> bool" where
  "label_name_pattern s = (case s of [] \<Rightarrow> False | c # cs \<Rightarrow>
     (is_upper c \<or> is_lower c \<or> c = CHR ''_'') \<and>
     list_all (\<lambda>c. is_upper c \<or> is_lower c \<or> is_digit c \<or> c = CHR ''_'') cs)"

definition isRawSlackMarkup :: "string \<Rightarrow> bool" where
  "isRawSlackMarkup s \<longleftrightarrow> 2 \<le> length s \<and> hd s = CHR ''<'' \<and> last s = CHR ''>''"

definition isValidNotifyEntry :: "(string, string) gomap \<Rightarrow> string \<Rightarrow> bool" where
  "isValidNotifyEntry mapping s \<longleftrightarrow> gm_get mapping s \<noteq> None \<or> isRawSlackMarkup s"

definition alertmanagerWhenIsEmpty :: "am_when option \<Rightarrow> bool" where
  "alertmanagerWhenIsEmpty w = (case w of None \<Rightarrow> True | Some w \<Rightarrow>
     wn_alertname w = [] \<and> wn_alertname_regex w = [] \<and> wn_labels w = [] \<and> wn_receiver w = [] \<and>
     wn_external_url w = [])"

definition isSetLiterally :: "am_config \<Rightarrow> string \<Rightarrow> bool" where
  "isSetLiterally c field =
    (if field = ''slack'' then mc_slack c \<noteq> []
     else if field = ''notify'' then nl_values (mc_notify c) \<noteq> [] \<or> nl_override (mc_notify c)
     else False)"

definition is_regex_key :: "string \<Rightarrow> bool" where
  "is_regex_key k \<longleftrightarrow> has_suffix k LabelRegexSuffix \<and> k \<noteq> LabelRegexSuffix"

definition bad_entries :: "check_env \<Rightarrow> string list \<Rightarrow> string list \<Rightarrow> path_error list" where
  "bad_entries ce base entries = concat (map (\<lambda>(i, n).
     err_if (\<not> isValidNotifyEntry (ce_user_mapping ce) n) (base @ [itoa (int i)]) (BadNotifyEntry n))
     (enumerate 0 entries))"

definition source_key :: "am_value_source \<Rightarrow> string" where
  "source_key vs = (if avs_field vs = ''slack'' then ''slackFrom''
     else if avs_override vs then ''notifyOverrideFrom'' else ''notifyFrom'')"

definition validateValueSourceDefault :: "check_env \<Rightarrow> am_value_source \<Rightarrow> string list \<Rightarrow> path_error list" where
  "validateValueSourceDefault ce vs vbase =
    (let dbase = vbase @ [''default'']; src = avs_source vs in
     if avs_kind vs = AMValueScalar \<and> vsrc_default_is_list src then [(dbase, DefaultIsList)]
     else if avs_field vs = ''slack''
     then err_if (vsrc_default_scalar src \<notin> set (ce_channels ce)) dbase (UnknownChannelSlug (vsrc_default_scalar src))
     else if avs_field vs = ''notify'' then bad_entries ce dbase (vsrc_default_list src)
     else [])"

definition validateValueSource :: "check_env \<Rightarrow> am_config \<Rightarrow> string list \<Rightarrow> am_value_source \<Rightarrow> path_error list" where
  "validateValueSource ce c base vs =
    (let vbase = base @ [source_key vs]; src = avs_source vs in
     err_if (isSetLiterally c (avs_field vs)) vbase LiteralAndSource @
     err_if (vsrc_annotation src \<noteq> []) vbase AnnotationScope @
     (if vsrc_namespace_annotation src = [] then [(vbase, NamespaceAnnotationRequired)]
      else err_if (\<not> ce_qualified ce (vsrc_namespace_annotation src)) vbase BadAnnotationKey @
        err_if (\<not> ce_kube ce) vbase NeedsKube) @
     err_if (vsrc_namespace_label src \<noteq> [] \<and> \<not> label_name_pattern (vsrc_namespace_label src))
       (vbase @ [''namespaceLabel'']) BadLabelName @
     err_if (avs_field vs = ''notify'' \<and> ce_user_mapping ce = []) vbase NeedsUserMapping @
     (if vsrc_has_default src then validateValueSourceDefault ce vs vbase else []))"

definition validateAlertmanagerValueSources :: "check_env \<Rightarrow> am_config \<Rightarrow> string list \<Rightarrow> path_error list" where
  "validateAlertmanagerValueSources ce c base =
     concat (map (validateValueSource ce c base) (am_ValueSources c)) @
     err_if (mc_notify_from c \<noteq> None \<and> mc_notify_override_from c \<noteq> None)
       (base @ [''notifyOverrideFrom'']) BothNotifySources"

definition validateAlertmanagerConfig :: "check_env \<Rightarrow> am_config \<Rightarrow> string list \<Rightarrow> path_error list" where
  "validateAlertmanagerConfig ce c base =
     err_if (mc_slack c \<noteq> [] \<and> mc_slack c \<notin> set (ce_channels ce)) (base @ [''slack''])
       (UnknownChannelSlug (mc_slack c)) @
     bad_entries ce (base @ [''notify'']) (nl_values (mc_notify c))"

definition validateAlertmanagerWhen :: "check_env \<Rightarrow> am_when \<Rightarrow> string list \<Rightarrow> path_error list" where
  "validateAlertmanagerWhen ce w base =
    (let glob_bad = (\<lambda>p. mt_glob (ce_matchers ce) p [] = None);
         regex_bad = (\<lambda>p. mt_regex (ce_matchers ce) p = None);
         keys = map fst (wn_labels w);
         regex_keys = map (\<lambda>k. trim_suffix k LabelRegexSuffix) (filter is_regex_key keys) in
     err_if (wn_alertname w \<noteq> [] \<and> wn_alertname_regex w \<noteq> []) base BothAlertnames @
     err_if (wn_alertname w \<noteq> [] \<and> glob_bad (wn_alertname w)) (base @ [''alertname''])
       (BadGlob (wn_alertname w)) @
     err_if (wn_alertname_regex w \<noteq> [] \<and> regex_bad (wn_alertname_regex w))
       (base @ [''alertnameRegex'']) (BadRegex (wn_alertname_regex w)) @
     concat (map (\<lambda>k. err_if (k \<in> set regex_keys) (base @ [''labels'']) (LabelTwin k))
       (filter (\<lambda>k. \<not> is_regex_key k) keys)) @
     concat (map (\<lambda>(k, v). (let bare = (if is_regex_key k then trim_suffix k LabelRegexSuffix else k) in
         err_if (\<not> ce_qualified ce bare) (base @ [''labels'', k]) (BadLabelKey bare) @
         (if is_regex_key k then err_if (regex_bad v) (base @ [''labels'', k]) (BadRegex v)
          else err_if (v \<noteq> [] \<and> glob_bad v) (base @ [''labels'', k]) (BadGlob v)))) (wn_labels w)))"

fun validateAlertmanagerRule :: "check_env \<Rightarrow> am_rule \<Rightarrow> string list \<Rightarrow> path_error list"
  and validateAlertmanagerRules :: "check_env \<Rightarrow> nat \<Rightarrow> am_rule list \<Rightarrow> string list \<Rightarrow> path_error list" where
  "validateAlertmanagerRule ce (AMRule w ig fin cfg nested) base =
     (case w of None \<Rightarrow> [] | Some w \<Rightarrow> validateAlertmanagerWhen ce w (base @ [''when''])) @
     err_if (fin \<and> alertmanagerWhenIsEmpty w) (base @ [''final'']) FinalNeedsSelector @
     (case cfg of None \<Rightarrow> [] | Some c \<Rightarrow>
        validateAlertmanagerConfig ce c (base @ [''config'']) @
        validateAlertmanagerValueSources ce c (base @ [''config''])) @
     validateAlertmanagerRules ce 0 nested (base @ [''nested''])"
| "validateAlertmanagerRules ce i [] base = []"
| "validateAlertmanagerRules ce i (r # rs) base =
     validateAlertmanagerRule ce r (base @ [itoa (int i)]) @ validateAlertmanagerRules ce (Suc i) rs base"

definition root_errors :: "am_rule \<Rightarrow> string list \<Rightarrow> path_error list" where
  "root_errors root base =
     err_if (\<not> alertmanagerWhenIsEmpty (ru_when root)) (base @ [''match'', ''0'', ''when'']) RootWhenNotEmpty @
     (let p = base @ [''match'', ''0'', ''config'', ''slack''] in case ru_config root of
        None \<Rightarrow> [(p, RootSlackRequired)]
      | Some c \<Rightarrow> if mc_slack c \<noteq> [] then []
          else (case mc_slack_from c of None \<Rightarrow> [(p, RootSlackRequired)]
            | Some src \<Rightarrow> err_if (\<not> vsrc_has_default src)
                (base @ [''match'', ''0'', ''config'', ''slackFrom'', ''default'']) RootDefaultRequired))"

definition validateAlertmanager :: "check_env \<Rightarrow> am_settings \<Rightarrow> path_error list" where
  "validateAlertmanager ce am =
    (let base = [''alertmanager'']; ep = as_endpoint am; rl = as_rate_limit am in
     err_if (\<not> path_pattern (ep_path ep)) (base @ [''endpoint'', ''path'']) BadPath @
     (if ep_token_env ep = [] then [(base @ [''endpoint'', ''tokenEnv''], TokenEnvRequired)]
      else err_if (\<not> env_var_pattern (ep_token_env ep)) (base @ [''endpoint'', ''tokenEnv'']) BadTokenEnv) @
     err_if (as_retention_days am < 0) (base @ [''retentionDays'']) NegativeRetention @
     err_if (rl_per_channel rl < 0) (base @ [''rateLimit'', ''perChannel'']) NegativePerChannel @
     (if 0 < rl_per_channel rl then
        err_if (rl_window rl \<le> 0) (base @ [''rateLimit'', ''window'']) BadRateWindow @
        err_if (rl_notice_every rl \<le> 0) (base @ [''rateLimit'', ''noticeEvery'']) BadNoticeEvery
      else []) @
     (case as_match am of [] \<Rightarrow> [(base @ [''match''], NoRules)]
      | root # rest \<Rightarrow> root_errors root base @
          validateAlertmanagerRules ce 0 (as_match am) (base @ [''match''])))"

section \<open>A validated tree routes every alert\<close>

lemma err_if_Nil [simp]: "err_if b p e = [] \<longleftrightarrow> \<not> b"
  by (simp add: err_if_def)

definition config_valid :: "check_env \<Rightarrow> am_config \<Rightarrow> bool" where
  "config_valid ce c \<longleftrightarrow> (\<exists>p. validateAlertmanagerConfig ce c p = [] \<and> validateAlertmanagerValueSources ce c p = [])"

lemma validated_configs:
  "validateAlertmanagerRule ce r base = [] \<Longrightarrow> c \<in> set (rule_configs r) \<Longrightarrow> config_valid ce c"
  "validateAlertmanagerRules ce i rs base = [] \<Longrightarrow> c \<in> set (concat (map rule_configs rs)) \<Longrightarrow> config_valid ce c"
proof (induction ce r base and ce i rs base arbitrary: and rule: validateAlertmanagerRule_validateAlertmanagerRules.induct)
  case (1 ce w ig fin cfg nested base)
  then show ?case unfolding config_valid_def by (auto split: option.splits)
qed auto

lemma config_valid_slack:
  assumes "config_valid ce c"
  shows "mc_slack c = [] \<or> mc_slack c \<in> set (ce_channels ce)"
    and "mc_slack_from c = Some src \<Longrightarrow> mc_slack c = []"
    and "mc_slack_from c = Some src \<Longrightarrow> vsrc_has_default src \<Longrightarrow> vsrc_default_scalar src \<in> set (ce_channels ce)"
  using assms
  by (auto simp: config_valid_def validateAlertmanagerConfig_def validateAlertmanagerValueSources_def
      am_ValueSources_def am_source_def validateValueSource_def validateValueSourceDefault_def
      isSetLiterally_def Let_def split: if_splits)

text \<open>A validated block never sources its channel from anything but a configured one.\<close>

lemma lowered_channel:
  assumes v: "config_valid ce c" and k: "ev_known_channel env = Some (\<lambda>s. s \<in> set (ce_channels ce))"
  shows "mc_slack (fst (apply_sources env a label c lg)) = [] \<or>
         mc_slack (fst (apply_sources env a label c lg)) \<in> set (ce_channels ce)"
    and "(\<exists>src. mc_slack_from c = Some src \<and> vsrc_has_default src) \<or> mc_slack c \<noteq> [] \<Longrightarrow> [] \<notin> set (ce_channels ce) \<Longrightarrow>
         mc_slack (fst (apply_sources env a label c lg)) \<noteq> []"
proof -
  have one: "mc_slack (fst (apply_sources env a label c lg)) = mc_slack c" if "mc_slack_from c = None"
    using that by (simp add: apply_sources_slack)
  have two: "mc_slack (fst (apply_sources env a label c lg)) \<in> set (ce_channels ce) \<or>
      \<not> vsrc_has_default src \<and> mc_slack (fst (apply_sources env a label c lg)) = []"
    if s: "mc_slack_from c = Some src" for src
    using config_valid_slack(2) [OF v s] config_valid_slack(3) [OF v s] k
    by (auto simp: apply_sources_slack s lower_def fallback_def lowerScalar_def checkScalar_def
        set_scalar_def Let_def split: option.splits if_splits)
  show "mc_slack (fst (apply_sources env a label c lg)) = [] \<or>
      mc_slack (fst (apply_sources env a label c lg)) \<in> set (ce_channels ce)"
    using one two config_valid_slack(1) [OF v] by (cases "mc_slack_from c") auto
  assume "(\<exists>src. mc_slack_from c = Some src \<and> vsrc_has_default src) \<or> mc_slack c \<noteq> []"
    and "[] \<notin> set (ce_channels ce)"
  then show "mc_slack (fst (apply_sources env a label c lg)) \<noteq> []"
    using one two config_valid_slack(2) [OF v] by (cases "mc_slack_from c") auto
qed

text \<open>The layers of a walk only grow.\<close>

lemma visit_grows:
  "\<exists>more. tr_stack (fst (visitRule mt env a en label r t)) = tr_stack t @ more"
  "\<exists>more. tr_stack (fst (visitRules mt env a en label i rs t)) = tr_stack t @ more"
proof (induction mt env a en label r t and mt env a en label i rs t rule: visitRule_visitRules.induct)
  case (1 mt env a en label w ig fin cfg nested t)
  have "\<exists>more. tr_stack (push_rule env a label (AMRule w ig fin cfg nested) t) = tr_stack t @ more"
    by (auto simp: push_rule_def Let_def split: prod.splits)
  with 1 show ?case by (auto split: prod.splits)
next
  case (3 mt env a en label i r rs t)
  obtain t1 h where v: "visitRule mt env a en (indexed label i) r t = (t1, h)" by fastforce
  show ?case using 3(1) 3(2) [OF v [symmetric]] v by (cases h) auto
qed simp

lemma empty_when_matches: "alertmanagerWhenIsEmpty w \<Longrightarrow> whenMatches mt w a en"
  by (cases w) (auto simp: alertmanagerWhenIsEmpty_def whenMatches_def)

lemma root_layer:
  assumes "alertmanagerWhenIsEmpty (ru_when root)" "ru_config root = Some c"
  shows "\<exists>e more. tr_stack (fst (walkRules mt env a en (root # rest))) = e # more \<and>
     (\<exists>label lg. st_cfg e = fst (apply_sources env a label c lg))"
proof -
  let ?t = "\<lparr>tr_stack = [], tr_chain = [], tr_log = \<lparr>rs_provenance = [], rs_warnings = []\<rparr>\<rparr>"
  obtain w ig fin nested where root: "root = AMRule w ig fin (Some c) nested"
    using assms(2) by (cases root) auto
  let ?p = "push_rule env a (indexed ''match'' 0) root ?t"
  have m: "whenMatches mt w a en" using assms(1) root empty_when_matches by simp
  have m1: "\<exists>more1. tr_stack (fst (visitRule mt env a en (indexed ''match'' 0) root ?t)) = tr_stack ?p @ more1"
    using visit_grows(2) [of mt env a en "indexed ''match'' 0 @ ''.nested''" 0 nested ?p] m
    by (simp add: root split_beta)
  have "\<exists>more2. tr_stack (fst (walkRules mt env a en (root # rest))) =
      tr_stack (fst (visitRule mt env a en (indexed ''match'' 0) root ?t)) @ more2"
    using visit_grows(2) [of mt env a en "''match''" "Suc 0" rest]
    by (auto simp: walkRules_def split: prod.splits)
  moreover have "\<exists>e. tr_stack ?p = [e] \<and> (\<exists>label lg. st_cfg e = fst (apply_sources env a label c lg))"
    by (auto simp: push_rule_def root Let_def split: prod.splits) (metis fst_conv)
  ultimately show ?thesis using m1 by fastforce
qed

text \<open>C10: A configuration that the loader accepts routes every alert.  Whatever an alert carries and
whatever its namespace's annotations say, it is either ignored by a rule or resolved to a channel that
is configured, so the webhook never meets an unknown channel at run time.\<close>

theorem validated_tree_always_routes:
  assumes "validateAlertmanager ce am = []" and "[] \<notin> set (ce_channels ce)"
    and "ev_known_channel env = Some (\<lambda>s. s \<in> set (ce_channels ce))"
  shows "rv_ignored (Evaluate mt (as_match am) a en env) \<or>
         rv_channel (Evaluate mt (as_match am) a en env) \<in> set (ce_channels ce)"
proof (cases "rv_ignored (Evaluate mt (as_match am) a en env)")
  case False
  obtain root rest where match: "as_match am = root # rest"
    using assms(1) by (cases "as_match am") (auto simp: validateAlertmanager_def Let_def)
  then have rules: "validateAlertmanagerRules ce 0 (root # rest) [''alertmanager'', ''match''] = []"
    and re: "root_errors root [''alertmanager''] = []"
    using assms(1) by (auto simp: validateAlertmanager_def Let_def)
  obtain c where c: "ru_config root = Some c" "alertmanagerWhenIsEmpty (ru_when root)"
    and set: "(\<exists>src. mc_slack_from c = Some src \<and> vsrc_has_default src) \<or> mc_slack c \<noteq> []"
    using re by (auto simp: root_errors_def Let_def split: option.splits if_splits)
  let ?stack = "tr_stack (fst (walkRules mt env a en (root # rest)))"
  have valid: "config_valid ce d" if "d \<in> set (concat (map rule_configs (root # rest)))" for d
    using validated_configs(2) [OF rules that] .
  have all: "mc_slack (st_cfg e) = [] \<or> mc_slack (st_cfg e) \<in> set (ce_channels ce)" if "e \<in> set ?stack" for e
    using walk_entries [OF that] lowered_channel(1) [OF valid assms(3)]
    unfolding from_rules_def by (metis am_config.simps(1) no_config_def)
  have "c \<in> set (concat (map rule_configs (root # rest)))" using c by (cases root) auto
  from lowered_channel(2) [OF valid [OF this] assms(3) set assms(2)] root_layer [OF c(2,1)]
  obtain e where e: "e \<in> set ?stack" "mc_slack (st_cfg e) \<noteq> []"
    by (metis list.set_intros(1))
  have "last_set (map (mc_slack \<circ> st_cfg) ?stack) \<noteq> []"
    using e by (auto simp: last_set_nonempty)
  moreover from this obtain e' where "e' \<in> set ?stack"
      "last_set (map (mc_slack \<circ> st_cfg) ?stack) = mc_slack (st_cfg e')"
    using last_set_mem [of "map (mc_slack \<circ> st_cfg) ?stack"] by (auto simp: image_iff)
  ultimately have "last_set (map (mc_slack \<circ> st_cfg) ?stack) \<in> set (ce_channels ce)"
    using all by metis
  then show ?thesis
    using Evaluate_sel(5) [OF False] match by (simp add: resolveStack_spec)
qed simp

definition sample_check_env :: check_env where
  "sample_check_env = \<lparr>ce_matchers = sample_matchers, ce_qualified = (\<lambda>k. k \<noteq> []),
     ce_channels = [''ops'', ''team''], ce_user_mapping = [(''ann'', ''U1'')], ce_kube = True\<rparr>"

definition sample_settings :: am_settings where
  "sample_settings = applyAlertmanagerDefaults
    \<lparr>as_endpoint = \<lparr>ep_path = [], ep_token_env = ''AM_TOKEN''\<rparr>, as_retention_days = 30,
     as_rate_limit = \<lparr>rl_per_channel = 0, rl_window = 0, rl_notice_every = 0\<rparr>, as_match = sample_rules\<rparr>"

lemma validated_tree_always_routes_witness:
  "(let r = Evaluate sample_matchers (as_match sample_settings) sample_alert
      \<lparr>en_receiver = [], en_external_url = []\<rparr>
      (sample_am_env\<lparr>ev_known_channel := Some (\<lambda>s. s \<in> set (ce_channels sample_check_env))\<rparr>) in
    \<not> rv_ignored r \<and> rv_channel r = ''team'' \<and> rv_channel r \<in> set (ce_channels sample_check_env))"
proof -
  let ?env = "sample_am_env\<lparr>ev_known_channel := Some (\<lambda>s. s \<in> set (ce_channels sample_check_env))\<rparr>"
  define r where "r = Evaluate sample_matchers (as_match sample_settings) sample_alert
      \<lparr>en_receiver = [], en_external_url = []\<rparr> ?env"
  have "validateAlertmanager sample_check_env sample_settings = []"
    and "[] \<notin> set (ce_channels sample_check_env)" by code_simp+
  then have "rv_ignored r \<or> rv_channel r \<in> set (ce_channels sample_check_env)"
    unfolding r_def by (rule validated_tree_always_routes) simp
  moreover have "\<not> rv_ignored r" "rv_channel r = ''team''" unfolding r_def by code_simp+
  ultimately show ?thesis unfolding r_def [symmetric] by (simp add: Let_def)
qed

text \<open>
  The defaults take an explicit zero for an absent value: a retention of zero days, which the schema
  documents as keeping everything, becomes 180 days, and a limit of zero alone, documented as
  disabling the breaker, becomes the default limit.
\<close>

lemma explicit_zeros_are_rewritten:
  "as_retention_days am = 0 \<Longrightarrow> as_retention_days (applyAlertmanagerDefaults am) = 180"
  "as_rate_limit am = \<lparr>rl_per_channel = 0, rl_window = 0, rl_notice_every = 0\<rparr> \<Longrightarrow>
   rl_per_channel (as_rate_limit (applyAlertmanagerDefaults am)) = 10"
  by (simp_all add: applyAlertmanagerDefaults_def Let_def)

end
