(* ===== verification/AM_Handler.thy ===== *)
theory AM_Handler
  imports AM_Config Store_Incidents Notifier
begin

text \<open>
  The Alertmanager webhook (\<^verbatim>\<open>internal/alertmanager/handler.go\<close>) and its retention sweeper
  (\<^verbatim>\<open>sweeper.go\<close>): the request's gates, the batch, and the firing and resolved branches of one
  alert with their calls on the store, the flood breaker and Slack.  A message is the input its
  builder gets.  The workers of a batch are serialised in the order of its list; each alert has its
  own two readings of the clock.  Log lines are left out.
\<close>

section \<open>Messages, metrics, state\<close>

record am_open_input =
  ao_alert :: am_alert
  ao_mentions :: "string list"
  ao_detail_url :: string
  ao_receiver :: string
  ao_external_url :: string

record am_resolve_input =
  ar_open :: am_open_input
  ar_resolved_at :: time
  ar_downtime :: duration

datatype am_message =
    AMOpen am_open_input
  | AMResolveEdit am_resolve_input
  | AMResolveReply am_resolve_input
  | AMLateResolve am_resolve_input
  | AMThrottleNotice string nat int duration

datatype am_request =
    AMPost string string string am_message \<comment> \<open>token, channel, thread (empty: a new parent), content\<close>
  | AMEdit string string string am_message

datatype am_metric =
    AMWebhookRequest string string
  | AMAlertProcessed string string
  | AMSlackPost string string
  | AMRateLimitDrop string
  | AMLateResolved
  | AMWebhookLatency duration
  | AMBatchSize nat
  | AMValueSourceRejected string warning_code

text \<open>Each request that was sent is kept with whether Slack accepted it.\<close>

record am_world =
  aw_db :: db
  aw_limiter :: limiter
  aw_answers :: "(client_error + string \<times> string) list"
  aw_sent :: "(am_request \<times> bool) list"
  aw_metrics :: "am_metric list"

record handler =
  hd_match :: "am_rule list"
  hd_rate :: rate_limit_config
  hd_token :: string
  hd_channels :: "string \<Rightarrow> channel_info option"
  hd_mentions :: "string list \<Rightarrow> string list"
  hd_body_max :: nat
  hd_public_base :: string
  hd_observer :: bool
  hd_env :: am_env

section \<open>Construction\<close>

record handler_options =
  ho_config :: "am_settings option"
  ho_repo :: bool
  ho_slack_client :: bool
  ho_channels :: "(string \<Rightarrow> channel_info option) option"
  ho_mentions :: "(string list \<Rightarrow> string list) option"
  ho_observer :: bool
  ho_public_base :: string
  ho_user_mapping :: "(string, string) gomap option"

datatype handler_error =
    ConfigRequired | RepoRequired | SlackClientRequired | ChannelsRequired | MentionsRequired
  | TokenEnvMissing | EnvVarEmpty string | LimiterPanics limiter_panic

definition knownHandle :: "(string, string) gomap option \<Rightarrow> (string \<Rightarrow> bool) option" where
  "knownHandle mapping = map_option (\<lambda>m s. gm_get m s \<noteq> None) mapping"

definition NewHandler :: "(string \<Rightarrow> string) \<Rightarrow> handler_options \<Rightarrow> handler_error + handler \<times> limiter" where
  "NewHandler getenv opts = (case ho_config opts of
      None \<Rightarrow> Inl ConfigRequired
    | Some cfg \<Rightarrow>
       if \<not> ho_repo opts then Inl RepoRequired
       else if \<not> ho_slack_client opts then Inl SlackClientRequired
       else (case ho_channels opts of None \<Rightarrow> Inl ChannelsRequired
        | Some channels \<Rightarrow> (case ho_mentions opts of None \<Rightarrow> Inl MentionsRequired
          | Some mentions \<Rightarrow>
             (let env = ep_token_env (as_endpoint cfg); tok = getenv env in
              if env = [] then Inl TokenEnvMissing
              else if tok = [] then Inl (EnvVarEmpty env)
              else (case NewLimiter (as_rate_limit cfg) of
                  Inl p \<Rightarrow> Inl (LimiterPanics p)
                | Inr l \<Rightarrow> Inr (\<lparr>hd_match = as_match cfg, hd_rate = as_rate_limit cfg, hd_token = tok,
                    hd_channels = channels, hd_mentions = mentions, hd_body_max = 10 * 1024 * 1024,
                    hd_public_base = ho_public_base opts, hd_observer = ho_observer opts,
                    hd_env = \<lparr>ev_namespaces = None, ev_known_channel = Some (\<lambda>s. channels s \<noteq> None),
                      ev_known_handle = knownHandle (ho_user_mapping opts)\<rparr>\<rparr>, l))))))"

definition SetNamespaceAnnotationSource :: "(string \<Rightarrow> (string, string) gomap) option \<Rightarrow> handler \<Rightarrow> handler" where
  "SetNamespaceAnnotationSource src h = h\<lparr>hd_env := (hd_env h)\<lparr>ev_namespaces := src\<rparr>\<rparr>"

section \<open>Effects\<close>

definition am_observe :: "handler \<Rightarrow> am_metric list \<Rightarrow> am_world \<Rightarrow> am_world" where
  "am_observe h ms w = (if hd_observer h then w\<lparr>aw_metrics := aw_metrics w @ ms\<rparr> else w)"

definition am_call :: "am_request \<Rightarrow> am_world \<Rightarrow> am_world \<times> (client_error + string \<times> string)" where
  "am_call r w = (case aw_answers w of
      [] \<Rightarrow> (w\<lparr>aw_sent := aw_sent w @ [(r, False)]\<rparr>, Inl ClientOther)
    | a # rest \<Rightarrow> (w\<lparr>aw_sent := aw_sent w @ [(r, case a of Inl _ \<Rightarrow> False | Inr _ \<Rightarrow> True)],
                    aw_answers := rest\<rparr>, a))"

definition am_store_op :: "(db \<Rightarrow> db \<times> 'a) \<Rightarrow> am_world \<Rightarrow> am_world \<times> 'a" where
  "am_store_op f w = (case f (aw_db w) of (d, r) \<Rightarrow> (w\<lparr>aw_db := d\<rparr>, r))"

definition slackFailReason :: "client_error \<Rightarrow> string" where
  "slackFailReason e = (case e of ClientSlack se \<Rightarrow> kind_String (sl_kind se) | _ \<Rightarrow> ''unknown'')"

definition am_detailURL :: "handler \<Rightarrow> nat \<Rightarrow> string" where
  "am_detailURL h i = (if hd_public_base h = [] then [] else hd_public_base h @ ''/alert/'' @ itoa (int i))"

definition rawAlertOrEmpty :: "string \<Rightarrow> string" where
  "rawAlertOrEmpty raw = (if raw = [] then ''{}'' else raw)"

text \<open>Exactly one of the three is 1.\<close>

record alert_outcome =
  oc_processed :: nat
  oc_dropped :: nat
  oc_failed :: nat

definition outcome_processed :: alert_outcome where
  "outcome_processed = \<lparr>oc_processed = 1, oc_dropped = 0, oc_failed = 0\<rparr>"

definition outcome_dropped :: alert_outcome where
  "outcome_dropped = \<lparr>oc_processed = 0, oc_dropped = 1, oc_failed = 0\<rparr>"

definition outcome_failed :: alert_outcome where
  "outcome_failed = \<lparr>oc_processed = 0, oc_dropped = 0, oc_failed = 1\<rparr>"

definition post_failed :: "handler \<Rightarrow> string \<Rightarrow> client_error \<Rightarrow> am_world \<Rightarrow> am_world \<times> alert_outcome" where
  "post_failed h what e w =
     (am_observe h [AMSlackPost ''fail'' (slackFailReason e), AMAlertProcessed ''fail'' what] w, outcome_failed)"

definition alertname :: "am_alert \<Rightarrow> string" where
  "alertname a = gm_get0 [] (aa_labels a) ''alertname''"

section \<open>Firing\<close>

definition incident_insert :: "am_alert \<Rightarrow> envelope \<Rightarrow> resolved \<Rightarrow> am_insert" where
  "incident_insert a en r =
    \<lparr>ai_fingerprint = aa_fingerprint a, ai_alertname = alertname a, ai_labels = aa_labels a,
     ai_annotations = aa_annotations a, ai_started_at = aa_starts_at a, ai_channel_slug = rv_channel r,
     ai_rule_chain = rv_rule_chain r, ai_resolved_notify = rv_notify r,
     ai_external_url = en_external_url en, ai_receiver = en_receiver en\<rparr>"

definition open_input :: "handler \<Rightarrow> am_alert \<Rightarrow> envelope \<Rightarrow> resolved \<Rightarrow> string \<Rightarrow> am_open_input" where
  "open_input h a en r url =
    \<lparr>ao_alert = a, ao_mentions = hd_mentions h (rv_notify r), ao_detail_url = url,
     ao_receiver = en_receiver en, ao_external_url = en_external_url en\<rparr>"

definition post_open :: "handler \<Rightarrow> am_alert \<Rightarrow> envelope \<Rightarrow> resolved \<Rightarrow> channel_info \<Rightarrow> nat \<Rightarrow> am_world
    \<Rightarrow> am_world \<times> alert_outcome" where
  "post_open h a en r ch i w =
    (case am_call (AMPost (chi_token ch) (chi_id ch) [] (AMOpen (open_input h a en r (am_detailURL h i)))) w of
       (w1, Inl e) \<Rightarrow> post_failed h ''slack_post'' e w1
     | (w1, Inr (channel, ts)) \<Rightarrow>
        (am_observe h [AMSlackPost ''success'' ''ok'', AMAlertProcessed ''success'' ''ok'']
           (fst (am_store_op (UpdateAMSlackRef i channel ts) w1)), outcome_processed))"

definition handleFiring :: "handler \<Rightarrow> am_alert \<Rightarrow> envelope \<Rightarrow> resolved \<Rightarrow> channel_info \<Rightarrow> string \<Rightarrow> am_world
    \<Rightarrow> am_world \<times> alert_outcome" where
  "handleFiring h a en r ch raw w =
    (case am_store_op (InsertOpenAMIncident (incident_insert a en r)) w of
       (w1, Inl _) \<Rightarrow> (am_observe h [AMAlertProcessed ''fail'' ''db_insert''] w1, outcome_failed)
     | (w1, Inr (incident, inserted)) \<Rightarrow>
        (let w2 = fst (am_store_op (AppendAMEvent (am_id incident)
               (if inserted then AMEventFiring else AMEventRepeatFiring) (rawAlertOrEmpty raw)) w1) in
         if \<not> inserted \<and> am_slack_ts incident \<noteq> []
         then (am_observe h [AMAlertProcessed ''drop'' ''duplicate''] w2, outcome_dropped)
         else post_open h a en r ch (am_id incident) w2))"

section \<open>Resolved\<close>

definition resolve_input :: "handler \<Rightarrow> am_alert \<Rightarrow> envelope \<Rightarrow> resolved \<Rightarrow> string \<Rightarrow> time \<Rightarrow> am_resolve_input" where
  "resolve_input h a en r url started =
    \<lparr>ar_open = open_input h a en r url, ar_resolved_at = aa_ends_at a,
     ar_downtime = max 0 (time_sub (aa_ends_at a) started)\<rparr>"

definition late_resolve :: "handler \<Rightarrow> am_resolve_input \<Rightarrow> channel_info \<Rightarrow> bool \<Rightarrow> am_world
    \<Rightarrow> am_world \<times> alert_outcome" where
  "late_resolve h inp ch counted w =
    (case am_call (AMPost (chi_token ch) (chi_id ch) [] (AMLateResolve inp)) w of
       (w1, Inl e) \<Rightarrow> post_failed h ''slack_post'' e w1
     | (w1, Inr _) \<Rightarrow> (am_observe h ([AMSlackPost ''success'' ''ok''] @ (if counted then [AMLateResolved] else []) @
           [AMAlertProcessed ''success'' ''ok'']) w1, outcome_processed))"

definition edit_and_reply :: "handler \<Rightarrow> am_resolve_input \<Rightarrow> channel_info \<Rightarrow> am_incident \<Rightarrow> am_world
    \<Rightarrow> am_world \<times> alert_outcome" where
  "edit_and_reply h inp ch incident w =
    (case am_call (AMEdit (chi_token ch) (am_slack_channel incident) (am_slack_ts incident) (AMResolveEdit inp)) w of
       (w1, Inl e) \<Rightarrow> post_failed h ''slack_update'' e w1
     | (w1, Inr _) \<Rightarrow>
        (case am_call (AMPost (chi_token ch) (am_slack_channel incident) (am_slack_ts incident) (AMResolveReply inp)) w1 of
           (w2, Inl e) \<Rightarrow> post_failed h ''slack_reply'' e w2
         | (w2, Inr _) \<Rightarrow> (am_observe h [AMSlackPost ''success'' ''ok'', AMAlertProcessed ''success'' ''ok''] w2,
             outcome_processed)))"

text \<open>The parent is edited as the bot of the channel it was posted to, which may have moved since.\<close>

definition parent_channel :: "handler \<Rightarrow> am_incident \<Rightarrow> resolved \<Rightarrow> channel_info \<Rightarrow> channel_info option" where
  "parent_channel h incident r ch =
    (if am_channel_slug incident \<noteq> [] \<and> am_channel_slug incident \<noteq> rv_channel r
     then hd_channels h (am_channel_slug incident) else Some ch)"

definition handleResolved :: "handler \<Rightarrow> am_alert \<Rightarrow> envelope \<Rightarrow> resolved \<Rightarrow> channel_info \<Rightarrow> string \<Rightarrow> am_world
    \<Rightarrow> am_world \<times> alert_outcome" where
  "handleResolved h a en r ch raw w =
    (case am_store_op (MarkAMResolved (aa_fingerprint a) (aa_ends_at a)) w of
       (w1, Inl _) \<Rightarrow> (am_observe h [AMAlertProcessed ''fail'' ''db_resolve''] w1, outcome_failed)
     | (w1, Inr None) \<Rightarrow> late_resolve h (resolve_input h a en r [] (aa_starts_at a)) ch True w1
     | (w1, Inr (Some incident)) \<Rightarrow>
        (let w2 = fst (am_store_op (AppendAMEvent (am_id incident) AMEventResolved (rawAlertOrEmpty raw)) w1) in
         case parent_channel h incident r ch of
           None \<Rightarrow> (am_observe h [AMAlertProcessed ''fail'' ''channel_unknown''] w2, outcome_failed)
         | Some pch \<Rightarrow>
            (let inp = resolve_input h a en r (am_detailURL h (am_id incident)) (am_started_at incident) in
             if am_slack_ts incident = [] then late_resolve h inp pch False w2
             else edit_and_reply h inp pch incident w2)))"

section \<open>One alert, one batch, one request\<close>

definition postThrottleNotice :: "handler \<Rightarrow> channel_info \<Rightarrow> string \<Rightarrow> nat \<Rightarrow> am_world \<Rightarrow> am_world" where
  "postThrottleNotice h ch slug dropped w =
     fst (am_call (AMPost (chi_token ch) (chi_id ch) []
       (AMThrottleNotice slug dropped (rl_per_channel (hd_rate h)) (rl_window (hd_rate h)))) w)"

definition throttled :: "handler \<Rightarrow> channel_info \<Rightarrow> string \<Rightarrow> bool \<Rightarrow> time \<Rightarrow> am_world \<Rightarrow> am_world" where
  "throttled h ch slug justEngaged now w =
    (let w1 = am_observe h [AMRateLimitDrop slug, AMAlertProcessed ''drop'' ''rate_limited''] w;
         (l, n) = NoticeDue now slug (aw_limiter w1);
         w2 = w1\<lparr>aw_limiter := l\<rparr> in
     if justEngaged then postThrottleNotice h ch slug (if n = 0 then 1 else n) w2
     else if 0 < n then postThrottleNotice h ch slug n w2 else w2)"

definition processAlert :: "matchers \<Rightarrow> handler \<Rightarrow> envelope \<Rightarrow> string \<Rightarrow> am_alert \<times> time \<times> time \<Rightarrow> am_world
    \<Rightarrow> am_world \<times> alert_outcome" where
  "processAlert mt h en raw x w = (case x of (a, now1, now2) \<Rightarrow>
    (let r = Evaluate mt (hd_match h) a en (hd_env h) in
     if rv_ignored r then (am_observe h [AMAlertProcessed ''drop'' ''ignored''] w, outcome_dropped)
     else (let w1 = am_observe h (map (\<lambda>wa. AMValueSourceRejected (wa_field wa) (wa_code wa)) (rv_warnings r)) w in
       case hd_channels h (rv_channel r) of
         None \<Rightarrow> (am_observe h [AMAlertProcessed ''fail'' ''channel_unknown''] w1, outcome_failed)
       | Some ch \<Rightarrow> (case Allow now1 (rv_channel r) (aw_limiter w1) of (l, allowed, justEngaged) \<Rightarrow>
          (let w2 = w1\<lparr>aw_limiter := l\<rparr> in
           if \<not> allowed then (throttled h ch (rv_channel r) justEngaged now2 w2, outcome_dropped)
           else if aa_status a = AlertStatusFiring then handleFiring h a en r ch raw w2
           else if aa_status a = AlertStatusResolved then handleResolved h a en r ch raw w2
           else (am_observe h [AMAlertProcessed ''drop'' ''unknown_status''] w2, outcome_dropped))))))"

definition add_outcome :: "alert_outcome \<Rightarrow> alert_outcome \<Rightarrow> alert_outcome" where
  "add_outcome o1 o2 = \<lparr>oc_processed = oc_processed o1 + oc_processed o2,
     oc_dropped = oc_dropped o1 + oc_dropped o2, oc_failed = oc_failed o1 + oc_failed o2\<rparr>"

fun processBatch :: "matchers \<Rightarrow> handler \<Rightarrow> envelope \<Rightarrow> string \<Rightarrow> (am_alert \<times> time \<times> time) list
    \<Rightarrow> am_world \<times> alert_outcome \<Rightarrow> am_world \<times> alert_outcome" where
  "processBatch mt h en raw [] acc = acc"
| "processBatch mt h en raw (x # xs) (w, tally) =
     (case processAlert mt h en raw x w of
        (w1, oc) \<Rightarrow> processBatch mt h en raw xs (w1, add_outcome tally oc))"

datatype body = BodyBytes string | BodyBroken

record http_request =
  rq_method :: string
  rq_authorization :: string
  rq_body :: body

datatype response_body = StatusText | PartialFailure nat nat | BatchOk nat

record response =
  rp_status :: nat
  rp_body :: response_body

definition am_fail :: "handler \<Rightarrow> nat \<Rightarrow> string \<Rightarrow> am_world \<Rightarrow> am_world \<times> response" where
  "am_fail h code reason w =
     (am_observe h [AMWebhookRequest ''fail'' reason] w, \<lparr>rp_status = code, rp_body = StatusText\<rparr>)"

definition authorised :: "handler \<Rightarrow> string \<Rightarrow> bool" where
  "authorised h hdr \<longleftrightarrow> 7 < length hdr \<and> take 7 hdr = ''Bearer '' \<and> drop 7 hdr = hd_token h"

text \<open>
  \<open>decode\<close> is the JSON decoder; \<open>clock\<close> gives the readings for the alert of each position of the batch.
\<close>

definition serve :: "matchers \<Rightarrow> (string \<Rightarrow> webhook option) \<Rightarrow> handler \<Rightarrow> (nat \<Rightarrow> time \<times> time)
    \<Rightarrow> http_request \<Rightarrow> am_world \<Rightarrow> am_world \<times> response" where
  "serve mt decode h clock rq w =
    (if rq_method rq \<noteq> ''POST'' then am_fail h 405 ''method'' w
     else if \<not> authorised h (rq_authorization rq) then am_fail h 401 ''auth'' w
     else (case rq_body rq of
         BodyBroken \<Rightarrow> am_fail h 400 ''malformed'' w
       | BodyBytes raw \<Rightarrow>
          if hd_body_max h < length raw then am_fail h 413 ''too_large'' w
          else (case decode raw of
             None \<Rightarrow> am_fail h 400 ''malformed'' w
           | Some wh \<Rightarrow>
              if webhook_Validate wh \<noteq> None then am_fail h 400 ''malformed'' w
              else (let w1 = am_observe h [AMBatchSize (length (wh_alerts wh))] w;
                        en = \<lparr>en_receiver = wh_receiver wh, en_external_url = wh_external_url wh\<rparr>;
                        (w2, tally) = processBatch mt h en raw
                          (map (\<lambda>(i, a). (a, clock i)) (enumerate 0 (wh_alerts wh)))
                          (w1, \<lparr>oc_processed = 0, oc_dropped = 0, oc_failed = 0\<rparr>) in
                    if 0 < oc_failed tally
                    then (am_observe h [AMWebhookRequest ''fail'' ''partial_failure''] w2,
                      \<lparr>rp_status = 503, rp_body = PartialFailure (oc_processed tally) (oc_failed tally)\<rparr>)
                    else (am_observe h [AMWebhookRequest ''success'' ''ok''] w2,
                      \<lparr>rp_status = 200, rp_body = BatchOk (oc_processed tally)\<rparr>)))))"

definition ServeHTTP :: "matchers \<Rightarrow> (string \<Rightarrow> webhook option) \<Rightarrow> handler \<Rightarrow> time \<Rightarrow> time
    \<Rightarrow> (nat \<Rightarrow> time \<times> time) \<Rightarrow> http_request \<Rightarrow> am_world \<Rightarrow> am_world \<times> response" where
  "ServeHTTP mt decode h start finish clock rq w =
    (case serve mt decode h clock rq w of
       (w1, resp) \<Rightarrow> (am_observe h [AMWebhookLatency (time_sub finish start)] w1, resp))"

section \<open>The sweeper\<close>

datatype sweep_result = Swept nat | SweepFailed store_error

text \<open>\<^verbatim>\<open>-time.Duration(days) * 24 * time.Hour\<close> is 64-bit arithmetic.\<close>

definition sweep_age :: "int \<Rightarrow> duration" where
  "sweep_age days = wrap64 (wrap64 (wrap64 (- days) * 24) * hour)"

definition sweep_tickOnce :: "int \<Rightarrow> time \<Rightarrow> db \<Rightarrow> db \<times> sweep_result" where
  "sweep_tickOnce days now d = (case SweepAMResolved (now + sweep_age days) d of
      (d1, Inl e) \<Rightarrow> (d1, SweepFailed e)
    | (d1, Inr n) \<Rightarrow> (d1, Swept n))"

text \<open>The loop over the ticks until its context ends; zero days disables it.\<close>

definition sweeper_Run :: "int \<Rightarrow> time list \<Rightarrow> db \<Rightarrow> db" where
  "sweeper_Run days ticks d =
    (if days = 0 then d else fold (\<lambda>now d. fst (sweep_tickOnce days now d)) ticks d)"

end
