(* ===== verification/AM_Handler_Claims.thy ===== *)
theory AM_Handler_Claims
  imports AM_Handler
begin

text \<open>
  The webhook's guarantees: only an authorised, well-formed delivery acts; every alert of a batch has
  one outcome; every incident has one parent message; a resolve goes to the thread of its incident.
\<close>

section \<open>What each effect touches\<close>

lemma am_observe_sel [simp]:
  "aw_db (am_observe h ms w) = aw_db w" "aw_limiter (am_observe h ms w) = aw_limiter w"
  "aw_answers (am_observe h ms w) = aw_answers w" "aw_sent (am_observe h ms w) = aw_sent w"
  "aw_metrics (am_observe h ms w) = aw_metrics w @ (if hd_observer h then ms else [])"
  by (simp_all add: am_observe_def)

lemma am_call_sel:
  assumes "am_call r w = (w1, x)"
  shows "aw_db w1 = aw_db w" "aw_limiter w1 = aw_limiter w" "aw_metrics w1 = aw_metrics w"
    "aw_sent w1 = aw_sent w @ [(r, case x of Inl _ \<Rightarrow> False | Inr _ \<Rightarrow> True)]"
    "set (aw_answers w1) \<subseteq> set (aw_answers w)" "x = Inr c \<Longrightarrow> x \<in> set (aw_answers w)"
  using assms by (auto simp: am_call_def split: list.splits)

lemma am_call_answers: "am_call r w = (w1, x) \<Longrightarrow> y \<in> set (aw_answers w1) \<Longrightarrow> y \<in> set (aw_answers w)"
  by (auto simp: am_call_def split: list.splits)

lemma am_store_op_sel:
  assumes "am_store_op f w = (w1, x)"
  shows "f (aw_db w) = (aw_db w1, x)" "aw_limiter w1 = aw_limiter w" "aw_answers w1 = aw_answers w"
    "aw_sent w1 = aw_sent w" "aw_metrics w1 = aw_metrics w"
  using assms by (auto simp: am_store_op_def split: prod.splits)

lemma am_store_op_fst [simp]:
  "aw_db (fst (am_store_op f w)) = fst (f (aw_db w))" "aw_limiter (fst (am_store_op f w)) = aw_limiter w"
  "aw_answers (fst (am_store_op f w)) = aw_answers w" "aw_sent (fst (am_store_op f w)) = aw_sent w"
  "aw_metrics (fst (am_store_op f w)) = aw_metrics w"
  by (simp_all add: am_store_op_def split: prod.splits)

section \<open>Gates\<close>

definition accepted_delivery :: "(string \<Rightarrow> webhook option) \<Rightarrow> handler \<Rightarrow> http_request \<Rightarrow> webhook option" where
  "accepted_delivery decode h rq =
    (if rq_method rq = ''POST'' \<and> authorised h (rq_authorization rq) then
       (case rq_body rq of BodyBroken \<Rightarrow> None
        | BodyBytes raw \<Rightarrow> if length raw \<le> hd_body_max h then
            (case decode raw of None \<Rightarrow> None | Some wh \<Rightarrow> if webhook_Validate wh = None then Some wh else None)
          else None)
     else None)"

text \<open>Only a POST that carries the configured bearer token, a body within the cap, and a valid
version 4 payload with at least one alert has any effect.  Every other request is answered with 405,
401, 413 or 400 and changes neither the store nor the flood breaker and sends nothing to Slack; an
accepted one is answered with 200, or with 503 so that Alertmanager retries.\<close>

theorem only_authorised_deliveries_act:
  "(case ServeHTTP mt decode h start finish clock rq w of (w', resp) \<Rightarrow>
     (case accepted_delivery decode h rq of
        Some wh \<Rightarrow> rp_status resp = 200 \<or> rp_status resp = 503
      | None \<Rightarrow> rp_status resp \<in> {405, 401, 413, 400} \<and> aw_db w' = aw_db w \<and>
          aw_limiter w' = aw_limiter w \<and> aw_sent w' = aw_sent w \<and> aw_answers w' = aw_answers w))"
proof -
  have refuse: "\<exists>code reason. serve mt decode h clock rq w = am_fail h code reason w \<and> code \<in> {405, 401, 413, 400}"
    if "accepted_delivery decode h rq = None"
  proof (cases "rq_body rq")
    case (BodyBytes raw)
    with that show ?thesis
      by (cases "decode raw") (auto simp: serve_def accepted_delivery_def split: if_splits)
  qed (auto simp: serve_def)
  have accept: "rp_status (snd (serve mt decode h clock rq w)) \<in> {200, 503}"
    if "accepted_delivery decode h rq = Some wh" for wh
    using that
    by (auto simp: serve_def accepted_delivery_def Let_def split_beta split: body.splits if_splits option.splits)
  have "case serve mt decode h clock rq w of (w', resp) \<Rightarrow>
     (case accepted_delivery decode h rq of
        Some wh \<Rightarrow> rp_status resp = 200 \<or> rp_status resp = 503
      | None \<Rightarrow> rp_status resp \<in> {405, 401, 413, 400} \<and> aw_db w' = aw_db w \<and>
          aw_limiter w' = aw_limiter w \<and> aw_sent w' = aw_sent w \<and> aw_answers w' = aw_answers w)"
  proof (cases "accepted_delivery decode h rq")
    case None
    from refuse [OF this] obtain code reason where "serve mt decode h clock rq w = am_fail h code reason w"
      "code \<in> {405, 401, 413, 400}" by blast
    then show ?thesis using None by (simp add: am_fail_def)
  next
    case (Some wh)
    from accept [OF this] Some show ?thesis by (simp add: split_beta)
  qed
  then show ?thesis by (auto simp: ServeHTTP_def split: prod.splits option.splits)
qed

section \<open>Outcomes\<close>

definition outcome_metric :: "alert_outcome \<Rightarrow> string" where
  "outcome_metric oc = (if oc = outcome_processed then ''success'' else if oc = outcome_dropped then ''drop'' else ''fail'')"

fun processed_metric :: "am_metric \<Rightarrow> string option" where
  "processed_metric (AMAlertProcessed result reason) = Some result"
| "processed_metric _ = None"

definition results :: "am_metric list \<Rightarrow> string list" where
  "results ms = concat (map (\<lambda>m. case processed_metric m of None \<Rightarrow> [] | Some r \<Rightarrow> [r]) ms)"

lemma results_simps [simp]:
  "results [] = []" "results (m # ms) = (case processed_metric m of None \<Rightarrow> [] | Some r \<Rightarrow> [r]) @ results ms"
  "results (xs @ ys) = results xs @ results ys"
  by (simp_all add: results_def)

text \<open>One handler call adds one result, the one of its outcome.\<close>

definition counted :: "handler \<Rightarrow> am_world \<Rightarrow> am_world \<times> alert_outcome \<Rightarrow> bool" where
  "counted h w r \<longleftrightarrow> snd r \<in> {outcome_processed, outcome_dropped, outcome_failed} \<and>
     results (aw_metrics (fst r)) =
       results (aw_metrics w) @ (if hd_observer h then [outcome_metric (snd r)] else [])"

lemma outcome_distinct [simp]:
  "outcome_processed \<noteq> outcome_dropped" "outcome_processed \<noteq> outcome_failed"
  "outcome_dropped \<noteq> outcome_failed" "outcome_dropped \<noteq> outcome_processed"
  "outcome_failed \<noteq> outcome_processed" "outcome_failed \<noteq> outcome_dropped"
  by (simp_all add: outcome_processed_def outcome_dropped_def outcome_failed_def)

lemma outcome_metric_simps [simp]:
  "outcome_metric outcome_processed = ''success''" "outcome_metric outcome_dropped = ''drop''"
  "outcome_metric outcome_failed = ''fail''"
  by (simp_all add: outcome_metric_def)

lemma counted_post_failed:
  "results (aw_metrics w1) = results (aw_metrics w) \<Longrightarrow> counted h w (post_failed h what e w1)"
  by (simp add: counted_def post_failed_def)

lemma counted_post_open: "results (aw_metrics w1) = results (aw_metrics w) \<Longrightarrow> counted h w (post_open h a en r ch i w1)"
  unfolding post_open_def
  by (auto simp: counted_def post_failed_def dest: am_call_sel(3) split: prod.splits sum.splits)

lemma counted_late_resolve: "results (aw_metrics w1) = results (aw_metrics w) \<Longrightarrow> counted h w (late_resolve h inp ch b w1)"
  unfolding late_resolve_def
  by (auto simp: counted_def post_failed_def dest: am_call_sel(3) split: prod.splits sum.splits)

lemma counted_edit_and_reply: "results (aw_metrics w1) = results (aw_metrics w) \<Longrightarrow> counted h w (edit_and_reply h inp ch inc w1)"
  unfolding edit_and_reply_def
  by (auto simp: counted_def post_failed_def dest!: am_call_sel(3) split: prod.splits sum.splits)

lemma counted_observe:
  "results (aw_metrics w1) = results (aw_metrics w) \<Longrightarrow> oc \<in> {outcome_processed, outcome_dropped, outcome_failed} \<Longrightarrow>
   processed_metric m = Some (outcome_metric oc) \<Longrightarrow> counted h w (am_observe h [m] w1, oc)"
  by (simp add: counted_def)

lemmas counted_intros = counted_observe counted_post_open counted_late_resolve counted_edit_and_reply

lemma counted_handleFiring: "results (aw_metrics w0) = results (aw_metrics w) \<Longrightarrow> counted h w (handleFiring h a en r ch raw w0)"
  unfolding handleFiring_def Let_def
  by (auto dest!: am_store_op_sel(5) intro!: counted_intros split: prod.splits sum.splits)

lemma counted_handleResolved: "results (aw_metrics w0) = results (aw_metrics w) \<Longrightarrow> counted h w (handleResolved h a en r ch raw w0)"
  unfolding handleResolved_def Let_def
  by (auto dest!: am_store_op_sel(5) intro!: counted_intros split: prod.splits sum.splits option.splits)

lemma throttled_metrics: "results (aw_metrics (throttled h ch slug je now w)) =
    results (aw_metrics w) @ (if hd_observer h then [''drop''] else [])"
proof -
  have "aw_metrics (postThrottleNotice h ch slug n w1) = aw_metrics w1" for n w1
    unfolding postThrottleNotice_def by (metis am_call_sel(3) prod.collapse)
  then show ?thesis by (simp add: throttled_def Let_def split: prod.splits)
qed

lemma counted_processAlert: "counted h w (processAlert mt h en raw x w)"
proof -
  obtain a t1 t2 where x: "x = (a, t1, t2)" by (metis prod_cases3)
  have warn: "results (map (\<lambda>wa. AMValueSourceRejected (wa_field wa) (wa_code wa)) was) = []" for was
    by (induction was) simp_all
  show ?thesis
    unfolding processAlert_def x Let_def prod.case
    by (auto simp: warn split: option.splits prod.splits intro!: counted_handleFiring counted_handleResolved)
      (auto simp: counted_def warn throttled_metrics)
qed

text \<open>Every alert of a batch is counted exactly once: the three tallies add up to the number of
alerts, and with metrics wired each alert emits exactly one processed metric, whose result is its
outcome, in the order of the batch.\<close>

theorem every_alert_counted_once:
  "(case processBatch mt h en raw xs (w, \<lparr>oc_processed = 0, oc_dropped = 0, oc_failed = 0\<rparr>) of (w', oc) \<Rightarrow>
     oc_processed oc + oc_dropped oc + oc_failed oc = length xs \<and>
     (\<exists>rs. results (aw_metrics w') = results (aw_metrics w) @ rs \<and>
        (if hd_observer h then length rs = length xs \<and>
           count_list rs ''success'' = oc_processed oc \<and> count_list rs ''drop'' = oc_dropped oc \<and>
           count_list rs ''fail'' = oc_failed oc else rs = [])))"
proof -
  have "case processBatch mt h en raw xs (w, t0) of (w', oc) \<Rightarrow>
     oc_processed oc + oc_dropped oc + oc_failed oc =
       oc_processed t0 + oc_dropped t0 + oc_failed t0 + length xs \<and>
     (\<exists>rs. results (aw_metrics w') = results (aw_metrics w) @ rs \<and>
        (if hd_observer h then length rs = length xs \<and>
           oc_processed t0 + count_list rs ''success'' = oc_processed oc \<and>
           oc_dropped t0 + count_list rs ''drop'' = oc_dropped oc \<and>
           oc_failed t0 + count_list rs ''fail'' = oc_failed oc else rs = []))" for t0
  proof (induction xs arbitrary: w t0)
    case (Cons x xs)
    obtain w1 oc1 where p: "processAlert mt h en raw x w = (w1, oc1)" by fastforce
    have c: "oc1 \<in> {outcome_processed, outcome_dropped, outcome_failed}"
      "results (aw_metrics w1) = results (aw_metrics w) @ (if hd_observer h then [outcome_metric oc1] else [])"
      using counted_processAlert [of h w mt en raw x] by (simp_all add: p counted_def)
    obtain w2 oc2 where b: "processBatch mt h en raw xs (w1, add_outcome t0 oc1) = (w2, oc2)" by fastforce
    from Cons.IH [where w = w1 and ?t0.0 = "add_outcome t0 oc1"] b obtain rs where rs:
      "results (aw_metrics w2) = results (aw_metrics w1) @ rs"
      "oc_processed oc2 + oc_dropped oc2 + oc_failed oc2 = oc_processed (add_outcome t0 oc1) +
         oc_dropped (add_outcome t0 oc1) + oc_failed (add_outcome t0 oc1) + length xs"
      "if hd_observer h then length rs = length xs \<and>
           oc_processed (add_outcome t0 oc1) + count_list rs ''success'' = oc_processed oc2 \<and>
           oc_dropped (add_outcome t0 oc1) + count_list rs ''drop'' = oc_dropped oc2 \<and>
           oc_failed (add_outcome t0 oc1) + count_list rs ''fail'' = oc_failed oc2 else rs = []"
      by auto
    have one: "oc_processed oc1 + oc_dropped oc1 + oc_failed oc1 = 1"
      using c(1) by (auto simp: outcome_processed_def outcome_dropped_def outcome_failed_def)
    let ?rs = "(if hd_observer h then [outcome_metric oc1] else []) @ rs"
    have cnt: "count_list [outcome_metric oc1] ''success'' = oc_processed oc1"
      "count_list [outcome_metric oc1] ''drop'' = oc_dropped oc1"
      "count_list [outcome_metric oc1] ''fail'' = oc_failed oc1"
      using c(1) by (auto simp: outcome_metric_def) (auto simp: outcome_processed_def outcome_dropped_def outcome_failed_def)
    show ?case
      using p b rs c(2) one cnt
      by (cases "hd_observer h") (auto simp: add_outcome_def intro: exI [of _ ?rs])
  qed simp
  from this [of "\<lparr>oc_processed = 0, oc_dropped = 0, oc_failed = 0\<rparr>"]
  show ?thesis by (cases "hd_observer h") (simp_all add: split_beta)
qed

section \<open>One parent per incident\<close>

text \<open>Accepted parent messages and incidents with a thread, per fingerprint.\<close>

fun is_open_of :: "string \<Rightarrow> am_request \<Rightarrow> bool" where
  "is_open_of fp (AMPost _ _ _ (AMOpen inp)) \<longleftrightarrow> aa_fingerprint (ao_alert inp) = fp"
| "is_open_of fp _ \<longleftrightarrow> False"

definition parents :: "string \<Rightarrow> am_world \<Rightarrow> nat" where
  "parents fp w = length (filter (\<lambda>(r, ok). ok \<and> is_open_of fp r) (aw_sent w))"

definition threads :: "string \<Rightarrow> am_incident list \<Rightarrow> nat" where
  "threads fp as = length (filter (\<lambda>a. am_fingerprint a = fp \<and> am_slack_ts a \<noteq> []) as)"

definition ledger :: "am_world \<Rightarrow> bool" where
  "ledger w \<longleftrightarrow> am_ok (aw_db w) \<and> db_faults (aw_db w) = [] \<and>
     (\<forall>c ts. Inr (c, ts) \<in> set (aw_answers w) \<longrightarrow> ts \<noteq> []) \<and>
     (\<forall>fp. parents fp w = threads fp (db_am_alerts (aw_db w)))"

lemma ledger_observe [simp]: "ledger (am_observe h ms w) = ledger w"
  by (simp add: ledger_def parents_def)

lemma ledger_limiter [simp]: "ledger (w\<lparr>aw_limiter := l\<rparr>) = ledger w"
  by (simp add: ledger_def parents_def)

lemma ledger_call:
  assumes "am_call r w = (w1, x)" "ledger w" "\<And>fp. \<not> is_open_of fp r"
  shows "ledger w1"
  using assms(2,3) am_call_sel(1-4) [OF assms(1)]
  by (auto simp: ledger_def parents_def dest!: am_call_answers [OF assms(1)])

lemma ledger_failed_call:
  assumes "am_call r w = (w1, Inl e)" "ledger w"
  shows "ledger w1"
  using assms(2) am_call_sel(1-4) [OF assms(1)]
  by (auto simp: ledger_def parents_def dest!: am_call_answers [OF assms(1)])

lemma ledger_db:
  assumes "ledger w" "am_ok d" "db_faults d = []"
    and "\<And>fp. threads fp (db_am_alerts d) = threads fp (db_am_alerts (aw_db w))"
  shows "ledger (w\<lparr>aw_db := d\<rparr>)"
  using assms by (simp add: ledger_def parents_def)

lemma AppendAMEvent_frame:
  assumes "AppendAMEvent i t raw d = (d', r)" "am_ok d" "db_faults d = []"
  shows "am_ok d' \<and> db_faults d' = [] \<and> db_am_alerts d' = db_am_alerts d"
  using assms by (auto simp: AppendAMEvent_def am_ok_def list_ex_iff split: if_splits)

lemma ledger_event: "ledger w \<Longrightarrow> ledger (fst (am_store_op (AppendAMEvent i t raw) w))"
  using AppendAMEvent_frame [of i t raw "aw_db w"]
  by (auto simp: am_store_op_def ledger_def parents_def split: prod.splits)

lemma ledger_insert:
  assumes "am_store_op (InsertOpenAMIncident i) w = (w1, Inr (inc, b))" "ledger w"
  shows "ledger w1 \<and> inc \<in> set (db_am_alerts (aw_db w1)) \<and> am_fingerprint inc = ai_fingerprint i \<and>
    (b \<longrightarrow> am_slack_ts inc = [])"
proof -
  note s = am_store_op_sel [OF assms(1)]
  have ok: "am_ok (aw_db w1)" using InsertOpen_ok [OF _ s(1)] assms(2) by (simp add: ledger_def)
  have f: "db_faults (aw_db w) = []" using assms(2) by (simp add: ledger_def)
  show ?thesis
  proof (cases "find (am_open (ai_fingerprint i)) (db_am_alerts (aw_db w))")
    case None
    then have "aw_db w1 = (aw_db w)\<lparr>db_am_alerts := db_am_alerts (aw_db w) @ [new_incident i (db_next_am (aw_db w))],
        db_next_am := Suc (db_next_am (aw_db w))\<rparr>" "inc = new_incident i (db_next_am (aw_db w))" "b"
      using s(1) f by (auto simp: InsertOpenAMIncident_def Let_def)
    then show ?thesis
      using s(3,4) ok assms(2) by (simp add: ledger_def parents_def threads_def new_incident_def)
  next
    case (Some a)
    then have "a \<in> set (db_am_alerts (aw_db w))" "am_open (ai_fingerprint i) a"
      by (auto simp: find_Some_iff)
    moreover have "aw_db w1 = (aw_db w)\<lparr>db_next_am := Suc (db_next_am (aw_db w))\<rparr>" "inc = a" "\<not> b"
      using Some s(1) f by (auto simp: InsertOpenAMIncident_def)
    ultimately show ?thesis
      using s(3,4) ok assms(2) by (simp add: ledger_def parents_def am_open_def)
  qed
qed

lemma threads_ref:
  assumes "distinct (map am_id as)" "inc \<in> set as" "am_slack_ts inc = []" "ts \<noteq> []"
  shows "threads fp (map (\<lambda>a. if am_id a = am_id inc then a\<lparr>am_slack_channel := c, am_slack_ts := ts\<rparr> else a) as) =
    threads fp as + (if am_fingerprint inc = fp then 1 else 0)"
proof -
  obtain ys zs where as: "as = ys @ inc # zs" using split_list [OF assms(2)] by blast
  have "map (\<lambda>a. if am_id a = am_id inc then a\<lparr>am_slack_channel := c, am_slack_ts := ts\<rparr> else a) xs = xs"
    if "am_id inc \<notin> am_id ` set xs" for xs
    using that by (intro map_idI) (metis image_eqI)
  then have "map (\<lambda>a. if am_id a = am_id inc then a\<lparr>am_slack_channel := c, am_slack_ts := ts\<rparr> else a) as =
      ys @ inc\<lparr>am_slack_channel := c, am_slack_ts := ts\<rparr> # zs"
    using assms(1) by (auto simp: as)
  then show ?thesis using assms(3,4) by (simp add: threads_def as)
qed

lemma ledger_post_open:
  assumes "ledger w" "inc \<in> set (db_am_alerts (aw_db w))" "am_slack_ts inc = []"
    and "am_fingerprint inc = aa_fingerprint a"
  shows "ledger (fst (post_open h a en r ch (am_id inc) w))"
proof -
  let ?r = "AMPost (chi_token ch) (chi_id ch) [] (AMOpen (open_input h a en r (am_detailURL h (am_id inc))))"
  obtain w1 x where c: "am_call ?r w = (w1, x)" by fastforce
  note s = am_call_sel [OF c]
  show ?thesis
  proof (cases x)
    case (Inl e)
    then show ?thesis using c ledger_failed_call [of ?r w w1 e] assms(1) by (simp add: post_open_def post_failed_def)
  next
    case (Inr ct)
    obtain channel ts where ct: "ct = (channel, ts)" by fastforce
    let ?f = "\<lambda>a. if am_id a = am_id inc then a\<lparr>am_slack_channel := channel, am_slack_ts := ts\<rparr> else a"
    let ?d = "(aw_db w1)\<lparr>db_am_alerts := map ?f (db_am_alerts (aw_db w1))\<rparr>"
    have ts: "ts \<noteq> []" using assms(1) s(6) Inr ct by (auto simp: ledger_def)
    have dist: "distinct (map am_id (db_am_alerts (aw_db w)))" using assms(1) by (simp add: ledger_def am_ok_def)
    have ok: "am_ok ?d" using assms(1) s(1) by (intro am_map_ok) (auto simp: ledger_def am_open_def split: if_splits)
    have u: "UpdateAMSlackRef (am_id inc) channel ts (aw_db w1) = (?d, Inr ())"
      using assms(1) s(1) by (simp add: UpdateAMSlackRef_def ledger_def)
    have "parents fp (w1\<lparr>aw_db := ?d\<rparr>) = threads fp (db_am_alerts ?d)" for fp
      using assms(1,4) s(1,4) Inr threads_ref [OF dist assms(2,3) ts, of fp channel]
      by (simp add: ledger_def parents_def open_input_def)
    then have "ledger (w1\<lparr>aw_db := ?d\<rparr>)"
      using assms(1) ok s(1,5) by (auto simp: ledger_def)
    then show ?thesis using c Inr ct u by (simp add: post_open_def am_store_op_def)
  qed
qed

lemma ledger_handleFiring: "ledger w \<Longrightarrow> ledger (fst (handleFiring h a en r ch raw w))"
proof -
  assume l: "ledger w"
  obtain w1 x where i: "am_store_op (InsertOpenAMIncident (incident_insert a en r)) w = (w1, x)" by fastforce
  show ?thesis
  proof (cases x)
    case (Inl e)
    have "db_faults (aw_db w) = []" using l by (simp add: ledger_def)
    then show ?thesis
      using i Inl by (auto simp: am_store_op_def InsertOpenAMIncident_def Let_def split: prod.splits option.splits)
  next
    case (Inr ib)
    obtain inc b where ib: "ib = (inc, b)" by fastforce
    note li = ledger_insert [OF i [unfolded Inr ib] l]
    let ?w2 = "fst (am_store_op (AppendAMEvent (am_id inc) (if b then AMEventFiring else AMEventRepeatFiring) (rawAlertOrEmpty raw)) w1)"
    have l2: "ledger ?w2" and in2: "inc \<in> set (db_am_alerts (aw_db ?w2))"
      using li ledger_event AppendAMEvent_frame [of _ _ _ "aw_db w1"]
      by (auto simp: ledger_def split: prod.splits) (metis prod.collapse)+
    show ?thesis
    proof (cases "\<not> b \<and> am_slack_ts inc \<noteq> []")
      case True
      then show ?thesis using i Inr ib l2 by (simp add: handleFiring_def Let_def)
    next
      case False
      then have "am_slack_ts inc = []" using li by auto
      then show ?thesis
        using i Inr ib False ledger_post_open [OF l2 in2] li by (auto simp: handleFiring_def Let_def incident_insert_def)
    qed
  qed
qed

lemma ledger_late_resolve: "ledger w \<Longrightarrow> ledger (fst (late_resolve h inp ch b w))"
  by (auto simp: late_resolve_def post_failed_def split: prod.splits sum.splits elim: ledger_call)

lemma ledger_edit_and_reply: "ledger w \<Longrightarrow> ledger (fst (edit_and_reply h inp ch inc w))"
  by (auto simp: edit_and_reply_def post_failed_def split: prod.splits sum.splits)
    (meson ledger_call is_open_of.simps)+

lemma ledger_mark:
  assumes "am_store_op (MarkAMResolved fp t) w = (w1, r)" "ledger w"
  shows "ledger w1"
proof -
  note s = am_store_op_sel [OF assms(1)]
  have "db_faults (aw_db w) = []" "am_ok (aw_db w)" using assms(2) by (simp_all add: ledger_def)
  moreover have "am_ok (aw_db w1)" using MarkAMResolved_ok [OF _ s(1)] assms(2) by (simp add: ledger_def)
  moreover have "threads fp' (map (\<lambda>x. if am_open fp x then x\<lparr>am_ended_at := e\<rparr> else x) as) = threads fp' as" for fp' e as
    by (induction as) (auto simp: threads_def)
  moreover have "aw_db w1 = aw_db w \<or> (\<exists>e. aw_db w1 = (aw_db w)\<lparr>db_am_alerts :=
      map (\<lambda>x. if am_open fp x then x\<lparr>am_ended_at := e\<rparr> else x) (db_am_alerts (aw_db w))\<rparr>)"
    using s(1) assms(2) by (auto simp: MarkAMResolved_def ledger_def eq_commute [of _ "aw_db w1"] split: option.splits)
  ultimately show ?thesis
    using s(3,4) assms(2) by (auto simp: ledger_def parents_def)
qed

lemma ledger_handleResolved: "ledger w \<Longrightarrow> ledger (fst (handleResolved h a en r ch raw w))"
  unfolding handleResolved_def Let_def
  by (auto split: prod.splits sum.splits option.splits dest!: ledger_mark
      intro!: ledger_late_resolve ledger_edit_and_reply ledger_event)

lemma ledger_throttled: "ledger w \<Longrightarrow> ledger (throttled h ch slug je now w)"
proof -
  have "ledger (postThrottleNotice h ch slug n w1)" if "ledger w1" for n w1
    using that unfolding postThrottleNotice_def
    by (rule ledger_call [OF surjective_pairing]) simp_all
  then show "ledger w \<Longrightarrow> ?thesis" by (auto simp: throttled_def Let_def split: prod.splits)
qed

lemma ledger_processAlert: "ledger w \<Longrightarrow> ledger (fst (processAlert mt h en raw x w))"
  by (cases x) (auto simp: processAlert_def Let_def split: option.splits prod.splits
      intro!: ledger_handleFiring ledger_handleResolved ledger_throttled)

lemma ledger_processBatch: "ledger w \<Longrightarrow> ledger (fst (processBatch mt h en raw xs (w, tally)))"
proof (induction xs arbitrary: w tally)
  case (Cons x xs)
  obtain w1 oc where p: "processAlert mt h en raw x w = (w1, oc)" by fastforce
  with ledger_processAlert [OF Cons.prems, of mt h en raw x] have "ledger w1" by simp
  then show ?case using Cons.IH p by simp
qed simp

lemma ledger_ServeHTTP: "ledger w \<Longrightarrow> ledger (fst (ServeHTTP mt decode h start finish clock rq w))"
proof -
  assume l: "ledger w"
  have "ledger (fst (serve mt decode h clock rq w))"
    using l ledger_processBatch
    by (auto simp: serve_def am_fail_def Let_def split: body.splits option.splits prod.splits)
      (metis fst_conv ledger_observe)+
  then show ?thesis by (simp add: ServeHTTP_def split_beta)
qed

fun run_requests :: "matchers \<Rightarrow> (string \<Rightarrow> webhook option) \<Rightarrow> handler
    \<Rightarrow> (time \<times> time \<times> (nat \<Rightarrow> time \<times> time) \<times> http_request) list \<Rightarrow> am_world \<Rightarrow> am_world" where
  "run_requests mt decode h [] w = w"
| "run_requests mt decode h ((start, finish, clock, rq) # rqs) w =
     run_requests mt decode h rqs (fst (ServeHTTP mt decode h start finish clock rq w))"

definition fresh_world :: "time \<Rightarrow> limiter \<Rightarrow> (client_error + string \<times> string) list \<Rightarrow> am_world" where
  "fresh_world now l answers =
     \<lparr>aw_db = empty_db now, aw_limiter = l, aw_answers = answers, aw_sent = [], aw_metrics = []\<rparr>"

lemma ledger_run: "ledger w \<Longrightarrow> ledger (run_requests mt decode h rqs w)"
  by (induction mt decode h rqs w rule: run_requests.induct) (simp_all add: ledger_ServeHTTP)


definition sample_handler :: handler where
  "sample_handler = \<lparr>hd_match = sample_rules, hd_rate = \<lparr>rl_per_channel = 0, rl_window = 0, rl_notice_every = 0\<rparr>,
     hd_token = ''tok'', hd_channels = (\<lambda>s. Some \<lparr>chi_id = ''C'' @ s, chi_token = ''x''\<rparr>),
     hd_mentions = (\<lambda>xs. xs), hd_body_max = 100, hd_public_base = [], hd_observer = True,
     hd_env = sample_am_env\<rparr>"

definition sample_decode :: "string \<Rightarrow> webhook option" where
  "sample_decode raw = Some \<lparr>wh_version = ''4'', wh_status = raw, wh_receiver = ''tm'', wh_external_url = [],
     wh_alerts = [sample_alert\<lparr>aa_status := raw\<rparr>]\<rparr>"

definition sample_limiter :: limiter where
  "sample_limiter = \<lparr>l_per_channel = 0, l_window = 0, l_notice_every = 0, l_buckets = []\<rparr>"

definition sample_request :: "string \<Rightarrow> time \<times> time \<times> (nat \<Rightarrow> time \<times> time) \<times> http_request" where
  "sample_request raw = (1, 2, (\<lambda>_. (1, 1)),
     \<lparr>rq_method = ''POST'', rq_authorization = ''Bearer tok'', rq_body = BodyBytes raw\<rparr>)"


section \<open>Resolving\<close>

text \<open>C34: A resolve reaches the thread of its incident.  With an open incident that has a thread, the
parent is edited in the channel and thread recorded with the incident and as the bot of the channel
it was opened in, even when routing has moved since; the reply follows only an accepted edit; the
alert counts as processed exactly when both were accepted; and the incident is closed in every case.\<close>

theorem resolve_edits_its_parent:
  assumes "am_ok (aw_db w)" "db_faults (aw_db w) = []"
    and "am_lookup (aw_db w) (aa_fingerprint a) = Some inc" "am_slack_ts inc \<noteq> []"
    and "parent_channel h inc r ch = Some pch"
  shows "(case handleResolved h a en r ch raw w of (w', oc) \<Rightarrow>
    am_lookup (aw_db w') (aa_fingerprint a) = None \<and>
    (let inp = resolve_input h a en r (am_detailURL h (am_id inc)) (am_started_at inc) in
     \<exists>edited replied.
       aw_sent w' = aw_sent w @
         (AMEdit (chi_token pch) (am_slack_channel inc) (am_slack_ts inc) (AMResolveEdit inp), edited) #
         (if edited then [(AMPost (chi_token pch) (am_slack_channel inc) (am_slack_ts inc) (AMResolveReply inp), replied)]
          else []) \<and>
       oc = (if edited \<and> replied then outcome_processed else outcome_failed) \<and>
       0 \<le> ar_downtime inp))"
proof -
  let ?fp = "aa_fingerprint a"
  let ?inc = "inc\<lparr>am_ended_at := Some (pg_time (aa_ends_at a))\<rparr>"
  have find: "find (am_open ?fp) (db_am_alerts (aw_db w)) = Some inc" using assms(3) by (simp add: am_lookup_def)
  obtain w1 x where m: "am_store_op (MarkAMResolved ?fp (aa_ends_at a)) w = (w1, x)" by fastforce
  note s = am_store_op_sel [OF m]
  have x: "x = Inr (Some ?inc)" using s(1) find assms(2) by (simp add: MarkAMResolved_def)
  have l1: "am_ok (aw_db w1)" "am_lookup (aw_db w1) ?fp = None"
    using MarkAMResolved_ok [OF assms(1) s(1)] x by auto
  have f1: "db_faults (aw_db w1) = []"
    using s(1) find assms(2) by (auto simp: MarkAMResolved_def eq_commute [of _ "aw_db w1"])
  let ?w2 = "fst (am_store_op (AppendAMEvent (am_id ?inc) AMEventResolved (rawAlertOrEmpty raw)) w1)"
  have l2: "am_lookup (aw_db ?w2) ?fp = None"
    using AppendAMEvent_frame [OF _ l1(1) f1] l1(2) by (simp add: am_lookup_def) (metis prod.collapse)
  have "parent_channel h ?inc r ch = parent_channel h inc r ch" by (simp add: parent_channel_def)
  with assms(5) have pc: "parent_channel h ?inc r ch = Some pch" by simp
  let ?inp = "resolve_input h a en r (am_detailURL h (am_id inc)) (am_started_at inc)"
  let ?e = "AMEdit (chi_token pch) (am_slack_channel inc) (am_slack_ts inc) (AMResolveEdit ?inp)"
  let ?p = "AMPost (chi_token pch) (am_slack_channel inc) (am_slack_ts inc) (AMResolveReply ?inp)"
  have res: "handleResolved h a en r ch raw w = edit_and_reply h ?inp pch ?inc ?w2"
    using m x pc assms(4) by (simp add: handleResolved_def Let_def)
  have down: "0 \<le> ar_downtime ?inp" by (simp add: resolve_input_def)
  obtain w3 y where c: "am_call ?e ?w2 = (w3, y)" by fastforce
  note sc = am_call_sel [OF c]
  show ?thesis
  proof (cases y)
    case (Inl e)
    then show ?thesis
      using c sc(1,4) s(4) l2 down
      by (auto simp: res edit_and_reply_def post_failed_def Let_def)
  next
    case (Inr ct)
    obtain w4 z where c2: "am_call ?p w3 = (w4, z)" by fastforce
    note sc2 = am_call_sel [OF c2]
    show ?thesis
      using c c2 Inr sc(1,4) sc2(1,4) s(4) l2 down
      by (cases z) (auto simp: res edit_and_reply_def post_failed_def Let_def)
  qed
qed

text \<open>
  The incident is closed before its message is edited: when the edit fails, the retry that
  Alertmanager makes finds no open incident and posts a late-resolve message of its own.
\<close>

lemma failed_resolve_comes_back_late:
  assumes "am_ok (aw_db w)" "am_store_op (MarkAMResolved (aa_fingerprint a) (aa_ends_at a)) w = (w1, Inr r1)"
    and "aw_db w2 = aw_db w1" "am_store_op (MarkAMResolved (aa_fingerprint a) (aa_ends_at a)) w2 = (w3, Inr r2)"
  shows "handleResolved h a en r ch raw w2 = late_resolve h (resolve_input h a en r [] (aa_starts_at a)) ch True w3"
proof -
  have "r2 = None"
    using am_table.resolve_twice [OF assms(1) am_store_op_sel(1) [OF assms(2)]] am_store_op_sel(1) [OF assms(4)] assms(3)
    by simp
  with assms(4) show ?thesis by (simp add: handleResolved_def)
qed

definition sample_open_world :: am_world where
  "sample_open_world = run_requests sample_matchers sample_decode sample_handler [sample_request ''firing'']
     (fresh_world 0 sample_limiter [Inr (''C'', ''9''), Inr (''C'', ''9''), Inl ClientOther])"

definition sample_incident :: am_incident where
  "sample_incident = the (am_lookup (aw_db sample_open_world) ''f1'')"

definition sample_resolved :: resolved where
  "sample_resolved = Evaluate sample_matchers sample_rules sample_alert \<lparr>en_receiver = [], en_external_url = []\<rparr> sample_am_env"

lemma resolve_edits_its_parent_witness:
  "(case handleResolved sample_handler sample_alert \<lparr>en_receiver = [], en_external_url = []\<rparr>
      sample_resolved \<lparr>chi_id = ''Cteam'', chi_token = ''x''\<rparr> [] sample_open_world of (w', oc) \<Rightarrow>
    am_lookup (aw_db w') ''f1'' = None \<and> length (aw_sent w') = 3 \<and> oc = outcome_failed)"
proof -
  define res where "res = handleResolved sample_handler sample_alert \<lparr>en_receiver = [], en_external_url = []\<rparr>
      sample_resolved \<lparr>chi_id = ''Cteam'', chi_token = ''x''\<rparr> [] sample_open_world"
  have "ledger (fresh_world 0 sample_limiter [Inr (''C'', ''9''), Inr (''C'', ''9''), Inl ClientOther])"
    by (auto simp: ledger_def fresh_world_def empty_db_def am_ok_def parents_def threads_def)
  then have l: "am_ok (aw_db sample_open_world)" "db_faults (aw_db sample_open_world) = []"
    using ledger_run unfolding sample_open_world_def ledger_def by metis+
  have "am_lookup (aw_db sample_open_world) ''f1'' \<noteq> None" "am_slack_ts sample_incident \<noteq> []"
    "parent_channel sample_handler sample_incident sample_resolved \<lparr>chi_id = ''Cteam'', chi_token = ''x''\<rparr> =
      Some \<lparr>chi_id = ''Cteam'', chi_token = ''x''\<rparr>"
    by code_simp+
  then have "am_lookup (aw_db sample_open_world) (aa_fingerprint sample_alert) = Some sample_incident"
    by (simp add: sample_incident_def sample_alert_def)
  from resolve_edits_its_parent [OF l this \<open>am_slack_ts sample_incident \<noteq> []\<close>, of sample_handler sample_resolved
      "\<lparr>chi_id = ''Cteam'', chi_token = ''x''\<rparr>" "\<lparr>chi_id = ''Cteam'', chi_token = ''x''\<rparr>"
      "\<lparr>en_receiver = [], en_external_url = []\<rparr>" "[]", folded res_def]
    \<open>parent_channel _ _ _ _ = _\<close>
  have "am_lookup (aw_db (fst res)) ''f1'' = None" by (simp add: split_beta sample_alert_def)
  moreover have "length (aw_sent (fst res)) = 3 \<and> snd res = outcome_failed"
    unfolding res_def by code_simp
  ultimately show ?thesis unfolding res_def [symmetric] by (simp add: split_beta)
qed

section \<open>Retention\<close>

text \<open>The sweeper deletes exactly the resolved incidents older than the retention, with their
events, and never an open one: for any retention of at most 106751 days, which is where the 64-bit
duration ends.\<close>

theorem sweep_deletes_only_expired:
  assumes "0 \<le> days" "days \<le> 106751" "db_faults d = []"
  shows "(case sweep_tickOnce days now d of (d', r) \<Rightarrow>
    db_am_alerts d' = filter (\<lambda>a. case am_ended_at a of None \<Rightarrow> True
       | Some t \<Rightarrow> pg_time (now - days * (24 * hour)) \<le> t) (db_am_alerts d) \<and>
    r = Swept (length (db_am_alerts d) - length (db_am_alerts d')) \<and>
    (am_ok d \<longrightarrow> (\<forall>fp. am_lookup d' fp = am_lookup d fp) \<and> am_ok d'))"
proof -
  have age: "sweep_age days = - (days * (24 * hour))"
    using assms(1,2) by (simp add: sweep_age_def wrap64_id min_duration_def max_duration_def)
  let ?cut = "now - days * (24 * hour)"
  have keep: "(\<not> swept ?cut a) = (case am_ended_at a of None \<Rightarrow> True | Some t \<Rightarrow> pg_time ?cut \<le> t)" for a
    by (simp add: swept_def not_less split: option.splits)
  obtain d' r where t: "sweep_tickOnce days now d = (d', r)" by fastforce
  have d': "db_am_alerts d' = filter (\<lambda>a. \<not> swept ?cut a) (db_am_alerts d)"
    "db_am_events d' = filter (\<lambda>v. av_incident_id v \<notin> am_id ` set (filter (swept ?cut) (db_am_alerts d))) (db_am_events d)"
    "db_next_am d' = db_next_am d" "r = Swept (length (filter (swept ?cut) (db_am_alerts d)))"
    using t assms(3) by (auto simp: sweep_tickOnce_def SweepAMResolved_def age Let_def)
  have len: "length (filter (swept ?cut) (db_am_alerts d)) = length (db_am_alerts d) - length (db_am_alerts d')"
    using sum_length_filter_compl [of "swept ?cut" "db_am_alerts d"] by (simp add: d'(1))
  have look: "am_lookup d' fp = am_lookup d fp" for fp
  proof -
    have "find (am_open fp) (filter (\<lambda>a. \<not> swept ?cut a) xs) = find (am_open fp) xs" for xs
      by (induction xs) (auto simp: am_open_def swept_def)
    then show ?thesis by (simp add: am_lookup_def d'(1))
  qed
  have ok: "am_ok d'" if "am_ok d"
  proof -
    have "length (filter (am_open fp) (filter (\<lambda>a. \<not> swept ?cut a) xs)) \<le> length (filter (am_open fp) xs)" for fp xs
      by (induction xs) auto
    then have "length (filter (am_open fp) (filter (\<lambda>a. \<not> swept ?cut a) (db_am_alerts d))) \<le> 1" for fp
      using that unfolding am_ok_def by (meson order_trans)
    moreover have "distinct (map am_id (db_am_alerts d'))"
      using that unfolding am_ok_def d'(1) by (simp add: distinct_map_filter)
    moreover have "\<forall>a \<in> set (db_am_alerts d'). am_id a < db_next_am d'"
      using that unfolding am_ok_def d'(1,3) by simp
    moreover have "av_incident_id v \<in> am_id ` set (db_am_alerts d')" if v: "v \<in> set (db_am_events d')" for v
    proof -
      from v \<open>am_ok d\<close> obtain a where "a \<in> set (db_am_alerts d)" "av_incident_id v = am_id a"
        unfolding d'(2) am_ok_def by auto
      moreover from this v have "\<not> swept ?cut a" unfolding d'(2) by auto
      ultimately show ?thesis unfolding d'(1) by auto
    qed
    ultimately show ?thesis unfolding am_ok_def d'(1) by blast
  qed
  have "db_am_alerts d' = filter (\<lambda>a. case am_ended_at a of None \<Rightarrow> True
      | Some t \<Rightarrow> pg_time ?cut \<le> t) (db_am_alerts d)"
    unfolding d'(1) keep ..
  moreover have "r = Swept (length (db_am_alerts d) - length (db_am_alerts d'))"
    unfolding d'(4) len ..
  ultimately show ?thesis unfolding t prod.case using look ok by blast
qed

lemma sweep_age_wraps: "0 < sweep_age 106752"
  by (simp add: sweep_age_def wrap64_def)

lemma sweep_deletes_only_expired_witness:
  "(case sweep_tickOnce 1 (2 * 24 * hour) (aw_db sample_open_world) of (d', r) \<Rightarrow>
    length (db_am_alerts d') = 1 \<and> r = Swept 0)"
proof -
  define res where "res = sweep_tickOnce 1 (2 * 24 * hour) (aw_db sample_open_world)"
  have "db_faults (aw_db sample_open_world) = []" "length (db_am_alerts (aw_db sample_open_world)) = 1"
    "map am_ended_at (db_am_alerts (aw_db sample_open_world)) = [None]" by code_simp+
  with sweep_deletes_only_expired [of 1 "aw_db sample_open_world" "2 * 24 * hour", folded res_def]
  have "length (db_am_alerts (fst res)) = 1 \<and> snd res = Swept 0"
    by (cases "db_am_alerts (aw_db sample_open_world)") (auto simp: split_beta)
  then show ?thesis unfolding res_def [symmetric] by (simp add: split_beta)
qed

end
