(* ===== verification/Kube_Cascade.thy ===== *)
theory Kube_Cascade
  imports Values Slugs
begin

text \<open>
  The cascade over discovered ingresses: the rule and configuration types of
  \<^verbatim>\<open>internal/config/config.go\<close>, the lowering of annotation values
  (\<^verbatim>\<open>internal/merger/valuesource.go\<close>), and the walk, the merge of the stack and the checks of the
  resolved values (\<^verbatim>\<open>internal/merger/merger.go\<close>).  Error and rejection texts are datatypes.
\<close>

section \<open>Ingresses and rules\<close>

record ingress =
  ig_namespace :: string
  ig_name :: string
  ig_labels :: "(string, string) gomap"
  ig_annotations :: "(string, string) gomap"
  ig_rule_hosts :: "string list"

record kube_when =
  kw_namespace :: string
  kw_namespace_regex :: string
  kw_host :: string
  kw_host_regex :: string
  kw_labels :: "(string, string) gomap"
  kw_annotations :: "(string, string) gomap"
  kw_namespace_annotations :: "(string, string) gomap"

record kube_config =
  kc_scheme :: string
  kc_path :: string
  kc_http_method :: string
  kc_accepted :: "int list"
  kc_interval :: duration
  kc_timeout :: duration
  kc_retries :: int
  kc_retry_backoff :: duration
  kc_follow_redirects :: bool
  kc_insecure :: bool
  kc_proxy :: string
  kc_reminder :: duration
  kc_ssl_alert :: duration
  kc_ssl_escalation :: duration
  kc_ssl_reminder :: duration
  kc_slack :: string
  kc_notify :: string_list
  kc_tags :: string_list
  kc_depends_on :: string_list
  kc_path_from :: "value_source option"
  kc_slack_from :: "value_source option"
  kc_notify_from :: "value_source option"
  kc_notify_override_from :: "value_source option"
  kc_tags_from :: "value_source option"
  kc_tags_override_from :: "value_source option"
  kc_accepted_from :: "value_source option"
  kc_set :: "string list"

definition zero_kube_config :: kube_config where
  "zero_kube_config = \<lparr>kc_scheme = [], kc_path = [], kc_http_method = [], kc_accepted = [],
     kc_interval = 0, kc_timeout = 0, kc_retries = 0, kc_retry_backoff = 0, kc_follow_redirects = False,
     kc_insecure = False, kc_proxy = [], kc_reminder = 0, kc_ssl_alert = 0, kc_ssl_escalation = 0,
     kc_ssl_reminder = 0, kc_slack = [], kc_notify = no_list, kc_tags = no_list, kc_depends_on = no_list,
     kc_path_from = None, kc_slack_from = None, kc_notify_from = None, kc_notify_override_from = None,
     kc_tags_from = None, kc_tags_override_from = None, kc_accepted_from = None, kc_set = []\<rparr>"

datatype kube_rule = KubeRule
  (kr_when: kube_when) (kr_ignore: "bool option") (kr_final: bool)
  (kr_config: kube_config) (kr_nested: "kube_rule list")

definition IsSet :: "kube_config \<Rightarrow> string \<Rightarrow> bool" where
  "IsSet k field \<longleftrightarrow> field \<in> set (kc_set k)"

definition MarkSet :: "string \<Rightarrow> kube_config \<Rightarrow> kube_config" where
  "MarkSet field k = k\<lparr>kc_set := field # kc_set k\<rparr>"

datatype kube_value_kind = KubeValueScalar | KubeValueList | KubeValueStatusCodes

record kube_value_source =
  kvs_field :: string
  kvs_kind :: kube_value_kind
  kvs_override :: bool
  kvs_source :: value_source

definition kube_source :: "string \<Rightarrow> kube_value_kind \<Rightarrow> bool \<Rightarrow> value_source option \<Rightarrow> kube_value_source list" where
  "kube_source field kind override src = (case src of None \<Rightarrow> []
     | Some s \<Rightarrow> [\<lparr>kvs_field = field, kvs_kind = kind, kvs_override = override, kvs_source = s\<rparr>])"

definition kube_ValueSources :: "kube_config \<Rightarrow> kube_value_source list" where
  "kube_ValueSources k =
     kube_source ''path'' KubeValueScalar False (kc_path_from k) @
     kube_source ''slack'' KubeValueScalar False (kc_slack_from k) @
     kube_source ''notify'' KubeValueList False (kc_notify_from k) @
     kube_source ''notify'' KubeValueList True (kc_notify_override_from k) @
     kube_source ''tags'' KubeValueList False (kc_tags_from k) @
     kube_source ''tags'' KubeValueList True (kc_tags_override_from k) @
     kube_source ''acceptedStatusCodes'' KubeValueStatusCodes False (kc_accepted_from k)"

section \<open>Annotation values\<close>

record kube_env =
  ke_namespace_annotations :: "(string, string) gomap"
  ke_user_mapping :: "(string, string) gomap option"
  ke_slack_channels :: "string list option"

datatype kube_scope = KScopeIngress | KScopeNamespace | KScopeDefault

datatype kube_cause = KNoCause | KCauseAbsent | KCauseRejected

datatype kube_reject =
    RejectPath | RejectChannel | RejectMarkup | RejectHandle | RejectTag slug_error
  | RejectNotNumber | RejectStatusCode

record kube_provenance =
  kp_rule :: string
  kp_field :: string
  kp_key :: string
  kp_scope :: kube_scope
  kp_value :: string
  kp_cause :: kube_cause

record kube_warning =
  kwa_rule :: string
  kwa_field :: string
  kwa_key :: string
  kwa_scope :: kube_scope
  kwa_value :: string
  kwa_reason :: kube_reject

record kube_log =
  kl_provenance :: "kube_provenance list"
  kl_warnings :: "kube_warning list"

definition k_note :: "string \<Rightarrow> string \<Rightarrow> string \<Rightarrow> kube_scope \<Rightarrow> string \<Rightarrow> kube_cause \<Rightarrow> kube_log \<Rightarrow> kube_log" where
  "k_note label field key sc v c r = r\<lparr>kl_provenance := kl_provenance r @
     [\<lparr>kp_rule = label, kp_field = field, kp_key = key, kp_scope = sc, kp_value = v, kp_cause = c\<rparr>]\<rparr>"

definition k_warn :: "string \<Rightarrow> string \<Rightarrow> string \<Rightarrow> kube_scope \<Rightarrow> string \<Rightarrow> kube_reject \<Rightarrow> kube_log \<Rightarrow> kube_log" where
  "k_warn label field key sc v reason r = r\<lparr>kl_warnings := kl_warnings r @
     [\<lparr>kwa_rule = label, kwa_field = field, kwa_key = key, kwa_scope = sc, kwa_value = v, kwa_reason = reason\<rparr>]\<rparr>"

definition k_read :: "(string, string) gomap \<Rightarrow> kube_env \<Rightarrow> value_source \<Rightarrow> string \<times> kube_scope \<times> string" where
  "k_read ingress env src =
    (if vsrc_namespace_annotation src \<noteq> []
     then (gm_get0 [] (ke_namespace_annotations env) (vsrc_namespace_annotation src), KScopeNamespace,
           vsrc_namespace_annotation src)
     else (gm_get0 [] ingress (vsrc_annotation src), KScopeIngress, vsrc_annotation src))"

fun parseStatusCodes :: "string list \<Rightarrow> int list \<times> (string \<times> kube_reject) list" where
  "parseStatusCodes [] = ([], [])"
| "parseStatusCodes (e # es) = (case parseStatusCodes es of (codes, rejected) \<Rightarrow>
     (case atoi e of
        None \<Rightarrow> (codes, (e, RejectNotNumber) # rejected)
      | Some n \<Rightarrow> if n < 100 \<or> 599 < n then (codes, (e, RejectStatusCode) # rejected)
          else (n # codes, rejected)))"

definition formatCodes :: "int list \<Rightarrow> string" where
  "formatCodes codes = formatList (map itoa codes)"

definition k_set_scalar :: "string \<Rightarrow> string \<Rightarrow> kube_config \<Rightarrow> kube_config" where
  "k_set_scalar field v k = MarkSet field
    (if field = ''path'' then k\<lparr>kc_path := v\<rparr> else if field = ''slack'' then k\<lparr>kc_slack := v\<rparr> else k)"

definition k_set_list :: "kube_value_source \<Rightarrow> string list \<Rightarrow> kube_config \<Rightarrow> kube_config" where
  "k_set_list vs values k = (let l = \<lparr>nl_values = values, nl_override = kvs_override vs\<rparr> in MarkSet (kvs_field vs)
    (if kvs_field vs = ''notify'' then k\<lparr>kc_notify := l\<rparr>
     else if kvs_field vs = ''tags'' then k\<lparr>kc_tags := l\<rparr> else k))"

definition writeDefault :: "string \<Rightarrow> kube_value_source \<Rightarrow> string \<Rightarrow> kube_cause \<Rightarrow> kube_config \<times> kube_log
    \<Rightarrow> kube_config \<times> kube_log" where
  "writeDefault label vs key c kr = (case kr of (out, r) \<Rightarrow> (let src = kvs_source vs in
    case kvs_kind vs of
      KubeValueScalar \<Rightarrow> (k_set_scalar (kvs_field vs) (vsrc_default_scalar src) out,
        k_note label (kvs_field vs) key KScopeDefault (vsrc_default_scalar src) c r)
    | KubeValueList \<Rightarrow>
        if vsrc_default_list src = [] then (out, r)
        else (k_set_list vs (vsrc_default_list src) out,
          k_note label (kvs_field vs) key KScopeDefault (formatList (vsrc_default_list src)) c r)
    | KubeValueStatusCodes \<Rightarrow>
        (let codes = fst (parseStatusCodes (vsrc_default_list src)) in
         if codes = [] then (out, r)
         else (MarkSet (kvs_field vs) (out\<lparr>kc_accepted := codes\<rparr>),
           k_note label (kvs_field vs) key KScopeDefault (formatList (vsrc_default_list src)) c r))))"

definition k_checkScalar :: "kube_env \<Rightarrow> string \<Rightarrow> string \<Rightarrow> kube_reject option" where
  "k_checkScalar env field v =
    (if field = ''path'' then (if has_prefix v ''/'' then None else Some RejectPath)
     else if field = ''slack'' then (case ke_slack_channels env of None \<Rightarrow> None
       | Some cs \<Rightarrow> if v \<in> set cs then None else Some RejectChannel)
     else None)"

definition k_checkListEntry :: "kube_env \<Rightarrow> string \<Rightarrow> string \<Rightarrow> kube_reject option" where
  "k_checkListEntry env field entry =
    (if field = ''notify'' then
       (if has_prefix entry ''<'' \<and> has_suffix entry ''>'' then Some RejectMarkup
        else (case ke_user_mapping env of None \<Rightarrow> None
          | Some m \<Rightarrow> if gm_get m entry \<noteq> None then None else Some RejectHandle))
     else if field = ''tags'' then map_option RejectTag (ValidateTag entry)
     else None)"

definition k_lowerScalar :: "kube_env \<Rightarrow> string \<Rightarrow> kube_value_source \<Rightarrow> string \<Rightarrow> kube_scope \<Rightarrow> string
    \<Rightarrow> kube_config \<times> kube_log \<Rightarrow> kube_config \<times> kube_log" where
  "k_lowerScalar env label vs raw sc key kr = (case kr of (out, r) \<Rightarrow> (let v = TrimSpace raw in
    case k_checkScalar env (kvs_field vs) v of
      Some reason \<Rightarrow> (let r1 = k_warn label (kvs_field vs) key sc v reason r in
        if vsrc_has_default (kvs_source vs) then writeDefault label vs key KCauseRejected (out, r1) else (out, r1))
    | None \<Rightarrow> (k_set_scalar (kvs_field vs) v out, k_note label (kvs_field vs) key sc v KNoCause r)))"

fun k_check_entries :: "kube_env \<Rightarrow> string \<Rightarrow> string \<Rightarrow> string \<Rightarrow> kube_scope \<Rightarrow> string list
    \<Rightarrow> string list \<times> kube_log \<Rightarrow> string list \<times> kube_log" where
  "k_check_entries env label field key sc [] st = st"
| "k_check_entries env label field key sc (e # es) (kept, r) =
     (case k_checkListEntry env field e of
        Some reason \<Rightarrow> k_check_entries env label field key sc es (kept, k_warn label field key sc e reason r)
      | None \<Rightarrow> k_check_entries env label field key sc es (kept @ [e], r))"

definition k_lowerList :: "kube_env \<Rightarrow> string \<Rightarrow> kube_value_source \<Rightarrow> string \<Rightarrow> kube_scope \<Rightarrow> string
    \<Rightarrow> kube_config \<times> kube_log \<Rightarrow> kube_config \<times> kube_log" where
  "k_lowerList env label vs raw sc key kr = (case kr of (out, r) \<Rightarrow>
    (case k_check_entries env label (kvs_field vs) key sc (SplitAnnotationList raw) ([], r) of
      (kept, r1) \<Rightarrow> if kept = [] then (out, r1)
        else (k_set_list vs kept out, k_note label (kvs_field vs) key sc (formatList kept) KNoCause r1)))"

definition lowerStatusCodes :: "string \<Rightarrow> kube_value_source \<Rightarrow> string \<Rightarrow> kube_scope \<Rightarrow> string
    \<Rightarrow> kube_config \<times> kube_log \<Rightarrow> kube_config \<times> kube_log" where
  "lowerStatusCodes label vs raw sc key kr = (case kr of (out, r) \<Rightarrow>
    (case parseStatusCodes (SplitAnnotationList raw) of (codes, rejected) \<Rightarrow>
      (let r1 = fold (\<lambda>(v, reason). k_warn label (kvs_field vs) key sc v reason) rejected r in
       if codes = [] then
         (if vsrc_has_default (kvs_source vs)
          then writeDefault label vs key (if rejected = [] then KCauseAbsent else KCauseRejected) (out, r1)
          else (out, r1))
       else (MarkSet (kvs_field vs) (out\<lparr>kc_accepted := codes\<rparr>),
         k_note label (kvs_field vs) key sc (formatCodes codes) KNoCause r1))))"

definition k_lower :: "(string, string) gomap \<Rightarrow> kube_env \<Rightarrow> string \<Rightarrow> kube_value_source \<Rightarrow> kube_config \<times> kube_log
    \<Rightarrow> kube_config \<times> kube_log" where
  "k_lower ingress env label vs kr =
    (case k_read ingress env (kvs_source vs) of (raw, sc, key) \<Rightarrow>
      if TrimSpace raw = [] then
        (if vsrc_has_default (kvs_source vs) then writeDefault label vs key KCauseAbsent kr else kr)
      else (case kvs_kind vs of
          KubeValueScalar \<Rightarrow> k_lowerScalar env label vs raw sc key kr
        | KubeValueList \<Rightarrow> k_lowerList env label vs raw sc key kr
        | KubeValueStatusCodes \<Rightarrow> lowerStatusCodes label vs raw sc key kr))"

definition k_apply :: "(string, string) gomap \<Rightarrow> kube_env \<Rightarrow> string \<Rightarrow> kube_config \<Rightarrow> kube_log \<Rightarrow> kube_config \<times> kube_log" where
  "k_apply ingress env label k r = fold (k_lower ingress env label) (kube_ValueSources k) (k, r)"

section \<open>Selectors\<close>

text \<open>Here the pattern is put in a group before it is anchored.\<close>

definition k_matchRegex :: "matchers \<Rightarrow> string \<Rightarrow> string \<Rightarrow> bool" where
  "k_matchRegex mt pattern v =
    (case mt_regex mt (''^(?:'' @ pattern @ '')$'') of None \<Rightarrow> False | Some re \<Rightarrow> re v)"

definition mapContains :: "(string, string) gomap \<Rightarrow> (string, string) gomap \<Rightarrow> bool" where
  "mapContains have want = list_all (\<lambda>(k, v). gm_get have k = Some v) want"

definition k_whenMatches :: "matchers \<Rightarrow> kube_when \<Rightarrow> ingress \<Rightarrow> string \<Rightarrow> (string, string) gomap \<Rightarrow> bool" where
  "k_whenMatches mt w ing host ns \<longleftrightarrow>
     (kw_namespace w = [] \<or> matchGlob mt (kw_namespace w) (ig_namespace ing)) \<and>
     (kw_namespace_regex w = [] \<or> k_matchRegex mt (kw_namespace_regex w) (ig_namespace ing)) \<and>
     (kw_host w = [] \<or> matchGlob mt (kw_host w) host) \<and>
     (kw_host_regex w = [] \<or> k_matchRegex mt (kw_host_regex w) host) \<and>
     mapContains (ig_labels ing) (kw_labels w) \<and>
     mapContains (ig_annotations ing) (kw_annotations w) \<and>
     mapContains ns (kw_namespace_annotations w)"

definition mapSummary :: "string \<Rightarrow> (string, string) gomap \<Rightarrow> string list" where
  "mapSummary field m = map (\<lambda>k. field @ ''.'' @ k @ ''='' @ gm_get0 [] m k) (sort_strings (gm_keys m))"

definition k_selectorSummary :: "kube_when \<Rightarrow> string" where
  "k_selectorSummary w =
    (let opt = (\<lambda>name v. if v = [] then [] else [name @ ''='' @ v]);
         parts = opt ''ns'' (kw_namespace w) @ opt ''nsRegex'' (kw_namespace_regex w) @
           opt ''host'' (kw_host w) @ opt ''hostRegex'' (kw_host_regex w) @
           mapSummary ''labels'' (kw_labels w) @ mapSummary ''annotations'' (kw_annotations w) @
           mapSummary ''namespaceAnnotations'' (kw_namespace_annotations w)
     in if parts = [] then '' ()'' else '' ('' @ join '', '' parts @ '')'')"

section \<open>The walk\<close>

record kube_entry =
  ks_cfg :: kube_config
  ks_ignore :: "bool option"

record kube_walk =
  kt_stack :: "kube_entry list"
  kt_chain :: "string list"
  kt_log :: kube_log

definition k_indexed :: "string \<Rightarrow> nat \<Rightarrow> string" where
  "k_indexed label i = label @ ''['' @ itoa (int i) @ '']''"

definition k_push :: "ingress \<Rightarrow> kube_env \<Rightarrow> string \<Rightarrow> kube_rule \<Rightarrow> kube_walk \<Rightarrow> kube_walk" where
  "k_push ing env label r t = (case k_apply (ig_annotations ing) env label (kr_config r) (kt_log t) of
    (cfg, lg) \<Rightarrow> \<lparr>kt_stack = kt_stack t @ [\<lparr>ks_cfg = cfg, ks_ignore = kr_ignore r\<rparr>],
      kt_chain = kt_chain t @ [label @ k_selectorSummary (kr_when r) @ (if kr_final r then '' [final]'' else [])],
      kt_log = lg\<rparr>)"

fun k_visitRule :: "matchers \<Rightarrow> ingress \<Rightarrow> string \<Rightarrow> kube_env \<Rightarrow> string \<Rightarrow> kube_rule \<Rightarrow> kube_walk \<Rightarrow> kube_walk \<times> bool"
  and k_visitRules :: "matchers \<Rightarrow> ingress \<Rightarrow> string \<Rightarrow> kube_env \<Rightarrow> string \<Rightarrow> nat \<Rightarrow> kube_rule list \<Rightarrow> kube_walk
    \<Rightarrow> kube_walk \<times> bool" where
  "k_visitRule mt ing host env label (KubeRule w ig fin cfg nested) t =
    (if \<not> k_whenMatches mt w ing host (ke_namespace_annotations env) then (t, False)
     else (case k_visitRules mt ing host env (label @ ''.nested'') 0 nested
              (k_push ing env label (KubeRule w ig fin cfg nested) t) of
         (t1, halted) \<Rightarrow> (t1, halted \<or> fin)))"
| "k_visitRules mt ing host env label i [] t = (t, False)"
| "k_visitRules mt ing host env label i (r # rs) t =
    (case k_visitRule mt ing host env (k_indexed label i) r t of
       (t1, halted) \<Rightarrow> if halted then (t1, True) else k_visitRules mt ing host env label (Suc i) rs t1)"

definition empty_walk :: kube_walk where
  "empty_walk = \<lparr>kt_stack = [], kt_chain = [], kt_log = \<lparr>kl_provenance = [], kl_warnings = []\<rparr>\<rparr>"

definition k_walkRules :: "matchers \<Rightarrow> ingress \<Rightarrow> string \<Rightarrow> kube_env \<Rightarrow> kube_rule list \<Rightarrow> kube_walk" where
  "k_walkRules mt ing host env rules = fst (k_visitRules mt ing host env ''match'' 0 rules empty_walk)"

section \<open>Resolution\<close>

definition merge_if :: "bool \<Rightarrow> string_list \<Rightarrow> string_list \<Rightarrow> string_list" where
  "merge_if b l out = (if b then out\<lparr>nl_values := mergeStrings (nl_values out) (nl_values l) (nl_override l)\<rparr> else out)"

definition resolve_layer :: "kube_config \<Rightarrow> kube_config \<Rightarrow> kube_config" where
  "resolve_layer c out = out
     \<lparr>kc_scheme := (if IsSet c ''scheme'' then kc_scheme c else kc_scheme out),
      kc_path := (if IsSet c ''path'' then kc_path c else kc_path out),
      kc_http_method := (if IsSet c ''httpMethod'' then kc_http_method c else kc_http_method out),
      kc_interval := (if IsSet c ''interval'' then kc_interval c else kc_interval out),
      kc_timeout := (if IsSet c ''timeout'' then kc_timeout c else kc_timeout out),
      kc_retries := (if IsSet c ''retries'' then kc_retries c else kc_retries out),
      kc_retry_backoff := (if IsSet c ''retryBackoff'' then kc_retry_backoff c else kc_retry_backoff out),
      kc_follow_redirects := (if IsSet c ''followRedirects'' then kc_follow_redirects c else kc_follow_redirects out),
      kc_insecure := (if IsSet c ''tlsInsecureSkipVerify'' then kc_insecure c else kc_insecure out),
      kc_proxy := (if IsSet c ''proxy'' then kc_proxy c else kc_proxy out),
      kc_reminder := (if IsSet c ''reminderInterval'' then kc_reminder c else kc_reminder out),
      kc_ssl_alert := (if IsSet c ''sslAlertThreshold'' then kc_ssl_alert c else kc_ssl_alert out),
      kc_ssl_escalation := (if IsSet c ''sslEscalationThreshold'' then kc_ssl_escalation c else kc_ssl_escalation out),
      kc_ssl_reminder := (if IsSet c ''sslReminderInterval'' then kc_ssl_reminder c else kc_ssl_reminder out),
      kc_slack := (if IsSet c ''slack'' then kc_slack c else kc_slack out),
      kc_accepted := (if IsSet c ''acceptedStatusCodes'' then kc_accepted c else kc_accepted out),
      kc_notify := merge_if (IsSet c ''notify'') (kc_notify c) (kc_notify out),
      kc_tags := merge_if (IsSet c ''tags'') (kc_tags c) (kc_tags out),
      kc_depends_on := merge_if (IsSet c ''dependsOn'') (kc_depends_on c) (kc_depends_on out)\<rparr>"

definition k_resolveStack :: "kube_entry list \<Rightarrow> kube_config" where
  "k_resolveStack stack = fold (\<lambda>e. resolve_layer (ks_cfg e)) stack zero_kube_config"

datatype check_error =
    PathInvalid string | MethodInvalid string | NoStatusCodes | IntervalInvalid duration
  | TimeoutInvalid duration | RetriesInvalid int | BackoffInvalid duration | ReminderInvalid duration
  | SSLAlertInvalid duration | SSLEscalationInvalid duration | SSLReminderInvalid duration
  | SlackMissing | IntervalTooShort duration duration | EscalationForHTTPS duration
  | AlertNotAboveEscalation duration duration

definition validHTTPMethod :: "string \<Rightarrow> bool" where
  "validHTTPMethod m \<longleftrightarrow> m \<in> set [''GET'', ''HEAD'', ''POST'', ''PUT'', ''DELETE'']"

definition checkResolved :: "kube_config \<Rightarrow> check_error option" where
  "checkResolved r =
    (let scheme = (if kc_scheme r = [] then ''https'' else kc_scheme r) in
     if kc_path r = [] \<or> \<not> has_prefix (kc_path r) ''/'' then Some (PathInvalid (kc_path r))
     else if \<not> validHTTPMethod (kc_http_method r) then Some (MethodInvalid (kc_http_method r))
     else if kc_accepted r = [] then Some NoStatusCodes
     else if kc_interval r \<le> 0 then Some (IntervalInvalid (kc_interval r))
     else if kc_timeout r \<le> 0 then Some (TimeoutInvalid (kc_timeout r))
     else if kc_retries r < 0 then Some (RetriesInvalid (kc_retries r))
     else if kc_retry_backoff r \<le> 0 then Some (BackoffInvalid (kc_retry_backoff r))
     else if kc_reminder r \<le> 0 then Some (ReminderInvalid (kc_reminder r))
     else if kc_ssl_alert r \<le> 0 then Some (SSLAlertInvalid (kc_ssl_alert r))
     else if kc_ssl_escalation r \<le> 0 then Some (SSLEscalationInvalid (kc_ssl_escalation r))
     else if kc_ssl_reminder r \<le> 0 then Some (SSLReminderInvalid (kc_ssl_reminder r))
     else if kc_slack r = [] then Some SlackMissing
     else if kc_interval r \<le> kc_timeout r then Some (IntervalTooShort (kc_interval r) (kc_timeout r))
     else if scheme = ''https'' then
       (if kc_ssl_escalation r \<le> 0 then Some (EscalationForHTTPS (kc_ssl_escalation r))
        else if kc_ssl_alert r \<le> kc_ssl_escalation r
        then Some (AlertNotAboveEscalation (kc_ssl_alert r) (kc_ssl_escalation r)) else None)
     else None)"

datatype resolve_error = ErrWildcardHost | CheckFailed check_error

record resolution =
  re_config :: kube_config
  re_chain :: "string list"
  re_provenance :: "kube_provenance list"
  re_warnings :: "kube_warning list"
  re_ignored :: bool
  re_matched :: bool
  re_wildcard :: bool
  re_err :: "resolve_error option"

definition re_classify :: "string \<Rightarrow> resolution \<Rightarrow> resolution" where
  "re_classify host r =
    (let r = r\<lparr>re_wildcard := (CHR ''*'' \<in> set host)\<rparr> in
     if re_ignored r then r
     else if re_wildcard r then r\<lparr>re_err := Some ErrWildcardHost\<rparr>
     else r\<lparr>re_err := map_option CheckFailed (checkResolved (re_config r))\<rparr>)"

definition stack_ignored :: "kube_entry list \<Rightarrow> bool" where
  "stack_ignored stack = fold (\<lambda>e b. case ks_ignore e of None \<Rightarrow> b | Some x \<Rightarrow> x) stack False"

definition Resolve :: "matchers \<Rightarrow> kube_rule list \<Rightarrow> ingress \<Rightarrow> string \<Rightarrow> kube_env \<Rightarrow> resolution" where
  "Resolve mt rules ing host env =
    (let t = k_walkRules mt ing host env rules;
         out = \<lparr>re_config = zero_kube_config, re_chain = kt_chain t, re_provenance = kl_provenance (kt_log t),
           re_warnings = kl_warnings (kt_log t), re_ignored = False, re_matched = False,
           re_wildcard = False, re_err = None\<rparr> in
     if kt_stack t = [] then out
     else re_classify host (out\<lparr>re_matched := True, re_ignored := stack_ignored (kt_stack t),
       re_config := k_resolveStack (kt_stack t)\<rparr>))"

end
