(* ===== verification/Kube.thy ===== *)
theory Kube
  imports Kube_Cascade Lifecycle
begin

text \<open>
  Discovery: the materializer that turns one host of an ingress into a snapshot row, a monitor and a
  cached plan (\<^verbatim>\<open>internal/merger/merger.go\<close>), and the watcher's reconcile pass that drives it, prunes
  the snapshot and hands removed monitors on (\<^verbatim>\<open>internal/kube/kube.go\<close>).  The informer is the list
  of ingresses a pass is given; the texts of check, slug and rejection errors are arguments.
\<close>

section \<open>Names\<close>

definition middle_dot :: string where "middle_dot = '' '' @ [CHR 0xC2, CHR 0xB7] @ '' ''"

definition em_dash :: string where "em_dash = '' '' @ [CHR 0xE2, CHR 0x80, CHR 0x94] @ '' ''"

definition arrow :: string where "arrow = '' '' @ [CHR 0xE2, CHR 0x86, CHR 0x92] @ '' ''"

definition hostFirstSegment :: "string \<Rightarrow> string" where
  "hostFirstSegment host =
    (let seg = takeWhile (\<lambda>c. c \<noteq> CHR ''.'') host in if seg \<noteq> [] \<and> seg \<noteq> host then seg else host)"

definition stripIngressSuffix :: "string \<Rightarrow> string" where
  "stripIngressSuffix name = trim_suffix name ''-ingress''"

definition stripNsPrefix :: "string \<Rightarrow> string \<Rightarrow> string" where
  "stripNsPrefix namespace name =
    (if namespace = [] \<or> name = [] then name
     else (let ns = filter (\<lambda>t. t \<noteq> []) (split_on CHR ''-'' namespace) in
       join ''-'' (dropWhile (\<lambda>t. t \<in> set ns) (split_on CHR ''-'' name))))"

text \<open>\<^verbatim>\<open>strings.ToUpper\<close> of one byte: a byte that is not ASCII is not valid UTF-8 on its own.\<close>

definition upper_first :: "char \<Rightarrow> string" where
  "upper_first c = (if is_lower c then [char_of (of_char c - 32 :: nat)]
     else if 128 \<le> (of_char c :: nat) then [CHR 0xEF, CHR 0xBF, CHR 0xBD] else [c])"

definition titleize :: "string \<Rightarrow> string" where
  "titleize s = (if s = [] then [] else
     join '' '' (map (\<lambda>p. case p of [] \<Rightarrow> [] | c # cs \<Rightarrow> upper_first c @ cs) (split_on CHR ''-'' s)))"

definition formatFriendlyName :: "string \<Rightarrow> string \<Rightarrow> string \<Rightarrow> string \<Rightarrow> bool \<Rightarrow> string" where
  "formatFriendlyName style namespace ingName host multi =
    (let seg = hostFirstSegment host;
         appendHost = (\<lambda>s. if \<not> multi then s else if seg = [] then s else s @ middle_dot @ seg);
         stripped = stripNsPrefix namespace (stripIngressSuffix ingName) in
     if style = ''plain'' then appendHost (''('' @ namespace @ '') '' @ ingName)
     else if style = ''dedupe'' then
       appendHost (''('' @ namespace @ '')'' @ (if stripped \<noteq> [] then '' '' @ stripped else []))
     else if style = ''title'' then
       ''('' @ titleize namespace @ '')'' @ (if stripped \<noteq> [] then '' '' @ titleize stripped else []) @
       (if multi \<and> seg \<noteq> [] then middle_dot @ titleize seg else [])
     else (let name = stripIngressSuffix ingName in
       appendHost (''('' @ namespace @ '') '' @ (if name = [] then ingName else name))))"

definition uniqueHosts :: "ingress \<Rightarrow> string list" where
  "uniqueHosts ing = dedup_from [] (filter (\<lambda>h. h \<noteq> []) (ig_rule_hosts ing))"

definition hasMultipleHosts :: "ingress \<Rightarrow> bool" where
  "hasMultipleHosts ing \<longleftrightarrow> 1 < length (uniqueHosts ing)"

definition buildURL :: "string \<Rightarrow> string \<Rightarrow> string \<Rightarrow> string" where
  "buildURL scheme host path =
     scheme @ ''://'' @ host @ (if has_prefix path ''/'' then path else ''/'' @ path)"

section \<open>The materializer\<close>

record texts =
  tx_check :: "check_error \<Rightarrow> string"
  tx_slug :: "slug_error \<Rightarrow> string"
  tx_reject :: "kube_reject \<Rightarrow> string"

record monitor_warnings =
  mw_slug :: string
  mw_namespace :: string
  mw_ingress_name :: string
  mw_host :: string
  mw_warnings :: "kube_warning list"

record mat_config =
  mz_match :: "kube_rule list"
  mz_static_slugs :: "string list"
  mz_style :: string
  mz_user_agent :: string
  mz_user_mapping :: "(string, string) gomap option" \<comment> \<open>a Go map that may be nil\<close>
  mz_proxies :: "string list"
  mz_channels :: "string list"
  mz_namespaces :: "(string \<Rightarrow> (string, string) gomap) option"

record mat_state =
  zs_db :: db
  zs_plans :: "(string, plan) gomap"
  zs_warnings :: "(string, monitor_warnings) gomap"

record discovered =
  dr_key :: snapshot_key
  dr_status :: string
  dr_reason :: "string option"
  dr_slug :: "string option"

definition New_materializer :: "kube_rule list \<Rightarrow> string list \<Rightarrow> string \<Rightarrow> string \<Rightarrow> (string, string) gomap option
    \<Rightarrow> string list \<Rightarrow> string list \<Rightarrow> mat_config" where
  "New_materializer rules statics style ua mapping proxies channels =
    \<lparr>mz_match = rules, mz_static_slugs = statics, mz_style = (if style = [] then ''compact'' else style),
     mz_user_agent = ua, mz_user_mapping = mapping, mz_proxies = proxies, mz_channels = channels,
     mz_namespaces = None\<rparr>"

definition mat_SetNamespaceAnnotationSource :: "(string \<Rightarrow> (string, string) gomap) option \<Rightarrow> mat_config \<Rightarrow> mat_config" where
  "mat_SetNamespaceAnnotationSource src m = m\<lparr>mz_namespaces := src\<rparr>"

definition ResolveEnv :: "mat_config \<Rightarrow> string \<Rightarrow> kube_env" where
  "ResolveEnv m namespace =
    \<lparr>ke_namespace_annotations = (case mz_namespaces m of None \<Rightarrow> [] | Some f \<Rightarrow> f namespace),
     ke_user_mapping = mz_user_mapping m, ke_slack_channels = Some (mz_channels m)\<rparr>"

definition recordWarnings :: "ingress \<Rightarrow> string \<Rightarrow> string \<Rightarrow> kube_warning list \<Rightarrow> mat_state \<Rightarrow> mat_state" where
  "recordWarnings ing host slug warnings z =
    (if warnings = [] then z\<lparr>zs_warnings := gm_del slug (zs_warnings z)\<rparr>
     else z\<lparr>zs_warnings := gm_put slug \<lparr>mw_slug = slug, mw_namespace = ig_namespace ing,
       mw_ingress_name = ig_name ing, mw_host = host, mw_warnings = warnings\<rparr> (zs_warnings z)\<rparr>)"

definition scope_text :: "kube_scope \<Rightarrow> string" where
  "scope_text s = (case s of KScopeIngress \<Rightarrow> ''annotation'' | KScopeNamespace \<Rightarrow> ''namespaceAnnotation''
     | KScopeDefault \<Rightarrow> ''default'')"

definition kube_provenance_String :: "kube_provenance \<Rightarrow> string" where
  "kube_provenance_String p = kp_field p @ ''='' @ kp_value p @ '' '' @ [CHR 0xE2, CHR 0x86, CHR 0x90] @
    (case kp_scope p of
       KScopeDefault \<Rightarrow> '' default ('' @ kp_key p @ (if kp_cause p = KCauseRejected then '' rejected)'' else '' absent)'')
     | s \<Rightarrow> '' '' @ scope_text s @ '' '' @ kp_key p)"

text \<open>\<^verbatim>\<open>%q\<close> of the rejected value is the argument's.\<close>

definition annotationSuffix :: "texts \<Rightarrow> (string \<Rightarrow> string) \<Rightarrow> resolution \<Rightarrow> string" where
  "annotationSuffix tx quoted res =
     concat (map (\<lambda>p. '' | '' @ kube_provenance_String p) (re_provenance res)) @
     concat (map (\<lambda>w. '' | warn: '' @ scope_text (kwa_scope w) @ '' '' @ kwa_key w @ '': '' @
       quoted (kwa_value w) @ '' '' @ tx_reject tx (kwa_reason w)) (re_warnings res))"

definition proxy_dialer :: "mat_config \<Rightarrow> string \<Rightarrow> string option" where
  "proxy_dialer m proxy = (if proxy \<noteq> [] \<and> proxy \<in> set (mz_proxies m) then Some proxy else None)"

definition resolved_scheme :: "kube_config \<Rightarrow> string" where
  "resolved_scheme r = (if kc_scheme r = [] then ''https'' else kc_scheme r)"

definition mat_spec :: "mat_config \<Rightarrow> ingress \<Rightarrow> string \<Rightarrow> string \<Rightarrow> kube_config \<Rightarrow> monitor_spec" where
  "mat_spec m ing host slug r =
    \<lparr>ms_slug = slug, ms_kind = ''http'',
     ms_friendly_name = formatFriendlyName (mz_style m) (ig_namespace ing) (ig_name ing) host (hasMultipleHosts ing),
     ms_url = buildURL (resolved_scheme r) host (kc_path r), ms_host = [], ms_port = 0, ms_tls_mode = [],
     ms_source = ''kube'', ms_depends_on = nl_values (kc_depends_on r),
     ms_slack_channel_slug = kc_slack r, ms_tags = nl_values (kc_tags r)\<rparr>"

definition mat_plan :: "mat_config \<Rightarrow> ingress \<Rightarrow> string \<Rightarrow> string \<Rightarrow> kube_config \<Rightarrow> plan" where
  "mat_plan m ing host slug r = (let spec = mat_spec m ing host slug r; url = ms_url spec in
    \<lparr>p_slug = slug, p_kind = ''http'', p_friendly_name = ms_friendly_name spec, p_url = url,
     p_http_method = kc_http_method r, p_host = [], p_port = 0, p_tls_mode = [], p_accepted = kc_accepted r,
     p_interval = kc_interval r, p_timeout = kc_timeout r, p_retries = kc_retries r,
     p_retry_backoff = kc_retry_backoff r, p_follow_redirects = kc_follow_redirects r,
     p_prober = Some (HTTPProber \<lparr>hc_url = url, hc_method = kc_http_method r, hc_accepted = kc_accepted r,
       hc_timeout = kc_timeout r, hc_follow_redirects = kc_follow_redirects r, hc_insecure = kc_insecure r,
       hc_proxy_dialer = proxy_dialer m (kc_proxy r), hc_user_agent = mz_user_agent m\<rparr>),
     p_insecure = kc_insecure r, p_proxy_dialer = proxy_dialer m (kc_proxy r), p_proxy = kc_proxy r,
     p_preset = [], p_user_agent = mz_user_agent m, p_reminder_interval = kc_reminder r,
     p_channel = kc_slack r, p_mentions = ResolveMentions (nl_values (kc_notify r)) (case mz_user_mapping m of None \<Rightarrow> [] | Some um \<Rightarrow> um),
     p_depends_on = nl_values (kc_depends_on r), p_critical = False, p_ssl_alert = kc_ssl_alert r,
     p_ssl_escalation = kc_ssl_escalation r, p_ssl_reminder = kc_ssl_reminder r,
     p_tls_bearing = (resolved_scheme r = ''https'')\<rparr>)"

definition kube_invalid :: "snapshot_key \<Rightarrow> string \<Rightarrow> discovered" where
  "kube_invalid key reason = \<lparr>dr_key = key, dr_status = ''kube-invalid'', dr_reason = Some reason, dr_slug = None\<rparr>"

definition resolve_error_text :: "texts \<Rightarrow> resolve_error \<Rightarrow> string" where
  "resolve_error_text tx e = (case e of ErrWildcardHost \<Rightarrow> ''wildcard host not probeable'' | CheckFailed c \<Rightarrow> tx_check tx c)"

definition Materialize :: "matchers \<Rightarrow> texts \<Rightarrow> (string \<Rightarrow> string) \<Rightarrow> mat_config \<Rightarrow> ingress \<Rightarrow> string
    \<Rightarrow> mat_state \<Rightarrow> mat_state \<times> (store_error + discovered)" where
  "Materialize mt tx quoted m ing host z =
    (let key = (ig_namespace ing, ig_name ing, host);
         res = Resolve mt (mz_match m) ing host (ResolveEnv m (ig_namespace ing));
         chain = join arrow (re_chain res);
         suffix = annotationSuffix tx quoted res in
     if \<not> re_matched res then (z, Inr (kube_invalid key ''no matching kube.match rule''))
     else if re_ignored res then
       (z, Inr \<lparr>dr_key = key, dr_status = ''kube-ignored'', dr_reason = Some (''kube-ignored: '' @ chain @
         (if re_wildcard res then em_dash @ ''wildcard host not probeable'' else []) @ suffix), dr_slug = None\<rparr>)
     else (case re_err res of
        Some e \<Rightarrow> (z, Inr (kube_invalid key (''kube-invalid: '' @ resolve_error_text tx e @ '' ('' @ chain @ '')'' @ suffix)))
      | None \<Rightarrow> (case SanitizeKubeDiscovered (ig_namespace ing) (ig_name ing) host of
          Inl e \<Rightarrow> (z, Inr (kube_invalid key (''slug generation failed: '' @ tx_slug tx e)))
        | Inr slug \<Rightarrow>
            if slug \<in> set (mz_static_slugs m)
            then (z, Inr (kube_invalid key ''slug conflicts with static monitor''))
            else (case ReconcileMonitor (mat_spec m ing host slug (re_config res)) (zs_db z) of
                (d, Inl e) \<Rightarrow> (z\<lparr>zs_db := d\<rparr>, Inl e)
              | (d, Inr _) \<Rightarrow> (recordWarnings ing host slug (re_warnings res)
                    (z\<lparr>zs_db := d, zs_plans := gm_put slug (mat_plan m ing host slug (re_config res)) (zs_plans z)\<rparr>),
                  Inr \<lparr>dr_key = key, dr_status = ''added'', dr_reason = Some (''added: '' @ chain @ suffix),
                    dr_slug = Some slug\<rparr>)))))"

definition Prune :: "string list \<Rightarrow> mat_state \<Rightarrow> mat_state" where
  "Prune seen z = z\<lparr>zs_plans := filter (\<lambda>(s, _). s \<in> set seen) (zs_plans z),
     zs_warnings := filter (\<lambda>(s, _). s \<in> set seen) (zs_warnings z)\<rparr>"

definition kube_CurrentPlans :: "mat_state \<Rightarrow> plan list" where
  "kube_CurrentPlans z = map snd (zs_plans z)"

definition AnnotationWarnings :: "mat_state \<Rightarrow> monitor_warnings list" where
  "AnnotationWarnings z = sort_key mw_slug (map snd (zs_warnings z))"

text \<open>The plan source of the scheduler: the static plans and the cached ones.\<close>

definition combined_CurrentPlans :: "plan list \<Rightarrow> mat_state option \<Rightarrow> plan list" where
  "combined_CurrentPlans static z = (case z of None \<Rightarrow> static | Some z \<Rightarrow> static @ kube_CurrentPlans z)"

section \<open>The watcher\<close>

record watcher =
  kw_materializer :: "(texts \<times> (string \<Rightarrow> string) \<times> mat_config) option"
  kw_on_removal :: bool

record watch_state =
  wt_mat :: mat_state
  wt_removed :: "removal list"
  wt_torn :: "string list" \<comment> \<open>the slugs handed to the removal sink\<close>
  wt_keys :: "snapshot_key list"
  wt_slugs :: "string list"

definition snapshotRowFor :: "matchers \<Rightarrow> watcher \<Rightarrow> ingress \<Rightarrow> string \<Rightarrow> mat_state
    \<Rightarrow> mat_state \<times> (store_error + discovered)" where
  "snapshotRowFor mt w ing host z = (case kw_materializer w of
      Some (tx, quoted, m) \<Rightarrow> Materialize mt tx quoted m ing host z
    | None \<Rightarrow> (z, Inr (kube_invalid (ig_namespace ing, ig_name ing, host) ''no materializer configured'')))"

definition tear_down :: "watcher \<Rightarrow> string \<Rightarrow> string \<Rightarrow> watch_state \<Rightarrow> watch_state" where
  "tear_down w slug reason s =
    (if kw_on_removal w then
       (case OnKubeMonitorRemoved slug reason (zs_db (wt_mat s)) of
          (d, out) \<Rightarrow> s\<lparr>wt_mat := (wt_mat s)\<lparr>zs_db := d\<rparr>, wt_removed := wt_removed s @ out,
            wt_torn := wt_torn s @ [slug]\<rparr>)
     else s)"

definition vacated_reason :: "discovered \<Rightarrow> string" where
  "vacated_reason row = (case dr_reason row of
      Some r \<Rightarrow> if r = [] then ''kube host no longer materialized'' else ''kube host no longer materialized: '' @ r
    | None \<Rightarrow> ''kube host no longer materialized'')"

definition reconcile_host :: "matchers \<Rightarrow> watcher \<Rightarrow> ingress \<times> string \<Rightarrow> watch_state \<Rightarrow> watch_state" where
  "reconcile_host mt w ih s = (case ih of (ing, host) \<Rightarrow>
    (let s1 = s\<lparr>wt_keys := wt_keys s @ [(ig_namespace ing, ig_name ing, host)]\<rparr> in
     case snapshotRowFor mt w ing host (wt_mat s1) of
       (z, Inl _) \<Rightarrow> s1\<lparr>wt_mat := z\<rparr>
     | (z, Inr row) \<Rightarrow>
        (case UpsertDiscoverySnapshot (dr_key row) (dr_status row) (dr_reason row) (dr_slug row) (zs_db z) of
           (d, Inl _) \<Rightarrow> s1\<lparr>wt_mat := z\<lparr>zs_db := d\<rparr>\<rparr>
         | (d, Inr vacated) \<Rightarrow>
            (let s2 = s1\<lparr>wt_mat := z\<lparr>zs_db := d\<rparr>\<rparr>;
                 s3 = (if vacated \<noteq> [] then tear_down w vacated (vacated_reason row) s2 else s2) in
             case dr_slug row of
               Some slug \<Rightarrow> if slug \<noteq> [] then s3\<lparr>wt_slugs := slug # wt_slugs s3\<rparr> else s3
             | None \<Rightarrow> s3))))"

text \<open>All hosts of all ingresses, in the order of the listing.\<close>

definition listed_hosts :: "ingress list \<Rightarrow> (ingress \<times> string) list" where
  "listed_hosts ingresses = concat (map (\<lambda>ing. map (Pair ing) (uniqueHosts ing)) ingresses)"

definition kube_reconcile :: "matchers \<Rightarrow> watcher \<Rightarrow> string + ingress list \<Rightarrow> watch_state \<Rightarrow> watch_state" where
  "kube_reconcile mt w listing s0 = (case listing of
      Inl _ \<Rightarrow> s0
    | Inr ingresses \<Rightarrow>
       (let s = fold (reconcile_host mt w) (listed_hosts ingresses) (s0\<lparr>wt_keys := [], wt_slugs := []\<rparr>) in
        if ingresses = [] then s
        else (case PruneDiscoverySnapshotExcept (wt_keys s) (zs_db (wt_mat s)) of
          (d, res) \<Rightarrow>
            (let gone = (case res of Inl _ \<Rightarrow> [] | Inr (_, slugs) \<Rightarrow> slugs);
                 s1 = fold (\<lambda>slug. tear_down w slug ''kube ingress removed'') gone
                   (s\<lparr>wt_mat := (wt_mat s)\<lparr>zs_db := d\<rparr>\<rparr>)
             in (case kw_materializer w of None \<Rightarrow> s1
                 | Some _ \<Rightarrow> s1\<lparr>wt_mat := Prune (wt_slugs s1) (wt_mat s1)\<rparr>)))))"

text \<open>The three triggers of a pass: the start, the ticker, and a nudge after its debounce.\<close>

datatype watch_event = WatchNudge | WatchTick | WatchDebounce

fun kube_Run :: "matchers \<Rightarrow> watcher \<Rightarrow> (watch_event \<times> (string + ingress list)) list \<Rightarrow> bool
    \<Rightarrow> watch_state \<Rightarrow> bool \<times> watch_state" where
  "kube_Run mt w [] armed s = (armed, s)"
| "kube_Run mt w ((WatchNudge, _) # es) armed s = kube_Run mt w es True s"
| "kube_Run mt w ((WatchTick, listing) # es) armed s = kube_Run mt w es armed (kube_reconcile mt w listing s)"
| "kube_Run mt w ((WatchDebounce, listing) # es) armed s =
     (if armed then kube_Run mt w es False (kube_reconcile mt w listing s) else kube_Run mt w es armed s)"

end
