(* ===== verification/Kube_Samples.thy ===== *)
theory Kube_Samples
  imports Kube
begin

text \<open>
  A cluster of one ingress, a rule that configures it, and the pass that discovers it: the concrete
  inputs at which the properties of discovery are shown to apply.
\<close>

section \<open>Samples\<close>

definition sample_ingress :: ingress where
  "sample_ingress = \<lparr>ig_namespace = ''s'', ig_name = ''w'', ig_labels = [], ig_annotations = [],
     ig_rule_hosts = [''a'', ''a'']\<rparr>"

definition sample_kube_config :: kube_config where
  "sample_kube_config = zero_kube_config\<lparr>kc_path := ''/'', kc_http_method := ''GET'', kc_accepted := [200],
     kc_interval := 60 * second, kc_timeout := 10 * second, kc_retries := 2, kc_retry_backoff := second,
     kc_reminder := hour, kc_ssl_alert := 48 * hour, kc_ssl_escalation := 24 * hour, kc_ssl_reminder := hour,
     kc_slack := ''ops'', kc_set := [''path'', ''httpMethod'', ''acceptedStatusCodes'', ''interval'', ''timeout'',
       ''retries'', ''retryBackoff'', ''reminderInterval'', ''sslAlertThreshold'', ''sslEscalationThreshold'',
       ''sslReminderInterval'', ''slack'']\<rparr>"

definition any_when :: kube_when where
  "any_when = \<lparr>kw_namespace = [], kw_namespace_regex = [], kw_host = [], kw_host_regex = [], kw_labels = [],
     kw_annotations = [], kw_namespace_annotations = []\<rparr>"

definition no_matchers :: matchers where
  "no_matchers = \<lparr>mt_glob = (\<lambda>p s. None), mt_regex = (\<lambda>p. None)\<rparr>"

definition sample_materializer :: mat_config where
  "sample_materializer = New_materializer [KubeRule any_when None False sample_kube_config []]
     [''static-a''] [] ''ua'' None [] [''ops'']"

definition sample_watcher :: watcher where
  "sample_watcher = \<lparr>kw_materializer = Some (\<lparr>tx_check = (\<lambda>e. []), tx_slug = (\<lambda>e. []), tx_reject = (\<lambda>e. [])\<rparr>,
     (\<lambda>v. v), sample_materializer), kw_on_removal = True\<rparr>"

definition fresh_watch :: "db \<Rightarrow> watch_state" where
  "fresh_watch d = \<lparr>wt_mat = \<lparr>zs_db = d, zs_plans = [], zs_warnings = []\<rparr>, wt_removed = [], wt_torn = [],
     wt_keys = [], wt_slugs = []\<rparr>"

definition sample_pass :: watch_state where
  "sample_pass = kube_reconcile no_matchers sample_watcher (Inr [sample_ingress]) (fresh_watch (empty_db 5))"

definition watch_summary :: "watch_state \<Rightarrow> string list \<times> string option list \<times> string list" where
  "watch_summary s = (gm_keys (zs_plans (wt_mat s)),
     map (ds_monitor_slug \<circ> snd) (db_snapshots (zs_db (wt_mat s))), wt_torn s)"

lemma sample_pass_facts: "watch_summary sample_pass =
    ([''kube-s__w__a''], [Some ''kube-s__w__a''], [])"
  unfolding sample_pass_def by code_simp

text \<open>A later state: the row of the ingress and its plan are there.\<close>

definition sample_known :: "db \<Rightarrow> watch_state" where
  "sample_known d = (fresh_watch d)\<lparr>wt_mat := \<lparr>zs_db = d\<lparr>db_snapshots := [((''s'', ''w'', ''a''), \<lparr>ds_id = 1, ds_status = ''added'',
       ds_reason = None, ds_monitor_slug = Some ''kube-s__w__a'', ds_last_seen_at = 5\<rparr>)]\<rparr>,
       zs_plans = [(''kube-s__w__a'', mat_plan sample_materializer sample_ingress ''a'' ''kube-s__w__a'' sample_kube_config)],
       zs_warnings = []\<rparr>\<rparr>"

text \<open>
  A pass over the same cluster whose first store call fails: the row survives and nothing is torn down, but the
  plan is gone until a later pass.
\<close>

definition sample_faulty_pass :: watch_state where
  "sample_faulty_pass = kube_reconcile no_matchers sample_watcher (Inr [sample_ingress])
     (sample_known ((empty_db 6)\<lparr>db_faults := [True]\<rparr>))"

lemma fault_drops_the_plan: "watch_summary sample_faulty_pass = ([], [Some ''kube-s__w__a''], [])"
  unfolding sample_faulty_pass_def by code_simp

text \<open>A pass after the ingress has left the cluster; the one still there has no rule.\<close>

definition sample_gone_pass :: watch_state where
  "sample_gone_pass = kube_reconcile no_matchers (sample_watcher\<lparr>kw_materializer := None\<rparr>)
     (Inr [sample_ingress\<lparr>ig_name := ''v'', ig_rule_hosts := [''b'']\<rparr>]) (sample_known (empty_db 6))"

lemma sample_gone_facts: "(case watch_summary sample_gone_pass of (plans, slugs, torn) \<Rightarrow> slugs = [None] \<and> torn = [''kube-s__w__a''])"
  unfolding sample_gone_pass_def by code_simp

end
