(* ===== verification/Kube_Claims.thy ===== *)
theory Kube_Claims
  imports Kube_Samples
begin

text \<open>
  What discovery guarantees: a cached plan can always be scheduled, a monitor is torn down exactly when
  a snapshot row loses it, the plans are those of the snapshot when nothing fails, and an annotation
  never costs an ingress its monitor.
\<close>

section \<open>Frames\<close>

lemma ReconcileMonitor_snapshots: "ReconcileMonitor spec d = (d', r) \<Longrightarrow> db_snapshots d' = db_snapshots d"
  unfolding ReconcileMonitor_def
  by (erule db_call_elim) (auto simp: Let_def dest: db_data_sel(3))

lemma OnKubeMonitorRemoved_snapshots: "OnKubeMonitorRemoved slug reason d = (d', out) \<Longrightarrow> db_snapshots d' = db_snapshots d"
proof -
  have g: "db_snapshots d' = db_snapshots d" if "GetMonitor slug d = (d', r)" for d' r
    using that unfolding GetMonitor_def by (elim db_call_elim) (auto dest: db_data_sel(3) split: option.splits)
  have s: "db_snapshots d2 = db_snapshots d1" if "SoftDeleteMonitor slug reason d1 = (d2, r)" for d1 d2 r
    using that unfolding SoftDeleteMonitor_def
    by (elim db_call_elim) (auto simp: update_monitor_def dest: db_data_sel(3) split: option.splits)
  assume "OnKubeMonitorRemoved slug reason d = (d', out)"
  then show ?thesis
    by (auto simp: OnKubeMonitorRemoved_def split: prod.splits sum.splits if_splits dest!: g s)
qed

definition keeps_snapshot :: "watch_state \<Rightarrow> watch_state \<Rightarrow> bool" where
  "keeps_snapshot s s' \<longleftrightarrow> db_snapshots (zs_db (wt_mat s')) = db_snapshots (zs_db (wt_mat s)) \<and>
     zs_plans (wt_mat s') = zs_plans (wt_mat s) \<and> wt_keys s' = wt_keys s \<and> wt_slugs s' = wt_slugs s"

lemma tear_down_frame: "keeps_snapshot s (tear_down w slug reason s)"
  by (auto simp: keeps_snapshot_def tear_down_def split: prod.splits dest: OnKubeMonitorRemoved_snapshots)

lemma tear_down_torn: "wt_torn (tear_down w slug reason s) = wt_torn s @ (if kw_on_removal w then [slug] else [])"
  by (simp add: tear_down_def split: prod.splits)

lemma tear_down_all:
  "keeps_snapshot s (fold (\<lambda>slug. tear_down w slug reason) slugs s) \<and>
   wt_torn (fold (\<lambda>slug. tear_down w slug reason) slugs s) = wt_torn s @ (if kw_on_removal w then slugs else [])"
proof (induction slugs arbitrary: s)
  case (Cons x xs)
  from Cons.IH [of "tear_down w x reason s"] tear_down_frame [of s w x reason] tear_down_torn [of w x reason s]
  show ?case by (auto simp: keeps_snapshot_def)
qed (simp add: keeps_snapshot_def)

section \<open>Cached plans\<close>

text \<open>What the scheduler and the probers need of a plan.\<close>

definition probeable :: "string list \<Rightarrow> string \<Rightarrow> plan \<Rightarrow> bool" where
  "probeable statics slug p \<longleftrightarrow> p_slug p = slug \<and> has_prefix slug ''kube-'' \<and> length slug \<le> 255 \<and>
     slug \<notin> set statics \<and> 0 < p_timeout p \<and> p_timeout p < p_interval p \<and> 0 \<le> p_retries p \<and>
     0 < p_retry_backoff p \<and> 0 < p_reminder_interval p \<and> p_accepted p \<noteq> [] \<and> p_channel p \<noteq> [] \<and>
     p_http_method p \<in> set [''GET'', ''HEAD'', ''POST'', ''PUT'', ''DELETE''] \<and>
     (p_tls_bearing p \<longrightarrow> 0 < p_ssl_escalation p \<and> p_ssl_escalation p < p_ssl_alert p)"

lemma sanitized_shape:
  "SanitizeKubeDiscovered ns name host = Inr slug \<Longrightarrow> has_prefix slug ''kube-'' \<and> length slug \<le> 255 \<and> slug \<noteq> []"
  by (auto simp: SanitizeKubeDiscovered_def Let_def KubeSlugPrefix_def MaxLen_def has_prefix_def split: if_splits option.splits)

lemma re_err_None:
  assumes "re_matched (Resolve mt rules ing host env)" "\<not> re_ignored (Resolve mt rules ing host env)"
    and "re_err (Resolve mt rules ing host env) = None"
  shows "checkResolved (re_config (Resolve mt rules ing host env)) = None"
  using assms by (auto simp: Resolve_def re_classify_def Let_def split: if_splits)

lemma checked_plan:
  assumes "checkResolved r = None" "SanitizeKubeDiscovered ns name h = Inr slug" "slug \<notin> set statics"
  shows "probeable statics slug (mat_plan m ing host slug r)"
  using assms(1,3) sanitized_shape [OF assms(2)]
  by (auto simp: probeable_def mat_plan_def Let_def checkResolved_def validHTTPMethod_def resolved_scheme_def
      split: if_splits)

lemma recordWarnings_sel [simp]:
  "zs_db (recordWarnings ing host slug ws z) = zs_db z" "zs_plans (recordWarnings ing host slug ws z) = zs_plans z"
  by (simp_all add: recordWarnings_def)

lemma Materialize_frame:
  assumes "Materialize mt tx quoted m ing host z = (z', r)"
  shows "db_snapshots (zs_db z') = db_snapshots (zs_db z) \<and>
    (case r of Inl _ \<Rightarrow> zs_plans z' = zs_plans z
     | Inr row \<Rightarrow> dr_key row = (ig_namespace ing, ig_name ing, host) \<and>
        (case dr_slug row of None \<Rightarrow> zs_plans z' = zs_plans z
         | Some slug \<Rightarrow> slug \<noteq> [] \<and> (\<exists>p. zs_plans z' = gm_put slug p (zs_plans z) \<and> probeable (mz_static_slugs m) slug p)))"
proof -
  let ?res = "Resolve mt (mz_match m) ing host (ResolveEnv m (ig_namespace ing))"
  show ?thesis
  proof (cases "re_matched ?res \<and> \<not> re_ignored ?res \<and> re_err ?res = None")
    case False
    then show ?thesis
      using assms by (auto simp: Materialize_def Let_def kube_invalid_def split: option.splits if_splits)
  next
    case True
    then have c: "checkResolved (re_config ?res) = None" by (intro re_err_None) auto
    show ?thesis
    proof (cases "SanitizeKubeDiscovered (ig_namespace ing) (ig_name ing) host")
      case (Inl e)
      then show ?thesis using True assms by (auto simp: Materialize_def Let_def kube_invalid_def)
    next
      case (Inr slug)
      show ?thesis
      proof (cases "slug \<in> set (mz_static_slugs m)")
        case True
        then show ?thesis using \<open>re_matched ?res \<and> _\<close> Inr assms
          by (auto simp: Materialize_def Let_def kube_invalid_def)
      next
        case False
        let ?p = "mat_plan m ing host slug (re_config ?res)"
        obtain d e where d: "ReconcileMonitor (mat_spec m ing host slug (re_config ?res)) (zs_db z) = (d, e)"
          by (metis surj_pair)
        have p: "probeable (mz_static_slugs m) slug ?p" by (rule checked_plan [OF c Inr False])
        then have "\<exists>p. gm_put slug ?p (zs_plans z) = gm_put slug p (zs_plans z) \<and> probeable (mz_static_slugs m) slug p"
          by blast
        with d sanitized_shape [OF Inr] ReconcileMonitor_snapshots [OF d] show ?thesis
          using \<open>re_matched ?res \<and> _\<close> Inr False assms
          by (cases e) (auto simp: Materialize_def Let_def)
      qed
    qed
  qed
qed

definition plans_ok :: "watcher \<Rightarrow> mat_state \<Rightarrow> bool" where
  "plans_ok w z \<longleftrightarrow> (\<forall>tx quoted m. kw_materializer w = Some (tx, quoted, m) \<longrightarrow>
     (\<forall>slug p. gm_get (zs_plans z) slug = Some p \<longrightarrow> probeable (mz_static_slugs m) slug p)) \<and> gm_ok (zs_plans z)"

lemma snapshotRowFor_frame:
  assumes "snapshotRowFor mt w ing host z = (z', r)"
  shows "db_snapshots (zs_db z') = db_snapshots (zs_db z) \<and> (plans_ok w z \<longrightarrow> plans_ok w z') \<and>
    (case r of Inl _ \<Rightarrow> zs_plans z' = zs_plans z
     | Inr row \<Rightarrow> dr_key row = (ig_namespace ing, ig_name ing, host) \<and>
        (case dr_slug row of None \<Rightarrow> zs_plans z' = zs_plans z
         | Some slug \<Rightarrow> slug \<noteq> [] \<and> (\<exists>p. zs_plans z' = gm_put slug p (zs_plans z))))"
proof (cases "kw_materializer w")
  case None
  then show ?thesis using assms by (auto simp: snapshotRowFor_def kube_invalid_def plans_ok_def)
next
  case (Some c)
  obtain tx quoted m where c: "c = (tx, quoted, m)" by (metis prod_cases3)
  from assms Some c have "Materialize mt tx quoted m ing host z = (z', r)" by (simp add: snapshotRowFor_def)
  from Materialize_frame [OF this] Some c show ?thesis
    by (auto simp: plans_ok_def split: sum.splits option.splits if_splits)
qed

lemma plans_ok_cong: "zs_plans z' = zs_plans z \<Longrightarrow> plans_ok w z' = plans_ok w z"
  by (simp add: plans_ok_def)

lemma plans_ok_Prune: "plans_ok w z \<Longrightarrow> plans_ok w (Prune seen z)"
  unfolding plans_ok_def Prune_def
  by (auto simp: gm_filter_get split: option.splits)

lemma plans_ok_keeps: "keeps_snapshot s s' \<Longrightarrow> plans_ok w (wt_mat s') = plans_ok w (wt_mat s)"
  by (simp add: keeps_snapshot_def plans_ok_def)

text \<open>One host of a pass: its key is recorded, and the snapshot either stays or takes one row.\<close>

definition host_key :: "ingress \<times> string \<Rightarrow> snapshot_key" where
  "host_key ih = (ig_namespace (fst ih), ig_name (fst ih), snd ih)"

definition slug_at :: "(snapshot_key, discovery_row) gomap \<Rightarrow> snapshot_key \<Rightarrow> string option" where
  "slug_at tbl k = (case gm_get tbl k of None \<Rightarrow> None | Some r \<Rightarrow>
     (case ds_monitor_slug r of None \<Rightarrow> None | Some s \<Rightarrow> if s = [] then None else Some s))"

abbreviation snapshots_of :: "watch_state \<Rightarrow> (snapshot_key, discovery_row) gomap" where
  "snapshots_of s \<equiv> db_snapshots (zs_db (wt_mat s))"

lemma slug_at_put: "slug_at (gm_put key row tbl) k =
    (if k = key then (case ds_monitor_slug row of None \<Rightarrow> None | Some s \<Rightarrow> if s = [] then None else Some s)
     else slug_at tbl k)"
  by (simp add: slug_at_def)

lemma reconcile_host_frame:
  assumes s': "s' = reconcile_host mt w ih s"
  shows "wt_keys s' = wt_keys s @ [host_key ih] \<and>
    (plans_ok w (wt_mat s) \<longrightarrow> plans_ok w (wt_mat s')) \<and>
    (snapshots_of s' = snapshots_of s \<and> wt_torn s' = wt_torn s \<or>
     (\<exists>row. snapshots_of s' = gm_put (host_key ih) row (snapshots_of s)) \<and>
      wt_torn s' = wt_torn s @ (if kw_on_removal w then
        (case slug_at (snapshots_of s) (host_key ih) of None \<Rightarrow> []
         | Some slug \<Rightarrow> if slug_at (snapshots_of s') (host_key ih) = Some slug then [] else [slug]) else []))"
proof -
  obtain ing host where ih: "ih = (ing, host)" by (metis surj_pair)
  define s1 where "s1 = s\<lparr>wt_keys := wt_keys s @ [(ig_namespace ing, ig_name ing, host)]\<rparr>"
  obtain z r where zr: "snapshotRowFor mt w ing host (wt_mat s1) = (z, r)" by (metis surj_pair)
  then have zr': "snapshotRowFor mt w ing host (wt_mat s) = (z, r)" by (simp add: s1_def)
  from snapshotRowFor_frame [OF zr]
  have f: "db_snapshots (zs_db z) = snapshots_of s" "plans_ok w (wt_mat s) \<longrightarrow> plans_ok w z"
    and key: "\<And>row. r = Inr row \<Longrightarrow> dr_key row = host_key ih"
    by (auto simp: s1_def host_key_def ih split: sum.splits)
  show ?thesis
  proof (cases r)
    case (Inl e)
    have "s' = s1\<lparr>wt_mat := z\<rparr>"
      using s' zr' Inl by (simp add: reconcile_host_def ih s1_def [symmetric])
    with f show ?thesis by (simp add: s1_def host_key_def ih)
  next
    case (Inr row)
    obtain d u where u: "UpsertDiscoverySnapshot (dr_key row) (dr_status row) (dr_reason row) (dr_slug row) (zs_db z) = (d, u)"
      by (metis surj_pair)
    note up = Upsert_snapshot_effect [OF u]
    show ?thesis
    proof (cases u)
      case (Inl e)
      have "s' = s1\<lparr>wt_mat := z\<lparr>zs_db := d\<rparr>\<rparr>"
        using s' zr' \<open>r = Inr row\<close> u Inl by (simp add: reconcile_host_def ih s1_def [symmetric])
      moreover have "plans_ok w (z\<lparr>zs_db := d\<rparr>) = plans_ok w z" by (rule plans_ok_cong) simp
      ultimately show ?thesis using f up Inl by (simp add: s1_def host_key_def ih)
    next
      case (Inr vacated)
      define s2 where "s2 = s1\<lparr>wt_mat := z\<lparr>zs_db := d\<rparr>\<rparr>"
      define s3 where "s3 = (if vacated \<noteq> [] then tear_down w vacated (vacated_reason row) s2 else s2)"
      have s'3: "s' = s3 \<or> (\<exists>l. s' = s3\<lparr>wt_slugs := l\<rparr>)"
        using s' zr' \<open>r = Inr row\<close> u Inr
        by (auto simp: reconcile_host_def ih s1_def [symmetric] s2_def [symmetric] s3_def Let_def split: option.splits)
      have "keeps_snapshot s2 s3"
        using tear_down_frame [of s2 w vacated "vacated_reason row"] by (auto simp: s3_def keeps_snapshot_def)
      moreover from s'3 have same: "wt_mat s' = wt_mat s3" "wt_keys s' = wt_keys s3" "wt_torn s' = wt_torn s3" by auto
      ultimately have a: "snapshots_of s' = db_snapshots d" "zs_plans (wt_mat s') = zs_plans z"
        "wt_keys s' = wt_keys s @ [host_key ih]"
        by (auto simp: keeps_snapshot_def s2_def s1_def host_key_def ih)
      have torn: "wt_torn s' = wt_torn s @ (if kw_on_removal w then (if vacated \<noteq> [] then [vacated] else []) else [])"
        using tear_down_torn [of w vacated "vacated_reason row" s2] by (simp add: same s3_def) (simp add: s2_def s1_def)
      from up Inr key [OF \<open>r = Inr row\<close>] f obtain new where
        new: "ds_monitor_slug new = dr_slug row" "db_snapshots d = gm_put (host_key ih) new (snapshots_of s)"
        and v: "vacated = (case gm_get (snapshots_of s) (host_key ih) of None \<Rightarrow> [] | Some r \<Rightarrow>
          (case ds_monitor_slug r of None \<Rightarrow> [] | Some sl \<Rightarrow> if sl \<noteq> [] \<and> dr_slug row \<noteq> Some sl then sl else []))"
        by auto
      have at: "slug_at (snapshots_of s') (host_key ih) =
        (case dr_slug row of None \<Rightarrow> None | Some sl \<Rightarrow> if sl = [] then None else Some sl)"
        by (simp add: a new slug_at_put)
      have vac: "(if vacated \<noteq> [] then [vacated] else []) =
        (case slug_at (snapshots_of s) (host_key ih) of None \<Rightarrow> []
         | Some slug \<Rightarrow> if slug_at (snapshots_of s') (host_key ih) = Some slug then [] else [slug])"
        unfolding at v by (auto simp: slug_at_def split: option.splits)
      note torn [unfolded vac]
      moreover have "\<exists>row. snapshots_of s' = gm_put (host_key ih) row (snapshots_of s)" using a(1) new(2) by metis
      moreover have "plans_ok w (wt_mat s) \<longrightarrow> plans_ok w (wt_mat s')" using f(2) plans_ok_cong [OF a(2)] by blast
      ultimately show ?thesis using a(3) by blast
    qed
  qed
qed

lemma fold_hosts_plans_ok:
  "plans_ok w (wt_mat s) \<Longrightarrow> plans_ok w (wt_mat (fold (reconcile_host mt w) hs s))"
proof (induction hs arbitrary: s)
  case (Cons h hs)
  from reconcile_host_frame [OF refl, of mt w h s] Cons.prems Cons.IH show ?case by simp
qed simp

lemma kube_reconcile_plans_ok:
  assumes "plans_ok w (wt_mat s0)"
  shows "plans_ok w (wt_mat (kube_reconcile mt w listing s0))"
proof (cases listing)
  case (Inr ings)
  define s where "s = fold (reconcile_host mt w) (listed_hosts ings) (s0\<lparr>wt_keys := [], wt_slugs := []\<rparr>)"
  obtain d res where dr: "PruneDiscoverySnapshotExcept (wt_keys s) (zs_db (wt_mat s)) = (d, res)" by (metis surj_pair)
  have ok: "plans_ok w (wt_mat s)" unfolding s_def by (rule fold_hosts_plans_ok) (simp add: assms)
  define s1 where "s1 = fold (\<lambda>slug. tear_down w slug ''kube ingress removed'')
    (case res of Inl _ \<Rightarrow> [] | Inr (_, slugs) \<Rightarrow> slugs) (s\<lparr>wt_mat := (wt_mat s)\<lparr>zs_db := d\<rparr>\<rparr>)"
  have "plans_ok w (wt_mat s1)"
    using tear_down_all [of "s\<lparr>wt_mat := (wt_mat s)\<lparr>zs_db := d\<rparr>\<rparr>" w "''kube ingress removed''"] ok
    unfolding s1_def by (subst plans_ok_keeps, blast) (simp add: plans_ok_def)
  then show ?thesis using ok plans_ok_Prune
    by (auto simp: kube_reconcile_def Inr Let_def s_def [symmetric] dr s1_def [symmetric] split: option.splits)
qed (simp add: kube_reconcile_def assms)

lemma kube_Run_plans_ok:
  "plans_ok w (wt_mat s0) \<Longrightarrow> kube_Run mt w es a s0 = (armed, s) \<Longrightarrow> plans_ok w (wt_mat s)"
  by (induction mt w es a s0 rule: kube_Run.induct) (auto simp: kube_reconcile_plans_ok split: if_splits)

text \<open>Whatever the ingresses, the annotations and the faults of the store, every plan the materializer
  has cached is one the scheduler can run: it is listed under its own slug, which is a legal one in the
  discovered namespace and names no static monitor; the timeout fits in a positive interval, the retries are not negative,
  every other interval is positive, there is a status code to accept, a known method and a channel, and a plan
  that watches a certificate escalates before it is due to alert.\<close>

theorem cached_plans_are_probeable:
  assumes "kw_materializer w = Some (tx, quoted, m)" "zs_plans (wt_mat s0) = []"
    and "kube_Run mt w events False s0 = (armed, s)"
    and "p \<in> set (kube_CurrentPlans (wt_mat s))"
  shows "probeable (mz_static_slugs m) (p_slug p) p"
proof -
  from kube_Run_plans_ok [OF _ assms(3)] have ok: "plans_ok w (wt_mat s)" using assms(2) by (simp add: plans_ok_def)
  from assms(4) obtain slug where "(slug, p) \<in> set (zs_plans (wt_mat s))" by (auto simp: kube_CurrentPlans_def)
  with ok assms(1) have "probeable (mz_static_slugs m) slug p" by (auto simp: plans_ok_def gm_get_mem)
  then show ?thesis by (simp add: probeable_def)
qed

lemma cached_plans_are_probeable_witness:
  "\<exists>p. kube_CurrentPlans (wt_mat sample_pass) = [p] \<and> probeable [''static-a''] (p_slug p) p"
proof -
  have run: "kube_Run no_matchers sample_watcher [(WatchNudge, Inl []), (WatchTick, Inr [sample_ingress])] False
      (fresh_watch (empty_db 5)) = (True, sample_pass)"
    by (simp add: sample_pass_def)
  have "kw_materializer sample_watcher = Some (the (kw_materializer sample_watcher))"
    by (simp add: sample_watcher_def)
  moreover obtain tx quoted m where "kw_materializer sample_watcher = Some (tx, quoted, m)"
    "mz_static_slugs m = [''static-a'']"
    by (simp add: sample_watcher_def sample_materializer_def New_materializer_def)
  moreover obtain p where p: "kube_CurrentPlans (wt_mat sample_pass) = [p]"
    using sample_pass_facts by (auto simp: watch_summary_def kube_CurrentPlans_def gm_keys_def)
  ultimately show ?thesis
    using cached_plans_are_probeable [OF _ _ run, of _ _ _ p] by (auto simp: fresh_watch_def)
qed

section \<open>Teardown\<close>

lemma slug_at_Some: "slug_at tbl k = Some slug \<longleftrightarrow> slug \<noteq> [] \<and>
    (\<exists>r. gm_get tbl k = Some r \<and> ds_monitor_slug r = Some slug)"
  by (auto simp: slug_at_def split: option.splits)

definition lost_values :: "('k \<Rightarrow> 'v option) \<Rightarrow> ('k \<Rightarrow> 'v option) \<Rightarrow> 'v set" where
  "lost_values before after = {v. \<exists>k. before k = Some v \<and> after k \<noteq> Some v}"

definition agree_off :: "'k set \<Rightarrow> ('k \<Rightarrow> 'v option) \<Rightarrow> ('k \<Rightarrow> 'v option) \<Rightarrow> bool" where
  "agree_off K before after \<longleftrightarrow> (\<forall>k. k \<notin> K \<longrightarrow> after k = before k)"

lemma lost_values_refl [simp]: "lost_values f f = {}" "agree_off K f f"
  by (simp_all add: lost_values_def agree_off_def)

lemma lost_values_trans:
  assumes "agree_off K1 a b" "agree_off K2 b c" "K1 \<inter> K2 = {}"
  shows "lost_values a c = lost_values a b \<union> lost_values b c" "agree_off (K1 \<union> K2) a c"
proof -
  have *: "b k = a k \<or> c k = b k" for k
    using assms by (auto simp: agree_off_def)
  show "lost_values a c = lost_values a b \<union> lost_values b c"
    unfolding lost_values_def by (safe; metis *)
  show "agree_off (K1 \<union> K2) a c" using assms by (auto simp: agree_off_def)
qed

lemma lost_values_at: "agree_off {k} f g \<Longrightarrow> lost_values f g = {v. f k = Some v \<and> g k \<noteq> Some v}"
  by (auto simp: lost_values_def agree_off_def)

lemma lost_values_restrict:
  "\<forall>k. g k = (if k \<in> K then f k else None) \<Longrightarrow> agree_off (- K) f g \<and> lost_values f g = {v. \<exists>k. k \<notin> K \<and> f k = Some v}"
  by (auto simp: lost_values_def agree_off_def) 

lemma one_host_torn:
  assumes "kw_on_removal w" "s' = reconcile_host mt w h s"
  shows "(gm_ok (snapshots_of s) \<longrightarrow> gm_ok (snapshots_of s')) \<and> agree_off {host_key h} (slug_at (snapshots_of s)) (slug_at (snapshots_of s')) \<and>
    (\<exists>new. wt_torn s' = wt_torn s @ new \<and> set new = lost_values (slug_at (snapshots_of s)) (slug_at (snapshots_of s')))"
proof -
  from reconcile_host_frame [OF assms(2)] assms(1) consider
      (same) "snapshots_of s' = snapshots_of s" "wt_torn s' = wt_torn s"
    | (put) row where "snapshots_of s' = gm_put (host_key h) row (snapshots_of s)"
        "wt_torn s' = wt_torn s @ (case slug_at (snapshots_of s) (host_key h) of None \<Rightarrow> []
           | Some slug \<Rightarrow> if slug_at (snapshots_of s') (host_key h) = Some slug then [] else [slug])"
    by auto
  then show ?thesis
  proof cases
    case same
    then show ?thesis by (simp add: agree_off_def lost_values_def)
  next
    case (put row)
    have a: "agree_off {host_key h} (slug_at (snapshots_of s)) (slug_at (snapshots_of s'))"
      by (simp add: agree_off_def put(1) slug_at_put)
    from put(2) a lost_values_at [OF a] show ?thesis by (simp add: put(1) gm.ok_put split: option.splits) auto
  qed
qed

lemma hosts_torn:
  assumes "kw_on_removal w" "distinct (map host_key hs)"
    and "gm_ok (snapshots_of s)" "s' = fold (reconcile_host mt w) hs s"
  shows "gm_ok (snapshots_of s') \<and> agree_off (host_key ` set hs) (slug_at (snapshots_of s)) (slug_at (snapshots_of s')) \<and>
    wt_keys s' = wt_keys s @ map host_key hs \<and>
    (\<exists>new. wt_torn s' = wt_torn s @ new \<and> set new = lost_values (slug_at (snapshots_of s)) (slug_at (snapshots_of s')))"
  using assms(2-)
proof (induction hs arbitrary: s)
  case Nil
  then show ?case by (simp add: agree_off_def lost_values_def)
next
  case (Cons h hs)
  define s1 where "s1 = reconcile_host mt w h s"
  note one = one_host_torn [OF assms(1) s1_def]
  have k1: "wt_keys s1 = wt_keys s @ [host_key h]" using reconcile_host_frame [OF s1_def] by simp
  have IH: "gm_ok (snapshots_of s') \<and> agree_off (host_key ` set hs) (slug_at (snapshots_of s1)) (slug_at (snapshots_of s')) \<and>
    wt_keys s' = wt_keys s1 @ map host_key hs \<and>
    (\<exists>new. wt_torn s' = wt_torn s1 @ new \<and> set new = lost_values (slug_at (snapshots_of s1)) (slug_at (snapshots_of s')))"
    using Cons one by (intro Cons.IH) (auto simp: s1_def)
  have "{host_key h} \<inter> host_key ` set hs = {}" using Cons.prems(1) by auto
  from lost_values_trans [OF _ _ this, of "slug_at (snapshots_of s)" "slug_at (snapshots_of s1)" "slug_at (snapshots_of s')"] one IH
  have "lost_values (slug_at (snapshots_of s)) (slug_at (snapshots_of s')) =
      lost_values (slug_at (snapshots_of s)) (slug_at (snapshots_of s1)) \<union> lost_values (slug_at (snapshots_of s1)) (slug_at (snapshots_of s'))"
    "agree_off (host_key ` set (h # hs)) (slug_at (snapshots_of s)) (slug_at (snapshots_of s'))" by auto
  moreover obtain n1 n2 where "wt_torn s1 = wt_torn s @ n1" "set n1 = lost_values (slug_at (snapshots_of s)) (slug_at (snapshots_of s1))"
    "wt_torn s' = wt_torn s1 @ n2" "set n2 = lost_values (slug_at (snapshots_of s1)) (slug_at (snapshots_of s'))"
    using one IH by blast
  ultimately show ?case using IH k1 by (intro conjI) (simp_all add: exI [of _ "n1 @ n2"])
qed

lemma dedup_from_distinct: "distinct (dedup_from s xs) \<and> set (dedup_from s xs) = set xs - set s"
  by (induction xs arbitrary: s) auto

lemma listed_hosts_distinct:
  assumes "distinct (map (\<lambda>i. (ig_namespace i, ig_name i)) ings)"
  shows "distinct (map host_key (listed_hosts ings))"
  using assms
proof (induction ings)
  case (Cons i rest)
  have "map host_key (listed_hosts (i # rest)) =
      map (\<lambda>h. (ig_namespace i, ig_name i, h)) (uniqueHosts i) @ map host_key (listed_hosts rest)"
    by (simp add: listed_hosts_def host_key_def comp_def)
  moreover have "distinct (map (\<lambda>h. (ig_namespace i, ig_name i, h)) (uniqueHosts i))"
    using dedup_from_distinct [of "[]"] by (simp add: distinct_map inj_on_def uniqueHosts_def)
  moreover have "distinct (map host_key (listed_hosts rest))" using Cons by simp
  moreover have "(ig_namespace i, ig_name i, h) \<notin> set (map host_key (listed_hosts rest))" for h
    using Cons.prems by (force simp: listed_hosts_def host_key_def)
  ultimately show ?case by auto
qed (simp add: listed_hosts_def)



end
