(* ===== verification/Kube_Cache.thy ===== *)
theory Kube_Cache
  imports Kube_Claims
begin

text \<open>
  The cache of plans against the discovery snapshot: after a pass without store faults they name the
  same monitors; a fault costs the cache a plan whose snapshot row survives.
\<close>

section \<open>A pass without faults\<close>

lemma Materialize_no_fault:
  assumes "db_faults (zs_db z) = []" "Materialize mt tx quoted m ing host z = (z', r)"
  shows "db_faults (zs_db z') = [] \<and> (\<exists>row. r = Inr row)"
proof -
  have *: "\<exists>d. ReconcileMonitor spec (zs_db z) = (d, Inr ()) \<and> db_faults d = []" for spec
    using assms(1) by (simp add: ReconcileMonitor_def Let_def)
  show ?thesis
  proof (cases "\<exists>slug. SanitizeKubeDiscovered (ig_namespace ing) (ig_name ing) host = Inr slug")
    case True
    then obtain slug where slug: "SanitizeKubeDiscovered (ig_namespace ing) (ig_name ing) host = Inr slug" by blast
    let ?r = "re_config (Resolve mt (mz_match m) ing host (ResolveEnv m (ig_namespace ing)))"
    from * obtain d where "ReconcileMonitor (mat_spec m ing host slug ?r) (zs_db z) = (d, Inr ())" "db_faults d = []"
      by blast
    then show ?thesis using assms(2) slug assms(1)
      by (auto simp: Materialize_def Let_def split: if_splits option.splits)
  next
    case False
    then show ?thesis using assms(2) assms(1)
      by (cases "SanitizeKubeDiscovered (ig_namespace ing) (ig_name ing) host")
         (auto simp: Materialize_def Let_def split: if_splits option.splits)
  qed
qed

lemma tear_down_no_fault:
  assumes "db_faults (zs_db (wt_mat s)) = []"
  shows "db_faults (zs_db (wt_mat (tear_down w slug reason s))) = []"
  using assms
  by (auto simp: tear_down_def OnKubeMonitorRemoved_def GetMonitor_def SoftDeleteMonitor_def update_monitor_def
      split: prod.splits sum.splits if_splits option.splits)

lemma tear_down_plans: "zs_plans (wt_mat (tear_down w slug reason s)) = zs_plans (wt_mat s)"
  "wt_slugs (tear_down w slug reason s) = wt_slugs s" "snapshots_of (tear_down w slug reason s) = snapshots_of s"
  using tear_down_frame [of s w slug reason] by (simp_all add: keeps_snapshot_def)

lemma values_insert: "k0 \<notin> K \<Longrightarrow> {v. \<exists>k \<in> insert k0 K. (if k = k0 then a else f k) = Some v} =
    {v. \<exists>k \<in> K. f k = Some v} \<union> set_option a"
  by (cases a) auto

text \<open>What a pass has reached: the listed slugs are cached, and are those of the rows seen so far.\<close>

definition cache_follows :: "snapshot_key set \<Rightarrow> watch_state \<Rightarrow> bool" where
  "cache_follows K s \<longleftrightarrow> db_faults (zs_db (wt_mat s)) = [] \<and>
     set (wt_slugs s) \<subseteq> set (gm_keys (zs_plans (wt_mat s))) \<and>
     set (wt_slugs s) = {slug. \<exists>k \<in> K. slug_at (snapshots_of s) k = Some slug}"

lemma reconcile_host_follows:
  assumes "cache_follows K s" "host_key ih \<notin> K" "kw_materializer w = Some c"
  shows "cache_follows (insert (host_key ih) K) (reconcile_host mt w ih s)"
proof -
  obtain ing host where ih: "ih = (ing, host)" by (metis surj_pair)
  obtain tx quoted m where c: "c = (tx, quoted, m)" by (metis prod_cases3)
  define s1 where "s1 = s\<lparr>wt_keys := wt_keys s @ [(ig_namespace ing, ig_name ing, host)]\<rparr>"
  obtain z r where mat: "Materialize mt tx quoted m ing host (wt_mat s) = (z, r)" by (metis surj_pair)
  have nf: "db_faults (zs_db (wt_mat s)) = []" using assms(1) by (simp add: cache_follows_def)
  from Materialize_no_fault [OF nf mat] obtain row where z: "db_faults (zs_db z) = []" "r = Inr row" by blast
  from Materialize_frame [OF mat] z have f: "db_snapshots (zs_db z) = snapshots_of s" "dr_key row = host_key ih"
    and p: "set (gm_keys (zs_plans z)) = set (gm_keys (zs_plans (wt_mat s))) \<union> set_option (dr_slug row)"
    and ne: "dr_slug row \<noteq> Some []"
    by (auto simp: host_key_def ih gm.keys_put split: option.splits)
  obtain d u where u: "UpsertDiscoverySnapshot (dr_key row) (dr_status row) (dr_reason row) (dr_slug row) (zs_db z) = (d, u)"
    by (metis surj_pair)
  then have d: "db_faults d = []" "\<exists>v. u = Inr v" using z by (auto simp: UpsertDiscoverySnapshot_def Let_def)
  then obtain v where v: "u = Inr v" by blast
  from Upsert_snapshot_effect [OF u] v f obtain new where
    new: "ds_monitor_slug new = dr_slug row" "db_snapshots d = gm_put (host_key ih) new (snapshots_of s)" by auto
  define s2 where "s2 = s1\<lparr>wt_mat := z\<lparr>zs_db := d\<rparr>\<rparr>"
  define s3 where "s3 = (if v \<noteq> [] then tear_down w v (vacated_reason row) s2 else s2)"
  define s' where "s' = (case dr_slug row of None \<Rightarrow> s3 | Some slug \<Rightarrow> s3\<lparr>wt_slugs := slug # wt_slugs s3\<rparr>)"
  have s': "reconcile_host mt w ih s = s'"
    using mat z(2) u v assms(3) ne
    by (simp add: reconcile_host_def ih snapshotRowFor_def c s1_def [symmetric] s2_def [symmetric] s3_def s'_def
        split: option.splits) (auto simp: s1_def s2_def Let_def)
  have a: "db_faults (zs_db (wt_mat s3)) = []" "zs_plans (wt_mat s3) = zs_plans z" "wt_slugs s3 = wt_slugs s"
    "snapshots_of s3 = db_snapshots d"
    using tear_down_no_fault [of s2] d by (auto simp: s3_def tear_down_plans s2_def s1_def)
  have b: "wt_mat s' = wt_mat s3" "set (wt_slugs s') = set (wt_slugs s) \<union> set_option (dr_slug row)"
    by (auto simp: s'_def a split: option.splits)
  have at: "slug_at (snapshots_of s') k = (if k = host_key ih then dr_slug row else slug_at (snapshots_of s) k)" for k
    using ne by (auto simp: b a new slug_at_put split: option.splits)
  have "{slug. \<exists>k \<in> insert (host_key ih) K. slug_at (snapshots_of s') k = Some slug} =
      {slug. \<exists>k \<in> K. slug_at (snapshots_of s) k = Some slug} \<union> set_option (dr_slug row)"
    unfolding at by (rule values_insert [OF assms(2)])
  with assms(1) a(1,2) b p show ?thesis unfolding s' by (auto simp: cache_follows_def)
qed

lemma hosts_follow:
  assumes "kw_materializer w = Some c" "cache_follows K s" "distinct (map host_key hs)" "K \<inter> host_key ` set hs = {}"
  shows "cache_follows (K \<union> host_key ` set hs) (fold (reconcile_host mt w) hs s)"
  using assms(2-)
proof (induction hs arbitrary: K s)
  case (Cons h hs)
  then have "cache_follows (insert (host_key h) K) (reconcile_host mt w h s)"
    using assms(1) by (intro reconcile_host_follows) auto
  from Cons.IH [OF this] Cons.prems show ?case by auto
qed simp



end
