(* ===== verification/Kube_Annotations.thy ===== *)
theory Kube_Annotations
  imports Kube_Samples
begin

text \<open>
  What annotations can do to a discovered monitor.  A walk with the annotations of the ingress and of its
  namespace is compared with the walk over the same rules without any.
\<close>

section \<open>One layer\<close>

text \<open>The fields an annotation may fill, and a configuration without them.\<close>

definition annotated_fields :: "string set" where
  "annotated_fields = {''path'', ''slack'', ''notify'', ''tags'', ''acceptedStatusCodes''}"

definition kube_core :: "kube_config \<Rightarrow> kube_config" where
  "kube_core c = c\<lparr>kc_path := [], kc_slack := [], kc_notify := no_list, kc_tags := no_list, kc_accepted := [], kc_set := []\<rparr>"

text \<open>A field holds a value the checks accept, or what it holds without annotations.\<close>

definition field_safe :: "('v \<Rightarrow> bool) \<Rightarrow> bool \<Rightarrow> 'v \<Rightarrow> bool \<Rightarrow> 'v \<Rightarrow> bool" where
  "field_safe ok set0 v0 set1 v \<longleftrightarrow> set1 \<and> ok v \<or> set1 = set0 \<and> v = v0"

definition layer_safe :: "kube_config \<Rightarrow> kube_config \<Rightarrow> bool" where
  "layer_safe c0 c \<longleftrightarrow> kube_core c = kube_core c0 \<and>
     (\<forall>f. f \<notin> annotated_fields \<longrightarrow> IsSet c f = IsSet c0 f) \<and>
     field_safe (\<lambda>v. has_prefix v ''/'') (IsSet c0 ''path'') (kc_path c0) (IsSet c ''path'') (kc_path c) \<and>
     field_safe (\<lambda>v. v \<noteq> []) (IsSet c0 ''slack'') (kc_slack c0) (IsSet c ''slack'') (kc_slack c) \<and>
     field_safe (\<lambda>v. v \<noteq> []) (IsSet c0 ''acceptedStatusCodes'') (kc_accepted c0)
       (IsSet c ''acceptedStatusCodes'') (kc_accepted c)"

lemma layer_safe_refl [simp]: "layer_safe c c"
  by (simp add: layer_safe_def field_safe_def)

text \<open>The kind of value each field takes.\<close>

definition coherent :: "kube_value_source \<Rightarrow> bool" where
  "coherent vs \<longleftrightarrow> (kvs_field vs, kvs_kind vs) \<in> {(''path'', KubeValueScalar), (''slack'', KubeValueScalar),
     (''notify'', KubeValueList), (''tags'', KubeValueList), (''acceptedStatusCodes'', KubeValueStatusCodes)}"

lemma ValueSources_coherent: "list_all coherent (kube_ValueSources k)"
  by (simp add: kube_ValueSources_def kube_source_def coherent_def split: option.splits)

definition default_config :: "kube_value_source \<Rightarrow> kube_config \<Rightarrow> kube_config" where
  "default_config vs c = fst (writeDefault [] vs [] KNoCause (c, \<lparr>kl_provenance = [], kl_warnings = []\<rparr>))"

lemma writeDefault_config: "fst (writeDefault label vs key cause (c, r)) = default_config vs c"
  by (simp add: default_config_def writeDefault_def Let_def split: kube_value_kind.splits)

lemma no_annotation: "fst (k_lower [] (env\<lparr>ke_namespace_annotations := []\<rparr>) label vs (c, r)) =
    (if vsrc_has_default (kvs_source vs) then default_config vs c else c)"
proof -
  have "TrimSpace [] = []" by (simp add: TrimSpace_def)
  then show ?thesis by (simp add: k_lower_def k_read_def gm_get0_def writeDefault_config)
qed

section \<open>One source\<close>

lemma k_check_entries_log: "fst (k_check_entries env label f key sc es (kept, r)) = fst (k_check_entries env label f key sc es (kept, r'))"
  by (induction es arbitrary: kept r r') (simp_all split: option.splits)

abbreviation default_or :: "kube_value_source \<Rightarrow> kube_config \<Rightarrow> kube_config" where
  "default_or vs c \<equiv> (if vsrc_has_default (kvs_source vs) then default_config vs c else c)"

lemma lowerScalar_config: "fst (k_lowerScalar env label vs raw sc key (c, r)) =
    (if k_checkScalar env (kvs_field vs) (TrimSpace raw) = None then k_set_scalar (kvs_field vs) (TrimSpace raw) c
     else default_or vs c)"
  by (simp add: k_lowerScalar_def Let_def writeDefault_config split: option.splits)

lemma lowerList_config: "\<exists>l. fst (k_lowerList env label vs raw sc key (c, r)) = (if l = [] then c else k_set_list vs l c)"
proof -
  obtain kept r1 where ke: "k_check_entries env label (kvs_field vs) key sc (SplitAnnotationList raw) ([], r) = (kept, r1)"
    by (metis surj_pair)
  then have "fst (k_lowerList env label vs raw sc key (c, r)) = (if kept = [] then c else k_set_list vs kept c)"
    by (simp add: k_lowerList_def)
  then show ?thesis by blast
qed

lemma lowerStatusCodes_config: "fst (lowerStatusCodes label vs raw sc key (c, r)) =
    (let codes = fst (parseStatusCodes (SplitAnnotationList raw)) in
     if codes = [] then default_or vs c else MarkSet (kvs_field vs) (c\<lparr>kc_accepted := codes\<rparr>))"
  by (simp add: lowerStatusCodes_def Let_def writeDefault_config split: prod.splits)

inductive step_result :: "kube_value_source \<Rightarrow> kube_config \<Rightarrow> kube_config \<Rightarrow> bool" for vs c where
  fallback: "step_result vs c (default_or vs c)"
| scalar: "k_checkScalar env (kvs_field vs) v = None \<Longrightarrow> v \<noteq> [] \<Longrightarrow> kvs_field vs \<in> {''path'', ''slack''} \<Longrightarrow>
    step_result vs c (k_set_scalar (kvs_field vs) v c)"
| unchanged: "kvs_field vs \<in> {''notify'', ''tags''} \<Longrightarrow> step_result vs c c"
| entries: "kvs_field vs \<in> {''notify'', ''tags''} \<Longrightarrow> step_result vs c (k_set_list vs l c)"
| codes: "kvs_field vs = ''acceptedStatusCodes'' \<Longrightarrow> l \<noteq> [] \<Longrightarrow> step_result vs c (MarkSet ''acceptedStatusCodes'' (c\<lparr>kc_accepted := l\<rparr>))"

lemma annotation_step:
  assumes "coherent vs"
  shows "step_result vs c (fst (k_lower ann env label vs (c, r)))"
proof -
  obtain raw sc key where rd: "k_read ann env (kvs_source vs) = (raw, sc, key)" by (metis prod_cases3)
  show ?thesis
  proof (cases "TrimSpace raw = []")
    case True
    then show ?thesis using step_result.fallback [of vs c] by (simp add: k_lower_def rd writeDefault_config split: if_splits)
  next
    case False
    show ?thesis
    proof (cases "kvs_kind vs")
      case KubeValueScalar
      with assms have "kvs_field vs \<in> {''path'', ''slack''}" by (auto simp: coherent_def)
      then show ?thesis using False KubeValueScalar
        by (simp add: k_lower_def rd lowerScalar_config step_result.fallback step_result.scalar)
    next
      case KubeValueList
      with assms have f: "kvs_field vs \<in> {''notify'', ''tags''}" by (auto simp: coherent_def)
      obtain l where "fst (k_lowerList env label vs raw sc key (c, r)) = (if l = [] then c else k_set_list vs l c)"
        using lowerList_config by blast
      then show ?thesis using False KubeValueList step_result.unchanged [OF f] step_result.entries [OF f]
        by (simp add: k_lower_def rd)
    next
      case KubeValueStatusCodes
      with assms have "kvs_field vs = ''acceptedStatusCodes''" by (auto simp: coherent_def)
      then show ?thesis using False KubeValueStatusCodes step_result.codes
        by (simp add: k_lower_def rd lowerStatusCodes_config Let_def step_result.fallback)
    qed
  qed
qed

lemma IsSet_MarkSet [simp]: "IsSet (MarkSet f c) g = (g = f \<or> IsSet c g)"
  by (auto simp: IsSet_def MarkSet_def)

lemma MarkSet_sel [simp]: "kube_core (MarkSet f c) = kube_core c" "kc_path (MarkSet f c) = kc_path c"
  "kc_slack (MarkSet f c) = kc_slack c" "kc_accepted (MarkSet f c) = kc_accepted c"
  by (simp_all add: MarkSet_def kube_core_def)

lemma IsSet_update [simp]:
  "IsSet (c\<lparr>kc_path := p\<rparr>) = IsSet c" "IsSet (c\<lparr>kc_slack := p\<rparr>) = IsSet c" "IsSet (c\<lparr>kc_notify := n\<rparr>) = IsSet c"
  "IsSet (c\<lparr>kc_tags := n\<rparr>) = IsSet c" "IsSet (c\<lparr>kc_accepted := l\<rparr>) = IsSet c"
  by (simp_all add: IsSet_def fun_eq_iff)

lemma core_update [simp]:
  "kube_core (c\<lparr>kc_path := p\<rparr>) = kube_core c" "kube_core (c\<lparr>kc_slack := p\<rparr>) = kube_core c"
  "kube_core (c\<lparr>kc_notify := n\<rparr>) = kube_core c" "kube_core (c\<lparr>kc_tags := n\<rparr>) = kube_core c"
  "kube_core (c\<lparr>kc_accepted := l\<rparr>) = kube_core c"
  by (simp_all add: kube_core_def)

lemma layer_safe_scalar:
  assumes "layer_safe c0 c" "k_checkScalar env f v = None" "v \<noteq> []" "f \<in> {''path'', ''slack''}"
  shows "layer_safe c0 (k_set_scalar f v c)"
  using assms by (auto simp: layer_safe_def field_safe_def k_set_scalar_def annotated_fields_def k_checkScalar_def
      split: if_splits)

lemma layer_safe_list:
  assumes "layer_safe c0 c" "kvs_field vs \<in> {''notify'', ''tags''}"
  shows "layer_safe c0 (k_set_list vs l c)" "layer_safe (k_set_list vs l c0) c"
  using assms by (auto simp: layer_safe_def field_safe_def k_set_list_def Let_def annotated_fields_def)

lemma layer_safe_default:
  assumes "layer_safe c0 c" "coherent vs"
  shows "layer_safe (default_config vs c0) (default_config vs c)"
proof -
  have d: "default_config vs x = (case kvs_kind vs of
      KubeValueScalar \<Rightarrow> k_set_scalar (kvs_field vs) (vsrc_default_scalar (kvs_source vs)) x
    | KubeValueList \<Rightarrow> if vsrc_default_list (kvs_source vs) = [] then x else k_set_list vs (vsrc_default_list (kvs_source vs)) x
    | KubeValueStatusCodes \<Rightarrow> (let l = fst (parseStatusCodes (vsrc_default_list (kvs_source vs))) in
        if l = [] then x else MarkSet (kvs_field vs) (x\<lparr>kc_accepted := l\<rparr>)))" for x
    by (simp add: default_config_def writeDefault_def Let_def split: kube_value_kind.splits)
  show ?thesis
  proof (cases "kvs_kind vs")
    case KubeValueList
    then have "kvs_field vs \<in> {''notify'', ''tags''}" using assms(2) by (auto simp: coherent_def)
    from layer_safe_list(1) [OF _ this] layer_safe_list(2) [OF _ this] assms(1) show ?thesis
      by (simp add: d KubeValueList)
  qed (use assms in \<open>auto simp: d coherent_def layer_safe_def field_safe_def k_set_scalar_def Let_def annotated_fields_def\<close>)
qed

lemma layer_safe_fallback:
  "layer_safe c0 c \<Longrightarrow> kvs_field vs \<in> {''notify'', ''tags''} \<Longrightarrow> coherent vs \<Longrightarrow> layer_safe (default_or vs c0) c"
  by (auto simp: default_config_def writeDefault_def Let_def coherent_def layer_safe_list)

text \<open>A value that passes the checks is safe whatever the other side does with the same field.\<close>

lemma layer_safe_override:
  assumes "layer_safe c0 c" "coherent vs"
  shows "k_checkScalar env (kvs_field vs) v = None \<Longrightarrow> v \<noteq> [] \<Longrightarrow> kvs_field vs \<in> {''path'', ''slack''} \<Longrightarrow>
      layer_safe (default_config vs c0) (k_set_scalar (kvs_field vs) v c)"
    and "kvs_field vs = ''acceptedStatusCodes'' \<Longrightarrow> l \<noteq> [] \<Longrightarrow>
      layer_safe (default_config vs c0) (MarkSet ''acceptedStatusCodes'' (c\<lparr>kc_accepted := l\<rparr>))"
  using assms
  by (auto simp: default_config_def writeDefault_def coherent_def layer_safe_def field_safe_def k_set_scalar_def Let_def
      annotated_fields_def k_checkScalar_def split: if_splits)

lemma layer_safe_step:
  assumes "layer_safe c0 c" "coherent vs" "step_result vs c c'"
  shows "layer_safe (default_or vs c0) c'"
  using assms(3)
proof cases
  case fallback
  then show ?thesis using layer_safe_default [OF assms(1,2)] assms(1) by simp
next
  case (scalar env v)
  with layer_safe_override(1) [OF assms(1,2) scalar(2-4)] layer_safe_scalar [OF assms(1) scalar(2-4)]
  show ?thesis by simp
next
  case unchanged
  then show ?thesis using layer_safe_fallback [OF assms(1) _ assms(2)] by simp
next
  case (entries l)
  from layer_safe_fallback [OF layer_safe_list(1) [OF assms(1) entries(2)] entries(2) assms(2)]
  show ?thesis using entries(1) by simp
next
  case (codes l)
  moreover have "layer_safe c0 (MarkSet ''acceptedStatusCodes'' (c\<lparr>kc_accepted := l\<rparr>))"
    using assms(1) codes(3) by (auto simp: layer_safe_def field_safe_def annotated_fields_def)
  ultimately show ?thesis using layer_safe_override(2) [OF assms(1,2) codes(2,3)] by simp
qed

lemma k_apply_safe: "layer_safe (fst (k_apply [] (env\<lparr>ke_namespace_annotations := []\<rparr>) label k r0)) (fst (k_apply ann env label k r))"
proof -
  have "layer_safe (fst (fold (k_lower [] (env\<lparr>ke_namespace_annotations := []\<rparr>) label) vss (c0, r0)))
      (fst (fold (k_lower ann env label) vss (c, r)))"
    if "list_all coherent vss" "layer_safe c0 c" for vss c0 c r0 r
    using that
  proof (induction vss arbitrary: c0 c r0 r)
    case (Cons vs vss)
    obtain d0 q0 where 0: "k_lower [] (env\<lparr>ke_namespace_annotations := []\<rparr>) label vs (c0, r0) = (d0, q0)" by (metis surj_pair)
    obtain d q where 1: "k_lower ann env label vs (c, r) = (d, q)" by (metis surj_pair)
    have "d0 = default_or vs c0" using no_annotation [of env label vs c0 r0] by (simp add: 0)
    moreover have "step_result vs c d" using annotation_step [of vs c ann env label r] Cons.prems(1) by (simp add: 1)
    ultimately have "layer_safe d0 d" using layer_safe_step [of c0 c vs d] Cons.prems by simp
    with Cons show ?case by (simp add: 0 1)
  qed simp
  then show ?thesis using ValueSources_coherent by (simp add: k_apply_def)
qed

section \<open>The walk and the stack\<close>

fun annotation_free :: "kube_rule \<Rightarrow> bool" where
  "annotation_free (KubeRule w ig fin cfg nested) \<longleftrightarrow>
     kw_annotations w = [] \<and> kw_namespace_annotations w = [] \<and> list_all annotation_free nested"

definition entry_safe :: "kube_entry \<Rightarrow> kube_entry \<Rightarrow> bool" where
  "entry_safe e0 e \<longleftrightarrow> layer_safe (ks_cfg e0) (ks_cfg e) \<and> ks_ignore e = ks_ignore e0"

abbreviation bare :: "ingress \<Rightarrow> ingress" where "bare ing \<equiv> ing\<lparr>ig_annotations := []\<rparr>"

abbreviation bare_env :: "kube_env \<Rightarrow> kube_env" where "bare_env env \<equiv> env\<lparr>ke_namespace_annotations := []\<rparr>"

lemma bare_matches: "kw_annotations w = [] \<Longrightarrow> kw_namespace_annotations w = [] \<Longrightarrow>
    k_whenMatches mt w (bare ing) host [] = k_whenMatches mt w ing host ns"
  by (simp add: k_whenMatches_def mapContains_def)

lemma push_safe:
  assumes "list_all2 entry_safe (kt_stack t0) (kt_stack t)"
  shows "list_all2 entry_safe (kt_stack (k_push (bare ing) (bare_env env) label r t0)) (kt_stack (k_push ing env label r t))"
proof -
  have "kt_stack (k_push i e label r u) = kt_stack u @
      [\<lparr>ks_cfg = fst (k_apply (ig_annotations i) e label (kr_config r) (kt_log u)), ks_ignore = kr_ignore r\<rparr>]" for i e u
    by (simp add: k_push_def split: prod.splits)
  then show ?thesis using assms k_apply_safe [of env label "kr_config r" "kt_log t0" "ig_annotations ing" "kt_log t"]
    by (simp add: list_all2_appendI entry_safe_def)
qed

lemma visit_safe:
  "annotation_free r \<Longrightarrow> list_all2 entry_safe (kt_stack t0) (kt_stack t) \<Longrightarrow>
     snd (k_visitRule mt (bare ing) host (bare_env env) label r t0) = snd (k_visitRule mt ing host env label r t) \<and>
     list_all2 entry_safe (kt_stack (fst (k_visitRule mt (bare ing) host (bare_env env) label r t0)))
       (kt_stack (fst (k_visitRule mt ing host env label r t)))"
  "list_all annotation_free rs \<Longrightarrow> list_all2 entry_safe (kt_stack t0) (kt_stack t) \<Longrightarrow>
     snd (k_visitRules mt (bare ing) host (bare_env env) label i rs t0) = snd (k_visitRules mt ing host env label i rs t) \<and>
     list_all2 entry_safe (kt_stack (fst (k_visitRules mt (bare ing) host (bare_env env) label i rs t0)))
       (kt_stack (fst (k_visitRules mt ing host env label i rs t)))"
proof (induction mt ing host env label r t and mt ing host env label i rs t
    arbitrary: t0 and t0 rule: k_visitRule_k_visitRules.induct)
  case (1 mt ing host env label w ig fin cfg nested t)
  let ?r = "KubeRule w ig fin cfg nested"
  have w: "k_whenMatches mt w (bare ing) host [] = k_whenMatches mt w ing host (ke_namespace_annotations env)"
    using 1(2) by (simp add: bare_matches)
  show ?case
  proof (cases "k_whenMatches mt w ing host (ke_namespace_annotations env)")
    case True
    from 1(1) [OF _ _ push_safe [OF 1(3), of ing env label ?r]] True 1(2) show ?thesis
      by (simp add: w split_beta)
  next
    case False
    with 1(3) show ?thesis by (simp add: w)
  qed
next
  case (3 mt ing host env label i r rs t)
  obtain t1 h where v: "k_visitRule mt ing host env (k_indexed label i) r t = (t1, h)" by fastforce
  obtain u1 h' where u: "k_visitRule mt (bare ing) host (bare_env env) (k_indexed label i) r t0 = (u1, h')" by fastforce
  from 3(1) [OF _ 3(4)] 3(3) v u have hh: "h' = h" and l: "list_all2 entry_safe (kt_stack u1) (kt_stack t1)" by auto
  show ?case using v u hh l 3(3) 3(2) [OF v [symmetric] _ _ l] by (cases h) auto
qed simp

section \<open>The resolved configuration\<close>

lemma kube_core_eq: "kube_core c = kube_core c0 \<longleftrightarrow> kc_scheme c = kc_scheme c0 \<and> kc_http_method c = kc_http_method c0 \<and>
    kc_interval c = kc_interval c0 \<and> kc_timeout c = kc_timeout c0 \<and> kc_retries c = kc_retries c0 \<and>
    kc_retry_backoff c = kc_retry_backoff c0 \<and> kc_follow_redirects c = kc_follow_redirects c0 \<and>
    kc_insecure c = kc_insecure c0 \<and> kc_proxy c = kc_proxy c0 \<and> kc_reminder c = kc_reminder c0 \<and>
    kc_ssl_alert c = kc_ssl_alert c0 \<and> kc_ssl_escalation c = kc_ssl_escalation c0 \<and>
    kc_ssl_reminder c = kc_ssl_reminder c0 \<and> kc_depends_on c = kc_depends_on c0 \<and>
    kc_path_from c = kc_path_from c0 \<and> kc_slack_from c = kc_slack_from c0 \<and> kc_notify_from c = kc_notify_from c0 \<and>
    kc_notify_override_from c = kc_notify_override_from c0 \<and> kc_tags_from c = kc_tags_from c0 \<and>
    kc_tags_override_from c = kc_tags_override_from c0 \<and> kc_accepted_from c = kc_accepted_from c0"
  by (cases c; cases c0) (auto simp: kube_core_def)

definition outcome_safe :: "kube_config \<Rightarrow> kube_config \<Rightarrow> bool" where
  "outcome_safe r0 r \<longleftrightarrow> kube_core r = kube_core r0 \<and>
     (has_prefix (kc_path r) ''/'' \<or> kc_path r = kc_path r0) \<and> (kc_slack r \<noteq> [] \<or> kc_slack r = kc_slack r0) \<and>
     (kc_accepted r \<noteq> [] \<or> kc_accepted r = kc_accepted r0)"

lemma resolve_layer_sel:
  "kc_path (resolve_layer c out) = (if IsSet c ''path'' then kc_path c else kc_path out)"
  "kc_slack (resolve_layer c out) = (if IsSet c ''slack'' then kc_slack c else kc_slack out)"
  "kc_accepted (resolve_layer c out) = (if IsSet c ''acceptedStatusCodes'' then kc_accepted c else kc_accepted out)"
  by (simp_all add: resolve_layer_def)

lemma resolve_layer_core:
  assumes "layer_safe c0 c" "kube_core r = kube_core r0"
  shows "kube_core (resolve_layer c r) = kube_core (resolve_layer c0 r0)"
proof -
  have "\<forall>f. f \<notin> annotated_fields \<longrightarrow> IsSet c f = IsSet c0 f" "kube_core c = kube_core c0"
    using assms(1) by (simp_all add: layer_safe_def)
  with assms(2) show ?thesis
    unfolding kube_core_eq by (simp add: resolve_layer_def annotated_fields_def)
qed

lemma field_safe_merge:
  "field_safe ok s0 v0 s v \<Longrightarrow> ok w \<or> w = w0 \<Longrightarrow>
   ok (if s then v else w) \<or> (if s then v else w) = (if s0 then v0 else w0)"
  by (auto simp: field_safe_def)

lemma resolve_layer_safe:
  assumes "layer_safe c0 c" "outcome_safe r0 r"
  shows "outcome_safe (resolve_layer c0 r0) (resolve_layer c r)"
proof -
  note fs = assms(1) [unfolded layer_safe_def, THEN conjunct2, THEN conjunct2]
  note os = assms(2) [unfolded outcome_safe_def]
  show ?thesis
    unfolding outcome_safe_def resolve_layer_sel
    using resolve_layer_core [OF assms(1) os [THEN conjunct1]]
      field_safe_merge [OF fs [THEN conjunct1] os [THEN conjunct2, THEN conjunct1]]
      field_safe_merge [OF fs [THEN conjunct2, THEN conjunct1] os [THEN conjunct2, THEN conjunct2, THEN conjunct1]]
      field_safe_merge [OF fs [THEN conjunct2, THEN conjunct2] os [THEN conjunct2, THEN conjunct2, THEN conjunct2]]
    by (intro conjI)
qed

lemma resolveStack_safe:
  "list_all2 entry_safe st0 st \<Longrightarrow> outcome_safe (k_resolveStack st0) (k_resolveStack st)"
proof -
  have "outcome_safe (fold (\<lambda>e. resolve_layer (ks_cfg e)) st0 r0) (fold (\<lambda>e. resolve_layer (ks_cfg e)) st r)"
    if "list_all2 entry_safe st0 st" "outcome_safe r0 r" for r0 r
    using that
    by (induction arbitrary: r0 r rule: list_all2_induct) (auto simp: entry_safe_def resolve_layer_safe)
  moreover have "outcome_safe zero_kube_config zero_kube_config" by (simp add: outcome_safe_def)
  ultimately show "list_all2 entry_safe st0 st \<Longrightarrow> ?thesis" unfolding k_resolveStack_def by blast
qed

lemma checkResolved_safe:
  assumes "outcome_safe r0 r" "checkResolved r0 = None"
  shows "checkResolved r = None"
proof -
  have "kc_path r0 \<noteq> []" "has_prefix (kc_path r0) ''/''" "kc_slack r0 \<noteq> []" "kc_accepted r0 \<noteq> []"
    using assms(2) by (auto simp: checkResolved_def Let_def split: if_splits)
  moreover have "has_prefix p ''/'' \<Longrightarrow> p \<noteq> []" for p by (auto simp: has_prefix_def)
  ultimately have "kc_path r \<noteq> [] \<and> has_prefix (kc_path r) ''/'' \<and> kc_slack r \<noteq> [] \<and> kc_accepted r \<noteq> []"
    using assms(1) unfolding outcome_safe_def by metis
  moreover have "kube_core r = kube_core r0" using assms(1) by (simp add: outcome_safe_def)
  ultimately show ?thesis using assms(2)
    unfolding kube_core_eq checkResolved_def Let_def by (simp split: if_splits)
qed


definition annotated_rules :: "kube_rule list" where
  "annotated_rules = [KubeRule any_when None False (sample_kube_config\<lparr>kc_path_from := Some \<lparr>vsrc_annotation = ''p'',
     vsrc_namespace_annotation = [], vsrc_namespace_label = [], vsrc_default_scalar = [], vsrc_default_list = [],
     vsrc_has_default = False, vsrc_default_is_list = False\<rparr>\<rparr>) []]"


end
