(* ===== verification/Config_Deps.thy ===== *)
theory Config_Deps
  imports Go_Prelude
begin

text \<open>
  The check that no static monitor depends on itself through others:
  \<^verbatim>\<open>detectDependsOnCycle\<close> of \<^verbatim>\<open>internal/config/config.go\<close>, a depth-first search over
  three colours, and its correctness against the graph.
\<close>

section \<open>The search\<close>

record dep_node =
  dn_slug :: string
  dn_deps :: "string list"

datatype color = White | Gray | Black

type_synonym coloring = "(string, color) gomap"

definition init_colors :: "dep_node list \<Rightarrow> coloring" where
  "init_colors nodes = fold (\<lambda>n. gm_put (dn_slug n) White) nodes []"

definition parents_of :: "dep_node list \<Rightarrow> (string, string list) gomap" where
  "parents_of nodes = fold (\<lambda>n. gm_put (dn_slug n) (dn_deps n)) nodes []"

text \<open>The cycle a back edge closes: the path from its target on, then the target again.\<close>

definition cycle_of :: "string list \<Rightarrow> string \<Rightarrow> string list" where
  "cycle_of path node = (if node \<in> set path then dropWhile (\<lambda>s. s \<noteq> node) path @ [node] else [node, node])"

definition whites :: "coloring \<Rightarrow> string set" where
  "whites c = {k. gm_get c k = Some White}"

lemma finite_whites: "finite (whites c)"
proof (rule finite_subset)
  show "whites c \<subseteq> fst ` set c" by (force simp: whites_def dest: map_of_SomeD)
qed simp

lemma whites_put: "whites (gm_put k v c) = (if v = White then insert k (whites c) else whites c - {k})"
  by (auto simp: whites_def)

text \<open>The calls of \<^verbatim>\<open>dfs\<close> on the known nodes of a list, one after the other, up to the first cycle.\<close>

function (sequential) dfs_nodes :: "(string, string list) gomap \<Rightarrow> string list \<Rightarrow> coloring \<Rightarrow> string list
    \<Rightarrow> string list option \<times> coloring" where
  "dfs_nodes g [] c path = (None, c)"
| "dfs_nodes g (p # ps) c path = (case gm_get c p of
      None \<Rightarrow> dfs_nodes g ps c path
    | Some Gray \<Rightarrow> (Some (cycle_of path p), c)
    | Some Black \<Rightarrow> dfs_nodes g ps c path
    | Some White \<Rightarrow> (case dfs_nodes g (gm_get0 [] g p) (gm_put p Gray c) (path @ [p]) of
          (Some cyc, c') \<Rightarrow> (Some cyc, c')
        | (None, c') \<Rightarrow> dfs_nodes g ps (gm_put p Black c') path))"
  by pat_completeness auto

lemma dfs_whites: "dfs_nodes_dom (g, ps, c, path) \<Longrightarrow> whites (snd (dfs_nodes g ps c path)) \<subseteq> whites c"
proof (induction g ps c path rule: dfs_nodes.pinduct)
  case (2 g p ps c path)
  then show ?case
    by (fastforce simp: dfs_nodes.psimps whites_put split: option.splits color.splits prod.splits)
qed (simp add: dfs_nodes.psimps)

termination dfs_nodes
proof (relation "measures [\<lambda>(g, ps, c, path). card (whites c), \<lambda>(g, ps, c, path). length ps]", goal_cases)
  case (3 g p ps c path x)
  then have "p \<in> whites c" by (simp add: whites_def)
  then have "card (whites c) > 0" by (auto simp: card_gt_0_iff finite_whites)
  then show ?case using \<open>p \<in> whites c\<close> by (simp add: whites_put)
next
  case (4 g p ps c path v r c')
  have "whites c' \<subseteq> whites (gm_put p Gray c)"
    using dfs_whites [OF 4(5)] 4(3) [symmetric] by simp
  then have "whites (gm_put p Black c') \<subset> whites c"
    using 4(1,2) by (auto simp: whites_put whites_def)
  then have "card (whites (gm_put p Black c')) < card (whites c)"
    by (rule psubset_card_mono [OF finite_whites])
  then show ?case by simp
qed auto

fun dfs_roots :: "(string, string list) gomap \<Rightarrow> dep_node list \<Rightarrow> coloring \<Rightarrow> string list option \<times> coloring" where
  "dfs_roots g [] c = (None, c)"
| "dfs_roots g (n # ns) c =
    (if gm_get c (dn_slug n) = Some White then
       (case dfs_nodes g [dn_slug n] c [] of
          (Some cyc, c') \<Rightarrow> (Some cyc, c')
        | (None, c') \<Rightarrow> dfs_roots g ns c')
     else dfs_roots g ns c)"

definition detectDependsOnCycle :: "dep_node list \<Rightarrow> string list option" where
  "detectDependsOnCycle nodes = fst (dfs_roots (parents_of nodes) nodes (init_colors nodes))"

section \<open>The graph\<close>

text \<open>Edges between declared monitors; a dependency on an unknown slug is reported elsewhere.\<close>

definition edges_in :: "string set \<Rightarrow> (string, string list) gomap \<Rightarrow> (string \<times> string) set" where
  "edges_in K g = {(a, b). a \<in> K \<and> b \<in> K \<and> b \<in> set (gm_get0 [] g a)}"

definition depends_graph :: "dep_node list \<Rightarrow> (string \<times> string) set" where
  "depends_graph nodes = edges_in (dn_slug ` set nodes) (parents_of nodes)"

definition is_cycle :: "('a \<times> 'a) set \<Rightarrow> 'a list \<Rightarrow> bool" where
  "is_cycle E xs \<longleftrightarrow> 2 \<le> length xs \<and> hd xs = last xs \<and> successively (\<lambda>a b. (a, b) \<in> E) xs"

lemma successively_rtrancl:
  "successively (\<lambda>a b. (a, b) \<in> E) (x # xs) \<Longrightarrow> (x, last (x # xs)) \<in> E\<^sup>*"
  by (induction xs arbitrary: x) (auto simp: successively_Cons intro: converse_rtrancl_into_rtrancl)

lemma is_cycle_not_acyclic: "is_cycle E xs \<Longrightarrow> \<not> acyclic E"
proof -
  assume c: "is_cycle E xs"
  then obtain x y ys where xs: "xs = x # y # ys" by (auto simp: is_cycle_def neq_Nil_conv Suc_le_length_iff numeral_2_eq_2)
  with c have "(x, y) \<in> E" "(y, x) \<in> E\<^sup>*"
    using successively_rtrancl [of E y ys] by (auto simp: is_cycle_def)
  then have "(x, x) \<in> E\<^sup>+" by (rule rtrancl_into_trancl2)
  then show ?thesis by (auto simp: acyclic_def)
qed

section \<open>A reported cycle is one\<close>

definition known :: "coloring \<Rightarrow> string set" where
  "known c = {k. gm_get c k \<noteq> None}"

lemma known_put: "known (gm_put k v c) = insert k (known c)"
  by (auto simp: known_def)

lemma dfs_known: "known (snd (dfs_nodes g ps c path)) = known c"
proof (induction g ps c path rule: dfs_nodes.induct)
  case (2 g p ps c path)
  then show ?case
    by (fastforce simp: known_put insert_absorb split: option.splits color.splits prod.splits simp: known_def [of c])
qed simp

lemma cycle_of_is_cycle:
  assumes "successively (\<lambda>a b. (a, b) \<in> E) path" "p \<in> set path" "(last path, p) \<in> E"
  shows "is_cycle E (cycle_of path p)"
proof -
  let ?d = "dropWhile (\<lambda>s. s \<noteq> p) path"
  have ne: "?d \<noteq> []" using assms(2) by (auto simp: dropWhile_eq_Nil_conv)
  have hd: "hd ?d = p" using hd_dropWhile [OF ne] by simp
  have "path = takeWhile (\<lambda>s. s \<noteq> p) path @ ?d" by simp
  then have "successively (\<lambda>a b. (a, b) \<in> E) ?d" using assms(1) by (metis successively_append_iff)
  moreover have "last ?d = last path" using ne by (metis last_appendR takeWhile_dropWhile_id)
  ultimately show ?thesis
    using ne hd assms(2,3) by (auto simp: is_cycle_def cycle_of_def successively_append_iff neq_Nil_conv Suc_le_eq)
qed

definition grays :: "coloring \<Rightarrow> string set" where
  "grays c = {k. gm_get c k = Some Gray}"

lemma grays_put: "grays (gm_put k v c) = (if v = Gray then insert k (grays c) else grays c - {k})"
  by (auto simp: grays_def)

lemma dfs_grays: "dfs_nodes g ps c path = (None, c') \<Longrightarrow> grays c' = grays c"
proof (induction g ps c path arbitrary: c' rule: dfs_nodes.induct)
  case (2 g p ps c path)
  show ?case
  proof (cases "gm_get c p")
    case (Some v)
    show ?thesis
    proof (cases v)
      case White
      with Some 2(5) obtain c1 where r: "dfs_nodes g (gm_get0 [] g p) (gm_put p Gray c) (path @ [p]) = (None, c1)"
        by (auto split: prod.splits option.splits)
      with Some White 2(5) have "dfs_nodes g ps (gm_put p Black c1) path = (None, c')" by simp
      from 2(3) [OF Some White r [symmetric] refl this] 2(2) [OF Some White r] Some White
      show ?thesis by (simp add: grays_put) (auto simp: grays_def)
    qed (use Some 2 in auto)
  qed (use 2 in auto)
qed simp

lemma dfs_found:
  assumes "dfs_nodes g ps c path = (Some cyc, c')" and "K = known c"
    and "successively (\<lambda>a b. (a, b) \<in> edges_in K g) path" "set path \<subseteq> K"
    and "grays c = set path"
    and "path \<noteq> [] \<longrightarrow> (\<forall>p \<in> set ps \<inter> K. (last path, p) \<in> edges_in K g)"
  shows "is_cycle (edges_in K g) cyc"
  using assms
proof (induction g ps c path arbitrary: c' rule: dfs_nodes.induct)
  case (2 g p ps c path)
  note K = 2(6)
  show ?case
  proof (cases "gm_get c p")
    case None
    with 2 show ?thesis by simp
  next
    case (Some v)
    then have pK: "p \<in> K" by (simp add: K known_def)
    show ?thesis
    proof (cases v)
      case Gray
      then have "p \<in> set path" using Some 2(9) by (auto simp: grays_def)
      moreover from this have "(last path, p) \<in> edges_in K g" using 2(10) pK by auto
      ultimately have "is_cycle (edges_in K g) (cycle_of path p)" by (intro cycle_of_is_cycle 2(7))
      with Some Gray 2(5) show ?thesis by simp
    next
      case Black
      with Some 2 show ?thesis by simp
    next
      case White
      obtain r c1 where r: "dfs_nodes g (gm_get0 [] g p) (gm_put p Gray c) (path @ [p]) = (r, c1)" by (metis surj_pair)
      have path: "successively (\<lambda>a b. (a, b) \<in> edges_in K g) (path @ [p])"
        using 2(7,10) pK by (auto simp: successively_append_iff)
      have K1: "K = known (gm_put p Gray c)" using K pK by (simp add: known_put insert_absorb)
      show ?thesis
      proof (cases r)
        case (Some cyc1)
        have "cyc1 = cyc" using r Some \<open>gm_get c p = Some v\<close> White 2(5) by simp
        then have "is_cycle (edges_in K g) cyc1"
          using 2(2) [OF \<open>gm_get c p = Some v\<close> White _ K1 path] r Some 2(8,9) pK
          by (auto simp: grays_put edges_in_def)
        with r Some \<open>gm_get c p = Some v\<close> White 2(5) show ?thesis by simp
      next
        case None
        have "grays c1 = insert p (grays c)" using dfs_grays [of g _ _ _ c1] r None by (simp add: grays_put)
        moreover have "p \<notin> grays c" using \<open>gm_get c p = Some v\<close> White by (simp add: grays_def)
        ultimately have "grays (gm_put p Black c1) = set path" using 2(9) by (simp add: grays_put)
        moreover have "K = known (gm_put p Black c1)"
          using dfs_known [of g "gm_get0 [] g p" "gm_put p Gray c" "path @ [p]"] r K1 by (simp add: known_put insert_absorb pK)
        moreover have "dfs_nodes g ps (gm_put p Black c1) path = (Some cyc, c')"
          using 2(5) Some White r None by simp
        ultimately show ?thesis
          using 2(3) [OF Some White r [symmetric] None] 2(7,8,10) by auto
      qed
    qed
  qed
qed simp

section \<open>A search without report leaves no cycle\<close>

text \<open>What is black is closed under the graph and lies on no cycle.\<close>

definition finished :: "(string \<times> string) set \<Rightarrow> coloring \<Rightarrow> bool" where
  "finished E c \<longleftrightarrow> (\<forall>a. gm_get c a = Some Black \<longrightarrow> (\<forall>b. (a, b) \<in> E \<longrightarrow> gm_get c b = Some Black) \<and> (a, a) \<notin> E\<^sup>+)"

lemma finished_reach:
  "finished E c \<Longrightarrow> (a, b) \<in> E\<^sup>* \<Longrightarrow> gm_get c a = Some Black \<Longrightarrow> gm_get c b = Some Black"
  by (rotate_tac 1, induction rule: rtrancl_induct) (auto simp: finished_def)

lemma finished_gray: "finished E (gm_put p Gray c)" if "finished E c" "gm_get c p = Some White"
  using that by (auto simp: finished_def split: if_splits)

lemma finished_black:
  assumes "finished E c" "gm_get c p = Some Gray" "\<forall>b. (p, b) \<in> E \<longrightarrow> gm_get c b = Some Black"
  shows "finished E (gm_put p Black c)"
proof -
  have "(p, p) \<notin> E\<^sup>+"
  proof
    assume "(p, p) \<in> E\<^sup>+"
    then obtain b where "(p, b) \<in> E" "(b, p) \<in> E\<^sup>*" by (meson tranclD)
    with assms finished_reach [OF assms(1)] have "gm_get c p = Some Black" by blast
    with assms(2) show False by simp
  qed
  with assms(1,3) show ?thesis by (auto simp: finished_def)
qed

lemma dfs_done:
  assumes "dfs_nodes g ps c path = (None, c')" "K = known c" "finished (edges_in K g) c"
  shows "finished (edges_in K g) c' \<and> (\<forall>p \<in> set ps \<inter> K. gm_get c' p = Some Black) \<and>
    (\<forall>k. gm_get c k = Some Black \<longrightarrow> gm_get c' k = Some Black)"
  using assms
proof (induction g ps c path arbitrary: c' rule: dfs_nodes.induct)
  case (2 g p ps c path)
  note K = 2(6)
  show ?case
  proof (cases "gm_get c p")
    case None
    then have "p \<notin> K" by (simp add: K known_def)
    with 2(1) [OF None _ K 2(7)] 2(5) None show ?thesis by simp
  next
    case (Some v)
    then have pK: "p \<in> K" by (simp add: K known_def)
    show ?thesis
    proof (cases v)
      case Gray
      with Some 2(5) show ?thesis by simp
    next
      case Black
      with 2(4) [OF Some Black _ K 2(7)] 2(5) Some show ?thesis by auto
    next
      case White
      with Some 2(5) obtain c1 where r: "dfs_nodes g (gm_get0 [] g p) (gm_put p Gray c) (path @ [p]) = (None, c1)"
        by (auto split: prod.splits option.splits)
      let ?c2 = "gm_put p Black c1"
      have K1: "K = known (gm_put p Gray c)" using K pK by (simp add: known_put insert_absorb)
      have K2: "K = known ?c2"
        using dfs_known [of g "gm_get0 [] g p" "gm_put p Gray c" "path @ [p]"] r K1 by (simp add: known_put insert_absorb pK)
      from finished_gray [OF 2(7)] Some White have "finished (edges_in K g) (gm_put p Gray c)" by simp
      from 2(2) [OF Some White r K1 this]
      have one: "finished (edges_in K g) c1" "\<forall>b \<in> set (gm_get0 [] g p) \<inter> K. gm_get c1 b = Some Black"
        "\<forall>k. gm_get (gm_put p Gray c) k = Some Black \<longrightarrow> gm_get c1 k = Some Black" by auto
      have "p \<in> grays c1" using dfs_grays [OF r] by (simp add: grays_put)
      then have "finished (edges_in K g) ?c2"
        using one(1,2) by (intro finished_black) (auto simp: grays_def edges_in_def)
      moreover have "dfs_nodes g ps ?c2 path = (None, c')" using 2(5) Some White r by simp
      ultimately have two: "finished (edges_in K g) c'" "\<forall>q \<in> set ps \<inter> K. gm_get c' q = Some Black"
        "\<forall>k. gm_get ?c2 k = Some Black \<longrightarrow> gm_get c' k = Some Black"
        using 2(3) [OF Some White r [symmetric] refl _ K2] by auto
      have "gm_get c' k = Some Black" if "gm_get c k = Some Black" for k
        using two(3) one(3) that Some White by (cases "k = p") auto
      with two show ?thesis by auto
    qed
  qed
qed simp

lemma dfs_roots_none:
  assumes "dfs_roots g ns c = (None, c')" "K = known c" "finished (edges_in K g) c" "grays c = {}"
    and "dn_slug ` set ns \<subseteq> K"
  shows "finished (edges_in K g) c' \<and> (\<forall>n \<in> set ns. gm_get c' (dn_slug n) = Some Black) \<and>
    (\<forall>k. gm_get c k = Some Black \<longrightarrow> gm_get c' k = Some Black)"
  using assms
proof (induction ns arbitrary: c)
  case (Cons n ns)
  have nK: "dn_slug n \<in> K" using Cons.prems(5) by simp
  show ?case
  proof (cases "gm_get c (dn_slug n) = Some White")
    case True
    with Cons.prems(1) obtain c1 where r: "dfs_nodes g [dn_slug n] c [] = (None, c1)" "dfs_roots g ns c1 = (None, c')"
      by (auto simp del: dfs_nodes.simps split: prod.splits option.splits)
    have K1: "K = known c1" using dfs_known [of g "[dn_slug n]" c "[]"] r(1) Cons.prems(2) by simp
    from dfs_done [OF r(1) Cons.prems(2,3)] have "finished (edges_in K g) c1" "gm_get c1 (dn_slug n) = Some Black"
      "\<forall>k. gm_get c k = Some Black \<longrightarrow> gm_get c1 k = Some Black" using nK by auto
    with Cons.IH [OF r(2) K1] dfs_grays [OF r(1)] Cons.prems(4,5) show ?thesis by auto
  next
    case False
    then have "gm_get c (dn_slug n) = Some Black"
      using nK Cons.prems(2,4) by (auto simp: known_def grays_def) (metis color.exhaust)
    with False Cons show ?thesis by auto
  qed
qed simp

lemma dfs_roots_some:
  assumes "dfs_roots g ns c = (Some cyc, c')" "K = known c" "grays c = {}" "dn_slug ` set ns \<subseteq> K"
  shows "is_cycle (edges_in K g) cyc"
  using assms
proof (induction ns arbitrary: c)
  case (Cons n ns)
  show ?case
  proof (cases "gm_get c (dn_slug n) = Some White")
    case True
    obtain r c1 where r: "dfs_nodes g [dn_slug n] c [] = (r, c1)" by (metis surj_pair)
    show ?thesis
    proof (cases r)
      case (Some cyc1)
      with True r Cons.prems(1) have "cyc1 = cyc" by (simp del: dfs_nodes.simps)
      with dfs_found [of g "[dn_slug n]" c "[]" cyc c1 K] r Some Cons.prems(2,3) show ?thesis by simp
    next
      case None
      then have "K = known c1" "grays c1 = {}"
        using dfs_known [of g "[dn_slug n]" c "[]"] dfs_grays [of g "[dn_slug n]" c "[]" c1] r Cons.prems(2,3)
        by (simp_all del: dfs_nodes.simps)
      with Cons.IH [of c1] Cons.prems(1,4) True r None show ?thesis by (simp del: dfs_nodes.simps)
    qed
  qed (use Cons in simp)
qed simp

lemma init_colors: "known (init_colors nodes) = dn_slug ` set nodes" "grays (init_colors nodes) = {}"
  "gm_get (init_colors nodes) k \<noteq> Some Black"
proof -
  have g: "gm_get (init_colors nodes) k = (if k \<in> dn_slug ` set nodes then Some White else None)" for k
  proof -
    have "gm_get (fold (\<lambda>n. gm_put (dn_slug n) White) nodes m) k =
        (if k \<in> dn_slug ` set nodes then Some White else gm_get m k)" for m :: coloring
      by (induction nodes arbitrary: m) auto
    then show ?thesis by (simp add: init_colors_def)
  qed
  show "known (init_colors nodes) = dn_slug ` set nodes" "grays (init_colors nodes) = {}"
    "gm_get (init_colors nodes) k \<noteq> Some Black"
    using g by (auto simp: known_def grays_def)
qed

lemma cycle_check_exact:
  "case detectDependsOnCycle nodes of None \<Rightarrow> acyclic (depends_graph nodes)
   | Some cyc \<Rightarrow> is_cycle (depends_graph nodes) cyc \<and> \<not> acyclic (depends_graph nodes)"
proof -
  let ?K = "dn_slug ` set nodes" and ?g = "parents_of nodes"
  obtain r c' where r: "dfs_roots ?g nodes (init_colors nodes) = (r, c')" by (metis surj_pair)
  show ?thesis
  proof (cases r)
    case None
    have "finished (edges_in ?K ?g) (init_colors nodes)" using init_colors(3) by (simp add: finished_def)
    from dfs_roots_none [OF r [unfolded None] init_colors(1) [symmetric] this init_colors(2)]
    have "finished (edges_in ?K ?g) c'" "\<forall>n \<in> set nodes. gm_get c' (dn_slug n) = Some Black" by auto
    then have "(a, a) \<notin> (edges_in ?K ?g)\<^sup>+" for a
      by (cases "a \<in> ?K") (auto simp: finished_def edges_in_def dest: tranclD)
    with r None show ?thesis by (auto simp: detectDependsOnCycle_def depends_graph_def acyclic_def)
  next
    case (Some cyc)
    with dfs_roots_some [OF r [unfolded Some] init_colors(1) [symmetric] init_colors(2)] r
    show ?thesis by (simp add: detectDependsOnCycle_def depends_graph_def is_cycle_not_acyclic)
  qed
qed

text \<open>C15: The search over the declared dependencies reports nothing exactly when the graph of declared
  monitors has no cycle, and what it reports is a cycle of that graph, from a monitor back to itself.\<close>

theorem cycle_check_is_exact:
  "case detectDependsOnCycle nodes of None \<Rightarrow> acyclic (depends_graph nodes)
   | Some cyc \<Rightarrow> is_cycle (depends_graph nodes) cyc \<and> \<not> acyclic (depends_graph nodes)"
  by (rule cycle_check_exact)

end
