(* ===== verification/Config.thy ===== *)
theory Config
  imports Complex_Main AM_Config Kube Config_Deps
begin

text \<open>
  The configuration and its validation (\<^verbatim>\<open>internal/config/config.go\<close>), and the plans made of its
  declared monitors (\<^verbatim>\<open>buildPlans\<close> of \<^verbatim>\<open>internal/lifecycle/lifecycle.go\<close>).  An error is its path and its
  kind; texts and positions are left out.  The decoder is not modelled: a configuration is a value of the
  types, and the check for unknown keys, which reads the document, is not part of \<open>validate\<close>.
\<close>

section \<open>The blocks\<close>

record proxy_cfg =
  px_slug :: string
  px_protocol :: string
  px_server :: string
  px_port :: int
  px_username :: string
  px_password_env :: string

record heartbeat_cfg =
  hb_url :: string
  hb_interval :: duration
  hb_fail_on_stalled :: bool

text \<open>A rate is a rational, or \<^verbatim>\<open>NaN\<close>.\<close>

record sentry_cfg =
  se_enabled :: bool
  se_dsn_env :: string
  se_sample_rate :: "rat option"
  se_traces_rate :: "rat option"

record kube_block =
  kb_resync :: duration
  kb_match :: "kube_rule list"
  kb_debounce :: "duration option"
  kb_friendly_name :: string

record coalesce_cfg =
  co_pending_wait :: duration
  co_group_wait :: duration
  co_group_interval :: duration
  co_repeat_interval :: duration
  co_burst_threshold :: "int option"
  co_burst_window :: duration
  co_group_mention :: string
  co_probe_timeout :: duration

record self_health_cfg =
  sh_window :: duration
  sh_min_monitors :: int
  sh_channel :: string
  sh_mention :: string

record slack_channel_cfg =
  ch_slug :: string
  ch_id :: string
  ch_token_env :: string

record slack_cfg =
  sl_body_max :: int
  sl_dependents_max :: int
  sl_channels :: "slack_channel_cfg list"
  sl_user_mapping :: "(string, string) gomap option"
  sl_coalesce :: coalesce_cfg

datatype section_match = SectionMatch
  (sm_tags: "string list") (sm_host_regex: string) (sm_any: "section_match list") (sm_all: "section_match list")

record status_section =
  ss_title :: string
  ss_match :: section_match

record status_page =
  pg_slug :: string
  pg_friendly_name :: string
  pg_logo :: string
  pg_color :: string
  pg_sections :: "status_section list"

record monitor_cfg =
  mo_slug :: string
  mo_friendly_name :: string
  mo_url :: string
  mo_http_method :: string
  mo_accepted :: "int list"
  mo_interval :: duration
  mo_timeout :: duration
  mo_retries :: int
  mo_retry_backoff :: duration
  mo_follow_redirects :: bool
  mo_insecure :: bool
  mo_proxy :: string
  mo_reminder :: duration
  mo_slack :: string
  mo_notify :: "string list"
  mo_depends_on :: "string list"
  mo_tags :: "string list"
  mo_critical :: bool
  mo_ssl_alert :: duration
  mo_ssl_escalation :: duration
  mo_ssl_reminder :: duration

record smtp_cfg =
  sp_slug :: string
  sp_friendly_name :: string
  sp_host :: string
  sp_port :: int
  sp_tls :: string
  sp_ehlo :: string
  sp_interval :: duration
  sp_timeout :: duration
  sp_retries :: int
  sp_retry_backoff :: duration
  sp_insecure :: bool
  sp_proxy :: string
  sp_reminder :: duration
  sp_slack :: string
  sp_notify :: "string list"
  sp_depends_on :: "string list"
  sp_tags :: "string list"
  sp_critical :: bool
  sp_ssl_alert :: duration
  sp_ssl_escalation :: duration
  sp_ssl_reminder :: duration

record config =
  cg_db_body_max :: int
  cg_password_env :: string
  cg_user_agent :: string
  cg_heartbeat :: "heartbeat_cfg option"
  cg_kube :: "kube_block option"
  cg_sentry :: "sentry_cfg option"
  cg_slack :: slack_cfg
  cg_self_health :: "self_health_cfg option"
  cg_alertmanager :: "am_settings option"
  cg_proxies :: "proxy_cfg list"
  cg_monitors :: "monitor_cfg list"
  cg_smtp :: "smtp_cfg list"
  cg_pages :: "status_page list"

section \<open>Effective values\<close>

definition EffectiveWatchDebounce :: "kube_block \<Rightarrow> duration" where
  "EffectiveWatchDebounce k = (case kb_debounce k of None \<Rightarrow> 5 * second | Some d \<Rightarrow> d)"

definition EffectivePendingWait :: "coalesce_cfg \<Rightarrow> duration" where
  "EffectivePendingWait c = (if 0 < co_pending_wait c then co_pending_wait c
     else if 0 < co_group_wait c then co_group_wait c else 30 * second)"

definition EffectiveGroupInterval :: "coalesce_cfg \<Rightarrow> duration" where
  "EffectiveGroupInterval c = (if 0 < co_group_interval c then co_group_interval c else 5 * minute)"

definition EffectiveRepeatInterval :: "coalesce_cfg \<Rightarrow> duration" where
  "EffectiveRepeatInterval c = (if 0 < co_repeat_interval c then co_repeat_interval c else 10 * minute)"

definition EffectiveBurstThreshold :: "coalesce_cfg \<Rightarrow> int" where
  "EffectiveBurstThreshold c = (case co_burst_threshold c of None \<Rightarrow> 5 | Some n \<Rightarrow> n)"

definition EffectiveBurstWindow :: "coalesce_cfg \<Rightarrow> duration" where
  "EffectiveBurstWindow c = (let w = (if co_burst_window c \<le> 0 then 5 * minute else co_burst_window c) in
     if w < EffectivePendingWait c then EffectivePendingWait c else w)"

definition EffectiveGroupMention :: "coalesce_cfg \<Rightarrow> string" where
  "EffectiveGroupMention c = (if co_group_mention c = [] then ''channel'' else co_group_mention c)"

definition EffectiveOnDemandProbeTimeout :: "coalesce_cfg \<Rightarrow> duration" where
  "EffectiveOnDemandProbeTimeout c = (if 0 < co_probe_timeout c then co_probe_timeout c else 5 * second)"

definition EffectiveWindow :: "self_health_cfg \<Rightarrow> duration" where
  "EffectiveWindow s = (if 0 < sh_window s then sh_window s else 90 * second)"

definition EffectiveMinMonitors :: "self_health_cfg \<Rightarrow> int" where
  "EffectiveMinMonitors s = (if 0 < sh_min_monitors s then sh_min_monitors s else 3)"

definition TLSMode :: "smtp_cfg \<Rightarrow> string" where
  "TLSMode m = (if sp_tls m = [] then ''starttls'' else sp_tls m)"

definition smtp_URL :: "smtp_cfg \<Rightarrow> string" where
  "smtp_URL m = ''smtp://'' @ sp_host m @ '':'' @ itoa (sp_port m)"

definition TracksSSL :: "smtp_cfg \<Rightarrow> bool" where
  "TracksSSL m \<longleftrightarrow> TLSMode m \<noteq> ''none'' \<and> \<not> sp_insecure m"

section \<open>Section predicates of the status pages\<close>

definition IsBranch :: "section_match \<Rightarrow> bool" where
  "IsBranch m \<longleftrightarrow> sm_any m \<noteq> [] \<or> sm_all m \<noteq> []"

definition IsLeaf :: "section_match \<Rightarrow> bool" where
  "IsLeaf m \<longleftrightarrow> sm_tags m \<noteq> [] \<or> sm_host_regex m \<noteq> []"

definition section_regex :: "matchers \<Rightarrow> string \<Rightarrow> (string \<Rightarrow> bool) option" where
  "section_regex mt re = mt_regex mt (''^(?:'' @ re @ '')$'')"

fun section_Matches :: "matchers \<Rightarrow> section_match \<Rightarrow> string list \<Rightarrow> string \<Rightarrow> bool" where
  "section_Matches mt (SectionMatch tags re anys alls) tagset host =
    (if anys \<noteq> [] then list_ex (\<lambda>c. section_Matches mt c tagset host) anys
     else if alls \<noteq> [] then list_all (\<lambda>c. section_Matches mt c tagset host) alls
     else if tags = [] \<and> re = [] then False
     else if \<not> list_all (\<lambda>t. t \<in> set tagset) tags then False
     else if re = [] then True
     else (case section_regex mt re of None \<Rightarrow> False | Some f \<Rightarrow> f host))"

section \<open>Validation\<close>

datatype cfg_error =
    BadEnvVar string | Required | HeartbeatInterval | RateOutside | BadSlug slug_error | DuplicateSlug string
  | BadProtocol string | BadPort int | NeedsUsername | BodyMaxOrder int int | NoChannels | DirectMessage
  | BadChannelID string | BadUserID string | BothWaits | BurstNegative int | BurstOne
  | BurstWindowNarrow duration duration | BadGroupMention string | TooFewMonitors int | UnknownChannel string
  | BadFriendlyName string | ResyncTooShort duration | BadDebounce duration | NoKubeRules | KubeRootWhen
  | MissingAtRoot | BadKubePath string | BadHTTPMethod string | EmptyCodes | BadCode int | KubeInterval duration
  | KubeTimeout duration | KubeRetries int | KubeBackoff duration | KubeReminder duration | KubeThreshold duration
  | FinalWithoutSelector | BothSelectors | BadGlobPattern string | BadRegexPattern string | BadKubeKey string
  | BadScheme string | UnknownProxy string | BadNotify string | BadTag slug_error | LiteralWithSource
  | NoAnnotation | BothAnnotations | BadSourceKey string | NamespaceLabelHere | BothSources | NotANumber string
  | UnknownParent string | ReservedPrefix string | TimeoutNotBelow duration duration | RetryWindow duration duration
  | DependsOnItself | SSLRequired | AlertNotAbove duration | BadTLSMode string | BlankHost | DependencyCycle "string list"
  | BadColor string | BadLogo string | NoSections | EmptyPredicate | MixedPredicate | AnyAndAll
  | Alertmanager config_error

type_synonym cfg_errors = "(string list \<times> cfg_error) list"

record cfg_env =
  fe_matchers :: matchers
  fe_qualified :: "string \<Rightarrow> bool"
  fe_url_scheme :: "string \<Rightarrow> string option" \<comment> \<open>of \<^verbatim>\<open>url.Parse\<close>; \<open>None\<close> where it fails\<close>

definition upper_digit :: "char \<Rightarrow> bool" where
  "upper_digit c \<longleftrightarrow> is_upper c \<or> is_digit c"

definition id_pattern :: "char list \<Rightarrow> string \<Rightarrow> bool" where
  "id_pattern heads s = (case s of [] \<Rightarrow> False | c # cs \<Rightarrow> c \<in> set heads \<and> 8 \<le> length cs \<and> list_all upper_digit cs)"

definition hex_digit :: "char \<Rightarrow> bool" where
  "hex_digit c \<longleftrightarrow> is_digit c \<or> CHR ''a'' \<le> c \<and> c \<le> CHR ''f'' \<or> CHR ''A'' \<le> c \<and> c \<le> CHR ''F''"

definition color_pattern :: "string \<Rightarrow> bool" where
  "color_pattern s = (case s of [] \<Rightarrow> False | c # cs \<Rightarrow> c = CHR ''#'' \<and> length cs = 6 \<and> list_all hex_digit cs)"

definition index :: "nat \<Rightarrow> string" where "index i = itoa (int i)"

text \<open>The errors of each entry of a list, under its index.\<close>

definition each :: "(nat \<Rightarrow> 'a \<Rightarrow> (string list \<times> 'e) list) \<Rightarrow> 'a list \<Rightarrow> (string list \<times> 'e) list" where
  "each f xs = concat (map (\<lambda>(i, x). f i x) (enumerate 0 xs))"

definition slug_errors :: "string list \<Rightarrow> string \<Rightarrow> cfg_errors" where
  "slug_errors path s = (case Slugs.Validate s of None \<Rightarrow> [] | Some e \<Rightarrow> [(path, BadSlug e)])"

definition env_var_errors :: "string list \<Rightarrow> string \<Rightarrow> cfg_errors" where
  "env_var_errors path s = err_if (\<not> env_var_pattern s) path (BadEnvVar s)"

definition heartbeat_errors :: "heartbeat_cfg option \<Rightarrow> cfg_errors" where
  "heartbeat_errors hb = (case hb of None \<Rightarrow> [] | Some h \<Rightarrow>
     err_if (hb_url h = []) [''heartbeat'', ''url''] Required @
     err_if (hb_interval h < 30 * second) [''heartbeat'', ''interval''] HeartbeatInterval)"

definition rate_outside :: "rat option \<Rightarrow> bool" where
  "rate_outside r = (case r of None \<Rightarrow> False | Some q \<Rightarrow> q < 0 \<or> 1 < q)"

definition sentry_errors :: "sentry_cfg option \<Rightarrow> cfg_errors" where
  "sentry_errors se = (case se of None \<Rightarrow> [] | Some s \<Rightarrow>
     (if se_enabled s then env_var_errors [''sentry'', ''dsnEnv''] (se_dsn_env s) else []) @
     err_if (rate_outside (se_sample_rate s)) [''sentry'', ''sampleRate''] RateOutside @
     err_if (rate_outside (se_traces_rate s)) [''sentry'', ''tracesSampleRate''] RateOutside)"

definition proxy_errors :: "proxy_cfg list \<Rightarrow> cfg_errors" where
  "proxy_errors ps = each (\<lambda>i p. let base = [''proxies'', index i] in
     slug_errors (base @ [''slug'']) (px_slug p) @
     err_if (px_slug p \<in> set (map px_slug (take i ps))) (base @ [''slug'']) (DuplicateSlug (px_slug p)) @
     err_if (px_protocol p \<noteq> ''socks5'') (base @ [''protocol'']) (BadProtocol (px_protocol p)) @
     err_if (px_server p = []) (base @ [''server'']) Required @
     err_if (px_port p < 0 \<or> 65535 < px_port p) (base @ [''port'']) (BadPort (px_port p)) @
     (if px_password_env p \<noteq> [] then
        env_var_errors (base @ [''passwordEnv'']) (px_password_env p) @
        err_if (px_username p = []) (base @ [''passwordEnv'']) NeedsUsername
      else [])) ps"

definition channel_errors :: "slack_channel_cfg list \<Rightarrow> cfg_errors" where
  "channel_errors chs =
     err_if (chs = []) [''slack'', ''channels''] NoChannels @
     each (\<lambda>i ch. let base = [''slack'', ''channels'', index i] in
       slug_errors (base @ [''slug'']) (ch_slug ch) @
       err_if (ch_slug ch \<in> set (map ch_slug (take i chs))) (base @ [''slug'']) (DuplicateSlug (ch_slug ch)) @
       (if has_prefix (ch_id ch) ''D'' then [(base @ [''channelId''], DirectMessage)]
        else err_if (\<not> id_pattern ''CG'' (ch_id ch)) (base @ [''channelId'']) (BadChannelID (ch_id ch))) @
       env_var_errors (base @ [''tokenEnv'']) (ch_token_env ch)) chs"

definition mapping_errors :: "(string, string) gomap \<Rightarrow> cfg_errors" where
  "mapping_errors um = concat (map (\<lambda>(name, ident). let path = [''slack'', ''userMapping'', name] in
     slug_errors path name @ err_if (\<not> id_pattern ''US'' ident) path (BadUserID ident)) um)"

definition validateCoalesce :: "coalesce_cfg \<Rightarrow> cfg_errors" where
  "validateCoalesce co = (let base = [''slack'', ''coalesce''] in
     err_if (0 < co_pending_wait co \<and> 0 < co_group_wait co) (base @ [''pendingWait'']) BothWaits @
     (case co_burst_threshold co of None \<Rightarrow> [] | Some n \<Rightarrow>
        if n < 0 then [(base @ [''burstThreshold''], BurstNegative n)]
        else if n = 1 then [(base @ [''burstThreshold''], BurstOne)] else []) @
     err_if (0 < co_burst_window co \<and> co_burst_window co < EffectivePendingWait co) (base @ [''burstWindow''])
       (BurstWindowNarrow (co_burst_window co) (EffectivePendingWait co)) @
     err_if (co_group_mention co \<noteq> [] \<and> co_group_mention co \<notin> set [''channel'', ''here'', ''none''])
       (base @ [''groupMention'']) (BadGroupMention (co_group_mention co)))"

definition validateSelfHealth :: "string list \<Rightarrow> self_health_cfg \<Rightarrow> cfg_errors" where
  "validateSelfHealth channels sh =
     err_if (sh_min_monitors sh \<noteq> 0 \<and> sh_min_monitors sh < 2) [''selfHealth'', ''minMonitors''] (TooFewMonitors (sh_min_monitors sh)) @
     err_if (sh_channel sh \<noteq> [] \<and> sh_channel sh \<notin> set channels) [''selfHealth'', ''channel''] (UnknownChannel (sh_channel sh))"

subsection \<open>The kube block\<close>

definition KubeRequiredAtRoot :: "string list" where
  "KubeRequiredAtRoot = [''path'', ''httpMethod'', ''acceptedStatusCodes'', ''interval'', ''timeout'', ''retries'',
     ''retryBackoff'', ''followRedirects'', ''reminderInterval'', ''sslAlertThreshold'', ''sslEscalationThreshold'',
     ''sslReminderInterval'', ''slack'']"

definition kubeWhenIsEmpty :: "kube_when \<Rightarrow> bool" where
  "kubeWhenIsEmpty w \<longleftrightarrow> kw_namespace w = [] \<and> kw_namespace_regex w = [] \<and> kw_host w = [] \<and> kw_host_regex w = [] \<and>
     kw_labels w = [] \<and> kw_annotations w = [] \<and> kw_namespace_annotations w = []"

definition code_errors :: "string list \<Rightarrow> int list \<Rightarrow> cfg_errors" where
  "code_errors path codes = each (\<lambda>i code. err_if (code < 100 \<or> 599 < code) (path @ [index i]) (BadCode code)) codes"

definition root_floor :: "kube_config \<Rightarrow> string list \<Rightarrow> string \<Rightarrow> cfg_errors" where
  "root_floor k path key =
    (if key = ''path'' then err_if (kc_path k = [] \<or> \<not> has_prefix (kc_path k) ''/'') path (BadKubePath (kc_path k))
     else if key = ''httpMethod'' then err_if (\<not> validHTTPMethod (kc_http_method k)) path (BadHTTPMethod (kc_http_method k))
     else if key = ''acceptedStatusCodes'' then err_if (kc_accepted k = []) path EmptyCodes @ code_errors path (kc_accepted k)
     else if key = ''interval'' then err_if (kc_interval k < 30 * second) path (KubeInterval (kc_interval k))
     else if key = ''timeout'' then err_if (kc_timeout k \<le> 0) path (KubeTimeout (kc_timeout k))
     else if key = ''retries'' then err_if (kc_retries k < 0) path (KubeRetries (kc_retries k))
     else if key = ''retryBackoff'' then err_if (kc_retry_backoff k < second) path (KubeBackoff (kc_retry_backoff k))
     else if key = ''reminderInterval'' then err_if (kc_reminder k < hour) path (KubeReminder (kc_reminder k))
     else if key = ''sslAlertThreshold'' then err_if (kc_ssl_alert k \<le> 0) path (KubeThreshold (kc_ssl_alert k))
     else if key = ''sslEscalationThreshold'' then err_if (kc_ssl_escalation k \<le> 0) path (KubeThreshold (kc_ssl_escalation k))
     else if key = ''sslReminderInterval'' then err_if (kc_ssl_reminder k < hour) path (KubeReminder (kc_ssl_reminder k))
     else [])"

definition checkKubeRequiredAtRoot :: "kube_config \<Rightarrow> string list \<Rightarrow> cfg_errors" where
  "checkKubeRequiredAtRoot k base =
    (let defaulted = map kvs_field (filter (\<lambda>vs. vsrc_has_default (kvs_source vs)) (kube_ValueSources k)) in
     concat (map (\<lambda>key. if \<not> IsSet k key then err_if (key \<notin> set defaulted) (base @ [key]) MissingAtRoot
       else root_floor k (base @ [key]) key) KubeRequiredAtRoot))"

definition validateKubeWhen :: "cfg_env \<Rightarrow> kube_when \<Rightarrow> string list \<Rightarrow> cfg_errors" where
  "validateKubeWhen fe w base =
    (let glob_bad = (\<lambda>p. p \<noteq> [] \<and> mt_glob (fe_matchers fe) p [] = None);
         regex_bad = (\<lambda>p. p \<noteq> [] \<and> mt_regex (fe_matchers fe) p = None);
         keys_bad = (\<lambda>field m. concat (map (\<lambda>(key, v). err_if (\<not> fe_qualified fe key) (base @ [field, key]) (BadKubeKey key)) m)) in
     err_if (kw_namespace w \<noteq> [] \<and> kw_namespace_regex w \<noteq> []) base BothSelectors @
     err_if (kw_host w \<noteq> [] \<and> kw_host_regex w \<noteq> []) base BothSelectors @
     err_if (glob_bad (kw_namespace w)) (base @ [''namespace'']) (BadGlobPattern (kw_namespace w)) @
     err_if (glob_bad (kw_host w)) (base @ [''host'']) (BadGlobPattern (kw_host w)) @
     err_if (regex_bad (kw_namespace_regex w)) (base @ [''namespaceRegex'']) (BadRegexPattern (kw_namespace_regex w)) @
     err_if (regex_bad (kw_host_regex w)) (base @ [''hostRegex'']) (BadRegexPattern (kw_host_regex w)) @
     keys_bad ''labels'' (kw_labels w) @ keys_bad ''annotations'' (kw_annotations w) @
     keys_bad ''namespaceAnnotations'' (kw_namespace_annotations w))"

record roster =
  ro_channels :: "string list"
  ro_proxies :: "string list"
  ro_mapping :: "(string, string) gomap"

definition notify_errors :: "roster \<Rightarrow> string list \<Rightarrow> string list \<Rightarrow> cfg_errors" where
  "notify_errors ro path ns = each (\<lambda>i n. err_if (\<not> isValidNotifyEntry (ro_mapping ro) n) (path @ [index i]) (BadNotify n)) ns"

definition tag_errors :: "string list \<Rightarrow> string list \<Rightarrow> cfg_errors" where
  "tag_errors path tags = each (\<lambda>i tag. case ValidateTag tag of None \<Rightarrow> [] | Some e \<Rightarrow> [(path @ [index i], BadTag e)]) tags"

definition kube_source_key :: "kube_value_source \<Rightarrow> string" where
  "kube_source_key vs = kvs_field vs @ (if kvs_override vs then ''OverrideFrom'' else ''From'')"

definition validateKubeSourceDefault :: "roster \<Rightarrow> kube_value_source \<Rightarrow> string list \<Rightarrow> cfg_errors" where
  "validateKubeSourceDefault ro vs vbase =
    (let dbase = vbase @ [''default'']; src = kvs_source vs in
     if kvs_field vs = ''path'' then err_if (\<not> has_prefix (vsrc_default_scalar src) ''/'') dbase (BadKubePath (vsrc_default_scalar src))
     else if kvs_field vs = ''slack''
     then err_if (vsrc_default_scalar src \<notin> set (ro_channels ro)) dbase (UnknownChannel (vsrc_default_scalar src))
     else if kvs_field vs = ''notify'' then notify_errors ro dbase (vsrc_default_list src)
     else if kvs_field vs = ''tags'' then tag_errors dbase (vsrc_default_list src)
     else if kvs_field vs = ''acceptedStatusCodes'' then
       err_if (vsrc_default_list src = []) dbase EmptyCodes @
       each (\<lambda>i raw. case atoi raw of None \<Rightarrow> [(dbase @ [index i], NotANumber raw)]
         | Some code \<Rightarrow> err_if (code < 100 \<or> 599 < code) (dbase @ [index i]) (BadCode code)) (vsrc_default_list src)
     else [])"

definition validateKubeSource :: "cfg_env \<Rightarrow> roster \<Rightarrow> kube_config \<Rightarrow> string list \<Rightarrow> kube_value_source \<Rightarrow> cfg_errors" where
  "validateKubeSource fe ro k base vs =
    (let vbase = base @ [kube_source_key vs]; src = kvs_source vs in
     err_if (IsSet k (kvs_field vs)) vbase LiteralWithSource @
     (if vsrc_annotation src = [] \<and> vsrc_namespace_annotation src = [] then [(vbase, NoAnnotation)]
      else err_if (vsrc_annotation src \<noteq> [] \<and> vsrc_namespace_annotation src \<noteq> []) vbase BothAnnotations) @
     concat (map (\<lambda>key. err_if (key \<noteq> [] \<and> \<not> fe_qualified fe key) vbase (BadSourceKey key))
       [vsrc_annotation src, vsrc_namespace_annotation src]) @
     err_if (vsrc_namespace_label src \<noteq> []) (vbase @ [''namespaceLabel'']) NamespaceLabelHere @
     (if vsrc_has_default src then validateKubeSourceDefault ro vs vbase else []))"

definition validateKubeValueSources :: "cfg_env \<Rightarrow> roster \<Rightarrow> kube_config \<Rightarrow> string list \<Rightarrow> cfg_errors" where
  "validateKubeValueSources fe ro k base =
     concat (map (validateKubeSource fe ro k base) (kube_ValueSources k)) @
     err_if (kc_notify_from k \<noteq> None \<and> kc_notify_override_from k \<noteq> None) (base @ [''notifyOverrideFrom'']) BothSources @
     err_if (kc_tags_from k \<noteq> None \<and> kc_tags_override_from k \<noteq> None) (base @ [''tagsOverrideFrom'']) BothSources"

definition validateKubeConfig :: "cfg_env \<Rightarrow> roster \<Rightarrow> kube_config \<Rightarrow> string list \<Rightarrow> cfg_errors" where
  "validateKubeConfig fe ro k base =
     err_if (IsSet k ''httpMethod'' \<and> \<not> validHTTPMethod (kc_http_method k)) (base @ [''httpMethod'']) (BadHTTPMethod (kc_http_method k)) @
     err_if (IsSet k ''scheme'' \<and> kc_scheme k \<notin> set [''http'', ''https'']) (base @ [''scheme'']) (BadScheme (kc_scheme k)) @
     err_if (IsSet k ''path'' \<and> \<not> has_prefix (kc_path k) ''/'') (base @ [''path'']) (BadKubePath (kc_path k)) @
     err_if (IsSet k ''slack'' \<and> kc_slack k \<noteq> [] \<and> kc_slack k \<notin> set (ro_channels ro)) (base @ [''slack'']) (UnknownChannel (kc_slack k)) @
     err_if (IsSet k ''proxy'' \<and> kc_proxy k \<noteq> [] \<and> kc_proxy k \<notin> set (ro_proxies ro)) (base @ [''proxy'']) (UnknownProxy (kc_proxy k)) @
     (if IsSet k ''notify'' then notify_errors ro (base @ [''notify'']) (nl_values (kc_notify k)) else []) @
     (if IsSet k ''tags'' then tag_errors (base @ [''tags'']) (nl_values (kc_tags k)) else []) @
     (if IsSet k ''acceptedStatusCodes'' then code_errors (base @ [''acceptedStatusCodes'']) (kc_accepted k) else []) @
     validateKubeValueSources fe ro k base"

fun validateKubeRule :: "cfg_env \<Rightarrow> roster \<Rightarrow> kube_rule \<Rightarrow> string list \<Rightarrow> cfg_errors"
  and validateKubeRules :: "cfg_env \<Rightarrow> roster \<Rightarrow> nat \<Rightarrow> kube_rule list \<Rightarrow> string list \<Rightarrow> cfg_errors" where
  "validateKubeRule fe ro (KubeRule w ig fin cfg nested) base =
     validateKubeWhen fe w (base @ [''when'']) @
     err_if (fin \<and> kubeWhenIsEmpty w) (base @ [''final'']) FinalWithoutSelector @
     validateKubeConfig fe ro cfg (base @ [''config'']) @
     validateKubeRules fe ro 0 nested (base @ [''nested''])"
| "validateKubeRules fe ro i [] base = []"
| "validateKubeRules fe ro i (r # rs) base =
     validateKubeRule fe ro r (base @ [index i]) @ validateKubeRules fe ro (Suc i) rs base"

definition validateKube :: "cfg_env \<Rightarrow> roster \<Rightarrow> kube_block option \<Rightarrow> cfg_errors" where
  "validateKube fe ro kube = (case kube of None \<Rightarrow> [] | Some k \<Rightarrow>
     err_if (kb_friendly_name k \<noteq> [] \<and> kb_friendly_name k \<notin> set [''plain'', ''compact'', ''dedupe'', ''title''])
       [''kube'', ''friendlyName''] (BadFriendlyName (kb_friendly_name k)) @
     err_if (kb_resync k < minute) [''kube'', ''resyncInterval''] (ResyncTooShort (kb_resync k)) @
     (case kb_debounce k of None \<Rightarrow> [] | Some d \<Rightarrow>
        err_if (d \<noteq> 0 \<and> (d < second \<or> minute < d)) [''kube'', ''watchDebounce''] (BadDebounce d)) @
     (case kb_match k of [] \<Rightarrow> [([''kube'', ''match''], NoKubeRules)]
      | first # rest \<Rightarrow>
         (if \<not> kubeWhenIsEmpty (kr_when first) then [([''kube'', ''match'', ''0'', ''when''], KubeRootWhen)]
          else checkKubeRequiredAtRoot (kr_config first) [''kube'', ''match'', ''0'', ''config'']) @
         validateKubeRules fe ro 0 (kb_match k) [''kube'', ''match'']))"

fun validateKubeDependsOnRefs :: "string list \<Rightarrow> kube_rule \<Rightarrow> string list \<Rightarrow> cfg_errors"
  and validateKubeDependsOnRefsAll :: "string list \<Rightarrow> nat \<Rightarrow> kube_rule list \<Rightarrow> string list \<Rightarrow> cfg_errors" where
  "validateKubeDependsOnRefs declared (KubeRule w ig fin cfg nested) rbase =
     (if IsSet cfg ''dependsOn'' then each (\<lambda>j dep. err_if (dep \<notin> set declared)
        (rbase @ [''config'', ''dependsOn'', index j]) (UnknownParent dep)) (nl_values (kc_depends_on cfg)) else []) @
     validateKubeDependsOnRefsAll declared 0 nested (rbase @ [''nested''])"
| "validateKubeDependsOnRefsAll declared i [] base = []"
| "validateKubeDependsOnRefsAll declared i (r # rs) base =
     validateKubeDependsOnRefs declared r (base @ [index i]) @ validateKubeDependsOnRefsAll declared (Suc i) rs base"

subsection \<open>Declared monitors\<close>

text \<open>The retry window in 64-bit nanoseconds, as Go multiplies it.\<close>

definition retryWindow :: "int \<Rightarrow> duration \<Rightarrow> duration \<Rightarrow> duration" where
  "retryWindow retries timeout backoff = wrap64 (retries * wrap64 (timeout + backoff))"

definition schedule_errors :: "string list \<Rightarrow> duration \<Rightarrow> duration \<Rightarrow> int \<Rightarrow> duration \<Rightarrow> cfg_errors" where
  "schedule_errors base interval timeout retries backoff =
     err_if (interval \<le> timeout) base (TimeoutNotBelow timeout interval) @
     err_if (interval \<le> retryWindow retries timeout backoff) base (RetryWindow (retryWindow retries timeout backoff) interval)"

definition ssl_errors :: "string list \<Rightarrow> duration \<Rightarrow> duration \<Rightarrow> duration \<Rightarrow> cfg_errors" where
  "ssl_errors base alert escalation reminder =
     err_if (alert \<le> 0) (base @ [''sslAlertThreshold'']) SSLRequired @
     err_if (escalation \<le> 0) (base @ [''sslEscalationThreshold'']) SSLRequired @
     err_if (reminder \<le> 0) (base @ [''sslReminderInterval'']) SSLRequired @
     err_if (0 < alert \<and> 0 < escalation \<and> alert \<le> escalation) (base @ [''sslAlertThreshold'']) (AlertNotAbove escalation)"

definition static_slug_errors :: "string list \<Rightarrow> string list \<Rightarrow> string \<Rightarrow> cfg_errors" where
  "static_slug_errors seen base s =
     slug_errors (base @ [''slug'']) s @
     err_if (has_prefix s KubeSlugPrefix) (base @ [''slug'']) (ReservedPrefix s) @
     err_if (s \<in> set seen) (base @ [''slug'']) (DuplicateSlug s)"

definition routing_errors :: "roster \<Rightarrow> string list \<Rightarrow> string list \<Rightarrow> string \<Rightarrow> string \<Rightarrow> string list \<Rightarrow> cfg_errors" where
  "routing_errors ro base tags proxy channel notify =
     tag_errors (base @ [''tags'']) tags @
     err_if (proxy \<noteq> [] \<and> proxy \<notin> set (ro_proxies ro)) (base @ [''proxy'']) (UnknownProxy proxy) @
     err_if (channel \<notin> set (ro_channels ro)) (base @ [''slack'']) (UnknownChannel channel) @
     notify_errors ro (base @ [''notify'']) notify"

definition self_dependency :: "string list \<Rightarrow> string \<Rightarrow> string list \<Rightarrow> cfg_errors" where
  "self_dependency base s deps = each (\<lambda>j dep. err_if (dep = s) (base @ [''dependsOn'', index j]) DependsOnItself) deps"

definition monitor_errors :: "roster \<Rightarrow> monitor_cfg list \<Rightarrow> cfg_errors" where
  "monitor_errors ro ms = each (\<lambda>i m. let base = [''monitors'', index i] in
     static_slug_errors (map mo_slug (take i ms)) base (mo_slug m) @
     routing_errors ro base (mo_tags m) (mo_proxy m) (mo_slack m) (mo_notify m) @
     schedule_errors base (mo_interval m) (mo_timeout m) (mo_retries m) (mo_retry_backoff m) @
     self_dependency base (mo_slug m) (mo_depends_on m) @
     (if has_prefix (mo_url m) ''https://'' \<and> \<not> mo_insecure m
      then ssl_errors base (mo_ssl_alert m) (mo_ssl_escalation m) (mo_ssl_reminder m) else [])) ms"

definition validateSMTPMonitors :: "roster \<Rightarrow> string list \<Rightarrow> smtp_cfg list \<Rightarrow> cfg_errors" where
  "validateSMTPMonitors ro seen ms = each (\<lambda>i m. let base = [''smtpMonitors'', index i] in
     static_slug_errors (seen @ map sp_slug (take i ms)) base (sp_slug m) @
     err_if (TrimSpace (sp_host m) = []) (base @ [''host'']) BlankHost @
     err_if (sp_port m < 1 \<or> 65535 < sp_port m) (base @ [''port'']) (BadPort (sp_port m)) @
     err_if (sp_tls m \<noteq> [] \<and> sp_tls m \<notin> set [''starttls'', ''implicit'', ''none'']) (base @ [''tls'']) (BadTLSMode (sp_tls m)) @
     routing_errors ro base (sp_tags m) (sp_proxy m) (sp_slack m) (sp_notify m) @
     schedule_errors base (sp_interval m) (sp_timeout m) (sp_retries m) (sp_retry_backoff m) @
     self_dependency base (sp_slug m) (sp_depends_on m) @
     (if TracksSSL m then ssl_errors base (sp_ssl_alert m) (sp_ssl_escalation m) (sp_ssl_reminder m) else [])) ms"

definition collectDepNodes :: "config \<Rightarrow> dep_node list" where
  "collectDepNodes cfg = map (\<lambda>m. \<lparr>dn_slug = mo_slug m, dn_deps = mo_depends_on m\<rparr>) (cg_monitors cfg) @
     map (\<lambda>m. \<lparr>dn_slug = sp_slug m, dn_deps = sp_depends_on m\<rparr>) (cg_smtp cfg)"

definition parent_errors :: "string list \<Rightarrow> string list \<Rightarrow> string \<Rightarrow> string list \<Rightarrow> cfg_errors" where
  "parent_errors declared base s deps = each (\<lambda>j dep. err_if (dep \<noteq> s \<and> dep \<notin> set declared)
     (base @ [''dependsOn'', index j]) (UnknownParent dep)) deps"

definition dependency_errors :: "config \<Rightarrow> cfg_errors" where
  "dependency_errors cfg = (let nodes = collectDepNodes cfg; declared = map dn_slug nodes in
     each (\<lambda>i m. parent_errors declared [''monitors'', index i] (mo_slug m) (mo_depends_on m)) (cg_monitors cfg) @
     each (\<lambda>i m. parent_errors declared [''smtpMonitors'', index i] (sp_slug m) (sp_depends_on m)) (cg_smtp cfg) @
     (case detectDependsOnCycle nodes of None \<Rightarrow> [] | Some cyc \<Rightarrow> [([''monitors''], DependencyCycle cyc)]) @
     (case cg_kube cfg of None \<Rightarrow> []
      | Some k \<Rightarrow> validateKubeDependsOnRefsAll declared 0 (kb_match k) [''kube'', ''match'']))"

subsection \<open>Status pages\<close>

fun validateSectionMatch :: "cfg_env \<Rightarrow> section_match \<Rightarrow> string list \<Rightarrow> cfg_errors"
  and validateSectionMatches :: "cfg_env \<Rightarrow> nat \<Rightarrow> section_match list \<Rightarrow> string list \<Rightarrow> cfg_errors" where
  "validateSectionMatch fe (SectionMatch tags re anys alls) base =
    (if anys = [] \<and> alls = [] \<and> tags = [] \<and> re = [] then [(base, EmptyPredicate)]
     else if (anys \<noteq> [] \<or> alls \<noteq> []) \<and> (tags \<noteq> [] \<or> re \<noteq> []) then [(base, MixedPredicate)]
     else if anys \<noteq> [] \<and> alls \<noteq> [] then [(base, AnyAndAll)]
     else if anys \<noteq> [] then validateSectionMatches fe 0 anys (base @ [''any''])
     else if alls \<noteq> [] then validateSectionMatches fe 0 alls (base @ [''all''])
     else tag_errors (base @ [''tags'']) tags @
       err_if (re \<noteq> [] \<and> mt_regex (fe_matchers fe) re = None) (base @ [''hostRegex'']) (BadRegexPattern re))"
| "validateSectionMatches fe i [] base = []"
| "validateSectionMatches fe i (m # ms) base =
     validateSectionMatch fe m (base @ [index i]) @ validateSectionMatches fe (Suc i) ms base"

definition page_errors :: "cfg_env \<Rightarrow> status_page list \<Rightarrow> cfg_errors" where
  "page_errors fe pages = each (\<lambda>i p. let base = [''statusPages'', index i] in
     slug_errors (base @ [''slug'']) (pg_slug p) @
     err_if (pg_slug p \<noteq> [] \<and> pg_slug p \<in> set (map pg_slug (take i pages))) (base @ [''slug'']) (DuplicateSlug (pg_slug p)) @
     err_if (TrimSpace (pg_friendly_name p) = []) (base @ [''friendlyName'']) Required @
     err_if (pg_color p \<noteq> [] \<and> \<not> color_pattern (pg_color p)) (base @ [''color'']) (BadColor (pg_color p)) @
     err_if (pg_logo p \<noteq> [] \<and> (case fe_url_scheme fe (pg_logo p) of None \<Rightarrow> True | Some s \<Rightarrow> s \<notin> set [''http'', ''https'']))
       (base @ [''logoUrl'']) (BadLogo (pg_logo p)) @
     err_if (pg_sections p = []) (base @ [''sections'']) NoSections @
     each (\<lambda>j sec. err_if (TrimSpace (ss_title sec) = []) (base @ [''sections'', index j, ''title'']) Required @
       validateSectionMatch fe (ss_match sec) (base @ [''sections'', index j, ''match''])) (pg_sections p)) pages"

subsection \<open>The whole configuration\<close>

definition roster_of :: "config \<Rightarrow> roster" where
  "roster_of cfg = \<lparr>ro_channels = map ch_slug (sl_channels (cg_slack cfg)), ro_proxies = map px_slug (cg_proxies cfg),
     ro_mapping = (case sl_user_mapping (cg_slack cfg) of None \<Rightarrow> [] | Some m \<Rightarrow> m)\<rparr>"

definition am_check_env :: "cfg_env \<Rightarrow> config \<Rightarrow> check_env" where
  "am_check_env fe cfg = \<lparr>ce_matchers = fe_matchers fe, ce_qualified = fe_qualified fe,
     ce_channels = ro_channels (roster_of cfg), ce_user_mapping = ro_mapping (roster_of cfg), ce_kube = (cg_kube cfg \<noteq> None)\<rparr>"

definition validate :: "cfg_env \<Rightarrow> config \<Rightarrow> cfg_errors" where
  "validate fe cfg = (let ro = roster_of cfg in
     env_var_errors [''database'', ''passwordEnv''] (cg_password_env cfg) @
     heartbeat_errors (cg_heartbeat cfg) @
     sentry_errors (cg_sentry cfg) @
     proxy_errors (cg_proxies cfg) @
     err_if (cg_db_body_max cfg < sl_body_max (cg_slack cfg)) [''dbBodyMaxChars'']
       (BodyMaxOrder (cg_db_body_max cfg) (sl_body_max (cg_slack cfg))) @
     channel_errors (sl_channels (cg_slack cfg)) @
     mapping_errors (ro_mapping ro) @
     validateCoalesce (sl_coalesce (cg_slack cfg)) @
     (case cg_self_health cfg of None \<Rightarrow> [] | Some sh \<Rightarrow> validateSelfHealth (ro_channels ro) sh) @
     validateKube fe ro (cg_kube cfg) @
     (case cg_alertmanager cfg of None \<Rightarrow> []
      | Some am \<Rightarrow> map (\<lambda>(p, e). (p, Alertmanager e)) (validateAlertmanager (am_check_env fe cfg) am)) @
     monitor_errors ro (cg_monitors cfg) @
     validateSMTPMonitors ro (map mo_slug (cg_monitors cfg)) (cg_smtp cfg) @
     dependency_errors cfg @
     page_errors fe (cg_pages cfg))"

text \<open>What \<^verbatim>\<open>Load\<close> does to the decoded document.\<close>

definition accept_config :: "cfg_env \<Rightarrow> config \<Rightarrow> cfg_errors + config" where
  "accept_config fe cfg = (let cfg = cfg\<lparr>cg_alertmanager := map_option applyAlertmanagerDefaults (cg_alertmanager cfg)\<rparr>;
     errs = validate fe cfg in if errs = [] then Inr cfg else Inl errs)"

section \<open>Advisories\<close>

definition DependsOnIntervalWarnings :: "config \<Rightarrow> (string \<times> duration \<times> string \<times> duration) list" where
  "DependsOnIntervalWarnings cfg =
    (let http = map (\<lambda>m. (mo_slug m, mo_interval m, mo_depends_on m)) (cg_monitors cfg);
         smtp = map (\<lambda>m. (sp_slug m, sp_interval m, sp_depends_on m)) (cg_smtp cfg);
         intervals = fold (\<lambda>(s, iv, _). gm_put s iv) (http @ smtp) []
     in concat (map (\<lambda>(child, iv, deps). if iv = 0 then [] else
          List.map_filter (\<lambda>parent. case gm_get intervals parent of None \<Rightarrow> None
            | Some piv \<Rightarrow> if piv = 0 \<or> piv \<le> iv then None else Some (parent, piv, child, iv)) deps) (http @ smtp)))"

section \<open>The plans of the declared monitors\<close>

definition pool_Get :: "config \<Rightarrow> string \<Rightarrow> string option" where
  "pool_Get cfg s = (if s \<noteq> [] \<and> s \<in> set (map px_slug (cg_proxies cfg)) then Some s else None)"

definition http_plan :: "config \<Rightarrow> monitor_cfg \<Rightarrow> plan" where
  "http_plan cfg m =
    \<lparr>p_slug = mo_slug m, p_kind = ''http'', p_friendly_name = mo_friendly_name m, p_url = mo_url m,
     p_http_method = mo_http_method m, p_host = [], p_port = 0, p_tls_mode = [], p_accepted = mo_accepted m,
     p_interval = mo_interval m, p_timeout = mo_timeout m, p_retries = mo_retries m,
     p_retry_backoff = mo_retry_backoff m, p_follow_redirects = mo_follow_redirects m,
     p_prober = Some (HTTPProber \<lparr>hc_url = mo_url m, hc_method = mo_http_method m, hc_accepted = mo_accepted m,
       hc_timeout = mo_timeout m, hc_follow_redirects = mo_follow_redirects m, hc_insecure = mo_insecure m,
       hc_proxy_dialer = pool_Get cfg (mo_proxy m), hc_user_agent = cg_user_agent cfg\<rparr>),
     p_insecure = mo_insecure m, p_proxy_dialer = pool_Get cfg (mo_proxy m), p_proxy = mo_proxy m,
     p_preset = [], p_user_agent = cg_user_agent cfg, p_reminder_interval = mo_reminder m, p_channel = mo_slack m,
     p_mentions = ResolveMentions (mo_notify m) (ro_mapping (roster_of cfg)), p_depends_on = mo_depends_on m,
     p_critical = mo_critical m, p_ssl_alert = mo_ssl_alert m, p_ssl_escalation = mo_ssl_escalation m,
     p_ssl_reminder = mo_ssl_reminder m, p_tls_bearing = has_prefix (mo_url m) ''https://''\<rparr>"

definition smtp_plan :: "config \<Rightarrow> smtp_cfg \<Rightarrow> plan" where
  "smtp_plan cfg m =
    \<lparr>p_slug = sp_slug m, p_kind = ''smtp'', p_friendly_name = sp_friendly_name m, p_url = smtp_URL m,
     p_http_method = [], p_host = sp_host m, p_port = sp_port m, p_tls_mode = TLSMode m, p_accepted = [],
     p_interval = sp_interval m, p_timeout = sp_timeout m, p_retries = sp_retries m,
     p_retry_backoff = sp_retry_backoff m, p_follow_redirects = False,
     p_prober = Some (SMTPProber \<lparr>sc_host = sp_host m, sc_port = sp_port m, sc_tls_mode = TLSMode m,
       sc_ehlo_name = sp_ehlo m, sc_timeout = sp_timeout m, sc_insecure = sp_insecure m,
       sc_proxy_dialer = pool_Get cfg (sp_proxy m)\<rparr>),
     p_insecure = sp_insecure m, p_proxy_dialer = pool_Get cfg (sp_proxy m), p_proxy = sp_proxy m,
     p_preset = [], p_user_agent = [], p_reminder_interval = sp_reminder m, p_channel = sp_slack m,
     p_mentions = ResolveMentions (sp_notify m) (ro_mapping (roster_of cfg)), p_depends_on = sp_depends_on m,
     p_critical = sp_critical m, p_ssl_alert = sp_ssl_alert m, p_ssl_escalation = sp_ssl_escalation m,
     p_ssl_reminder = sp_ssl_reminder m, p_tls_bearing = (TLSMode m \<noteq> ''none'')\<rparr>"

definition buildPlans :: "config \<Rightarrow> plan list" where
  "buildPlans cfg = map (http_plan cfg) (cg_monitors cfg) @ map (smtp_plan cfg) (cg_smtp cfg)"

end
