(* ===== verification/Config_Claims.thy ===== *)
theory Config_Claims
  imports Config Kube_Claims
begin

text \<open>
  What an accepted configuration gives the rest of the program: plans the scheduler can run, under slugs no
  two of them share, and rules under which every discovered host resolves.
\<close>

section \<open>Errors of a list\<close>

lemma each_Nil: "each f xs = [] \<longleftrightarrow> (\<forall>i < length xs. f i (xs ! i) = [])"
proof -
  have "set (enumerate 0 xs) = (\<lambda>i. (i, xs ! i)) ` {..< length xs}"
    by (auto simp: in_set_enumerate_eq image_iff)
  then show ?thesis by (auto simp: each_def)
qed

lemma each_mem: "each f xs = [] \<Longrightarrow> x \<in> set xs \<Longrightarrow> \<exists>i < length xs. x = xs ! i \<and> f i x = []"
  by (auto simp: each_Nil in_set_conv_nth)

text \<open>A list whose entries never repeat an earlier key has distinct keys.\<close>

lemma distinct_by_prefix:
  "(\<forall>i < length xs. g (xs ! i) \<notin> set seen \<and> g (xs ! i) \<notin> set (map g (take i xs))) \<longleftrightarrow>
   distinct (map g xs) \<and> set seen \<inter> g ` set xs = {}"
proof (induction xs rule: rev_induct)
  case (snoc x xs)
  have "(\<forall>i < length (xs @ [x]). g ((xs @ [x]) ! i) \<notin> set seen \<and> g ((xs @ [x]) ! i) \<notin> set (map g (take i (xs @ [x])))) \<longleftrightarrow>
      (\<forall>i < length xs. g (xs ! i) \<notin> set seen \<and> g (xs ! i) \<notin> set (map g (take i xs))) \<and>
      g x \<notin> set seen \<and> g x \<notin> set (map g xs)"
    by (auto simp: less_Suc_eq nth_append)
  with snoc show ?case by auto
qed simp

section \<open>Declared monitors\<close>

lemma plan_sel [simp]:
  "p_slug (http_plan cfg m) = mo_slug m" "p_slug (smtp_plan cfg n) = sp_slug n"
  "p_depends_on (http_plan cfg m) = mo_depends_on m" "p_depends_on (smtp_plan cfg n) = sp_depends_on n"
  "p_channel (http_plan cfg m) = mo_slack m" "p_channel (smtp_plan cfg n) = sp_slack n"
  by (simp_all add: http_plan_def smtp_plan_def)

lemma buildPlans_mem: "p \<in> set (buildPlans cfg) \<longleftrightarrow>
    (\<exists>m \<in> set (cg_monitors cfg). p = http_plan cfg m) \<or> (\<exists>n \<in> set (cg_smtp cfg). p = smtp_plan cfg n)"
  by (auto simp: buildPlans_def)

definition schedulable :: "plan \<Rightarrow> bool" where
  "schedulable p \<longleftrightarrow> p_timeout p < p_interval p \<and>
     wrap64 (p_retries p * wrap64 (p_timeout p + p_retry_backoff p)) < p_interval p \<and>
     (p_tls_bearing p \<and> \<not> p_insecure p \<longrightarrow>
        0 < p_ssl_escalation p \<and> p_ssl_escalation p < p_ssl_alert p \<and> 0 < p_ssl_reminder p)"

lemma static_slug_ok:
  "static_slug_errors seen base s = [] \<Longrightarrow> \<not> has_prefix s KubeSlugPrefix \<and> s \<notin> set seen \<and> Slugs.Validate s = None"
  by (auto simp: static_slug_errors_def slug_errors_def split: option.splits)

lemma ssl_errors_Nil: "ssl_errors base alert escalation reminder = [] \<longleftrightarrow>
    0 < escalation \<and> escalation < alert \<and> 0 < reminder"
  by (auto simp: ssl_errors_def)

lemma monitor_plans:
  assumes "monitor_errors ro (cg_monitors cfg) = []"
  shows "distinct (map mo_slug (cg_monitors cfg))"
    and "\<forall>m \<in> set (cg_monitors cfg). schedulable (http_plan cfg m) \<and> \<not> has_prefix (mo_slug m) KubeSlugPrefix \<and>
      mo_slack m \<in> set (ro_channels ro) \<and> mo_slug m \<notin> set (mo_depends_on m)"
proof -
  have *: "static_slug_errors (map mo_slug (take i (cg_monitors cfg))) [''monitors'', index i] (mo_slug (cg_monitors cfg ! i)) = []"
    if "i < length (cg_monitors cfg)" for i
    using assms that by (simp add: monitor_errors_def each_Nil Let_def)
  then show "distinct (map mo_slug (cg_monitors cfg))"
    using distinct_by_prefix [of "cg_monitors cfg" mo_slug "[]"] static_slug_ok by fastforce
  show "\<forall>m \<in> set (cg_monitors cfg). schedulable (http_plan cfg m) \<and> \<not> has_prefix (mo_slug m) KubeSlugPrefix \<and>
      mo_slack m \<in> set (ro_channels ro) \<and> mo_slug m \<notin> set (mo_depends_on m)"
  proof
    fix m assume "m \<in> set (cg_monitors cfg)"
    from each_mem [OF assms [unfolded monitor_errors_def] this] obtain i where
      "static_slug_errors (map mo_slug (take i (cg_monitors cfg))) [''monitors'', index i] (mo_slug m) = []"
      "routing_errors ro [''monitors'', index i] (mo_tags m) (mo_proxy m) (mo_slack m) (mo_notify m) = []"
      "schedule_errors [''monitors'', index i] (mo_interval m) (mo_timeout m) (mo_retries m) (mo_retry_backoff m) = []"
      "self_dependency [''monitors'', index i] (mo_slug m) (mo_depends_on m) = []"
      "has_prefix (mo_url m) ''https://'' \<and> \<not> mo_insecure m \<longrightarrow>
         ssl_errors [''monitors'', index i] (mo_ssl_alert m) (mo_ssl_escalation m) (mo_ssl_reminder m) = []"
      by (auto simp: Let_def split: if_splits)
    then show "schedulable (http_plan cfg m) \<and> \<not> has_prefix (mo_slug m) KubeSlugPrefix \<and>
        mo_slack m \<in> set (ro_channels ro) \<and> mo_slug m \<notin> set (mo_depends_on m)"
      by (auto simp: schedulable_def http_plan_def schedule_errors_def retryWindow_def routing_errors_def self_dependency_def
          ssl_errors_Nil each_Nil in_set_conv_nth dest: static_slug_ok)
  qed
qed

lemma smtp_plans:
  assumes "validateSMTPMonitors ro seen (cg_smtp cfg) = []"
  shows "distinct (map sp_slug (cg_smtp cfg)) \<and> set seen \<inter> sp_slug ` set (cg_smtp cfg) = {}"
    and "\<forall>m \<in> set (cg_smtp cfg). schedulable (smtp_plan cfg m) \<and> \<not> has_prefix (sp_slug m) KubeSlugPrefix \<and>
      sp_slack m \<in> set (ro_channels ro) \<and> sp_slug m \<notin> set (sp_depends_on m)"
proof -
  have *: "static_slug_errors (seen @ map sp_slug (take i (cg_smtp cfg))) [''smtpMonitors'', index i] (sp_slug (cg_smtp cfg ! i)) = []"
    if "i < length (cg_smtp cfg)" for i
    using assms that by (simp add: validateSMTPMonitors_def each_Nil Let_def)
  then show "distinct (map sp_slug (cg_smtp cfg)) \<and> set seen \<inter> sp_slug ` set (cg_smtp cfg) = {}"
    using distinct_by_prefix [of "cg_smtp cfg" sp_slug seen] static_slug_ok by fastforce
  show "\<forall>m \<in> set (cg_smtp cfg). schedulable (smtp_plan cfg m) \<and> \<not> has_prefix (sp_slug m) KubeSlugPrefix \<and>
      sp_slack m \<in> set (ro_channels ro) \<and> sp_slug m \<notin> set (sp_depends_on m)"
  proof
    fix m assume "m \<in> set (cg_smtp cfg)"
    from each_mem [OF assms [unfolded validateSMTPMonitors_def] this] obtain i where
      "static_slug_errors (seen @ map sp_slug (take i (cg_smtp cfg))) [''smtpMonitors'', index i] (sp_slug m) = []"
      "routing_errors ro [''smtpMonitors'', index i] (sp_tags m) (sp_proxy m) (sp_slack m) (sp_notify m) = []"
      "schedule_errors [''smtpMonitors'', index i] (sp_interval m) (sp_timeout m) (sp_retries m) (sp_retry_backoff m) = []"
      "self_dependency [''smtpMonitors'', index i] (sp_slug m) (sp_depends_on m) = []"
      "TracksSSL m \<longrightarrow> ssl_errors [''smtpMonitors'', index i] (sp_ssl_alert m) (sp_ssl_escalation m) (sp_ssl_reminder m) = []"
      by (auto simp: Let_def split: if_splits)
    then show "schedulable (smtp_plan cfg m) \<and> \<not> has_prefix (sp_slug m) KubeSlugPrefix \<and>
        sp_slack m \<in> set (ro_channels ro) \<and> sp_slug m \<notin> set (sp_depends_on m)"
      by (auto simp: schedulable_def smtp_plan_def schedule_errors_def retryWindow_def routing_errors_def self_dependency_def
          ssl_errors_Nil each_Nil in_set_conv_nth TracksSSL_def dest: static_slug_ok)
  qed
qed

section \<open>Dependencies\<close>

lemma parents_of_get:
  assumes "distinct (map dn_slug nodes)" "n \<in> set nodes"
  shows "gm_get (parents_of nodes) (dn_slug n) = Some (dn_deps n)"
proof -
  have "gm_get (fold (\<lambda>n. gm_put (dn_slug n) (dn_deps n)) nodes m) (dn_slug n) = Some (dn_deps n)"
    if "distinct (map dn_slug nodes)" "n \<in> set nodes" for nodes m
    using that
  proof (induction nodes arbitrary: m)
    case (Cons x xs)
    have other: "gm_get (fold (\<lambda>n. gm_put (dn_slug n) (dn_deps n)) xs m) k = gm_get m k" if "k \<notin> dn_slug ` set xs" for m k
      using that by (induction xs arbitrary: m) auto
    show ?case
    proof (cases "n = x")
      case True
      with Cons.prems(1) other [of "dn_slug x"] show ?thesis by simp
    next
      case False
      with Cons show ?thesis by simp
    qed
  qed simp
  with assms show ?thesis by (simp add: parents_of_def)
qed

definition plan_graph :: "plan list \<Rightarrow> (string \<times> string) set" where
  "plan_graph plans = {(p_slug p, d) | p d. p \<in> set plans \<and> d \<in> set (p_depends_on p)}"

lemma collectDepNodes_plans:
  "map (\<lambda>n. (dn_slug n, dn_deps n)) (collectDepNodes cfg) = map (\<lambda>p. (p_slug p, p_depends_on p)) (buildPlans cfg)"
  by (simp add: collectDepNodes_def buildPlans_def)

lemma collectDepNodes_slugs: "map dn_slug (collectDepNodes cfg) = map p_slug (buildPlans cfg)"
  using arg_cong [OF collectDepNodes_plans [of cfg], of "map fst"] by (simp add: comp_def)

lemma plan_graph_declared:
  assumes "distinct (map p_slug (buildPlans cfg))"
    and "\<forall>p \<in> set (buildPlans cfg). \<forall>d \<in> set (p_depends_on p). d \<in> p_slug ` set (buildPlans cfg)"
  shows "plan_graph (buildPlans cfg) \<subseteq> depends_graph (collectDepNodes cfg)"
proof
  fix e assume "e \<in> plan_graph (buildPlans cfg)"
  then obtain p d where e: "e = (p_slug p, d)" "p \<in> set (buildPlans cfg)" "d \<in> set (p_depends_on p)"
    by (auto simp: plan_graph_def)
  then have "(p_slug p, p_depends_on p) \<in> set (map (\<lambda>p. (p_slug p, p_depends_on p)) (buildPlans cfg))" by auto
  then obtain n where n: "n \<in> set (collectDepNodes cfg)" "dn_slug n = p_slug p" "dn_deps n = p_depends_on p"
    unfolding collectDepNodes_plans [symmetric] by auto
  have "set (map dn_slug (collectDepNodes cfg)) = set (map p_slug (buildPlans cfg))" by (simp only: collectDepNodes_slugs)
  then have K: "dn_slug ` set (collectDepNodes cfg) = p_slug ` set (buildPlans cfg)" by simp
  have "distinct (map dn_slug (collectDepNodes cfg))" using assms(1) by (simp add: collectDepNodes_slugs)
  from parents_of_get [OF this n(1)] n e assms(2)
  show "e \<in> depends_graph (collectDepNodes cfg)"
    by (auto simp: depends_graph_def edges_in_def K gm_get0_def)
qed

lemma dependency_errors_Nil:
  assumes "dependency_errors cfg = []"
  shows "acyclic (depends_graph (collectDepNodes cfg))"
    and "p \<in> set (buildPlans cfg) \<Longrightarrow> d \<in> set (p_depends_on p) \<Longrightarrow> d = p_slug p \<or> d \<in> p_slug ` set (buildPlans cfg)"
proof -
  show "acyclic (depends_graph (collectDepNodes cfg))"
    using assms cycle_check_exact [of "collectDepNodes cfg"] by (auto simp: dependency_errors_def Let_def split: option.splits)
  let ?slugs = "map dn_slug (collectDepNodes cfg)"
  have one: "\<forall>d \<in> set deps. d = s \<or> d \<in> set ?slugs" if "parent_errors ?slugs base s deps = []" for base s deps
    using that by (auto simp: parent_errors_def each_Nil in_set_conv_nth)
  have e: "each (\<lambda>i m. parent_errors ?slugs [''monitors'', index i] (mo_slug m) (mo_depends_on m)) (cg_monitors cfg) = []"
    "each (\<lambda>i m. parent_errors ?slugs [''smtpMonitors'', index i] (sp_slug m) (sp_depends_on m)) (cg_smtp cfg) = []"
    using assms by (simp_all add: dependency_errors_def Let_def)
  have "\<forall>m \<in> set (cg_monitors cfg). \<forall>d \<in> set (mo_depends_on m). d = mo_slug m \<or> d \<in> set ?slugs"
    using each_mem [OF e(1)] one by blast
  moreover have "\<forall>m \<in> set (cg_smtp cfg). \<forall>d \<in> set (sp_depends_on m). d = sp_slug m \<or> d \<in> set ?slugs"
    using each_mem [OF e(2)] one by blast
  ultimately show "p \<in> set (buildPlans cfg) \<Longrightarrow> d \<in> set (p_depends_on p) \<Longrightarrow> d = p_slug p \<or> d \<in> p_slug ` set (buildPlans cfg)"
    using collectDepNodes_slugs [of cfg] by (metis (no_types, lifting) buildPlans_mem image_set plan_sel(1-4))
qed

lemma accepted_parts:
  assumes "accept_config fe cfg0 = Inr cfg"
  shows "monitor_errors (roster_of cfg) (cg_monitors cfg) = []"
    "validateSMTPMonitors (roster_of cfg) (map mo_slug (cg_monitors cfg)) (cg_smtp cfg) = []"
    "dependency_errors cfg = []" "validateKube fe (roster_of cfg) (cg_kube cfg) = []"
    "channel_errors (sl_channels (cg_slack cfg)) = []" "proxy_errors (cg_proxies cfg) = []"
  using assms by (auto simp: accept_config_def validate_def Let_def split: if_splits)

lemma accepted_plans:
  assumes "accept_config fe cfg0 = Inr cfg"
  shows "distinct (map p_slug (buildPlans cfg))"
    and "p \<in> set (buildPlans cfg) \<Longrightarrow> schedulable p \<and> \<not> has_prefix (p_slug p) KubeSlugPrefix \<and>
      p_channel p \<in> set (map ch_slug (sl_channels (cg_slack cfg))) \<and> p_slug p \<notin> set (p_depends_on p)"
proof -
  note parts = accepted_parts [OF assms]
  from monitor_plans(1) [OF parts(1)] smtp_plans(1) [OF parts(2)]
  show "distinct (map p_slug (buildPlans cfg))"
    by (simp add: buildPlans_def comp_def)
  show "p \<in> set (buildPlans cfg) \<Longrightarrow> schedulable p \<and> \<not> has_prefix (p_slug p) KubeSlugPrefix \<and>
      p_channel p \<in> set (map ch_slug (sl_channels (cg_slack cfg))) \<and> p_slug p \<notin> set (p_depends_on p)"
    using monitor_plans(2) [OF parts(1)] smtp_plans(2) [OF parts(2)]
    by (auto simp: buildPlans_mem roster_of_def)
qed

section \<open>A sample\<close>

text \<open>Two monitors, of which one depends on the other, one channel, and one rule for discovery.\<close>

definition sample_monitor :: "string \<Rightarrow> string list \<Rightarrow> monitor_cfg" where
  "sample_monitor s parents = \<lparr>mo_slug = s, mo_friendly_name = s, mo_url = ''https://'' @ s, mo_http_method = ''GET'',
     mo_accepted = [200], mo_interval = 60 * second, mo_timeout = 10 * second, mo_retries = 2, mo_retry_backoff = second,
     mo_follow_redirects = True, mo_insecure = False, mo_proxy = [], mo_reminder = hour, mo_slack = ''ops'', mo_notify = [],
     mo_depends_on = parents, mo_tags = [], mo_critical = False, mo_ssl_alert = 48 * hour, mo_ssl_escalation = 24 * hour,
     mo_ssl_reminder = hour\<rparr>"

definition sample_config :: config where
  "sample_config = \<lparr>cg_db_body_max = 4000, cg_password_env = ''DB'', cg_user_agent = ''ua'', cg_heartbeat = None,
     cg_kube = Some \<lparr>kb_resync = minute, kb_match = [KubeRule any_when None False
       (MarkSet ''followRedirects'' sample_kube_config) []], kb_debounce = None, kb_friendly_name = []\<rparr>,
     cg_sentry = None, cg_slack = \<lparr>sl_body_max = 400, sl_dependents_max = 20,
       sl_channels = [\<lparr>ch_slug = ''ops'', ch_id = ''C12345678'', ch_token_env = ''TOKEN''\<rparr>], sl_user_mapping = None,
       sl_coalesce = \<lparr>co_pending_wait = 0, co_group_wait = 0, co_group_interval = 0, co_repeat_interval = 0,
         co_burst_threshold = None, co_burst_window = 0, co_group_mention = [], co_probe_timeout = 0\<rparr>\<rparr>,
     cg_self_health = None, cg_alertmanager = None, cg_proxies = [],
     cg_monitors = [sample_monitor ''api'' [''site''], sample_monitor ''site'' []], cg_smtp = [], cg_pages = []\<rparr>"

definition sample_cfg_env :: cfg_env where
  "sample_cfg_env = \<lparr>fe_matchers = no_matchers, fe_qualified = (\<lambda>k. True), fe_url_scheme = (\<lambda>u. None)\<rparr>"

lemma sample_accepted: "accept_config sample_cfg_env sample_config = Inr sample_config"
proof -
  have "cg_alertmanager sample_config = None" by (simp add: sample_config_def)
  then have "sample_config\<lparr>cg_alertmanager := map_option applyAlertmanagerDefaults (cg_alertmanager sample_config)\<rparr> = sample_config"
    by simp
  moreover have "validate sample_cfg_env sample_config = []" by code_simp
  ultimately show ?thesis by (simp add: accept_config_def)
qed

text \<open>C11: The plans of an accepted configuration can be scheduled: no two share a slug and none takes a
  discovered one; each has a timeout and a retry window (as 64 bits hold it) below its interval, a configured channel,
  and, when it watches a certificate it verifies, thresholds in order; and what they
  depend on are other declared monitors, without a cycle.\<close>

theorem accepted_plans_are_sound:
  assumes "accept_config fe cfg0 = Inr cfg"
  shows "distinct (map p_slug (buildPlans cfg)) \<and> acyclic (plan_graph (buildPlans cfg)) \<and>
    (\<forall>p \<in> set (buildPlans cfg). schedulable p \<and> \<not> has_prefix (p_slug p) ''kube-'' \<and>
       p_channel p \<in> set (map ch_slug (sl_channels (cg_slack cfg))) \<and>
       set (p_depends_on p) \<subseteq> p_slug ` (set (buildPlans cfg) - {p}))"
proof -
  note parts = accepted_parts [OF assms] and plans = accepted_plans [OF assms]
  have deps: "d \<in> p_slug ` set (buildPlans cfg)" if "p \<in> set (buildPlans cfg)" "d \<in> set (p_depends_on p)" for p d
    using dependency_errors_Nil(2) [OF parts(3) that] plans(2) [OF that(1)] that by auto
  then have "acyclic (plan_graph (buildPlans cfg))"
    using plan_graph_declared [OF plans(1)] dependency_errors_Nil(1) [OF parts(3)] by (blast intro: acyclic_subset)
  moreover have "d \<in> p_slug ` (set (buildPlans cfg) - {p})" if "p \<in> set (buildPlans cfg)" "d \<in> set (p_depends_on p)" for p d
    using deps [OF that] plans(2) [OF that(1)] that(2) by auto
  ultimately show ?thesis using plans by (auto simp: KubeSlugPrefix_def)
qed

lemma accepted_plans_are_sound_witness:
  "acyclic (plan_graph (buildPlans sample_config)) \<and>
   set (p_depends_on (http_plan sample_config (sample_monitor ''api'' [''site'']))) \<subseteq> p_slug ` set (buildPlans sample_config)"
proof -
  have "http_plan sample_config (sample_monitor ''api'' [''site'']) \<in> set (buildPlans sample_config)"
    by (simp add: buildPlans_def sample_config_def)
  with accepted_plans_are_sound [OF sample_accepted] show ?thesis by blast
qed

text \<open>C3: However the cluster changes and whatever fails, the scheduler is never offered two plans
  under one slug: those of an accepted configuration and those of the materializer are all distinct.\<close>

theorem offered_slugs_are_distinct:
  assumes "accept_config fe cfg0 = Inr cfg" "kw_materializer w = Some (tx, quoted, m)"
    and "zs_plans (wt_mat s0) = []" "kube_Run mt w events False s0 = (armed, s)"
  shows "distinct (map p_slug (combined_CurrentPlans (buildPlans cfg) (Some (wt_mat s))))"
proof -
  have "plans_ok w (wt_mat s0)" using assms(3) by (simp add: plans_ok_def)
  from kube_Run_plans_ok [OF this assms(4)] assms(2)
  have ok: "gm_ok (zs_plans (wt_mat s))" "\<forall>slug p. gm_get (zs_plans (wt_mat s)) slug = Some p \<longrightarrow> probeable (mz_static_slugs m) slug p"
    by (auto simp: plans_ok_def)
  then have k: "\<forall>(slug, p) \<in> set (zs_plans (wt_mat s)). p_slug p = slug \<and> has_prefix slug ''kube-''"
    by (auto simp: gm_get_mem probeable_def)
  then have "map p_slug (kube_CurrentPlans (wt_mat s)) = map fst (zs_plans (wt_mat s))"
    by (auto simp: kube_CurrentPlans_def)
  moreover have "\<not> has_prefix (p_slug p) ''kube-''" if "p \<in> set (buildPlans cfg)" for p
    using accepted_plans(2) [OF assms(1) that] by (simp add: KubeSlugPrefix_def)
  ultimately show ?thesis using ok(1) k accepted_plans(1) [OF assms(1)]
    by (force simp: combined_CurrentPlans_def gm_ok_def)
qed

lemma offered_slugs_are_distinct_witness:
  "(case kube_Run no_matchers sample_watcher [(WatchTick, Inr [sample_ingress])] False (fresh_watch (empty_db 5)) of
     (armed, s) \<Rightarrow> distinct (map p_slug (combined_CurrentPlans (buildPlans sample_config) (Some (wt_mat s)))))"
proof -
  obtain armed s where run: "kube_Run no_matchers sample_watcher [(WatchTick, Inr [sample_ingress])] False (fresh_watch (empty_db 5)) = (armed, s)"
    by fastforce
  have "kw_materializer sample_watcher = Some (\<lparr>tx_check = (\<lambda>e. []), tx_slug = (\<lambda>e. []), tx_reject = (\<lambda>e. [])\<rparr>,
      (\<lambda>v. v), sample_materializer)" by (simp add: sample_watcher_def)
  moreover have "zs_plans (wt_mat (fresh_watch (empty_db 5))) = []" by (simp add: fresh_watch_def)
  ultimately show ?thesis using offered_slugs_are_distinct [OF sample_accepted _ _ run] run by simp
qed

end
