(* ===== verification/Config_Kube.thy ===== *)
theory Config_Kube
  imports Config_Claims Kube_Annotations
begin

text \<open>
  An accepted tree of discovery rules: every host of every ingress matches it, and what it resolves to
  names only configured things, whatever annotations say.
\<close>

section \<open>Layers\<close>

text \<open>What validation and lowering together guarantee of every layer of the stack.\<close>

definition layer_ok :: "roster \<Rightarrow> kube_config \<Rightarrow> bool" where
  "layer_ok ro c \<longleftrightarrow> (IsSet c ''path'' \<longrightarrow> has_prefix (kc_path c) ''/'') \<and>
     (IsSet c ''httpMethod'' \<longrightarrow> validHTTPMethod (kc_http_method c)) \<and>
     (IsSet c ''slack'' \<longrightarrow> kc_slack c = [] \<or> kc_slack c \<in> set (ro_channels ro)) \<and>
     (IsSet c ''proxy'' \<longrightarrow> kc_proxy c = [] \<or> kc_proxy c \<in> set (ro_proxies ro)) \<and>
     (IsSet c ''notify'' \<longrightarrow> list_all (isValidNotifyEntry (ro_mapping ro)) (nl_values (kc_notify c))) \<and>
     (IsSet c ''acceptedStatusCodes'' \<longrightarrow> list_all (\<lambda>n. 100 \<le> n \<and> n \<le> 599) (kc_accepted c))"

definition source_ok :: "roster \<Rightarrow> kube_value_source \<Rightarrow> bool" where
  "source_ok ro vs \<longleftrightarrow> coherent vs \<and> (vsrc_has_default (kvs_source vs) \<longrightarrow>
     (kvs_field vs = ''path'' \<longrightarrow> has_prefix (vsrc_default_scalar (kvs_source vs)) ''/'') \<and>
     (kvs_field vs = ''slack'' \<longrightarrow> vsrc_default_scalar (kvs_source vs) \<in> set (ro_channels ro)) \<and>
     (kvs_field vs = ''notify'' \<longrightarrow> list_all (isValidNotifyEntry (ro_mapping ro)) (vsrc_default_list (kvs_source vs))))"

lemma parseStatusCodes_range: "list_all (\<lambda>n. 100 \<le> n \<and> n \<le> 599) (fst (parseStatusCodes es))"
  by (induction es) (auto split: option.splits prod.splits if_splits)

lemma scalar_layer_ok:
  assumes "layer_ok ro c" "f = ''path'' \<longrightarrow> has_prefix v ''/''" "f = ''slack'' \<longrightarrow> v \<in> set (ro_channels ro)"
    "f \<in> {''path'', ''slack''}"
  shows "layer_ok ro (k_set_scalar f v c)"
  using assms by (auto simp: layer_ok_def k_set_scalar_def MarkSet_def IsSet_def)

lemma list_layer_ok:
  assumes "layer_ok ro c" "kvs_field vs = ''notify'' \<longrightarrow> list_all (isValidNotifyEntry (ro_mapping ro)) l"
    "kvs_field vs \<in> {''notify'', ''tags''}"
  shows "layer_ok ro (k_set_list vs l c)"
  using assms by (auto simp: layer_ok_def k_set_list_def MarkSet_def IsSet_def Let_def)

lemma codes_layer_ok:
  assumes "layer_ok ro c" "list_all (\<lambda>n. 100 \<le> n \<and> n \<le> 599) l"
  shows "layer_ok ro (MarkSet ''acceptedStatusCodes'' (c\<lparr>kc_accepted := l\<rparr>))"
  using assms by (auto simp: layer_ok_def MarkSet_def IsSet_def)

lemma default_layer_ok:
  assumes "layer_ok ro c" "source_ok ro vs" "vsrc_has_default (kvs_source vs)"
  shows "layer_ok ro (default_config vs c)"
proof -
  have coh: "coherent vs" using assms(2) by (simp add: source_ok_def)
  show ?thesis
  proof (cases "kvs_kind vs")
    case KubeValueScalar
    then have f: "kvs_field vs \<in> {''path'', ''slack''}" using coh by (auto simp: coherent_def)
    have "default_config vs c = k_set_scalar (kvs_field vs) (vsrc_default_scalar (kvs_source vs)) c"
      using KubeValueScalar by (simp add: default_config_def writeDefault_def Let_def)
    moreover have "layer_ok ro (k_set_scalar (kvs_field vs) (vsrc_default_scalar (kvs_source vs)) c)"
      using assms(2,3) f by (intro scalar_layer_ok assms(1)) (simp_all add: source_ok_def)
    ultimately show ?thesis by simp
  next
    case KubeValueList
    then have f: "kvs_field vs \<in> {''notify'', ''tags''}" using coh by (auto simp: coherent_def)
    have "default_config vs c = (if vsrc_default_list (kvs_source vs) = [] then c
        else k_set_list vs (vsrc_default_list (kvs_source vs)) c)"
      using KubeValueList by (simp add: default_config_def writeDefault_def Let_def)
    moreover have "layer_ok ro (k_set_list vs (vsrc_default_list (kvs_source vs)) c)"
      using assms(2,3) by (intro list_layer_ok assms(1) f) (simp_all add: source_ok_def)
    ultimately show ?thesis using assms(1) by simp
  next
    case KubeValueStatusCodes
    then have f: "kvs_field vs = ''acceptedStatusCodes''" using coh by (auto simp: coherent_def)
    have "default_config vs c = (let l = fst (parseStatusCodes (vsrc_default_list (kvs_source vs))) in
        if l = [] then c else MarkSet ''acceptedStatusCodes'' (c\<lparr>kc_accepted := l\<rparr>))"
      using KubeValueStatusCodes f by (simp add: default_config_def writeDefault_def Let_def)
    then show ?thesis using assms(1) codes_layer_ok [OF assms(1) parseStatusCodes_range] by (simp add: Let_def)
  qed
qed

lemma entries_checked:
  "fst (k_check_entries env label f key sc es (kept, r)) = kept @ filter (\<lambda>e. k_checkListEntry env f e = None) es"
  by (induction es arbitrary: kept r) (auto split: option.splits)

lemma lower_layer_ok:
  assumes "layer_ok ro c" "source_ok ro vs"
    and "ke_slack_channels env = Some (ro_channels ro)" "ke_user_mapping env = Some (ro_mapping ro)"
  shows "layer_ok ro (fst (k_lower ann env label vs (c, r)))"
proof -
  obtain raw sc key where rd: "k_read ann env (kvs_source vs) = (raw, sc, key)" by (metis prod_cases3)
  have dflt: "layer_ok ro (default_or vs c)" using default_layer_ok [OF assms(1,2)] assms(1) by simp
  have coh: "coherent vs" using assms(2) by (simp add: source_ok_def)
  show ?thesis
  proof (cases "TrimSpace raw = []")
    case True
    then show ?thesis using dflt by (simp add: k_lower_def rd writeDefault_config split: if_splits)
  next
    case False
    show ?thesis
    proof (cases "kvs_kind vs")
      case KubeValueScalar
      then have f: "kvs_field vs \<in> {''path'', ''slack''}" using coh by (auto simp: coherent_def)
      have "layer_ok ro (k_set_scalar (kvs_field vs) (TrimSpace raw) c)"
        if "k_checkScalar env (kvs_field vs) (TrimSpace raw) = None"
        using that assms(3) f by (intro scalar_layer_ok assms(1)) (auto simp: k_checkScalar_def split: if_splits)
      then show ?thesis using False KubeValueScalar dflt by (simp add: k_lower_def rd lowerScalar_config)
    next
      case KubeValueList
      then have f: "kvs_field vs \<in> {''notify'', ''tags''}" using coh by (auto simp: coherent_def)
      obtain kept r1 where ke: "k_check_entries env label (kvs_field vs) key sc (SplitAnnotationList raw) ([], r) = (kept, r1)"
        by (metis surj_pair)
      then have "kept = filter (\<lambda>e. k_checkListEntry env (kvs_field vs) e = None) (SplitAnnotationList raw)"
        using entries_checked [of env label "kvs_field vs" key sc "SplitAnnotationList raw" "[]" r] by simp
      then have "kvs_field vs = ''notify'' \<longrightarrow> list_all (isValidNotifyEntry (ro_mapping ro)) kept"
        using assms(4) by (auto simp: k_checkListEntry_def isValidNotifyEntry_def list_all_iff split: if_splits)
      from list_layer_ok [OF assms(1) this f] show ?thesis
        using False KubeValueList assms(1) by (simp add: k_lower_def rd k_lowerList_def ke)
    next
      case KubeValueStatusCodes
      then have "kvs_field vs = ''acceptedStatusCodes''" using coh by (auto simp: coherent_def)
      then show ?thesis using False KubeValueStatusCodes dflt codes_layer_ok [OF assms(1) parseStatusCodes_range]
        by (simp add: k_lower_def rd lowerStatusCodes_config Let_def)
    qed
  qed
qed

text \<open>Once set, a field stays set while the sources of a rule are lowered.\<close>

lemma lower_keeps_set: "coherent vs \<Longrightarrow> IsSet c f \<Longrightarrow> IsSet (fst (k_lower ann env label vs (c, r))) f"
  using annotation_step [of vs c ann env label r]
  by (auto elim!: step_result.cases simp: k_set_scalar_def k_set_list_def MarkSet_def IsSet_def Let_def
      default_config_def writeDefault_def split: if_splits kube_value_kind.splits)

text \<open>A field with a default is set whatever the annotation holds.\<close>

lemma lower_sets_default:
  assumes "coherent vs" "kvs_kind vs = KubeValueScalar" "vsrc_has_default (kvs_source vs)"
  shows "IsSet (fst (k_lower ann env label vs (c, r))) (kvs_field vs)"
proof -
  obtain raw sc key where rd: "k_read ann env (kvs_source vs) = (raw, sc, key)" by (metis prod_cases3)
  have "IsSet (default_config vs c) (kvs_field vs)" "IsSet (k_set_scalar (kvs_field vs) v c) (kvs_field vs)" for v
    using assms(2) by (simp_all add: default_config_def writeDefault_def Let_def k_set_scalar_def)
  then show ?thesis using assms(2,3) by (simp add: k_lower_def rd writeDefault_config lowerScalar_config)
qed

lemma apply_layer_ok:
  assumes "layer_ok ro k" "list_all (source_ok ro) (kube_ValueSources k)"
    and "ke_slack_channels env = Some (ro_channels ro)" "ke_user_mapping env = Some (ro_mapping ro)"
  shows "layer_ok ro (fst (k_apply ann env label k r))"
proof -
  have "layer_ok ro (fst (fold (k_lower ann env label) vss (c, r)))"
    if "list_all (source_ok ro) vss" "layer_ok ro c" for vss c r
    using that
  proof (induction vss arbitrary: c r)
    case (Cons vs vss)
    obtain d q where 1: "k_lower ann env label vs (c, r) = (d, q)" by (metis surj_pair)
    then have "layer_ok ro d" using lower_layer_ok [OF Cons.prems(2) _ assms(3,4), of vs ann label r] Cons.prems(1) by simp
    with Cons 1 show ?case by simp
  qed simp
  with assms show ?thesis by (simp add: k_apply_def)
qed

lemma fold_lower_set:
  assumes "list_all coherent vss"
  shows "IsSet c f \<Longrightarrow> IsSet (fst (fold (k_lower ann env label) vss (c, r))) f"
    and "\<exists>vs \<in> set vss. kvs_field vs = f \<and> kvs_kind vs = KubeValueScalar \<and> vsrc_has_default (kvs_source vs) \<Longrightarrow>
      IsSet (fst (fold (k_lower ann env label) vss (c, r))) f"
proof -
  have keep: "IsSet c f \<Longrightarrow> IsSet (fst (fold (k_lower ann env label) vss (c, r))) f" if "list_all coherent vss" for vss c r
    using that
  proof (induction vss arbitrary: c r)
    case (Cons vs vss)
    then show ?case using lower_keeps_set [of vs c f ann env label r] by (cases "k_lower ann env label vs (c, r)") simp
  qed simp
  then show "IsSet c f \<Longrightarrow> IsSet (fst (fold (k_lower ann env label) vss (c, r))) f" using assms by blast
  show "\<exists>vs \<in> set vss. kvs_field vs = f \<and> kvs_kind vs = KubeValueScalar \<and> vsrc_has_default (kvs_source vs) \<Longrightarrow>
      IsSet (fst (fold (k_lower ann env label) vss (c, r))) f"
    using assms
  proof (induction vss arbitrary: c r)
    case (Cons vs vss)
    obtain d q where 1: "k_lower ann env label vs (c, r) = (d, q)" by (metis surj_pair)
    show ?case
    proof (cases "kvs_field vs = f \<and> kvs_kind vs = KubeValueScalar \<and> vsrc_has_default (kvs_source vs)")
      case True
      then have "IsSet d f" using lower_sets_default [of vs ann env label c r] Cons.prems(2) 1 by auto
      then show ?thesis using keep [of vss d q] Cons.prems(2) by (simp add: 1)
    next
      case False
      then show ?thesis using Cons.IH [of d q] Cons.prems by (auto simp: 1)
    qed
  qed simp
qed

section \<open>Validation\<close>

lemma validated_source:
  assumes "validateKubeSource fe ro k base vs = []" "coherent vs"
  shows "source_ok ro vs"
  using assms
  by (auto simp: validateKubeSource_def validateKubeSourceDefault_def source_ok_def notify_errors_def each_Nil list_all_length
      Let_def split: if_splits)

lemma validated_config:
  assumes "validateKubeConfig fe ro k base = []"
  shows "layer_ok ro k" "list_all (source_ok ro) (kube_ValueSources k)"
proof -
  have c: "IsSet k ''acceptedStatusCodes'' \<Longrightarrow> code_errors (base @ [''acceptedStatusCodes'']) (kc_accepted k) = []"
    "IsSet k ''notify'' \<Longrightarrow> notify_errors ro (base @ [''notify'']) (nl_values (kc_notify k)) = []"
    using assms by (simp_all add: validateKubeConfig_def split: if_splits)
  then have l: "IsSet k ''acceptedStatusCodes'' \<Longrightarrow> list_all (\<lambda>n. 100 \<le> n \<and> n \<le> 599) (kc_accepted k)"
    "IsSet k ''notify'' \<Longrightarrow> list_all (isValidNotifyEntry (ro_mapping ro)) (nl_values (kc_notify k))"
    by (force simp: code_errors_def notify_errors_def each_Nil list_all_length)+
  show "layer_ok ro k"
    using assms l unfolding layer_ok_def validateKubeConfig_def by simp
  have "list_all (\<lambda>vs. validateKubeSource fe ro k base vs = []) (kube_ValueSources k)"
    using assms by (simp add: validateKubeConfig_def validateKubeValueSources_def list_all_iff)
  then show "list_all (source_ok ro) (kube_ValueSources k)"
    using ValueSources_coherent [of k] validated_source unfolding list_all_iff by blast
qed

section \<open>The walk\<close>

text \<open>A rule whose configuration, and whose nested rules' configurations, passed validation.\<close>

fun rule_ok :: "roster \<Rightarrow> kube_rule \<Rightarrow> bool" where
  "rule_ok ro (KubeRule w ig fin cfg nested) \<longleftrightarrow>
     layer_ok ro cfg \<and> list_all (source_ok ro) (kube_ValueSources cfg) \<and> list_all (rule_ok ro) nested"

lemma validated_rules:
  "validateKubeRule fe ro r base = [] \<Longrightarrow> rule_ok ro r"
  "validateKubeRules fe ro i rs base = [] \<Longrightarrow> list_all (rule_ok ro) rs"
  by (induction fe ro r base and fe ro i rs base rule: validateKubeRule_validateKubeRules.induct)
    (auto dest: validated_config)

lemma k_push_stack: "kt_stack (k_push ing env label r t) = kt_stack t @
    [\<lparr>ks_cfg = fst (k_apply (ig_annotations ing) env label (kr_config r) (kt_log t)), ks_ignore = kr_ignore r\<rparr>]"
  by (simp add: k_push_def split: prod.splits)

lemma visit_extends:
  assumes "ke_slack_channels env = Some (ro_channels ro)" "ke_user_mapping env = Some (ro_mapping ro)"
  shows "rule_ok ro r \<Longrightarrow> \<exists>es. kt_stack (fst (k_visitRule mt ing host env label r t)) = kt_stack t @ es \<and>
      list_all (\<lambda>e. layer_ok ro (ks_cfg e)) es"
    and "list_all (rule_ok ro) rs \<Longrightarrow> \<exists>es. kt_stack (fst (k_visitRules mt ing host env label i rs t)) = kt_stack t @ es \<and>
      list_all (\<lambda>e. layer_ok ro (ks_cfg e)) es"
  using assms
proof (induction mt ing host env label r t and mt ing host env label i rs t rule: k_visitRule_k_visitRules.induct)
  case (1 mt ing host env label w ig fin cfg nested t)
  let ?r = "KubeRule w ig fin cfg nested"
  show ?case
  proof (cases "k_whenMatches mt w ing host (ke_namespace_annotations env)")
    case True
    have "layer_ok ro (fst (k_apply (ig_annotations ing) env label cfg (kt_log t)))"
      using 1(2) apply_layer_ok [OF _ _ 1(3,4)] by simp
    with 1(1) [OF _ _ 1(3,4)] True 1(2) show ?thesis
      by (fastforce simp: k_push_stack split: prod.splits)
  qed simp
next
  case (3 mt ing host env label i r rs t)
  obtain t1 h where v: "k_visitRule mt ing host env (k_indexed label i) r t = (t1, h)" by fastforce
  with 3(1) [OF _ 3(4,5)] 3(3) obtain es where es: "kt_stack t1 = kt_stack t @ es" "list_all (\<lambda>e. layer_ok ro (ks_cfg e)) es"
    by auto
  show ?case
  proof (cases h)
    case True
    with v es show ?thesis by simp
  next
    case False
    with 3(2) [OF v [symmetric] _ _ 3(4,5)] 3(3) obtain fs where
      "kt_stack (fst (k_visitRules mt ing host env label (Suc i) rs t1)) = kt_stack t1 @ fs" "list_all (\<lambda>e. layer_ok ro (ks_cfg e)) fs"
      by auto
    with v es False show ?thesis by simp
  qed
qed simp

section \<open>What a stack of such layers resolves to\<close>

definition lists_ok :: "roster \<Rightarrow> kube_config \<Rightarrow> bool" where
  "lists_ok ro c \<longleftrightarrow> (kc_slack c = [] \<or> kc_slack c \<in> set (ro_channels ro)) \<and>
     (kc_proxy c = [] \<or> kc_proxy c \<in> set (ro_proxies ro)) \<and>
     list_all (isValidNotifyEntry (ro_mapping ro)) (nl_values (kc_notify c)) \<and>
     list_all (\<lambda>n. 100 \<le> n \<and> n \<le> 599) (kc_accepted c)"

definition rooted :: "kube_config \<Rightarrow> bool" where
  "rooted c \<longleftrightarrow> has_prefix (kc_path c) ''/'' \<and> validHTTPMethod (kc_http_method c)"

lemma merged_all: "list_all P xs \<Longrightarrow> list_all P ys \<Longrightarrow> list_all P (mergeStrings xs ys ov)"
proof -
  have "set (dedup_from seen zs) \<subseteq> set zs" for seen and zs :: "string list"
    by (induction zs arbitrary: seen) (auto split: if_splits)
  then show "list_all P xs \<Longrightarrow> list_all P ys \<Longrightarrow> ?thesis"
    unfolding mergeStrings_def list_all_iff by (auto simp: subset_iff)
qed

lemma resolve_lists_ok: "layer_ok ro c \<Longrightarrow> lists_ok ro out \<Longrightarrow> lists_ok ro (resolve_layer c out)"
  by (auto simp: layer_ok_def lists_ok_def resolve_layer_def merge_if_def merged_all)

lemma resolve_rooted:
  "layer_ok ro c \<Longrightarrow> rooted out \<or> IsSet c ''path'' \<and> IsSet c ''httpMethod'' \<Longrightarrow> rooted (resolve_layer c out)"
  by (auto simp: layer_ok_def rooted_def resolve_layer_def)

lemma resolved_stack:
  assumes "list_all (\<lambda>e. layer_ok ro (ks_cfg e)) (e # es)" "IsSet (ks_cfg e) ''path''" "IsSet (ks_cfg e) ''httpMethod''"
  shows "lists_ok ro (k_resolveStack (e # es)) \<and> rooted (k_resolveStack (e # es))"
proof -
  have "lists_ok ro (fold (\<lambda>e. resolve_layer (ks_cfg e)) es out) \<and> rooted (fold (\<lambda>e. resolve_layer (ks_cfg e)) es out)"
    if "list_all (\<lambda>e. layer_ok ro (ks_cfg e)) es" "lists_ok ro out" "rooted out" for es out
    using that by (induction es arbitrary: out) (auto intro: resolve_lists_ok resolve_rooted)
  moreover have "lists_ok ro zero_kube_config" by (simp add: lists_ok_def zero_kube_config_def no_list_def)
  moreover have "layer_ok ro (ks_cfg e)" "list_all (\<lambda>e. layer_ok ro (ks_cfg e)) es" using assms(1) by simp_all
  moreover have "rooted (resolve_layer (ks_cfg e) zero_kube_config)"
    using resolve_rooted [of ro "ks_cfg e" zero_kube_config] assms by simp
  ultimately show ?thesis using resolve_lists_ok [of ro "ks_cfg e" zero_kube_config] by (simp add: k_resolveStack_def)
qed

section \<open>The root rule\<close>

lemma root_matches: "kubeWhenIsEmpty w \<Longrightarrow> k_whenMatches mt w ing host ns"
  by (simp add: kubeWhenIsEmpty_def k_whenMatches_def mapContains_def)

lemma root_sets:
  assumes "checkKubeRequiredAtRoot k base = []"
  shows "IsSet (fst (k_apply ann env label k r)) ''path''" "IsSet (fst (k_apply ann env label k r)) ''httpMethod''"
proof -
  have req: "IsSet k f \<or> (\<exists>vs \<in> set (kube_ValueSources k). kvs_field vs = f \<and> vsrc_has_default (kvs_source vs))"
    if "f \<in> {''path'', ''httpMethod''}" for f
  proof -
    have "f \<in> set KubeRequiredAtRoot" using that by (auto simp: KubeRequiredAtRoot_def)
    with assms have "IsSet k f \<or> err_if (f \<notin> set (map kvs_field (filter (\<lambda>vs. vsrc_has_default (kvs_source vs)) (kube_ValueSources k))))
        (base @ [f]) MissingAtRoot = []"
      by (force simp: checkKubeRequiredAtRoot_def Let_def simp del: err_if_Nil)
    then show ?thesis by (auto simp: err_if_def split: if_splits)
  qed
  have kinds: "kvs_kind vs = KubeValueScalar \<and> kvs_field vs \<noteq> ''httpMethod''"
    if "vs \<in> set (kube_ValueSources k)" "kvs_field vs \<in> {''path'', ''httpMethod''}" for vs
    using ValueSources_coherent [of k] that by (auto simp: list_all_iff coherent_def)
  have "IsSet k ''path'' \<or> (\<exists>vs \<in> set (kube_ValueSources k). kvs_field vs = ''path'' \<and> kvs_kind vs = KubeValueScalar \<and>
      vsrc_has_default (kvs_source vs))"
    using req [of "''path''"] kinds by blast
  then show "IsSet (fst (k_apply ann env label k r)) ''path''"
    unfolding k_apply_def using fold_lower_set [OF ValueSources_coherent] by blast
  have "IsSet k ''httpMethod''" using req [of "''httpMethod''"] kinds by blast
  then show "IsSet (fst (k_apply ann env label k r)) ''httpMethod''"
    unfolding k_apply_def by (rule fold_lower_set(1) [OF ValueSources_coherent])
qed

lemma walk_root:
  assumes "validateKube fe ro (Some b) = []"
    and "ke_slack_channels env = Some (ro_channels ro)" "ke_user_mapping env = Some (ro_mapping ro)"
  obtains e es where "kt_stack (k_walkRules mt ing host env (kb_match b)) = e # es"
    "list_all (\<lambda>e. layer_ok ro (ks_cfg e)) (e # es)" "IsSet (ks_cfg e) ''path''" "IsSet (ks_cfg e) ''httpMethod''"
proof -
  obtain r rs where b: "kb_match b = r # rs" using assms(1) by (cases "kb_match b") (simp_all add: validateKube_def)
  obtain w ig fin cfg nested where r: "r = KubeRule w ig fin cfg nested" by (cases r)
  have w: "kubeWhenIsEmpty w" "checkKubeRequiredAtRoot cfg [''kube'', ''match'', ''0'', ''config''] = []"
    and rules: "list_all (rule_ok ro) (r # rs)"
    using assms(1) validated_rules(2) [of fe ro 0 "r # rs" "[''kube'', ''match'']"]
    by (auto simp: validateKube_def b r split: if_splits)
  let ?label = "k_indexed ''match'' 0"
  let ?e = "\<lparr>ks_cfg = fst (k_apply (ig_annotations ing) env ?label cfg (kt_log empty_walk)), ks_ignore = ig\<rparr>"
  let ?t0 = "k_push ing env ?label r empty_walk"
  have st0: "kt_stack ?t0 = [?e]" by (simp add: k_push_stack r empty_walk_def)
  have nested: "list_all (rule_ok ro) nested" "list_all (rule_ok ro) rs" using rules by (simp_all add: r)
  obtain es1 where es1: "kt_stack (fst (k_visitRules mt ing host env (?label @ ''.nested'') 0 nested ?t0)) = [?e] @ es1"
    "list_all (\<lambda>e. layer_ok ro (ks_cfg e)) es1"
    using visit_extends(2) [OF assms(2,3) nested(1)] st0 by metis
  obtain t1 h where v: "k_visitRule mt ing host env ?label r empty_walk = (t1, h)" by fastforce
  have t1: "kt_stack t1 = ?e # es1"
    using v es1(1) root_matches [OF w(1)] by (simp add: r split: prod.splits)
  obtain es2 where es2: "kt_stack (k_walkRules mt ing host env (kb_match b)) = kt_stack t1 @ es2"
    "list_all (\<lambda>e. layer_ok ro (ks_cfg e)) es2"
  proof (cases h)
    case True
    then show ?thesis using that [of "[]"] v by (simp add: k_walkRules_def b)
  next
    case False
    then show ?thesis using that visit_extends(2) [OF assms(2,3) nested(2), of mt ing host "''match''" "Suc 0" t1] v
      by (auto simp: k_walkRules_def b)
  qed
  have "layer_ok ro (ks_cfg ?e)" using rules apply_layer_ok [OF _ _ assms(2,3)] by (simp add: r)
  then show ?thesis using that [of ?e "es1 @ es2"] es1 es2 t1 root_sets [OF w(2)] by simp
qed

text \<open>C8: The rules of an accepted configuration leave no host without a configuration.  Whatever the ingress, its host,
  its labels and its annotations: a rule matches; the path starts with a slash and the method is one
  of the five; the channel and the proxy, where there is one, are configured ones; everyone to notify is
  a mapped handle or Slack markup; and every accepted code is a status code.\<close>

theorem accepted_rules_always_resolve:
  assumes "accept_config fe cfg0 = Inr cfg" "cg_kube cfg = Some b"
    and "ke_slack_channels env = Some (ro_channels (roster_of cfg))" "ke_user_mapping env = Some (ro_mapping (roster_of cfg))"
  shows "re_matched (Resolve mt (kb_match b) ing host env) \<and>
    (let c = re_config (Resolve mt (kb_match b) ing host env) in
     has_prefix (kc_path c) ''/'' \<and> kc_http_method c \<in> set [''GET'', ''HEAD'', ''POST'', ''PUT'', ''DELETE''] \<and>
     (kc_slack c = [] \<or> kc_slack c \<in> set (map ch_slug (sl_channels (cg_slack cfg)))) \<and>
     (kc_proxy c = [] \<or> kc_proxy c \<in> set (map px_slug (cg_proxies cfg))) \<and>
     list_all (isValidNotifyEntry (ro_mapping (roster_of cfg))) (nl_values (kc_notify c)) \<and>
     list_all (\<lambda>n. 100 \<le> n \<and> n \<le> 599) (kc_accepted c))"
proof -
  have "validateKube fe (roster_of cfg) (Some b) = []" using accepted_parts(4) [OF assms(1)] assms(2) by simp
  from walk_root [OF this assms(3,4), of mt ing host] obtain e es where
    st: "kt_stack (k_walkRules mt ing host env (kb_match b)) = e # es"
    and ok: "list_all (\<lambda>e. layer_ok (roster_of cfg) (ks_cfg e)) (e # es)" "IsSet (ks_cfg e) ''path''" "IsSet (ks_cfg e) ''httpMethod''" .
  have "re_matched (Resolve mt (kb_match b) ing host env) \<and>
      re_config (Resolve mt (kb_match b) ing host env) = k_resolveStack (e # es)"
    by (simp add: Resolve_def Let_def st re_classify_def)
  then show ?thesis using resolved_stack [OF ok]
    by (simp add: Let_def lists_ok_def rooted_def validHTTPMethod_def roster_of_def)
qed

lemma accepted_rules_always_resolve_witness:
  "re_matched (Resolve no_matchers (kb_match (the (cg_kube sample_config))) sample_ingress ''a''
     \<lparr>ke_namespace_annotations = [], ke_user_mapping = Some [], ke_slack_channels = Some [''ops'']\<rparr>)"
proof -
  define env where "env = \<lparr>ke_namespace_annotations = [], ke_user_mapping = Some [], ke_slack_channels = Some [''ops'']\<rparr>"
  obtain b where b: "cg_kube sample_config = Some b" by (simp add: sample_config_def)
  have "ke_slack_channels env = Some (ro_channels (roster_of sample_config))"
    "ke_user_mapping env = Some (ro_mapping (roster_of sample_config))"
    by (simp_all add: env_def roster_of_def sample_config_def)
  from accepted_rules_always_resolve [OF sample_accepted b this, of no_matchers sample_ingress "''a''"]
  show ?thesis unfolding env_def [symmetric] by (simp add: b)
qed

end
