(* ===== verification/Store_Queries.thy ===== *)
theory Store_Queries
  imports Store_Incidents
begin

text \<open>
  The queries of \<^verbatim>\<open>internal/store\<close> that the web pages, the heartbeat and the metrics read: the filtered and
  paged listing of monitors, the counts, the discovery snapshot, the histories of alerts and the
  listing of Alertmanager incidents.  Text is ordered by its bytes; \<open>il\<close> stands for \<^verbatim>\<open>ILIKE\<close>.  A
  negative \<^verbatim>\<open>OFFSET\<close> is an error of the database, as Postgres refuses it.
\<close>

section \<open>Ordering\<close>

text \<open>A stable sort by any relation, as \<^verbatim>\<open>ORDER BY\<close> with rows of equal keys left in row order.\<close>

fun insert_by :: "('a \<Rightarrow> 'a \<Rightarrow> bool) \<Rightarrow> 'a \<Rightarrow> 'a list \<Rightarrow> 'a list" where
  "insert_by le x [] = [x]"
| "insert_by le x (y # ys) = (if le x y then x # y # ys else y # insert_by le x ys)"

definition order_by :: "('a \<Rightarrow> 'a \<Rightarrow> bool) \<Rightarrow> 'a list \<Rightarrow> 'a list" where
  "order_by le xs = foldr (insert_by le) xs []"

lemma set_insert_by [simp]: "set (insert_by le x ys) = insert x (set ys)"
  by (induction ys) auto

lemma length_insert_by [simp]: "length (insert_by le x ys) = Suc (length ys)"
  by (induction ys) auto

lemma distinct_insert_by [simp]: "distinct (insert_by le x ys) \<longleftrightarrow> x \<notin> set ys \<and> distinct ys"
  by (induction ys) auto

lemma set_order_by [simp]: "set (order_by le xs) = set xs"
  by (induction xs) (simp_all add: order_by_def)

lemma length_order_by [simp]: "length (order_by le xs) = length xs"
  by (induction xs) (simp_all add: order_by_def)

lemma distinct_order_by [simp]: "distinct (order_by le xs) \<longleftrightarrow> distinct xs"
proof (induction xs)
  case (Cons x xs)
  have "set (foldr (insert_by le) xs []) = set xs" using set_order_by [of le xs] by (simp add: order_by_def)
  with Cons show ?case by (simp add: order_by_def)
qed (simp add: order_by_def)

text \<open>Two keys in turn; a nullable column, missing values last in either direction.\<close>

definition then_by :: "('a \<Rightarrow> 'a \<Rightarrow> bool) \<Rightarrow> ('a \<Rightarrow> 'a \<Rightarrow> bool) \<Rightarrow> 'a \<Rightarrow> 'a \<Rightarrow> bool" where
  "then_by le1 le2 x y = (if le1 x y \<and> le1 y x then le2 x y else le1 x y)"

definition by_key :: "('a \<Rightarrow> 'k::linorder) \<Rightarrow> bool \<Rightarrow> 'a \<Rightarrow> 'a \<Rightarrow> bool" where
  "by_key f desc x y = (if desc then f y \<le> f x else f x \<le> f y)"

definition nulls_last :: "('a \<Rightarrow> ('k::linorder) option) \<Rightarrow> bool \<Rightarrow> 'a \<Rightarrow> 'a \<Rightarrow> bool" where
  "nulls_last f desc x y = (case (f x, f y) of
     (Some a, Some b) \<Rightarrow> if desc then b \<le> a else a \<le> b
   | (None, Some _) \<Rightarrow> False | _ \<Rightarrow> True)"

section \<open>Monitors\<close>

definition status_string :: "status \<Rightarrow> string" where
  "status_string s = (case s of StatusUp \<Rightarrow> ''up'' | StatusDown \<Rightarrow> ''down'' | StatusTemporaryPaused \<Rightarrow> ''temporary-paused''
     | StatusOther t \<Rightarrow> t)"

definition ssl_status_string :: "ssl_status \<Rightarrow> string" where
  "ssl_status_string s = (case s of SSLStatusNone \<Rightarrow> [] | SSLStatusOK \<Rightarrow> ''ok'' | SSLStatusExpiring \<Rightarrow> ''ssl-expiring''
     | SSLStatusSkipped \<Rightarrow> ''ssl-skipped'' | SSLStatusOther t \<Rightarrow> t)"

record list_opts =
  lo_search :: string
  lo_status :: string
  lo_ssl :: string
  lo_slugs :: "string list"
  lo_tags :: "string list"
  lo_archived :: string
  lo_sort :: string
  lo_desc :: bool
  lo_offset :: int
  lo_limit :: int

definition ListSortKeys :: "string list" where
  "ListSortKeys = [''name'', ''status'', ''url'', ''code'', ''checked'', ''ssl_expires'']"

definition status_rank :: "monitor_row \<Rightarrow> int" where
  "status_rank m = (let s = status_string (mr_status m) in
     if s = ''down'' then 0 else if s = ''temporary-paused'' then 1 else if s = ''kube-paused'' then 2
     else if s = ''up'' then 4 else 5)"

definition sortClause :: "string \<Rightarrow> bool \<Rightarrow> monitor_row \<Rightarrow> monitor_row \<Rightarrow> bool" where
  "sortClause key desc =
    (let tiebreak = by_key ms_friendly_name False in
     if key = ''name'' then by_key ms_friendly_name desc
     else if key = ''url'' then then_by (by_key ms_url desc) tiebreak
     else if key = ''code'' then then_by (nulls_last mr_last_status_code desc) tiebreak
     else if key = ''checked'' then then_by (nulls_last mr_last_checked_at desc) tiebreak
     else if key = ''ssl_expires'' then then_by (nulls_last mr_ssl_expires_at desc) tiebreak
     else if key = ''status'' then then_by (by_key status_rank desc) tiebreak
     else then_by (by_key status_rank False) tiebreak)"

definition listing_filter :: "(string \<Rightarrow> string \<Rightarrow> bool) \<Rightarrow> time \<Rightarrow> list_opts \<Rightarrow> monitor_row \<Rightarrow> bool" where
  "listing_filter il now op m \<longleftrightarrow>
     (if lo_archived op = ''archived'' then mr_archived m else if lo_archived op = ''any'' then True else \<not> mr_archived m) \<and>
     (lo_status op = [] \<or> status_string (mr_status m) = lo_status op) \<and>
     (lo_ssl op = [] \<or> (if lo_ssl op = ''expired''
        then mr_ssl_status m = Some SSLStatusExpiring \<and> (case mr_ssl_expires_at m of None \<Rightarrow> False | Some t \<Rightarrow> t < now)
        else map_option ssl_status_string (mr_ssl_status m) = Some (lo_ssl op))) \<and>
     (lo_slugs op = [] \<or> ms_slug m \<in> set (lo_slugs op)) \<and>
     list_all (\<lambda>t. t \<in> set (ms_tags m)) (lo_tags op) \<and>
     (lo_search op = [] \<or> il (''%'' @ lo_search op @ ''%'') (ms_friendly_name m) \<or> il (''%'' @ lo_search op @ ''%'') (ms_slug m))"

definition limit_offset :: "int \<Rightarrow> int \<Rightarrow> 'a list \<Rightarrow> store_error + 'a list" where
  "limit_offset lim off xs = (if off < 0 then Inl (DBError ''OFFSET must not be negative'')
     else Inr (take (nat lim) (drop (nat off) xs)))"

definition monitor_rows :: "db \<Rightarrow> monitor_row list" where
  "monitor_rows d = map (scanMonitor \<circ> snd) (db_monitors d)"

definition matching_monitors :: "(string \<Rightarrow> string \<Rightarrow> bool) \<Rightarrow> list_opts \<Rightarrow> db \<Rightarrow> monitor_row list" where
  "matching_monitors il op d = filter (listing_filter il (db_now d) op) (monitor_rows d)"

text \<open>Two statements: the count, then the page.\<close>

definition ListMonitors :: "(string \<Rightarrow> string \<Rightarrow> bool) \<Rightarrow> list_opts \<Rightarrow> db \<Rightarrow> db \<times> (store_error + monitor_row list \<times> nat)" where
  "ListMonitors il op d =
    (case db_call ''count monitors'' (\<lambda>d. (d, Inr (length (matching_monitors il op d)))) d of
       (d1, Inl e) \<Rightarrow> (d1, Inl e)
     | (d1, Inr n) \<Rightarrow>
        db_call ''list monitors'' (\<lambda>d. (d,
          let rows = order_by (sortClause (lo_sort op) (lo_desc op)) (matching_monitors il op d) in
          if 0 < lo_limit op then map_sum id (\<lambda>page. (page, n)) (limit_offset (lo_limit op) (lo_offset op) rows)
          else Inr (rows, n))) d1)"

definition no_opts :: list_opts where
  "no_opts = \<lparr>lo_search = [], lo_status = [], lo_ssl = [], lo_slugs = [], lo_tags = [], lo_archived = [], lo_sort = [],
     lo_desc = False, lo_offset = 0, lo_limit = 0\<rparr>"

definition ListActiveMonitors :: "db \<Rightarrow> db \<times> (store_error + monitor_row list)" where
  "ListActiveMonitors d = (case ListMonitors (\<lambda>p s. False) no_opts d of (d1, r) \<Rightarrow> (d1, map_sum id fst r))"

definition DistinctTags :: "db \<Rightarrow> db \<times> (store_error + string list)" where
  "DistinctTags = db_call ''distinct tags'' (\<lambda>d.
     (d, Inr (sort_strings (dedup_from [] (concat (map ms_tags (monitor_rows d)))))))"

definition CountOpenIncidents :: "db \<Rightarrow> db \<times> (store_error + nat)" where
  "CountOpenIncidents = db_call ''count open incidents'' (\<lambda>d.
     (d, Inr (length (filter (\<lambda>m. mr_status m = StatusDown \<and> \<not> mr_archived m) (monitor_rows d)))))"

record homepage_stats =
  hs_up :: nat
  hs_down :: nat
  hs_paused :: nat
  hs_ssl_expiring :: nat
  hs_ssl_skipped :: nat

definition HomepageStats :: "db \<Rightarrow> db \<times> (store_error + homepage_stats)" where
  "HomepageStats = db_call ''homepage stats'' (\<lambda>d. (d, Inr
     (let active = filter (\<lambda>m. \<not> mr_archived m) (monitor_rows d);
          count = (\<lambda>P. length (filter P active)) in
      \<lparr>hs_up = count (\<lambda>m. mr_status m = StatusUp), hs_down = count (\<lambda>m. mr_status m = StatusDown),
       hs_paused = count (\<lambda>m. mr_status m = StatusTemporaryPaused),
       hs_ssl_expiring = count (\<lambda>m. mr_ssl_status m = Some SSLStatusExpiring),
       hs_ssl_skipped = count (\<lambda>m. mr_ssl_status m = Some SSLStatusSkipped)\<rparr>)))"

section \<open>Discovery\<close>

definition CountKubeInvalid :: "db \<Rightarrow> db \<times> (store_error + nat)" where
  "CountKubeInvalid = db_call ''count kube-invalid'' (\<lambda>d.
     (d, Inr (length (filter (\<lambda>(k, r). ds_status r = ''kube-invalid'') (db_snapshots d)))))"

definition ListDiscoverySnapshot :: "db \<Rightarrow> db \<times> (store_error + (snapshot_key \<times> discovery_row) list)" where
  "ListDiscoverySnapshot = db_call ''list discovery_snapshot'' (\<lambda>d.
     (d, Inr (order_by (then_by (by_key (\<lambda>((ns, name, host), r). ns) False)
       (then_by (by_key (\<lambda>((ns, name, host), r). name) False) (by_key (\<lambda>((ns, name, host), r). host) False)))
       (db_snapshots d))))"

section \<open>Histories\<close>

definition newest_first :: "alert_event_row \<Rightarrow> alert_event_row \<Rightarrow> bool" where
  "newest_first = then_by (by_key ae_at True) (by_key ae_id True)"

definition ListAlertsForMonitor :: "string \<Rightarrow> int \<Rightarrow> db \<Rightarrow> db \<times> (store_error + alert_event_row list)" where
  "ListAlertsForMonitor slug limit = db_call ''list alerts'' (\<lambda>d.
     (d, limit_offset limit 0 (order_by newest_first (filter (\<lambda>e. ae_monitor_slug e = slug) (db_events d)))))"

text \<open>With each event, the friendly name of its monitor, or the slug where the row is gone.\<close>

definition ListLatestAlerts :: "int \<Rightarrow> int \<Rightarrow> db \<Rightarrow> db \<times> (store_error + (string \<times> alert_event_row) list \<times> nat)" where
  "ListLatestAlerts limit offset d =
    (case db_call ''count latest alerts'' (\<lambda>d. (d, Inr (length (db_events d)))) d of
       (d1, Inl e) \<Rightarrow> (d1, Inl e)
     | (d1, Inr n) \<Rightarrow>
        db_call ''list latest alerts'' (\<lambda>d. (d, map_sum id (\<lambda>page. (map (\<lambda>e. (case gm_get (db_monitors d) (ae_monitor_slug e) of
            None \<Rightarrow> ae_monitor_slug e | Some c \<Rightarrow> ms_friendly_name c, e)) page, n))
          (limit_offset limit offset (order_by newest_first (db_events d))))) d1)"

section \<open>Alertmanager incidents\<close>

record am_filter =
  af_status :: string
  af_severity :: string
  af_alertname :: string
  af_channel :: string
  af_receiver :: string
  af_from :: "time option"
  af_to :: "time option"
  af_limit :: int
  af_offset :: int

definition am_limit :: "int \<Rightarrow> int" where
  "am_limit l = (let l = (if l \<le> 0 then 50 else l) in if 500 < l then 500 else l)"

definition am_matches :: "am_filter \<Rightarrow> am_incident \<Rightarrow> bool" where
  "am_matches f i \<longleftrightarrow>
     (af_status f = ''firing'' \<longrightarrow> am_ended_at i = None) \<and> (af_status f = ''resolved'' \<longrightarrow> am_ended_at i \<noteq> None) \<and>
     (af_severity f = [] \<or> gm_get (am_labels i) ''severity'' = Some (af_severity f)) \<and>
     (af_alertname f = [] \<or> am_alertname i = af_alertname f) \<and>
     (af_channel f = [] \<or> am_channel_slug i = af_channel f) \<and>
     (af_receiver f = [] \<or> am_receiver i = af_receiver f) \<and>
     (case af_from f of None \<Rightarrow> True | Some t \<Rightarrow> t \<le> am_started_at i) \<and>
     (case af_to f of None \<Rightarrow> True | Some t \<Rightarrow> am_started_at i \<le> t)"

definition am_newest_first :: "am_incident \<Rightarrow> am_incident \<Rightarrow> bool" where
  "am_newest_first = then_by (by_key am_started_at True) (by_key am_id True)"

definition am_listing :: "am_filter \<Rightarrow> db \<Rightarrow> am_incident list" where
  "am_listing f d = order_by am_newest_first (filter (am_matches f) (db_am_alerts d))"

definition ListAMIncidents :: "am_filter \<Rightarrow> db \<Rightarrow> db \<times> (store_error + am_incident list)" where
  "ListAMIncidents f = db_call ''list am_alerts'' (\<lambda>d.
     (d, limit_offset (am_limit (af_limit f)) (af_offset f) (am_listing f d)))"

definition ListAMIncidentsByFingerprint :: "string \<Rightarrow> int \<Rightarrow> db \<Rightarrow> db \<times> (store_error + am_incident list)" where
  "ListAMIncidentsByFingerprint fp limit = db_call ''list am_alerts by fingerprint'' (\<lambda>d.
     (d, limit_offset (am_limit limit) 0 (order_by am_newest_first (filter (\<lambda>i. am_fingerprint i = fp) (db_am_alerts d)))))"

text \<open>The events carry no reception time here; their ids are given in the order of reception.\<close>

definition GetLatestAMEventPayload :: "nat \<Rightarrow> db \<Rightarrow> db \<times> (store_error + string)" where
  "GetLatestAMEventPayload incident = db_call ''get latest am_alert_events payload'' (\<lambda>d.
     (d, case order_by (by_key av_id True) (filter (\<lambda>e. av_incident_id e = incident) (db_am_events d)) of
       [] \<Rightarrow> Inl ErrNotFound | e # _ \<Rightarrow> Inr (av_raw_payload e)))"

section \<open>Lemmas\<close>

lemma sorted_insert_by:
  assumes "\<And>x y. le x y \<or> le y x" "\<And>x y z. le x y \<Longrightarrow> le y z \<Longrightarrow> le x z" "sorted_wrt le ys"
  shows "sorted_wrt le (insert_by le x ys)"
  using assms(3)
proof (induction ys)
  case (Cons y ys)
  then show ?case using assms(1) [of x y] assms(2) by (auto; blast)
qed simp

lemma sorted_order_by:
  assumes "\<And>x y. le x y \<or> le y x" "\<And>x y z. le x y \<Longrightarrow> le y z \<Longrightarrow> le x z"
  shows "sorted_wrt le (order_by le xs)"
  by (induction xs) (simp_all add: order_by_def sorted_insert_by [OF assms])

text \<open>A page of a list; the pages in turn make up the list.\<close>

definition page_of :: "nat \<Rightarrow> nat \<Rightarrow> 'a list \<Rightarrow> 'a list" where
  "page_of n p xs = take n (drop (p * n) xs)"

lemma pages_concat: "concat (map (\<lambda>p. page_of n p xs) [0..<k]) = take (k * n) xs"
proof (induction k)
  case (Suc k)
  have "take (n + k * n) xs = take (k * n) xs @ take n (drop (k * n) xs)"
    by (metis add.commute take_add)
  with Suc show ?case by (simp add: page_of_def)
qed simp

end
