(* ===== verification/Status_Pages.thy ===== *)
theory Status_Pages
  imports Store_Queries Config
begin

text \<open>
  The public status pages: the predicates compiled at start-up (\<^verbatim>\<open>compileSectionMatch\<close> of
  \<^verbatim>\<open>internal/lifecycle/lifecycle.go\<close>), the sections and the badge of a page (the functions of
  \<^verbatim>\<open>internal/web/templates/status_templ.go\<close>), its counts and its filter on the monitor listing
  (\<^verbatim>\<open>internal/web/web.go\<close>).  \<^verbatim>\<open>url.Parse\<close> is an argument that gives the host, or nothing where it fails.
\<close>

section \<open>Compiled predicates\<close>

datatype status_match = StatusMatch
  (sx_tags: "string list") (sx_regex: "(string \<Rightarrow> bool) option") (sx_any: "status_match list") (sx_all: "status_match list")

fun status_Matches :: "status_match \<Rightarrow> string list \<Rightarrow> string \<Rightarrow> bool" where
  "status_Matches (StatusMatch tags re anys alls) tagset host =
    (if anys \<noteq> [] then list_ex (\<lambda>c. status_Matches c tagset host) anys
     else if alls \<noteq> [] then list_all (\<lambda>c. status_Matches c tagset host) alls
     else if tags = [] \<and> re = None then False
     else if \<not> list_all (\<lambda>t. t \<in> set tagset) tags then False
     else (case re of None \<Rightarrow> True | Some f \<Rightarrow> f host))"

fun compileSectionMatch :: "matchers \<Rightarrow> section_match \<Rightarrow> status_match" where
  "compileSectionMatch mt (SectionMatch tags re anys alls) =
     StatusMatch tags (if re = [] then None else section_regex mt re)
       (map (compileSectionMatch mt) anys) (map (compileSectionMatch mt) alls)"

record status_config_section =
  sn_title :: string
  sn_match :: status_match

record status_config =
  sf_slug :: string
  sf_friendly_name :: string
  sf_sections :: "status_config_section list"

definition status_config_of :: "matchers \<Rightarrow> status_page \<Rightarrow> status_config" where
  "status_config_of mt p = \<lparr>sf_slug = pg_slug p, sf_friendly_name = pg_friendly_name p,
     sf_sections = map (\<lambda>s. \<lparr>sn_title = ss_title s, sn_match = compileSectionMatch mt (ss_match s)\<rparr>) (pg_sections p)\<rparr>"

section \<open>Sections and badge\<close>

definition hostFromURL :: "(string \<Rightarrow> string option) \<Rightarrow> string \<Rightarrow> string" where
  "hostFromURL url_host s = (case url_host s of None \<Rightarrow> [] | Some h \<Rightarrow> h)"

definition BuildStatusSections :: "(string \<Rightarrow> string option) \<Rightarrow> status_config \<Rightarrow> monitor_row list \<Rightarrow> (string \<times> monitor_row list) list" where
  "BuildStatusSections url_host cfg monitors =
     map (\<lambda>s. (sn_title s, filter (\<lambda>m. status_Matches (sn_match s) (ms_tags m) (hostFromURL url_host (ms_url m))) monitors))
       (sf_sections cfg)"

definition PageMatches :: "status_config \<Rightarrow> string list \<Rightarrow> string \<Rightarrow> bool" where
  "PageMatches cfg tagset host = list_ex (\<lambda>s. status_Matches (sn_match s) tagset host) (sf_sections cfg)"

definition is_warn :: "monitor_row \<Rightarrow> bool" where
  "is_warn m \<longleftrightarrow> mr_status m = StatusTemporaryPaused \<or> mr_ssl_status m = Some SSLStatusExpiring"

definition statusBadgeKind :: "(string \<times> monitor_row list) list \<Rightarrow> string" where
  "statusBadgeKind sections = (let rows = concat (map snd sections) in
     if rows = [] then ''none'' else if list_ex (\<lambda>m. mr_status m = StatusDown) rows then ''down''
     else if list_ex is_warn rows then ''warn'' else ''up'')"

section \<open>Counts and filter\<close>

fun index_of :: "string \<Rightarrow> string \<Rightarrow> nat option" where
  "index_of pat [] = (if pat = [] then Some 0 else None)"
| "index_of pat (c # cs) = (if has_prefix (c # cs) pat then Some 0 else map_option Suc (index_of pat cs))"

definition monitorHost :: "string \<Rightarrow> string" where
  "monitorHost s =
    (let s = (case index_of ''://'' s of None \<Rightarrow> s | Some i \<Rightarrow> drop (i + 3) s);
         s = takeWhile (\<lambda>c. c \<notin> set ''/?#'') s in
     if CHR '':'' \<in> set s then rev (tl (dropWhile (\<lambda>c. c \<noteq> CHR '':'') (rev s))) else s)"

record page_stats =
  st_total :: nat
  st_up :: nat
  st_down :: nat
  st_paused :: nat
  st_ssl_expiring :: nat
  st_ssl_expired :: nat
  st_ssl_skipped :: nat

definition no_stats :: page_stats where
  "no_stats = \<lparr>st_total = 0, st_up = 0, st_down = 0, st_paused = 0, st_ssl_expiring = 0, st_ssl_expired = 0, st_ssl_skipped = 0\<rparr>"

definition count_monitor :: "time \<Rightarrow> monitor_row \<Rightarrow> page_stats \<Rightarrow> page_stats" where
  "count_monitor now m s = s
     \<lparr>st_total := st_total s + 1,
      st_up := st_up s + (if mr_status m = StatusUp then 1 else 0),
      st_down := st_down s + (if mr_status m = StatusDown then 1 else 0),
      st_paused := st_paused s + (if mr_status m = StatusTemporaryPaused then 1 else 0),
      st_ssl_expiring := st_ssl_expiring s + (if mr_ssl_status m = Some SSLStatusExpiring then 1 else 0),
      st_ssl_expired := st_ssl_expired s + (if mr_ssl_status m = Some SSLStatusExpiring \<and>
        (case mr_ssl_expires_at m of None \<Rightarrow> False | Some t \<Rightarrow> t < now) then 1 else 0),
      st_ssl_skipped := st_ssl_skipped s + (if mr_ssl_status m = Some SSLStatusSkipped then 1 else 0)\<rparr>"

fun stats_loop :: "time \<Rightarrow> status_config \<Rightarrow> string list \<Rightarrow> monitor_row list \<Rightarrow> page_stats \<Rightarrow> page_stats" where
  "stats_loop now cfg seen [] s = s"
| "stats_loop now cfg seen (m # ms) s =
    (if \<not> PageMatches cfg (ms_tags m) (monitorHost (ms_url m)) \<or> ms_slug m \<in> set seen then stats_loop now cfg seen ms s
     else stats_loop now cfg (ms_slug m # seen) ms (count_monitor now m s))"

definition statsForPage :: "time \<Rightarrow> status_config \<Rightarrow> monitor_row list \<Rightarrow> page_stats" where
  "statsForPage now cfg active = stats_loop now cfg [] active no_stats"

definition computeStatusPageStats :: "time \<Rightarrow> status_config list \<Rightarrow> monitor_row list \<Rightarrow> page_stats list" where
  "computeStatusPageStats now cfgs active = map (\<lambda>c. statsForPage now c active) cfgs"

text \<open>The slugs, as a set; the code lists them in the order of a map.\<close>

definition collectMonitorSlugsForPage :: "status_config \<Rightarrow> monitor_row list \<Rightarrow> int \<Rightarrow> string list" where
  "collectMonitorSlugsForPage cfg active idx =
     dedup_from [] (map ms_slug (filter (\<lambda>m.
       if 0 \<le> idx \<and> idx < int (length (sf_sections cfg))
       then status_Matches (sn_match (sf_sections cfg ! nat idx)) (ms_tags m) (monitorHost (ms_url m))
       else PageMatches cfg (ms_tags m) (monitorHost (ms_url m))) active))"

section \<open>Lemmas\<close>

fun anchors_compile :: "matchers \<Rightarrow> section_match \<Rightarrow> bool" where
  "anchors_compile mt (SectionMatch tags re anys alls) \<longleftrightarrow>
     (re \<noteq> [] \<longrightarrow> section_regex mt re \<noteq> None) \<and> list_all (anchors_compile mt) anys \<and> list_all (anchors_compile mt) alls"

lemma compiled_Matches: "anchors_compile mt m \<Longrightarrow> status_Matches (compileSectionMatch mt m) tagset host = section_Matches mt m tagset host"
proof (induction m)
  case (SectionMatch tags re anys alls)
  have "list_ex (\<lambda>c. status_Matches c tagset host) (map (compileSectionMatch mt) anys) = list_ex (\<lambda>c. section_Matches mt c tagset host) anys"
    "list_all (\<lambda>c. status_Matches c tagset host) (map (compileSectionMatch mt) alls) = list_all (\<lambda>c. section_Matches mt c tagset host) alls"
    using SectionMatch by (auto simp: list_ex_iff list_all_iff)
  then show ?case using SectionMatch(3) by (auto split: option.splits)
qed

text \<open>
  Where the pattern compiles but its anchored form does not (as with an unclosed \<^verbatim>\<open>\Q\<close>), validation
  accepts the page and the compiled predicate selects by tag alone.
\<close>

lemma unanchorable_regex_selects_by_tag:
  assumes "section_regex mt re = None" "re \<noteq> []" "tag \<in> set tagset"
  shows "status_Matches (compileSectionMatch mt (SectionMatch [tag] re [] [])) tagset host"
    and "\<not> section_Matches mt (SectionMatch [tag] re [] []) tagset host"
  using assms by simp_all

text \<open>The host of the counts drops a port, the host of the sections keeps it.\<close>

lemma hosts_differ_on_a_port: "monitorHost ''http://a.b:8080/x'' = ''a.b''"
  by code_simp

lemma stats_loop_sel:
  "distinct (map ms_slug ms) \<Longrightarrow> set seen \<inter> ms_slug ` set ms = {} \<Longrightarrow>
   stats_loop now cfg seen ms s =
     fold (count_monitor now) (filter (\<lambda>m. PageMatches cfg (ms_tags m) (monitorHost (ms_url m))) ms) s"
proof (induction ms arbitrary: seen s)
  case (Cons m ms)
  then show ?case by (cases "PageMatches cfg (ms_tags m) (monitorHost (ms_url m))") auto
qed simp

lemma fold_count_sel:
  "st_total (fold (count_monitor now) ms s) = st_total s + length ms"
  "st_up (fold (count_monitor now) ms s) = st_up s + length (filter (\<lambda>m. mr_status m = StatusUp) ms)"
  "st_down (fold (count_monitor now) ms s) = st_down s + length (filter (\<lambda>m. mr_status m = StatusDown) ms)"
  "st_paused (fold (count_monitor now) ms s) = st_paused s + length (filter (\<lambda>m. mr_status m = StatusTemporaryPaused) ms)"
  "st_ssl_expiring (fold (count_monitor now) ms s) = st_ssl_expiring s + length (filter (\<lambda>m. mr_ssl_status m = Some SSLStatusExpiring) ms)"
  by (induction ms arbitrary: s) (simp_all add: count_monitor_def)

lemma filter_ne_Nil: "filter P xs = [] \<longleftrightarrow> \<not> list_ex P xs"
  by (induction xs) auto

section \<open>Claims\<close>

text \<open>A status page shows what the configuration declares.  Each section of a page, in its order, lists exactly the
  monitors of the listing, in theirs, that the declared predicate selects, provided the anchored form of
  every host pattern compiles.\<close>

theorem status_page_shows_what_is_declared:
  assumes "\<forall>s \<in> set (pg_sections p). anchors_compile mt (ss_match s)"
  shows "BuildStatusSections url_host (status_config_of mt p) monitors =
    map (\<lambda>s. (ss_title s, filter (\<lambda>m. section_Matches mt (ss_match s) (ms_tags m) (hostFromURL url_host (ms_url m))) monitors))
      (pg_sections p)"
  using assms by (auto simp: BuildStatusSections_def status_config_of_def compiled_Matches intro!: filter_cong)

lemma shown_iff:
  assumes "\<forall>m \<in> set active. hostFromURL url_host (ms_url m) = monitorHost (ms_url m)"
  shows "m \<in> set (concat (map snd (BuildStatusSections url_host cfg active))) \<longleftrightarrow>
    m \<in> set (filter (\<lambda>m. PageMatches cfg (ms_tags m) (monitorHost (ms_url m))) active)"
  using assms by (auto simp: BuildStatusSections_def PageMatches_def list_ex_iff)

lemma badge_of_counts:
  assumes "set (concat (map snd secs)) = set shown"
  shows "statusBadgeKind secs = (if shown = [] then ''none'' else if list_ex (\<lambda>m. mr_status m = StatusDown) shown then ''down''
    else if list_ex is_warn shown then ''warn'' else ''up'')"
proof -
  have "concat (map snd secs) = [] \<longleftrightarrow> shown = []" using assms by (metis set_empty)
  then show ?thesis using assms by (simp add: statusBadgeKind_def Let_def list_ex_iff)
qed

text \<open>C18: The index tile, the page and the filtered listing agree.  When the two ways of reading the host of a URL agree on
  the monitors at hand, the total of a page is the number of monitors its sections list, each once; the
  listing filtered by the page, or by one section of it, is the list of those; and the badge of the page is what the counts
  of the tile say.\<close>

theorem tile_page_and_listing_agree:
  assumes "distinct (map ms_slug active)"
    and "\<forall>m \<in> set active. hostFromURL url_host (ms_url m) = monitorHost (ms_url m)"
  shows "let st = statsForPage now cfg active; secs = BuildStatusSections url_host cfg active;
      listed = ms_slug ` set (concat (map snd secs)) in
    st_total st = card listed \<and> set (collectMonitorSlugsForPage cfg active (- 1)) = listed \<and>
    (\<forall>i < length secs. set (collectMonitorSlugsForPage cfg active (int i)) = ms_slug ` set (snd (secs ! i))) \<and>
    statusBadgeKind secs = (if st_total st = 0 then ''none'' else if 0 < st_down st then ''down''
      else if 0 < st_paused st \<or> 0 < st_ssl_expiring st then ''warn'' else ''up'')"
proof -
  let ?secs = "BuildStatusSections url_host cfg active"
  define shown where "shown = filter (\<lambda>m. PageMatches cfg (ms_tags m) (monitorHost (ms_url m))) active"
  have st: "statsForPage now cfg active = fold (count_monitor now) shown no_stats"
    using stats_loop_sel [OF assms(1), of "[]"] by (simp add: statsForPage_def shown_def)
  have set: "set (concat (map snd ?secs)) = set shown"
    using shown_iff [OF assms(2)] unfolding shown_def by blast
  have "distinct (map ms_slug shown)" using assms(1) unfolding shown_def by (rule distinct_map_filter)
  then have "card (ms_slug ` set shown) = length shown"
    using distinct_card [of "map ms_slug shown"] by simp
  moreover have "list_ex is_warn shown \<longleftrightarrow> 0 < st_paused (statsForPage now cfg active) \<or> 0 < st_ssl_expiring (statsForPage now cfg active)"
    by (auto simp: st fold_count_sel no_stats_def filter_ne_Nil list_ex_iff is_warn_def)
  moreover have "set (collectMonitorSlugsForPage cfg active (int i)) = ms_slug ` set (snd (?secs ! i))" if "i < length ?secs" for i
    using that assms(2) by (auto simp: collectMonitorSlugsForPage_def BuildStatusSections_def)
  moreover have "set (collectMonitorSlugsForPage cfg active (- 1)) = ms_slug ` set shown"
    by (simp add: collectMonitorSlugsForPage_def shown_def)
  ultimately show ?thesis
    using badge_of_counts [OF set] unfolding Let_def set by (simp add: st fold_count_sel no_stats_def filter_ne_Nil)
qed

section \<open>Witnesses\<close>

definition star_matchers :: matchers where
  "star_matchers = \<lparr>mt_glob = (\<lambda>p s. None), mt_regex = (\<lambda>p. Some (\<lambda>s. True))\<rparr>"

definition sample_page :: status_page where
  "sample_page = \<lparr>pg_slug = ''p'', pg_friendly_name = ''P'', pg_logo = [], pg_color = [],
     pg_sections = [\<lparr>ss_title = ''api'', ss_match = SectionMatch [] [] [SectionMatch [''api''] ''a.*'' [] []] []\<rparr>]\<rparr>"

definition sample_row :: monitor_row where
  "sample_row = \<lparr>ms_slug = ''m'', ms_kind = ''http'', ms_friendly_name = ''m'', ms_url = ''http://a'', ms_host = [],
     ms_port = 0, ms_tls_mode = [], ms_source = ''static'', ms_depends_on = [], ms_slack_channel_slug = ''ops'',
     ms_tags = [''api''], mr_status = StatusDown, mr_opened_at = Some 5, mr_last_reminder_at = None,
     mr_last_checked_at = Some 5, mr_last_status_code = None, mr_last_error = None, mr_archived = False,
     mr_archived_at = None, mr_archive_reason = None, mr_uptime_thread_channel = None, mr_uptime_thread_ts = None,
     mr_ssl_status = None, mr_ssl_expires_at = None, mr_ssl_issuer = None, mr_ssl_subject = None,
     mr_ssl_opened_at = None, mr_ssl_last_reminder_at = None, mr_ssl_thread_channel = None, mr_ssl_thread_ts = None\<rparr>"

lemma status_page_shows_what_is_declared_witness:
  "BuildStatusSections (\<lambda>u. Some ''a'') (status_config_of star_matchers sample_page) [sample_row] = [(''api'', [sample_row])]"
  using status_page_shows_what_is_declared [of sample_page star_matchers "\<lambda>u. Some ''a''" "[sample_row]"]
  by (simp add: sample_page_def star_matchers_def section_regex_def sample_row_def hostFromURL_def)

lemma tile_page_and_listing_agree_witness:
  "statusBadgeKind (BuildStatusSections (\<lambda>u. Some ''a'') (status_config_of star_matchers sample_page) [sample_row]) = ''down''"
proof -
  have "monitorHost ''http://a'' = ''a''" by code_simp
  then have "\<forall>m \<in> set [sample_row]. hostFromURL (\<lambda>u. Some ''a'') (ms_url m) = monitorHost (ms_url m)"
    by (simp add: sample_row_def hostFromURL_def)
  moreover have "st_total (statsForPage 7 (status_config_of star_matchers sample_page) [sample_row]) = 1 \<and>
      st_down (statsForPage 7 (status_config_of star_matchers sample_page) [sample_row]) = 1" by code_simp
  ultimately show ?thesis
    using tile_page_and_listing_agree [of "[sample_row]" "\<lambda>u. Some ''a''" 7 "status_config_of star_matchers sample_page"]
    by (simp add: Let_def)
qed

end
