(* ===== verification/Kube_Trace.thy ===== *)
theory Kube_Trace
  imports Kube_Samples
begin

text \<open>
  The traced walk of the cascade (\<^verbatim>\<open>internal/merger/trace.go\<close>) and the discovery page that shows it
  (\<^verbatim>\<open>internal/web/templates/discovery_view.go\<close>).  The page explains a monitor from a second implementation
  of the walk and of the merge; what is shown is that the second agrees with the first.
\<close>

section \<open>Events\<close>

datatype trace_action = TraceSet | TraceReplace | TraceAdd | TraceOverride

record trace_event =
  te_key :: string
  te_action :: trace_action
  te_old :: string
  te_new :: string
  te_old_list :: "string list"
  te_new_list :: "string list"
  te_added :: "string list"
  te_removed :: "string list"

record rule_trace =
  rt_label :: string
  rt_when :: string
  rt_final :: bool
  rt_events :: "trace_event list"

text \<open>A scalar of the accumulator and its presence flag are an option.\<close>

record trace_acc =
  ta_scheme :: "string option"
  ta_path :: "string option"
  ta_http_method :: "string option"
  ta_interval :: "duration option"
  ta_timeout :: "duration option"
  ta_retries :: "int option"
  ta_retry_backoff :: "duration option"
  ta_follow_redirects :: "bool option"
  ta_insecure :: "bool option"
  ta_proxy :: "string option"
  ta_reminder :: "duration option"
  ta_ssl_alert :: "duration option"
  ta_ssl_escalation :: "duration option"
  ta_ssl_reminder :: "duration option"
  ta_slack :: "string option"
  ta_accepted :: "int list option"
  ta_notify :: "string list"
  ta_tags :: "string list"
  ta_depends_on :: "string list"
  ta_ignore :: "bool option"

definition newTraceAccumulator :: trace_acc where
  "newTraceAccumulator = \<lparr>ta_scheme = None, ta_path = None, ta_http_method = None, ta_interval = None,
     ta_timeout = None, ta_retries = None, ta_retry_backoff = None, ta_follow_redirects = None, ta_insecure = None,
     ta_proxy = None, ta_reminder = None, ta_ssl_alert = None, ta_ssl_escalation = None, ta_ssl_reminder = None,
     ta_slack = None, ta_accepted = None, ta_notify = [], ta_tags = [], ta_depends_on = [], ta_ignore = None\<rparr>"

definition formatBool :: "bool \<Rightarrow> string" where
  "formatBool b = (if b then ''true'' else ''false'')"

definition scalar_event :: "string \<Rightarrow> trace_action \<Rightarrow> string \<Rightarrow> string \<Rightarrow> trace_event" where
  "scalar_event key act old new = \<lparr>te_key = key, te_action = act, te_old = old, te_new = new, te_old_list = [],
     te_new_list = [], te_added = [], te_removed = []\<rparr>"

text \<open>\<^verbatim>\<open>setString\<close>, \<^verbatim>\<open>setDuration\<close>, \<^verbatim>\<open>setInt\<close> and \<^verbatim>\<open>setBool\<close> differ in how a value is printed.\<close>

definition set_scalar :: "('a \<Rightarrow> string) \<Rightarrow> string \<Rightarrow> 'a \<Rightarrow> 'a option \<Rightarrow> trace_event" where
  "set_scalar print key v prior = (case prior of
     Some w \<Rightarrow> scalar_event key TraceReplace (print w) (print v)
   | None \<Rightarrow> scalar_event key TraceSet [] (print v))"

definition diffStrings :: "string list \<Rightarrow> string list \<Rightarrow> string list" where
  "diffStrings a b = filter (\<lambda>v. v \<notin> set b) a"

definition applyList :: "string \<Rightarrow> string_list \<Rightarrow> string list \<Rightarrow> string list \<times> trace_event" where
  "applyList key l old =
    (if nl_override l then
       (let out = dedup_from [] (nl_values l) in
        (out, \<lparr>te_key = key, te_action = TraceOverride, te_old = [], te_new = [], te_old_list = old, te_new_list = out,
          te_added = diffStrings out old, te_removed = diffStrings old out\<rparr>))
     else
       (let out0 = dedup_from [] old; added = dedup_from (rev out0) (nl_values l); out = out0 @ added in
        (out, \<lparr>te_key = key, te_action = TraceAdd, te_old = [], te_new = [], te_old_list = old, te_new_list = out,
          te_added = added, te_removed = []\<rparr>)))"

section \<open>One layer\<close>

text \<open>The writes of a layer, in the order of the code; a duration is printed by the argument.\<close>

definition when_set :: "bool \<Rightarrow> (trace_acc \<Rightarrow> trace_acc \<times> trace_event) \<Rightarrow> trace_acc \<times> trace_event list
    \<Rightarrow> trace_acc \<times> trace_event list" where
  "when_set b w st = (case st of (a, ev) \<Rightarrow> if b then (case w a of (a1, e) \<Rightarrow> (a1, ev @ [e])) else (a, ev))"

definition trace_writes :: "(duration \<Rightarrow> string) \<Rightarrow> kube_config \<Rightarrow> (string \<times> (trace_acc \<Rightarrow> trace_acc \<times> trace_event)) list" where
  "trace_writes dt c =
    [(''scheme'', \<lambda>a. (a\<lparr>ta_scheme := Some (kc_scheme c)\<rparr>, set_scalar id ''scheme'' (kc_scheme c) (ta_scheme a))),
     (''path'', \<lambda>a. (a\<lparr>ta_path := Some (kc_path c)\<rparr>, set_scalar id ''path'' (kc_path c) (ta_path a))),
     (''httpMethod'', \<lambda>a. (a\<lparr>ta_http_method := Some (kc_http_method c)\<rparr>,
        set_scalar id ''httpMethod'' (kc_http_method c) (ta_http_method a))),
     (''proxy'', \<lambda>a. (a\<lparr>ta_proxy := Some (kc_proxy c)\<rparr>, set_scalar id ''proxy'' (kc_proxy c) (ta_proxy a))),
     (''slack'', \<lambda>a. (a\<lparr>ta_slack := Some (kc_slack c)\<rparr>, set_scalar id ''slack'' (kc_slack c) (ta_slack a))),
     (''interval'', \<lambda>a. (a\<lparr>ta_interval := Some (kc_interval c)\<rparr>, set_scalar dt ''interval'' (kc_interval c) (ta_interval a))),
     (''timeout'', \<lambda>a. (a\<lparr>ta_timeout := Some (kc_timeout c)\<rparr>, set_scalar dt ''timeout'' (kc_timeout c) (ta_timeout a))),
     (''retryBackoff'', \<lambda>a. (a\<lparr>ta_retry_backoff := Some (kc_retry_backoff c)\<rparr>,
        set_scalar dt ''retryBackoff'' (kc_retry_backoff c) (ta_retry_backoff a))),
     (''reminderInterval'', \<lambda>a. (a\<lparr>ta_reminder := Some (kc_reminder c)\<rparr>,
        set_scalar dt ''reminderInterval'' (kc_reminder c) (ta_reminder a))),
     (''sslAlertThreshold'', \<lambda>a. (a\<lparr>ta_ssl_alert := Some (kc_ssl_alert c)\<rparr>,
        set_scalar dt ''sslAlertThreshold'' (kc_ssl_alert c) (ta_ssl_alert a))),
     (''sslEscalationThreshold'', \<lambda>a. (a\<lparr>ta_ssl_escalation := Some (kc_ssl_escalation c)\<rparr>,
        set_scalar dt ''sslEscalationThreshold'' (kc_ssl_escalation c) (ta_ssl_escalation a))),
     (''sslReminderInterval'', \<lambda>a. (a\<lparr>ta_ssl_reminder := Some (kc_ssl_reminder c)\<rparr>,
        set_scalar dt ''sslReminderInterval'' (kc_ssl_reminder c) (ta_ssl_reminder a))),
     (''retries'', \<lambda>a. (a\<lparr>ta_retries := Some (kc_retries c)\<rparr>, set_scalar itoa ''retries'' (kc_retries c) (ta_retries a))),
     (''followRedirects'', \<lambda>a. (a\<lparr>ta_follow_redirects := Some (kc_follow_redirects c)\<rparr>,
        set_scalar formatBool ''followRedirects'' (kc_follow_redirects c) (ta_follow_redirects a))),
     (''tlsInsecureSkipVerify'', \<lambda>a. (a\<lparr>ta_insecure := Some (kc_insecure c)\<rparr>,
        set_scalar formatBool ''tlsInsecureSkipVerify'' (kc_insecure c) (ta_insecure a))),
     (''acceptedStatusCodes'', \<lambda>a. (a\<lparr>ta_accepted := Some (kc_accepted c)\<rparr>,
        \<lparr>te_key = ''acceptedStatusCodes'', te_action = (if ta_accepted a = None then TraceSet else TraceReplace),
          te_old = [], te_new = [], te_old_list = map itoa (case ta_accepted a of None \<Rightarrow> [] | Some l \<Rightarrow> l),
          te_new_list = map itoa (kc_accepted c), te_added = [], te_removed = []\<rparr>)),
     (''notify'', \<lambda>a. (case applyList ''notify'' (kc_notify c) (ta_notify a) of (l, e) \<Rightarrow> (a\<lparr>ta_notify := l\<rparr>, e))),
     (''tags'', \<lambda>a. (case applyList ''tags'' (kc_tags c) (ta_tags a) of (l, e) \<Rightarrow> (a\<lparr>ta_tags := l\<rparr>, e))),
     (''dependsOn'', \<lambda>a. (case applyList ''dependsOn'' (kc_depends_on c) (ta_depends_on a) of (l, e) \<Rightarrow> (a\<lparr>ta_depends_on := l\<rparr>, e)))]"

definition trace_ignore :: "bool \<Rightarrow> trace_acc \<Rightarrow> trace_acc \<times> trace_event" where
  "trace_ignore ig a = (a\<lparr>ta_ignore := Some ig\<rparr>, (case ta_ignore a of
     None \<Rightarrow> scalar_event ''ignore'' TraceSet [] (formatBool ig)
   | Some old \<Rightarrow> scalar_event ''ignore'' TraceReplace (formatBool old) (formatBool ig)))"

definition applyConfig :: "(duration \<Rightarrow> string) \<Rightarrow> kube_config \<Rightarrow> bool option \<Rightarrow> trace_acc \<Rightarrow> trace_acc \<times> trace_event list" where
  "applyConfig dt c ig a =
    (case fold (\<lambda>(f, w). when_set (IsSet c f) w) (trace_writes dt c) (a, []) of st \<Rightarrow>
       (case ig of None \<Rightarrow> st | Some b \<Rightarrow> when_set True (trace_ignore b) st))"

section \<open>The traced walk\<close>

record traced_walk =
  tw_walk :: kube_walk
  tw_traces :: "rule_trace list"
  tw_acc :: trace_acc

definition t_push :: "(duration \<Rightarrow> string) \<Rightarrow> ingress \<Rightarrow> kube_env \<Rightarrow> string \<Rightarrow> kube_rule \<Rightarrow> traced_walk \<Rightarrow> traced_walk" where
  "t_push dt ing env label r t =
    (let w = tw_walk t; summary = k_selectorSummary (kr_when r) in
     case k_apply (ig_annotations ing) env label (kr_config r) (kt_log w) of (effective, lg) \<Rightarrow>
       (case applyConfig dt effective (kr_ignore r) (tw_acc t) of (acc, ev) \<Rightarrow>
          \<lparr>tw_walk = \<lparr>kt_stack = kt_stack w @ [\<lparr>ks_cfg = effective, ks_ignore = kr_ignore r\<rparr>],
             kt_chain = kt_chain w @ [label @ summary @ (if kr_final r then '' [final]'' else [])], kt_log = lg\<rparr>,
           tw_traces = tw_traces t @ [\<lparr>rt_label = label, rt_when = summary, rt_final = kr_final r, rt_events = ev\<rparr>],
           tw_acc = acc\<rparr>))"

fun visitRuleTraced :: "(duration \<Rightarrow> string) \<Rightarrow> matchers \<Rightarrow> ingress \<Rightarrow> string \<Rightarrow> kube_env \<Rightarrow> string \<Rightarrow> kube_rule
    \<Rightarrow> traced_walk \<Rightarrow> traced_walk \<times> bool"
  and visitRulesTraced :: "(duration \<Rightarrow> string) \<Rightarrow> matchers \<Rightarrow> ingress \<Rightarrow> string \<Rightarrow> kube_env \<Rightarrow> string \<Rightarrow> nat \<Rightarrow> kube_rule list
    \<Rightarrow> traced_walk \<Rightarrow> traced_walk \<times> bool" where
  "visitRuleTraced dt mt ing host env label (KubeRule w ig fin cfg nested) t =
    (if \<not> k_whenMatches mt w ing host (ke_namespace_annotations env) then (t, False)
     else (case visitRulesTraced dt mt ing host env (label @ ''.nested'') 0 nested
              (t_push dt ing env label (KubeRule w ig fin cfg nested) t) of
         (t1, halted) \<Rightarrow> (t1, halted \<or> fin)))"
| "visitRulesTraced dt mt ing host env label i [] t = (t, False)"
| "visitRulesTraced dt mt ing host env label i (r # rs) t =
    (case visitRuleTraced dt mt ing host env (k_indexed label i) r t of
       (t1, halted) \<Rightarrow> if halted then (t1, True) else visitRulesTraced dt mt ing host env label (Suc i) rs t1)"

definition walkRulesTraced :: "(duration \<Rightarrow> string) \<Rightarrow> matchers \<Rightarrow> ingress \<Rightarrow> string \<Rightarrow> kube_env \<Rightarrow> kube_rule list \<Rightarrow> traced_walk" where
  "walkRulesTraced dt mt ing host env rules = fst (visitRulesTraced dt mt ing host env ''match'' 0 rules
     \<lparr>tw_walk = empty_walk, tw_traces = [], tw_acc = newTraceAccumulator\<rparr>)"

definition ResolveWithTrace :: "(duration \<Rightarrow> string) \<Rightarrow> matchers \<Rightarrow> kube_rule list \<Rightarrow> ingress \<Rightarrow> string \<Rightarrow> kube_env
    \<Rightarrow> resolution \<times> rule_trace list" where
  "ResolveWithTrace dt mt rules ing host env =
    (let t = walkRulesTraced dt mt ing host env rules; w = tw_walk t;
         out = \<lparr>re_config = zero_kube_config, re_chain = kt_chain w, re_provenance = kl_provenance (kt_log w),
           re_warnings = kl_warnings (kt_log w), re_ignored = False, re_matched = False,
           re_wildcard = False, re_err = None\<rparr> in
     if kt_stack w = [] then (out, tw_traces t)
     else (re_classify host (out\<lparr>re_matched := True, re_ignored := stack_ignored (kt_stack w),
         re_config := k_resolveStack (kt_stack w)\<rparr>), tw_traces t))"

section \<open>The discovery page\<close>

record detail_view =
  dv_outcome :: string
  dv_trace :: "rule_trace list"
  dv_resolved :: "kube_config option"
  dv_slug :: string
  dv_invalid_error :: string
  dv_invalid_field :: string
  dv_wildcard :: bool
  dv_provenance :: "kube_provenance list"
  dv_warnings :: "kube_warning list"

definition invalidFieldFromError :: "string \<Rightarrow> string" where
  "invalidFieldFromError msg = (case find (\<lambda>key. has_prefix msg key)
     [''interval'', ''timeout'', ''path'', ''httpMethod'', ''acceptedStatusCodes'', ''retries'', ''retryBackoff'',
      ''reminderInterval'', ''sslAlertThreshold'', ''sslEscalationThreshold'', ''sslReminderInterval'', ''slack'']
     of None \<Rightarrow> [] | Some key \<Rightarrow> key)"

definition PopulateCascadeView :: "(duration \<Rightarrow> string) \<Rightarrow> matchers \<Rightarrow> texts \<Rightarrow> kube_rule list \<Rightarrow> ingress \<Rightarrow> string \<Rightarrow> kube_env
    \<Rightarrow> detail_view \<Rightarrow> detail_view" where
  "PopulateCascadeView dt mt tx rules ing host env view =
    (case ResolveWithTrace dt mt rules ing host env of (res, traces) \<Rightarrow>
      (let view = view\<lparr>dv_trace := traces, dv_provenance := re_provenance res, dv_warnings := re_warnings res,
             dv_wildcard := re_wildcard res\<rparr> in
       if \<not> re_matched res then view\<lparr>dv_outcome := ''no-match''\<rparr>
       else if re_ignored res then view\<lparr>dv_outcome := ''ignored'', dv_resolved := Some (re_config res)\<rparr>
       else (case re_err res of
           Some e \<Rightarrow> view\<lparr>dv_outcome := ''invalid'', dv_invalid_error := resolve_error_text tx e,
             dv_invalid_field := invalidFieldFromError (resolve_error_text tx e), dv_resolved := Some (re_config res)\<rparr>
         | None \<Rightarrow> (let view = view\<lparr>dv_outcome := ''materialized'', dv_resolved := Some (re_config res)\<rparr> in
             case SanitizeKubeDiscovered (ig_namespace ing) (ig_name ing) host of
               Inr s \<Rightarrow> view\<lparr>dv_slug := s\<rparr> | Inl _ \<Rightarrow> view))))"

definition empty_detail :: detail_view where
  "empty_detail = \<lparr>dv_outcome = ''disabled'', dv_trace = [], dv_resolved = None, dv_slug = [], dv_invalid_error = [],
     dv_invalid_field = [], dv_wildcard = False, dv_provenance = [], dv_warnings = []\<rparr>"

section \<open>The walk is the same\<close>

lemma t_push_walk: "tw_walk (t_push dt ing env label r t) = k_push ing env label r (tw_walk t)"
  by (simp add: t_push_def k_push_def Let_def split: prod.splits)

lemma visit_same_walk:
  "k_visitRule mt ing host env label r (tw_walk t) = map_prod tw_walk id (visitRuleTraced dt mt ing host env label r t)"
  "k_visitRules mt ing host env label i rs (tw_walk t) = map_prod tw_walk id (visitRulesTraced dt mt ing host env label i rs t)"
proof (induction dt mt ing host env label r t and dt mt ing host env label i rs t
    rule: visitRuleTraced_visitRulesTraced.induct)
  case (1 dt mt ing host env label w ig fin cfg nested t)
  then show ?case by (simp add: t_push_walk split_beta)
next
  case (3 dt mt ing host env label i r rs t)
  obtain t1 h where v: "visitRuleTraced dt mt ing host env (k_indexed label i) r t = (t1, h)" by fastforce
  show ?case using 3(1) 3(2) [OF v [symmetric]] by (cases h) (simp_all add: v)
qed simp

lemma same_walk: "tw_walk (walkRulesTraced dt mt ing host env rules) = k_walkRules mt ing host env rules"
  
  using visit_same_walk(2) [of mt ing host env "''match''" 0 rules "\<lparr>tw_walk = empty_walk, tw_traces = [], tw_acc = newTraceAccumulator\<rparr>" dt]
  by (simp add: walkRulesTraced_def k_walkRules_def)

lemma same_resolution: "fst (ResolveWithTrace dt mt rules ing host env) = Resolve mt rules ing host env"
  by (simp add: ResolveWithTrace_def Resolve_def Let_def same_walk)

section \<open>What the events tell\<close>

text \<open>The value of a key, as an event shows it: of a configuration, and of the accumulator.\<close>

definition trace_keys :: "string list" where
  "trace_keys = [''scheme'', ''path'', ''httpMethod'', ''proxy'', ''slack'', ''interval'', ''timeout'', ''retryBackoff'',
     ''reminderInterval'', ''sslAlertThreshold'', ''sslEscalationThreshold'', ''sslReminderInterval'', ''retries'',
     ''followRedirects'', ''tlsInsecureSkipVerify'', ''ignore'', ''acceptedStatusCodes'', ''notify'', ''tags'',
     ''dependsOn'']"

definition kube_view :: "(duration \<Rightarrow> string) \<Rightarrow> kube_config \<Rightarrow> bool \<Rightarrow> string \<Rightarrow> string \<times> string list" where
  "kube_view dt c ig k =
    (if k = ''scheme'' then (id (kc_scheme c), []) else
     if k = ''path'' then (id (kc_path c), []) else
     if k = ''httpMethod'' then (id (kc_http_method c), []) else
     if k = ''proxy'' then (id (kc_proxy c), []) else
     if k = ''slack'' then (id (kc_slack c), []) else
     if k = ''interval'' then (dt (kc_interval c), []) else
     if k = ''timeout'' then (dt (kc_timeout c), []) else
     if k = ''retryBackoff'' then (dt (kc_retry_backoff c), []) else
     if k = ''reminderInterval'' then (dt (kc_reminder c), []) else
     if k = ''sslAlertThreshold'' then (dt (kc_ssl_alert c), []) else
     if k = ''sslEscalationThreshold'' then (dt (kc_ssl_escalation c), []) else
     if k = ''sslReminderInterval'' then (dt (kc_ssl_reminder c), []) else
     if k = ''retries'' then (itoa (kc_retries c), []) else
     if k = ''followRedirects'' then (formatBool (kc_follow_redirects c), []) else
     if k = ''tlsInsecureSkipVerify'' then (formatBool (kc_insecure c), []) else
     if k = ''ignore'' then (formatBool ig, []) else
     if k = ''acceptedStatusCodes'' then ([], map itoa (kc_accepted c)) else
     if k = ''notify'' then ([], nl_values (kc_notify c)) else
     if k = ''tags'' then ([], nl_values (kc_tags c)) else
     if k = ''dependsOn'' then ([], nl_values (kc_depends_on c)) else ([], []))"

definition acc_view :: "(duration \<Rightarrow> string) \<Rightarrow> trace_acc \<Rightarrow> string \<Rightarrow> (string \<times> string list) option" where
  "acc_view dt a k =
    (if k = ''scheme'' then map_option (\<lambda>v. (id v, [])) (ta_scheme a) else
     if k = ''path'' then map_option (\<lambda>v. (id v, [])) (ta_path a) else
     if k = ''httpMethod'' then map_option (\<lambda>v. (id v, [])) (ta_http_method a) else
     if k = ''proxy'' then map_option (\<lambda>v. (id v, [])) (ta_proxy a) else
     if k = ''slack'' then map_option (\<lambda>v. (id v, [])) (ta_slack a) else
     if k = ''interval'' then map_option (\<lambda>v. (dt v, [])) (ta_interval a) else
     if k = ''timeout'' then map_option (\<lambda>v. (dt v, [])) (ta_timeout a) else
     if k = ''retryBackoff'' then map_option (\<lambda>v. (dt v, [])) (ta_retry_backoff a) else
     if k = ''reminderInterval'' then map_option (\<lambda>v. (dt v, [])) (ta_reminder a) else
     if k = ''sslAlertThreshold'' then map_option (\<lambda>v. (dt v, [])) (ta_ssl_alert a) else
     if k = ''sslEscalationThreshold'' then map_option (\<lambda>v. (dt v, [])) (ta_ssl_escalation a) else
     if k = ''sslReminderInterval'' then map_option (\<lambda>v. (dt v, [])) (ta_ssl_reminder a) else
     if k = ''retries'' then map_option (\<lambda>v. (itoa v, [])) (ta_retries a) else
     if k = ''followRedirects'' then map_option (\<lambda>v. (formatBool v, [])) (ta_follow_redirects a) else
     if k = ''tlsInsecureSkipVerify'' then map_option (\<lambda>v. (formatBool v, [])) (ta_insecure a) else
     if k = ''ignore'' then map_option (\<lambda>v. (formatBool v, [])) (ta_ignore a) else
     if k = ''acceptedStatusCodes'' then map_option (\<lambda>l. ([], map itoa l)) (ta_accepted a) else
     if k = ''notify'' then Some ([], ta_notify a) else
     if k = ''tags'' then Some ([], ta_tags a) else
     if k = ''dependsOn'' then Some ([], ta_depends_on a) else None)"

text \<open>Events that start from a value, each from where the one before it ended, and end at a value.\<close>

fun chained :: "string \<times> string list \<Rightarrow> trace_event list \<Rightarrow> string \<times> string list \<Rightarrow> bool" where
  "chained v [] u \<longleftrightarrow> v = u"
| "chained v (e # es) u \<longleftrightarrow> (te_old e, te_old_list e) = v \<and> chained (te_new e, te_new_list e) es u"

definition key_events :: "string \<Rightarrow> trace_event list \<Rightarrow> trace_event list" where
  "key_events k ev = filter (\<lambda>e. te_key e = k) ev"

definition or_zero :: "'a \<Rightarrow> 'a option \<Rightarrow> 'a" where
  "or_zero z x = (case x of None \<Rightarrow> z | Some v \<Rightarrow> v)"

lemma or_zero_simps [simp]: "or_zero z None = z" "or_zero z (Some v) = v"
  "or_zero z (if b then Some v else x) = (if b then v else or_zero z x)"
  by (simp_all add: or_zero_def)

definition tracks :: "(duration \<Rightarrow> string) \<Rightarrow> trace_acc \<Rightarrow> trace_event list \<Rightarrow> trace_acc \<Rightarrow> bool" where
  "tracks dt a ev b \<longleftrightarrow> (\<forall>k. if key_events k ev = [] then acc_view dt b k = acc_view dt a k
     else \<exists>u. acc_view dt b k = Some u \<and> chained (or_zero ([], []) (acc_view dt a k)) (key_events k ev) u)"

lemma chained_append: "chained v xs w \<Longrightarrow> chained w ys u \<Longrightarrow> chained v (xs @ ys) u"
  by (induction xs arbitrary: v) auto

lemma tracks_refl [simp]: "tracks dt a [] a"
  by (simp add: tracks_def key_events_def)

lemma tracks_append: "tracks dt a xs b \<Longrightarrow> tracks dt b ys c \<Longrightarrow> tracks dt a (xs @ ys) c"
  unfolding tracks_def
proof (intro allI)
  fix k
  assume x: "\<forall>k. if key_events k xs = [] then acc_view dt b k = acc_view dt a k
      else \<exists>u. acc_view dt b k = Some u \<and> chained (or_zero ([], []) (acc_view dt a k)) (key_events k xs) u"
    and y: "\<forall>k. if key_events k ys = [] then acc_view dt c k = acc_view dt b k
      else \<exists>u. acc_view dt c k = Some u \<and> chained (or_zero ([], []) (acc_view dt b k)) (key_events k ys) u"
  have ap: "key_events k (xs @ ys) = key_events k xs @ key_events k ys" by (simp add: key_events_def)
  show "if key_events k (xs @ ys) = [] then acc_view dt c k = acc_view dt a k
      else \<exists>u. acc_view dt c k = Some u \<and> chained (or_zero ([], []) (acc_view dt a k)) (key_events k (xs @ ys)) u"
    using x [rule_format, of k] y [rule_format, of k]
    by (cases "key_events k xs = []"; cases "key_events k ys = []") (auto simp: ap intro: chained_append)
qed

text \<open>A write moves its own key to its new value and no other key.\<close>

lemma tracks_one:
  assumes "acc_view dt b (te_key e) = Some (te_new e, te_new_list e)"
    "(te_old e, te_old_list e) = or_zero ([], []) (acc_view dt a (te_key e))"
    "\<forall>k. k \<noteq> te_key e \<longrightarrow> acc_view dt b k = acc_view dt a k"
  shows "tracks dt a [e] b"
  using assms by (auto simp: tracks_def key_events_def)

lemma set_scalar_sel [simp]: "te_key (set_scalar p k v x) = k" "te_new (set_scalar p k v x) = p v"
  "te_old_list (set_scalar p k v x) = []" "te_new_list (set_scalar p k v x) = []"
  "te_old (set_scalar p k v x) = or_zero [] (map_option p x)"
  by (simp_all add: set_scalar_def scalar_event_def split: option.splits)

lemma applyList_sel [simp]: "te_key (snd (applyList k l old)) = k" "te_old (snd (applyList k l old)) = []"
  "te_new (snd (applyList k l old)) = []" "te_old_list (snd (applyList k l old)) = old"
  "te_new_list (snd (applyList k l old)) = fst (applyList k l old)"
  by (simp_all add: applyList_def Let_def)

lemma pair_or_zero: "(or_zero [] (map_option p x), []) = or_zero ([], []) (map_option (\<lambda>v. (p v, [])) x)"
  by (cases x) simp_all

lemma writes_track: "list_all (\<lambda>(f, w). \<forall>a. tracks dt a [snd (w a)] (fst (w a))) (trace_writes dt c)"
  unfolding trace_writes_def list.pred_inject prod.case
  by (intro conjI allI; (rule tracks_one)?) (auto simp: acc_view_def pair_or_zero split_beta split: option.splits)

lemma when_set_tracks:
  assumes "tracks dt a0 ev a" "\<forall>a. tracks dt a [snd (w a)] (fst (w a))" "when_set b w (a, ev) = (a1, ev1)"
  shows "tracks dt a0 ev1 a1"
  using assms tracks_append [OF assms(1)] by (auto simp: when_set_def split_beta split: if_splits)

lemma fold_writes_track:
  assumes "list_all (\<lambda>(f, w). \<forall>a. tracks dt a [snd (w a)] (fst (w a))) ws" "tracks dt a0 ev a"
    "fold (\<lambda>(f, w). when_set (IsSet c f) w) ws (a, ev) = (a1, ev1)"
  shows "tracks dt a0 ev1 a1"
  using assms
proof (induction ws arbitrary: a ev)
  case (Cons fw ws)
  obtain f w where fw: "fw = (f, w)" by fastforce
  obtain a2 ev2 where 2: "when_set (IsSet c f) w (a, ev) = (a2, ev2)" by fastforce
  from when_set_tracks [OF Cons.prems(2) _ 2] Cons.prems(1) have "tracks dt a0 ev2 a2" by (simp add: fw)
  with Cons show ?case by (simp add: fw 2)
qed simp

lemma ignore_tracks: "tracks dt a [snd (trace_ignore b a)] (fst (trace_ignore b a))"
  by (rule tracks_one) (auto simp: trace_ignore_def scalar_event_def acc_view_def split: option.splits)

lemma applyConfig_tracks: "tracks dt a (snd (applyConfig dt c ig a)) (fst (applyConfig dt c ig a))"
proof -
  obtain a1 ev1 where 1: "fold (\<lambda>(f, w). when_set (IsSet c f) w) (trace_writes dt c) (a, []) = (a1, ev1)" by fastforce
  have "tracks dt a ev1 a1" by (rule fold_writes_track [OF writes_track tracks_refl 1])
  moreover from tracks_append [OF this ignore_tracks]
  have "tracks dt a (snd (when_set True (trace_ignore b) (a1, ev1))) (fst (when_set True (trace_ignore b) (a1, ev1)))" for b
    by (simp add: when_set_def split_beta)
  ultimately show ?thesis by (simp add: applyConfig_def 1 split: option.splits)
qed

section \<open>The accumulator is the merge\<close>

text \<open>A field of the accumulator is moved by the write of its own key.\<close>

lemma fold_writes_field:
  assumes "list_all (\<lambda>(f, w). \<forall>a. h (fst (w a)) = (if f = key then F (h a) else h a)) ws" "distinct (map fst ws)"
  shows "h (fst (fold (\<lambda>(f, w). when_set (IsSet c f) w) ws (a, ev))) =
    (if key \<in> set (map fst ws) \<and> IsSet c key then F (h a) else h a)"
  using assms
proof (induction ws arbitrary: a ev)
  case (Cons fw ws)
  obtain f w where fw: "fw = (f, w)" by fastforce
  obtain a2 ev2 where 2: "when_set (IsSet c f) w (a, ev) = (a2, ev2)" by fastforce
  then have "h a2 = (if f = key \<and> IsSet c f then F (h a) else h a)"
    using Cons.prems(1) by (auto simp: fw when_set_def split_beta split: if_splits)
  with Cons show ?case by (auto simp: fw 2)
qed simp

lemma trace_writes_distinct: "distinct (map fst (trace_writes dt c))"
  by (simp add: trace_writes_def)

lemma applyConfig_field:
  assumes "list_all (\<lambda>(f, w). \<forall>a. h (fst (w a)) = (if f = key then F (h a) else h a)) (trace_writes dt c)"
    "\<forall>b a. h (fst (trace_ignore b a)) = h a" "key \<in> set (map fst (trace_writes dt c))"
  shows "h (fst (applyConfig dt c ig a)) = (if IsSet c key then F (h a) else h a)"
proof -
  obtain a1 ev1 where 1: "fold (\<lambda>(f, w). when_set (IsSet c f) w) (trace_writes dt c) (a, []) = (a1, ev1)" by fastforce
  have "h a1 = (if IsSet c key then F (h a) else h a)"
    using fold_writes_field [OF assms(1) trace_writes_distinct, of c a "[]"] assms(3) by (simp add: 1)
  moreover have "h (fst (when_set True (trace_ignore b) (a1, ev1))) = h a1" for b
    using assms(2) by (simp add: when_set_def split_beta)
  ultimately show ?thesis by (simp add: applyConfig_def 1 split: option.splits)
qed

lemma applyConfig_fields:
  "ta_scheme (fst (applyConfig dt c ig a)) = (if IsSet c ''scheme'' then Some (kc_scheme c) else ta_scheme a)"
  "ta_path (fst (applyConfig dt c ig a)) = (if IsSet c ''path'' then Some (kc_path c) else ta_path a)"
  "ta_http_method (fst (applyConfig dt c ig a)) = (if IsSet c ''httpMethod'' then Some (kc_http_method c) else ta_http_method a)"
  "ta_proxy (fst (applyConfig dt c ig a)) = (if IsSet c ''proxy'' then Some (kc_proxy c) else ta_proxy a)"
  "ta_slack (fst (applyConfig dt c ig a)) = (if IsSet c ''slack'' then Some (kc_slack c) else ta_slack a)"
  "ta_interval (fst (applyConfig dt c ig a)) = (if IsSet c ''interval'' then Some (kc_interval c) else ta_interval a)"
  "ta_timeout (fst (applyConfig dt c ig a)) = (if IsSet c ''timeout'' then Some (kc_timeout c) else ta_timeout a)"
  "ta_retry_backoff (fst (applyConfig dt c ig a)) = (if IsSet c ''retryBackoff'' then Some (kc_retry_backoff c) else ta_retry_backoff a)"
  "ta_reminder (fst (applyConfig dt c ig a)) = (if IsSet c ''reminderInterval'' then Some (kc_reminder c) else ta_reminder a)"
  "ta_ssl_alert (fst (applyConfig dt c ig a)) = (if IsSet c ''sslAlertThreshold'' then Some (kc_ssl_alert c) else ta_ssl_alert a)"
  "ta_ssl_escalation (fst (applyConfig dt c ig a)) = (if IsSet c ''sslEscalationThreshold'' then Some (kc_ssl_escalation c) else ta_ssl_escalation a)"
  "ta_ssl_reminder (fst (applyConfig dt c ig a)) = (if IsSet c ''sslReminderInterval'' then Some (kc_ssl_reminder c) else ta_ssl_reminder a)"
  "ta_retries (fst (applyConfig dt c ig a)) = (if IsSet c ''retries'' then Some (kc_retries c) else ta_retries a)"
  "ta_follow_redirects (fst (applyConfig dt c ig a)) = (if IsSet c ''followRedirects'' then Some (kc_follow_redirects c) else ta_follow_redirects a)"
  "ta_insecure (fst (applyConfig dt c ig a)) = (if IsSet c ''tlsInsecureSkipVerify'' then Some (kc_insecure c) else ta_insecure a)"
  "ta_accepted (fst (applyConfig dt c ig a)) = (if IsSet c ''acceptedStatusCodes'' then Some (kc_accepted c) else ta_accepted a)"
  "ta_notify (fst (applyConfig dt c ig a)) = (if IsSet c ''notify'' then fst (applyList ''notify'' (kc_notify c) (ta_notify a)) else ta_notify a)"
  "ta_tags (fst (applyConfig dt c ig a)) = (if IsSet c ''tags'' then fst (applyList ''tags'' (kc_tags c) (ta_tags a)) else ta_tags a)"
  "ta_depends_on (fst (applyConfig dt c ig a)) = (if IsSet c ''dependsOn'' then fst (applyList ''dependsOn'' (kc_depends_on c) (ta_depends_on a)) else ta_depends_on a)"
  by (rule applyConfig_field; simp add: trace_writes_def trace_ignore_def split_beta)+

lemma applyConfig_ignore: "ta_ignore (fst (applyConfig dt c ig a)) = (case ig of None \<Rightarrow> ta_ignore a | Some b \<Rightarrow> Some b)"
proof -
  obtain a1 ev1 where 1: "fold (\<lambda>(f, w). when_set (IsSet c f) w) (trace_writes dt c) (a, []) = (a1, ev1)" by fastforce
  have w: "list_all (\<lambda>(f, w). \<forall>a. ta_ignore (fst (w a)) = (if f = ''ignore'' then id (ta_ignore a) else ta_ignore a)) (trace_writes dt c)"
    by (simp add: trace_writes_def split_beta)
  have "ta_ignore a1 = ta_ignore a"
    using fold_writes_field [OF w trace_writes_distinct, of c a "[]"] by (simp add: 1 split: if_splits)
  then show ?thesis by (simp add: applyConfig_def 1 when_set_def trace_ignore_def split: option.splits)
qed

definition agrees :: "trace_acc \<Rightarrow> kube_config \<Rightarrow> bool \<Rightarrow> bool" where
  "agrees a c ig \<longleftrightarrow> kc_scheme c = or_zero [] (ta_scheme a) \<and>
     kc_path c = or_zero [] (ta_path a) \<and>
     kc_http_method c = or_zero [] (ta_http_method a) \<and>
     kc_proxy c = or_zero [] (ta_proxy a) \<and>
     kc_slack c = or_zero [] (ta_slack a) \<and>
     kc_interval c = or_zero 0 (ta_interval a) \<and>
     kc_timeout c = or_zero 0 (ta_timeout a) \<and>
     kc_retry_backoff c = or_zero 0 (ta_retry_backoff a) \<and>
     kc_reminder c = or_zero 0 (ta_reminder a) \<and>
     kc_ssl_alert c = or_zero 0 (ta_ssl_alert a) \<and>
     kc_ssl_escalation c = or_zero 0 (ta_ssl_escalation a) \<and>
     kc_ssl_reminder c = or_zero 0 (ta_ssl_reminder a) \<and>
     kc_retries c = or_zero 0 (ta_retries a) \<and>
     kc_follow_redirects c = or_zero False (ta_follow_redirects a) \<and>
     kc_insecure c = or_zero False (ta_insecure a) \<and>
     ig = or_zero False (ta_ignore a) \<and> kc_accepted c = or_zero [] (ta_accepted a) \<and>
     nl_values (kc_notify c) = ta_notify a \<and>
     nl_values (kc_tags c) = ta_tags a \<and>
     nl_values (kc_depends_on c) = ta_depends_on a"

lemma applyList_merge: "distinct old \<Longrightarrow> fst (applyList key l old) = mergeStrings old (nl_values l) (nl_override l)"
  by (simp add: applyList_def mergeStrings_def Let_def dedup_from_append dedup_from_fresh)

lemma mergeStrings_distinct: "distinct (mergeStrings a b ov)"
  by (simp add: mergeStrings_def)

definition lists_distinct :: "trace_acc \<Rightarrow> bool" where
  "lists_distinct a \<longleftrightarrow> distinct (ta_notify a) \<and> distinct (ta_tags a) \<and> distinct (ta_depends_on a)"

lemma applyConfig_agrees:
  assumes "agrees a out ig0" "lists_distinct a"
  shows "agrees (fst (applyConfig dt c ig a)) (resolve_layer c out) (case ig of None \<Rightarrow> ig0 | Some b \<Rightarrow> b)"
    and "lists_distinct (fst (applyConfig dt c ig a))"
proof -
  have lists: "nl_values (kc_notify out) = ta_notify a" "nl_values (kc_tags out) = ta_tags a"
    "nl_values (kc_depends_on out) = ta_depends_on a" and "ig0 = or_zero False (ta_ignore a)"
    using assms(1) by (simp_all add: agrees_def)
  moreover from this have "(case ig of None \<Rightarrow> ig0 | Some b \<Rightarrow> b) = or_zero False (case ig of None \<Rightarrow> ta_ignore a | Some b \<Rightarrow> Some b)"
    by (simp split: option.splits)
  ultimately show "agrees (fst (applyConfig dt c ig a)) (resolve_layer c out) (case ig of None \<Rightarrow> ig0 | Some b \<Rightarrow> b)"
    using assms unfolding agrees_def
    by (simp add: applyConfig_fields applyConfig_ignore resolve_layer_def merge_if_def lists_distinct_def applyList_merge)
  show "lists_distinct (fst (applyConfig dt c ig a))"
    using assms(2) by (simp add: lists_distinct_def applyConfig_fields applyList_merge mergeStrings_distinct)
qed

section \<open>The whole trace\<close>

definition trace_inv :: "(duration \<Rightarrow> string) \<Rightarrow> traced_walk \<Rightarrow> bool" where
  "trace_inv dt t \<longleftrightarrow>
     agrees (tw_acc t) (k_resolveStack (kt_stack (tw_walk t))) (stack_ignored (kt_stack (tw_walk t))) \<and>
     lists_distinct (tw_acc t) \<and>
     tracks dt newTraceAccumulator (concat (map rt_events (tw_traces t))) (tw_acc t) \<and>
     kt_chain (tw_walk t) = map (\<lambda>r. rt_label r @ rt_when r @ (if rt_final r then '' [final]'' else [])) (tw_traces t) \<and>
     length (tw_traces t) = length (kt_stack (tw_walk t))"

lemma t_push_inv:
  assumes "trace_inv dt t"
  shows "trace_inv dt (t_push dt ing env label r t)"
proof -
  obtain cfg lg where k: "k_apply (ig_annotations ing) env label (kr_config r) (kt_log (tw_walk t)) = (cfg, lg)" by fastforce
  obtain acc ev where a: "applyConfig dt cfg (kr_ignore r) (tw_acc t) = (acc, ev)" by fastforce
  have "k_resolveStack (st @ [e]) = resolve_layer (ks_cfg e) (k_resolveStack st)"
    "stack_ignored (st @ [e]) = (case ks_ignore e of None \<Rightarrow> stack_ignored st | Some b \<Rightarrow> b)" for st e
    by (simp_all add: k_resolveStack_def stack_ignored_def split: option.splits)
  moreover have "tracks dt (tw_acc t) ev acc" using applyConfig_tracks [of dt "tw_acc t" cfg "kr_ignore r"] by (simp add: a)
  moreover from tracks_append [OF _ this] have "tracks dt newTraceAccumulator (concat (map rt_events (tw_traces t)) @ ev) acc"
    using assms by (simp add: trace_inv_def)
  ultimately show ?thesis
    using assms applyConfig_agrees [of "tw_acc t" "k_resolveStack (kt_stack (tw_walk t))" "stack_ignored (kt_stack (tw_walk t))" dt cfg "kr_ignore r"]
    by (simp add: trace_inv_def t_push_def Let_def k a)
qed

lemma visit_inv:
  "trace_inv dt t \<Longrightarrow> trace_inv dt (fst (visitRuleTraced dt mt ing host env label r t))"
  "trace_inv dt t \<Longrightarrow> trace_inv dt (fst (visitRulesTraced dt mt ing host env label i rs t))"
proof (induction dt mt ing host env label r t and dt mt ing host env label i rs t
    rule: visitRuleTraced_visitRulesTraced.induct)
  case (1 dt mt ing host env label w ig fin cfg nested t)
  then show ?case by (simp add: t_push_inv split_beta)
next
  case (3 dt mt ing host env label i r rs t)
  obtain t1 h where v: "visitRuleTraced dt mt ing host env (k_indexed label i) r t = (t1, h)" by fastforce
  with 3 show ?case by (cases h) auto
qed simp

lemma walk_inv: "trace_inv dt (walkRulesTraced dt mt ing host env rules)"
proof -
  have "trace_inv dt \<lparr>tw_walk = empty_walk, tw_traces = [], tw_acc = newTraceAccumulator\<rparr>"
    by (simp add: trace_inv_def agrees_def lists_distinct_def newTraceAccumulator_def empty_walk_def k_resolveStack_def
        stack_ignored_def zero_kube_config_def no_list_def)
  then show ?thesis unfolding walkRulesTraced_def by (rule visit_inv(2))
qed

text \<open>What the accumulator holds of a key is the value of the merge.\<close>

lemma agrees_view:
  assumes "agrees a c ig" "k \<in> set trace_keys"
  shows "case acc_view dt a k of None \<Rightarrow> kube_view dt c ig k = kube_view dt zero_kube_config False k
    | Some u \<Rightarrow> kube_view dt c ig k = u"
  using assms unfolding agrees_def trace_keys_def list.set insert_iff empty_iff
  by (elim conjE disjE) (simp_all add: acc_view_def kube_view_def zero_kube_config_def or_zero_def split: option.splits)

text \<open>C13: The explained walk is honest.  It resolves to what the walk of the reconcile pass resolves to, in every field;
  its cards are the matched rules, in the order of the rule chain; and for every key of a
  configuration and for the ignore flag, the events of that key form a chain from nothing to the resolved value,
  each starting where the one before it ended, while a key without events was left at its zero.\<close>

theorem trace_is_honest:
  shows "case ResolveWithTrace dt mt rules ing host env of (res, traces) \<Rightarrow>
    res = Resolve mt rules ing host env \<and>
    re_chain res = map (\<lambda>r. rt_label r @ rt_when r @ (if rt_final r then '' [final]'' else [])) traces \<and>
    (\<forall>k \<in> set trace_keys. let evs = key_events k (concat (map rt_events traces)) in
       if evs = [] then kube_view dt (re_config res) (re_ignored res) k = kube_view dt zero_kube_config False k
       else chained ([], []) evs (kube_view dt (re_config res) (re_ignored res) k))"
proof -
  define t where "t = walkRulesTraced dt mt ing host env rules"
  have inv: "trace_inv dt t" unfolding t_def by (rule walk_inv)
  let ?c = "k_resolveStack (kt_stack (tw_walk t))" and ?ig = "stack_ignored (kt_stack (tw_walk t))"
  have start: "or_zero ([], []) (acc_view dt newTraceAccumulator k) = ([], [])" for k
    by (simp add: acc_view_def newTraceAccumulator_def)
  have tr: "\<forall>k. if key_events k (concat (map rt_events (tw_traces t))) = [] then acc_view dt (tw_acc t) k = acc_view dt newTraceAccumulator k
      else \<exists>u. acc_view dt (tw_acc t) k = Some u \<and>
        chained (or_zero ([], []) (acc_view dt newTraceAccumulator k)) (key_events k (concat (map rt_events (tw_traces t)))) u"
    using inv unfolding trace_inv_def tracks_def by blast
  have fresh: "agrees newTraceAccumulator zero_kube_config False"
    by (simp add: agrees_def newTraceAccumulator_def zero_kube_config_def no_list_def)
  have now0: "case acc_view dt newTraceAccumulator k of None \<Rightarrow> True
      | Some u \<Rightarrow> kube_view dt zero_kube_config False k = u" if "k \<in> set trace_keys" for k
    using agrees_view [OF fresh that, of dt] by (auto split: option.splits)
  have now1: "case acc_view dt (tw_acc t) k of None \<Rightarrow> kube_view dt ?c ?ig k = kube_view dt zero_kube_config False k
      | Some u \<Rightarrow> kube_view dt ?c ?ig k = u" if "k \<in> set trace_keys" for k
    using inv agrees_view [OF _ that] by (simp add: trace_inv_def)
  have events: "if key_events k (concat (map rt_events (tw_traces t))) = [] then kube_view dt ?c ?ig k = kube_view dt zero_kube_config False k
      else chained ([], []) (key_events k (concat (map rt_events (tw_traces t)))) (kube_view dt ?c ?ig k)"
    if "k \<in> set trace_keys" for k
  proof (cases "key_events k (concat (map rt_events (tw_traces t))) = []")
    case True
    then have "acc_view dt (tw_acc t) k = acc_view dt newTraceAccumulator k"
      using tr [rule_format, of k] by simp
    then show ?thesis using True now0 [OF that] now1 [OF that] by (auto split: option.splits)
  next
    case False
    then obtain u where "acc_view dt (tw_acc t) k = Some u" "chained ([], []) (key_events k (concat (map rt_events (tw_traces t)))) u"
      using tr [rule_format, of k] by (auto simp: start)
    then show ?thesis using False now1 [OF that] by simp
  qed
  have empty: "tw_traces t = []" "kt_chain (tw_walk t) = []" if "kt_stack (tw_walk t) = []"
    using inv that by (simp_all add: trace_inv_def)
  have traces: "snd (ResolveWithTrace dt mt rules ing host env) = tw_traces t"
    by (simp add: ResolveWithTrace_def Let_def t_def)
  have sel: "re_chain (re_classify host r) = re_chain r" "re_config (re_classify host r) = re_config r"
    "re_ignored (re_classify host r) = re_ignored r" for r
    by (simp_all add: re_classify_def Let_def)
  have res: "re_chain (Resolve mt rules ing host env) = kt_chain (tw_walk t) \<and>
      re_config (Resolve mt rules ing host env) = ?c \<and> re_ignored (Resolve mt rules ing host env) = ?ig"
    by (simp add: Resolve_def Let_def t_def same_walk sel k_resolveStack_def stack_ignored_def)
  show ?thesis
    using same_resolution [of dt mt rules ing host env] traces events res inv
    by (simp add: split_beta Let_def trace_inv_def)
qed

text \<open>Two rules that match, the second under the first's path.\<close>

definition traced_rules :: "kube_rule list" where
  "traced_rules = [KubeRule any_when None False sample_kube_config
     [KubeRule any_when None False (MarkSet ''path'' (zero_kube_config\<lparr>kc_path := ''/health''\<rparr>)) []]]"

definition trace_env :: kube_env where
  "trace_env = \<lparr>ke_namespace_annotations = [], ke_user_mapping = None, ke_slack_channels = Some [''ops'']\<rparr>"

lemma trace_is_honest_witness:
  "chained ([], []) (key_events ''path'' (concat (map rt_events
     (snd (ResolveWithTrace (\<lambda>d. []) no_matchers traced_rules sample_ingress ''a'' trace_env))))) (''/health'', [])"
proof -
  obtain res traces where r: "ResolveWithTrace (\<lambda>d. []) no_matchers traced_rules sample_ingress ''a'' trace_env = (res, traces)"
    by fastforce
  have "length (key_events ''path'' (concat (map rt_events
      (snd (ResolveWithTrace (\<lambda>d. []) no_matchers traced_rules sample_ingress ''a'' trace_env))))) = 2"
    unfolding traced_rules_def trace_env_def by code_simp
  then have some: "key_events ''path'' (concat (map rt_events traces)) \<noteq> []" by (simp only: r snd_conv) force
  have path: "kc_path (re_config (Resolve no_matchers traced_rules sample_ingress ''a'' trace_env)) = ''/health''"
    unfolding traced_rules_def trace_env_def by code_simp
  have honest: "res = Resolve no_matchers traced_rules sample_ingress ''a'' trace_env \<and>
      (\<forall>k \<in> set trace_keys. let evs = key_events k (concat (map rt_events traces)) in
         if evs = [] then kube_view (\<lambda>d. []) (re_config res) (re_ignored res) k = kube_view (\<lambda>d. []) zero_kube_config False k
         else chained ([], []) evs (kube_view (\<lambda>d. []) (re_config res) (re_ignored res) k))"
    using trace_is_honest [where dt = "\<lambda>d. []" and mt = no_matchers and rules = traced_rules and ing = sample_ingress
      and host = "''a''" and env = trace_env] unfolding r prod.case by blast
  have "''path'' \<in> set trace_keys" by (simp add: trace_keys_def)
  from bspec [OF conjunct2 [OF honest] this] have "chained ([], []) (key_events ''path'' (concat (map rt_events traces)))
      (kube_view (\<lambda>d. []) (re_config res) (re_ignored res) ''path'')"
    unfolding Let_def using some by (simp only: if_False)
  moreover have "kube_view (\<lambda>d. []) (re_config res) (re_ignored res) ''path'' = (''/health'', [])"
    using path conjunct1 [OF honest] by (simp add: kube_view_def)
  ultimately show ?thesis by (simp only: r snd_conv)
qed

section \<open>The page and the pass\<close>

lemma Materialize_row:
  assumes "Materialize mt tx quoted m ing host z = (z1, Inr row)"
  shows "dr_status row = (let res = Resolve mt (mz_match m) ing host (ResolveEnv m (ig_namespace ing)) in
      if \<not> re_matched res then ''kube-invalid'' else if re_ignored res then ''kube-ignored''
      else if re_err res \<noteq> None then ''kube-invalid''
      else (case SanitizeKubeDiscovered (ig_namespace ing) (ig_name ing) host of Inl _ \<Rightarrow> ''kube-invalid''
        | Inr slug \<Rightarrow> if slug \<in> set (mz_static_slugs m) then ''kube-invalid'' else ''added''))"
    and "dr_slug row = (if dr_status row = ''added''
      then Some (projr (SanitizeKubeDiscovered (ig_namespace ing) (ig_name ing) host)) else None)"
  using assms by (auto simp: Materialize_def Let_def kube_invalid_def split: if_splits option.splits sum.splits prod.splits)



end
