(* ===== verification/User_Mapping.thy ===== *)
theory User_Mapping
  imports Go_Prelude
begin

text \<open>
  The periodic check of the user mapping against the workspace
  (\<^verbatim>\<open>internal/slack/usermapping.go\<close>).  The answers of the Web API are arguments: one per entry for
  \<^verbatim>\<open>users.info\<close>, one for \<^verbatim>\<open>usergroups.list\<close>.
\<close>

record mapping_entry =
  me_slug :: string
  me_id :: string
  me_ok :: bool
  me_reason :: string
  me_checked :: time

record mapping_state =
  um_entries :: "(string, mapping_entry) gomap"
  um_last_run :: time

record api_answers =
  aa_users_info :: "string \<Rightarrow> string + (bool \<times> string)" \<comment> \<open>by entry: a failed call, or \<^verbatim>\<open>ok\<close> and the error\<close>
  aa_usergroups :: "string + (bool \<times> string \<times> string list)"

definition New_user_mapping :: mapping_state where
  "New_user_mapping = \<lparr>um_entries = [], um_last_run = zero_time\<rparr>"

definition hasSubteamID :: "(string, string) gomap \<Rightarrow> bool" where
  "hasSubteamID mapping = list_ex (\<lambda>(s, ident). has_prefix ident ''S'') mapping"

text \<open>The subteams of the workspace, or why they are not known.\<close>

definition subteam_lookup :: "(string, string) gomap \<Rightarrow> api_answers \<Rightarrow> string + string list" where
  "subteam_lookup mapping api = (if hasSubteamID mapping then
     (case aa_usergroups api of Inl e \<Rightarrow> Inl (''transient: '' @ e)
      | Inr (ok, e, ids) \<Rightarrow> if ok then Inr ids else Inl (''slack error: '' @ e))
   else Inr [])"

definition verify_entry :: "api_answers \<Rightarrow> string + string list \<Rightarrow> time \<Rightarrow> string \<times> string \<Rightarrow> mapping_entry" where
  "verify_entry api subteams now = (\<lambda>(s, ident).
     (let entry = (\<lambda>ok reason. \<lparr>me_slug = s, me_id = ident, me_ok = ok, me_reason = reason, me_checked = now\<rparr>) in
      if has_prefix ident ''U'' then (case aa_users_info api s of
          Inl e \<Rightarrow> entry False (''transient: '' @ e)
        | Inr (ok, e) \<Rightarrow> if ok then entry True [] else entry False (''slack error: '' @ e))
      else if has_prefix ident ''S'' then (case subteams of
          Inl e \<Rightarrow> entry False e
        | Inr ids \<Rightarrow> if ident \<in> set ids then entry True [] else entry False ''subteam not found in workspace'')
      else entry False ''id does not start with U or S''))"

definition VerifyOnce :: "(string, string) gomap \<Rightarrow> string \<Rightarrow> api_answers \<Rightarrow> time \<Rightarrow> mapping_state \<Rightarrow> mapping_state" where
  "VerifyOnce mapping token api now st =
    (if mapping = [] then st\<lparr>um_last_run := now\<rparr>
     else if token = [] then st
     else (let subteams = subteam_lookup mapping api in
       \<lparr>um_entries = map (\<lambda>si. (fst si, verify_entry api subteams now si)) mapping, um_last_run = now\<rparr>))"

definition Snapshot :: "mapping_state \<Rightarrow> mapping_entry list \<times> time" where
  "Snapshot st = (map snd (um_entries st), um_last_run st)"

definition Invalid :: "mapping_state \<Rightarrow> mapping_entry list" where
  "Invalid st = filter (\<lambda>e. \<not> me_ok e) (fst (Snapshot st))"

text \<open>An entry is in order exactly when the workspace knows its id; else it has a reason.\<close>

lemma verified_entry:
  assumes "gm_get mapping s = Some ident" "gm_ok mapping" "token \<noteq> []"
  shows "case gm_get (um_entries (VerifyOnce mapping token api now st)) s of None \<Rightarrow> False | Some e \<Rightarrow>
    me_id e = ident \<and> me_checked e = now \<and> (me_ok e \<longleftrightarrow> me_reason e = []) \<and>
    (me_ok e \<longleftrightarrow> has_prefix ident ''U'' \<and> (\<exists>x. aa_users_info api s = Inr (True, x)) \<or>
       \<not> has_prefix ident ''U'' \<and> has_prefix ident ''S'' \<and> (\<exists>x ids. aa_usergroups api = Inr (True, x, ids) \<and> ident \<in> set ids))"
proof -
  have "gm_get (map (\<lambda>si. (fst si, f si)) m) s = map_option (\<lambda>v. f (s, v)) (gm_get m s)" for f :: "string \<times> string \<Rightarrow> mapping_entry" and m
    by (induction m) (auto)
  moreover have "mapping \<noteq> []" using assms(1) by (auto)
  moreover have "hasSubteamID mapping" if "has_prefix ident ''S''"
    using that assms(1,2) by (force simp: hasSubteamID_def list_ex_iff gm_get_mem)
  ultimately show ?thesis using assms
    by (auto simp: VerifyOnce_def Let_def verify_entry_def subteam_lookup_def split: sum.splits prod.splits if_splits)
qed

end
