(* ===== verification/Web.thy ===== *)
theory Web
  imports Status_Pages Kube_Trace User_Mapping
begin

text \<open>
  The handlers of the operator interface (\<^verbatim>\<open>internal/web/web.go\<close>, \<^verbatim>\<open>handler_am_alerts.go\<close>) up to the view
  they hand to a template.  A query string is a map from a key to its values; the parsing of times and
  \<^verbatim>\<open>ILIKE\<close> are arguments.
\<close>

section \<open>Requests and answers\<close>

type_synonym url_query = "(string, string list) gomap"

definition qget :: "url_query \<Rightarrow> string \<Rightarrow> string" where
  "qget q k = (case gm_get q k of Some (v # _) \<Rightarrow> v | _ \<Rightarrow> [])"

datatype 'v response = NotFound | Unavailable | View 'v

text \<open>A query of the store; a failure becomes the page for an unreachable database.\<close>

definition ask :: "(db \<Rightarrow> db \<times> (store_error + 'a)) \<Rightarrow> ('a \<Rightarrow> db \<Rightarrow> db \<times> 'v response) \<Rightarrow> db \<Rightarrow> db \<times> 'v response" where
  "ask query k d = (case query d of (d1, Inl e) \<Rightarrow> (d1, Unavailable) | (d1, Inr x) \<Rightarrow> k x d1)"

definition respond :: "'v response \<Rightarrow> db \<Rightarrow> db \<times> 'v response" where
  "respond r d = (d, r)"

record web_server =
  sv_homepage_alerts :: int
  sv_monitor_listing :: int
  sv_max_per_page :: int
  sv_pages :: "status_config list"
  sv_mapping :: "mapping_entry list option"
  sv_missing_parents :: "(string \<times> string list) list option"
  sv_annotation_issues :: "(string \<times> kube_warning) list option"
  sv_cascade :: "((string \<Rightarrow> string \<Rightarrow> ingress option) \<times> kube_rule list \<times> (string \<Rightarrow> kube_env)) option"

definition statusBySlug :: "web_server \<Rightarrow> string \<Rightarrow> status_config option" where
  "statusBySlug sv slug = find (\<lambda>c. sf_slug c = slug) (rev (sv_pages sv))"

definition positive_param :: "int \<Rightarrow> string \<Rightarrow> int" where
  "positive_param z v = (case atoi v of Some n \<Rightarrow> if 0 < n then n else z | None \<Rightarrow> z)"

definition pagination :: "web_server \<Rightarrow> url_query \<Rightarrow> int \<Rightarrow> int \<times> int" where
  "pagination sv q defPer =
    (let page = positive_param 1 (qget q ''page''); per = positive_param defPer (qget q ''per_page'');
         limit = sv_max_per_page sv in
     (page, if 0 < limit \<and> limit < per then limit else per))"

text \<open>The offset of a page, multiplied in 64 bits.\<close>

definition page_offset :: "int \<Rightarrow> int \<Rightarrow> int" where
  "page_offset page per = wrap64 ((page - 1) * per)"

definition pageCount :: "int \<Rightarrow> int \<Rightarrow> int" where
  "pageCount rows per = (if per \<le> 0 then 1 else
     (let n = rows div per + (if rows mod per \<noteq> 0 then 1 else 0) in if n = 0 then 1 else n))"

definition normalizeSortKey :: "string \<Rightarrow> string" where
  "normalizeSortKey raw = (if raw \<in> set ListSortKeys then raw else [])"

definition nonEmpty :: "string list \<Rightarrow> string list" where
  "nonEmpty vals = filter (\<lambda>v. v \<noteq> []) vals"

definition normalizeArchivedFilter :: "string \<Rightarrow> string" where
  "normalizeArchivedFilter raw = (if raw \<in> set [''active'', ''archived'', ''any''] then raw else [])"

definition normalizeAMStatus :: "string \<Rightarrow> string" where
  "normalizeAMStatus raw = (if raw \<in> set [''firing'', ''resolved''] then raw else [])"

definition validSlugForURL :: "string \<Rightarrow> bool" where
  "validSlugForURL s \<longleftrightarrow> s \<noteq> [] \<and> length s \<le> 255 \<and> list_all (\<lambda>c. c \<notin> set ''/?#'' \<and> c \<noteq> CHR 0x5C) s"

section \<open>Homepage and monitors\<close>

definition handleHomepage :: "web_server \<Rightarrow> url_query \<Rightarrow> db
    \<Rightarrow> db \<times> (homepage_stats \<times> ((string \<times> alert_event_row) list \<times> nat) \<times> int \<times> int \<times> mapping_entry list) response" where
  "handleHomepage sv q = ask HomepageStats (\<lambda>stats.
    (case pagination sv q (sv_homepage_alerts sv) of (page, per) \<Rightarrow>
      ask (ListLatestAlerts per (page_offset page per)) (\<lambda>alerts.
        respond (View (stats, alerts, page, per,
          case sv_mapping sv of None \<Rightarrow> [] | Some es \<Rightarrow> filter (\<lambda>e. \<not> me_ok e) es)))))"

definition section_param :: "url_query \<Rightarrow> int" where
  "section_param q = (if qget q ''status_page'' = [] then - 1 else
     (case atoi (qget q ''section'') of Some n \<Rightarrow> if 0 \<le> n then n else - 1 | None \<Rightarrow> - 1))"

definition listing_opts :: "web_server \<Rightarrow> url_query \<Rightarrow> string list \<Rightarrow> list_opts" where
  "listing_opts sv q slugs = (case pagination sv q (sv_monitor_listing sv) of (page, per) \<Rightarrow>
     \<lparr>lo_search = qget q ''q'', lo_status = qget q ''status'', lo_ssl = qget q ''ssl'', lo_slugs = slugs,
      lo_tags = nonEmpty (case gm_get q ''tag'' of None \<Rightarrow> [] | Some ts \<Rightarrow> ts),
      lo_archived = normalizeArchivedFilter (qget q ''archived''), lo_sort = normalizeSortKey (qget q ''sort''),
      lo_desc = (qget q ''dir'' = ''desc''), lo_offset = page_offset page per, lo_limit = per\<rparr>)"

definition handleMonitorsListing :: "(string \<Rightarrow> string \<Rightarrow> bool) \<Rightarrow> web_server \<Rightarrow> url_query \<Rightarrow> db
    \<Rightarrow> db \<times> ((monitor_row list \<times> nat) \<times> string list) response" where
  "handleMonitorsListing il sv q = ask DistinctTags (\<lambda>tags.
    (let page_slug = qget q ''status_page'';
         listing = (\<lambda>slugs. ask (ListMonitors il (listing_opts sv q slugs)) (\<lambda>l. respond (View (l, tags)))) in
     if page_slug = [] then listing []
     else (case statusBySlug sv page_slug of None \<Rightarrow> respond NotFound
       | Some cfg \<Rightarrow> ask ListActiveMonitors (\<lambda>active.
           (let slugs = collectMonitorSlugsForPage cfg active (section_param q) in
            if slugs = [] then respond (View (([], 0), tags)) else listing slugs)))))"

record monitor_view =
  mw_monitor :: monitor_row
  mw_gating :: "string list"
  mw_history :: "alert_event_row list"
  mw_appears_on :: "string list"
  mw_discovered_from :: "snapshot_key option"

fun gating_parents :: "string list \<Rightarrow> db \<Rightarrow> db \<times> string list" where
  "gating_parents [] d = (d, [])"
| "gating_parents (p # ps) d = (case GetMonitor p d of (d1, r) \<Rightarrow>
     (case gating_parents ps d1 of (d2, gs) \<Rightarrow>
        (d2, (case r of Inr m \<Rightarrow> if mr_status m = StatusDown then [p] else [] | Inl _ \<Rightarrow> []) @ gs)))"

definition gating_of :: "monitor_row \<Rightarrow> db \<Rightarrow> db \<times> string list" where
  "gating_of m d = (if mr_status m = StatusTemporaryPaused then gating_parents (ms_depends_on m) d else (d, []))"

definition appears_on :: "web_server \<Rightarrow> monitor_row \<Rightarrow> string list" where
  "appears_on sv m = (if mr_archived m then []
     else map sf_slug (filter (\<lambda>c. PageMatches c (ms_tags m) (monitorHost (ms_url m))) (sv_pages sv)))"

definition discovered_from :: "string \<Rightarrow> monitor_row \<Rightarrow> db \<Rightarrow> db \<times> snapshot_key option" where
  "discovered_from slug m d = (if ms_source m = ''kube'' then
     (case FindDiscoveryByMonitorSlug slug d of (d1, Inr (key, row)) \<Rightarrow> (d1, Some key) | (d1, Inl _) \<Rightarrow> (d1, None))
   else (d, None))"

definition handleMonitorDetail :: "web_server \<Rightarrow> string \<Rightarrow> db \<Rightarrow> db \<times> monitor_view response" where
  "handleMonitorDetail sv slug d =
    (if \<not> validSlugForURL slug then (d, NotFound)
     else (case GetMonitor slug d of
       (d1, Inl e) \<Rightarrow> (d1, if e = ErrNotFound then NotFound else Unavailable)
     | (d1, Inr m) \<Rightarrow>
        (case gating_of m d1 of (d2, gating) \<Rightarrow>
          ask (ListAlertsForMonitor slug 50) (\<lambda>history d3. case discovered_from slug m d3 of (d4, origin) \<Rightarrow>
            (d4, View \<lparr>mw_monitor = m, mw_gating = gating, mw_history = history, mw_appears_on = appears_on sv m,
              mw_discovered_from = origin\<rparr>)) d2)))"

section \<open>Status pages\<close>

definition handleStatusIndex :: "web_server \<Rightarrow> db \<Rightarrow> db \<times> page_stats list response" where
  "handleStatusIndex sv d = (if sv_pages sv = [] then (d, View [])
     else ask ListActiveMonitors (\<lambda>ms d1. (d1, View (computeStatusPageStats (db_now d1) (sv_pages sv) ms))) d)"

definition handleStatusBySlug :: "(string \<Rightarrow> string option) \<Rightarrow> web_server \<Rightarrow> string \<Rightarrow> db
    \<Rightarrow> db \<times> ((string \<times> monitor_row list) list \<times> page_stats) response" where
  "handleStatusBySlug url_host sv slug d =
    (if \<not> validSlugForURL slug then (d, NotFound)
     else (case statusBySlug sv slug of None \<Rightarrow> (d, NotFound)
       | Some cfg \<Rightarrow> ask ListActiveMonitors (\<lambda>ms d1.
           (d1, View (BuildStatusSections url_host cfg ms, statsForPage (db_now d1) cfg ms))) d))"

section \<open>Issues\<close>

record issues_view =
  iw_mapping :: "mapping_entry list"
  iw_invalid :: "(snapshot_key \<times> discovery_row) list"
  iw_ignored :: "(snapshot_key \<times> discovery_row) list"
  iw_ignored_total :: nat
  iw_missing :: "(string \<times> string list) list"
  iw_annotations :: "(string \<times> kube_warning) list"

definition or_empty :: "'a list option \<Rightarrow> 'a list" where
  "or_empty x = (case x of None \<Rightarrow> [] | Some l \<Rightarrow> l)"

definition handleIssues :: "web_server \<Rightarrow> db \<Rightarrow> db \<times> issues_view response" where
  "handleIssues sv = ask ListDiscoverySnapshot (\<lambda>rows.
    (let ignored = filter (\<lambda>(k, r). ds_status r = ''kube-ignored'') rows in
     respond (View \<lparr>iw_mapping = filter (\<lambda>e. \<not> me_ok e) (or_empty (sv_mapping sv)),
       iw_invalid = filter (\<lambda>(k, r). ds_status r = ''kube-invalid'') rows,
       iw_ignored = take 10 ignored, iw_ignored_total = length ignored,
       iw_missing = or_empty (sv_missing_parents sv), iw_annotations = or_empty (sv_annotation_issues sv)\<rparr>)))"

definition issueCount :: "web_server \<Rightarrow> db \<Rightarrow> db \<times> nat" where
  "issueCount sv d = (case CountKubeInvalid d of (d1, r) \<Rightarrow>
     (d1, length (filter (\<lambda>e. \<not> me_ok e) (or_empty (sv_mapping sv))) +
       (case r of Inr n \<Rightarrow> n | Inl _ \<Rightarrow> 0) + length (or_empty (sv_missing_parents sv)) +
       length (or_empty (sv_annotation_issues sv))))"

definition NavSection :: "string \<Rightarrow> string" where
  "NavSection path =
    (if path = ''/'' then ''/''
     else if has_prefix path ''/monitors'' \<or> has_prefix path ''/monitor/'' then ''/monitors''
     else if has_prefix path ''/status'' then ''/status''
     else if has_prefix path ''/discovery'' then ''/discovery''
     else if has_prefix path ''/alerts'' \<or> has_prefix path ''/alert/'' then ''/alerts''
     else if has_prefix path ''/issues'' then ''/issues'' else [])"

definition navWrap :: "web_server \<Rightarrow> string \<Rightarrow> (db \<Rightarrow> db \<times> 'v response) \<Rightarrow> db \<Rightarrow> db \<times> (nat \<times> string) \<times> 'v response" where
  "navWrap sv path h d = (case issueCount sv d of (d1, n) \<Rightarrow>
     (case h d1 of (d2, r) \<Rightarrow> (d2, (n, NavSection path), r)))"

section \<open>Discovery\<close>

definition matchNamespaceGlob :: "matchers \<Rightarrow> string \<Rightarrow> string \<Rightarrow> bool" where
  "matchNamespaceGlob mt pattern v =
    (pattern = v \<or> (case mt_glob mt pattern v of None \<Rightarrow> False | Some ok \<Rightarrow> ok))"

definition filterDiscoveryRows :: "matchers \<Rightarrow> string \<Rightarrow> string \<Rightarrow> (snapshot_key \<times> discovery_row) list
    \<Rightarrow> (snapshot_key \<times> discovery_row) list" where
  "filterDiscoveryRows mt ns status rows = (if ns = [] \<and> status = [] then rows
     else filter (\<lambda>(k, r). (status = [] \<or> ds_status r = status) \<and> (ns = [] \<or> matchNamespaceGlob mt ns (fst k))) rows)"

definition handleDiscoveryListing :: "matchers \<Rightarrow> web_server \<Rightarrow> url_query \<Rightarrow> db
    \<Rightarrow> db \<times> (snapshot_key \<times> discovery_row) list response" where
  "handleDiscoveryListing mt sv q = ask ListDiscoverySnapshot (\<lambda>rows.
     respond (View (filterDiscoveryRows mt (TrimSpace (qget q ''ns'')) (TrimSpace (qget q ''status'')) rows)))"

definition handleDiscoveryDetail :: "(duration \<Rightarrow> string) \<Rightarrow> matchers \<Rightarrow> texts \<Rightarrow> web_server \<Rightarrow> snapshot_key \<Rightarrow> db
    \<Rightarrow> db \<times> ((snapshot_key \<times> discovery_row) \<times> detail_view) response" where
  "handleDiscoveryDetail dt mt tx sv key = ask ListDiscoverySnapshot (\<lambda>rows.
    (case find (\<lambda>(k, r). k = key) rows of None \<Rightarrow> respond NotFound
     | Some row \<Rightarrow> (case key of (ns, name, host) \<Rightarrow>
         respond (View (row, case sv_cascade sv of None \<Rightarrow> empty_detail
           | Some (get, rules, env) \<Rightarrow> (case get ns name of None \<Rightarrow> empty_detail\<lparr>dv_outcome := ''stale''\<rparr>
               | Some ing \<Rightarrow> PopulateCascadeView dt mt tx rules ing host (env ns) empty_detail))))))"

section \<open>Alertmanager incidents\<close>

record am_row =
  ar_incident :: am_incident
  ar_severity :: string
  ar_status :: string
  ar_key_labels :: "(string \<times> string) list"

definition keyLabelOrder :: "string list" where
  "keyLabelOrder = [''namespace'', ''instance'', ''service'', ''job'', ''cluster'', ''pod'']"

definition ToAMIncidentRow :: "am_incident \<Rightarrow> am_row" where
  "ToAMIncidentRow inc = \<lparr>ar_incident = inc, ar_severity = gm_get0 [] (am_labels inc) ''severity'',
     ar_status = (if am_ended_at inc = None then ''firing'' else ''resolved''),
     ar_key_labels = take 3 (List.map_filter (\<lambda>k. case gm_get (am_labels inc) k of
       Some v \<Rightarrow> if v = [] then None else Some (k, v) | None \<Rightarrow> None) keyLabelOrder)\<rparr>"

record am_listing_view =
  al_incidents :: "am_row list"
  al_page :: int
  al_per_page :: int
  al_has_next :: bool
  al_empty :: bool

definition am_raw_filter :: "(string \<Rightarrow> time option) \<Rightarrow> url_query \<Rightarrow> am_filter" where
  "am_raw_filter parse q = \<lparr>af_status = normalizeAMStatus (qget q ''status''), af_severity = TrimSpace (qget q ''severity''),
     af_alertname = TrimSpace (qget q ''alertname''), af_channel = TrimSpace (qget q ''channel''),
     af_receiver = TrimSpace (qget q ''receiver''),
     af_from = (let v = TrimSpace (qget q ''from'') in if v = [] then None else parse v),
     af_to = (let v = TrimSpace (qget q ''to'') in if v = [] then None else parse v), af_limit = 0, af_offset = 0\<rparr>"

definition am_filter_is_empty :: "url_query \<Rightarrow> bool" where
  "am_filter_is_empty q \<longleftrightarrow> normalizeAMStatus (qget q ''status'') = [] \<and>
     list_all (\<lambda>k. TrimSpace (qget q k) = []) [''severity'', ''alertname'', ''channel'', ''receiver'', ''from'', ''to'']"

definition any_incident :: am_filter where
  "any_incident = \<lparr>af_status = [], af_severity = [], af_alertname = [], af_channel = [], af_receiver = [], af_from = None,
     af_to = None, af_limit = 1, af_offset = 0\<rparr>"

definition handleAMAlertsListing :: "(string \<Rightarrow> time option) \<Rightarrow> web_server \<Rightarrow> url_query \<Rightarrow> db \<Rightarrow> db \<times> am_listing_view response" where
  "handleAMAlertsListing parse sv q =
    (case pagination sv q 50 of (page, per) \<Rightarrow>
      ask (ListAMIncidents ((am_raw_filter parse q)\<lparr>af_limit := wrap64 (per + 1), af_offset := page_offset page per\<rparr>)) (\<lambda>rows.
        (let hasNext = per < int (length rows);
             shown = (if hasNext then take (nat per) rows else rows);
             view = \<lparr>al_incidents = map ToAMIncidentRow shown, al_page = page, al_per_page = per, al_has_next = hasNext,
               al_empty = False\<rparr> in
         if shown \<noteq> [] then respond (View view)
         else if am_filter_is_empty q \<and> page = 1 then respond (View (view\<lparr>al_empty := True\<rparr>))
         else ask (ListAMIncidents any_incident) (\<lambda>some. respond (View (view\<lparr>al_empty := (some = [])\<rparr>))))))"

record am_detail_view =
  ad_incident :: am_row
  ad_duration :: duration
  ad_history :: "am_row list"
  ad_payload :: string

definition incident_duration :: "am_incident \<Rightarrow> time \<Rightarrow> duration" where
  "incident_duration inc now = max 0 (time_sub (case am_ended_at inc of Some t \<Rightarrow> t | None \<Rightarrow> now) (am_started_at inc))"

definition handleAMAlertDetail :: "(string \<Rightarrow> string) \<Rightarrow> string \<Rightarrow> db \<Rightarrow> db \<times> am_detail_view response" where
  "handleAMAlertDetail pretty ident d =
    (case atoi ident of None \<Rightarrow> (d, NotFound)
     | Some i \<Rightarrow> if i \<le> 0 then (d, NotFound) else
        ask (GetAMIncident (nat i)) (\<lambda>found.
          (case found of None \<Rightarrow> respond NotFound
           | Some inc \<Rightarrow> ask (ListAMIncidentsByFingerprint (am_fingerprint inc) 10) (\<lambda>rows d2.
               (case GetLatestAMEventPayload (am_id inc) d2 of (d3, r) \<Rightarrow>
                 (d3, View \<lparr>ad_incident = ToAMIncidentRow inc, ad_duration = incident_duration inc (db_now d3),
                   ad_history = map ToAMIncidentRow (filter (\<lambda>h. am_id h \<noteq> am_id inc) rows),
                   ad_payload = (case r of Inr p \<Rightarrow> pretty p | Inl _ \<Rightarrow> [])\<rparr>))))) d)"

end
