(* ===== verification/Web_Claims.thy ===== *)
theory Web_Claims
  imports Web
begin

text \<open>
  What the pages promise: they never write; the pages of a listing make up the listing; archived
  monitors are shown to those who ask for them; the badge counts what the page of issues lists.
\<close>

section \<open>Pages never write\<close>

definition reads_only :: "(db \<Rightarrow> db \<times> 'a) \<Rightarrow> bool" where
  "reads_only q \<longleftrightarrow> (\<forall>d. db_data (fst (q d)) = db_data d)"

lemma reads_onlyD: "reads_only q \<Longrightarrow> db_data (fst (q d)) = db_data d"
  by (simp add: reads_only_def)

lemma reads_only_call: "(\<And>d. fst (f d) = d) \<Longrightarrow> reads_only (db_call what f)"
  unfolding reads_only_def
proof
  fix d assume f: "\<And>d. fst (f d) = d"
  show "db_data (fst (db_call what f d)) = db_data d"
    by (cases rule: db_call_cases [of d what f]) (simp_all add: f)
qed

lemma reads_only_ask: "reads_only q \<Longrightarrow> (\<And>x. reads_only (k x)) \<Longrightarrow> reads_only (ask q k)"
  unfolding reads_only_def ask_def by (auto split: prod.splits sum.splits) (metis fst_conv)+

lemma reads_only_then: "reads_only q \<Longrightarrow> (\<And>x. reads_only (k x)) \<Longrightarrow> reads_only (\<lambda>d. case q d of (d1, x) \<Rightarrow> k x d1)"
  unfolding reads_only_def by (auto split: prod.splits) (metis fst_conv)

lemma reads_only_pure [simp]: "reads_only (respond r)" "reads_only (\<lambda>d. (d, f d))"
  by (simp_all add: reads_only_def respond_def)

lemma reads_only_if: "(b \<Longrightarrow> reads_only p) \<Longrightarrow> (\<not> b \<Longrightarrow> reads_only q) \<Longrightarrow> reads_only (if b then p else q)"
  by simp

lemma queries_read_only [simp]:
  "reads_only HomepageStats" "reads_only DistinctTags" "reads_only CountKubeInvalid" "reads_only ListDiscoverySnapshot"
  "reads_only (ListAlertsForMonitor slug n)" "reads_only (ListAMIncidents f)" "reads_only (ListAMIncidentsByFingerprint fp n)"
  "reads_only (GetLatestAMEventPayload i)" "reads_only (GetAMIncident i)" "reads_only (GetMonitor slug)"
  "reads_only (FindDiscoveryByMonitorSlug slug)" "reads_only CountOpenIncidents"
  unfolding HomepageStats_def DistinctTags_def CountKubeInvalid_def ListDiscoverySnapshot_def ListAlertsForMonitor_def
    ListAMIncidents_def ListAMIncidentsByFingerprint_def GetLatestAMEventPayload_def GetAMIncident_def GetMonitor_def
    FindDiscoveryByMonitorSlug_def CountOpenIncidents_def
  by (rule reads_only_call; simp)+

lemma two_statements:
  assumes "reads_only q" "\<And>x. reads_only (k x)"
  shows "reads_only (\<lambda>d. case q d of (d1, Inl e) \<Rightarrow> (d1, Inl e) | (d1, Inr x) \<Rightarrow> k x d1)"
  using assms unfolding reads_only_def by (auto split: prod.splits sum.splits) (metis fst_conv)+

lemma ListMonitors_reads_only [simp]: "reads_only (ListMonitors il op)"
  unfolding ListMonitors_def by (rule two_statements; rule reads_only_call; simp)

lemma ListLatestAlerts_reads_only [simp]: "reads_only (ListLatestAlerts n k)"
  unfolding ListLatestAlerts_def by (rule two_statements; rule reads_only_call; simp)

lemma ListActiveMonitors_reads_only [simp]: "reads_only ListActiveMonitors"
  using ListMonitors_reads_only [of "\<lambda>p s. False" no_opts] unfolding reads_only_def ListActiveMonitors_def
  by (auto split: prod.splits) (metis fst_conv)

lemma gating_parents_reads_only [simp]: "reads_only (gating_parents ps)"
proof (induction ps)
  case (Cons p ps)
  show ?case unfolding reads_only_def
  proof
    fix d
    obtain d1 r where 1: "GetMonitor p d = (d1, r)" by fastforce
    obtain d2 gs where 2: "gating_parents ps d1 = (d2, gs)" by fastforce
    have "reads_only (GetMonitor p)" by simp
    with 1 2 Cons show "db_data (fst (gating_parents (p # ps) d)) = db_data d"
      unfolding reads_only_def by (metis fst_conv gating_parents.simps(2) case_prod_conv)
  qed
qed (simp add: reads_only_def)

lemma reads_only_cond: "reads_only p \<Longrightarrow> reads_only q \<Longrightarrow> reads_only (\<lambda>d. if b then p d else q d)"
  by (cases b) simp_all

lemma listing_handler [simp]: "reads_only (handleMonitorsListing il sv q)"
  unfolding handleMonitorsListing_def Let_def
  by (intro reads_only_ask) (auto split: option.splits intro!: reads_only_ask)

lemma homepage_handler [simp]: "reads_only (handleHomepage sv q)"
  unfolding handleHomepage_def by (intro reads_only_ask) (auto split: prod.splits intro!: reads_only_ask)

lemma gating_of_reads_only: "reads_only (gating_of m)"
  using gating_parents_reads_only [of "ms_depends_on m"] by (simp add: reads_only_def gating_of_def)

lemma discovered_from_reads_only: "reads_only (discovered_from slug m)"
  using queries_read_only(11) [of slug] unfolding reads_only_def discovered_from_def
  by (auto split: prod.splits sum.splits) (metis fst_conv)+

lemma detail_handler [simp]: "reads_only (handleMonitorDetail sv slug)"
proof -
  have rest: "reads_only (\<lambda>d1. case gating_of m d1 of (d2, gating) \<Rightarrow>
      ask (ListAlertsForMonitor slug 50) (\<lambda>history d3. case discovered_from slug m d3 of (d4, origin) \<Rightarrow>
        (d4, View \<lparr>mw_monitor = m, mw_gating = gating, mw_history = history, mw_appears_on = appears_on sv m,
          mw_discovered_from = origin\<rparr>)) d2)" for m
    by (intro reads_only_then [OF gating_of_reads_only] reads_only_ask reads_only_then [OF discovered_from_reads_only]) simp_all
  have "db_data (fst (handleMonitorDetail sv slug d)) = db_data d" for d
  proof -
    obtain d1 r where g: "GetMonitor slug d = (d1, r)" by fastforce
    then have 1: "db_data d1 = db_data d" using queries_read_only(10) [of slug] unfolding reads_only_def by (metis fst_conv)
    show ?thesis
    proof (cases r)
      case (Inl e)
      then show ?thesis using 1 by (simp add: handleMonitorDetail_def g)
    next
      case (Inr m)
      then show ?thesis using 1 rest [of m, unfolded reads_only_def, rule_format, of d1] by (simp add: handleMonitorDetail_def g)
    qed
  qed
  then show ?thesis by (simp add: reads_only_def)
qed

lemma status_handlers [simp]: "reads_only (handleStatusIndex sv)" "reads_only (handleStatusBySlug url_host sv slug)"
proof -
  have ask: "reads_only (ask ListActiveMonitors (\<lambda>ms d1. (d1, f ms d1)))" for f
    by (intro reads_only_ask) simp_all
  show "reads_only (handleStatusIndex sv)"
    unfolding handleStatusIndex_def by (intro reads_only_cond) (simp_all add: ask)
  show "reads_only (handleStatusBySlug url_host sv slug)"
    unfolding handleStatusBySlug_def
    by (intro reads_only_cond; cases "statusBySlug sv slug") (simp_all add: ask)
qed

lemma issue_handlers [simp]: "reads_only (handleIssues sv)" "reads_only (issueCount sv)"
  unfolding handleIssues_def issueCount_def Let_def
  by (intro reads_only_ask reads_only_then; simp)+

lemma discovery_handlers [simp]: "reads_only (handleDiscoveryListing mt sv q)" "reads_only (handleDiscoveryDetail dt mt tx sv key)"
  unfolding handleDiscoveryListing_def handleDiscoveryDetail_def
  by (intro reads_only_ask; simp split: option.splits prod.splits)+

lemma am_listing_handler [simp]: "reads_only (handleAMAlertsListing parse sv q)"
  unfolding handleAMAlertsListing_def Let_def
  by (auto split: prod.splits intro!: reads_only_ask)

lemma am_detail_handler [simp]: "reads_only (handleAMAlertDetail pretty ident)"
proof -
  have payload: "reads_only (\<lambda>d2. case GetLatestAMEventPayload i d2 of (d3, r) \<Rightarrow> (d3, f d3 r))" for i f
    by (intro reads_only_then) simp_all
  have "reads_only (ask (GetAMIncident i) (\<lambda>found.
      (case found of None \<Rightarrow> respond NotFound
       | Some inc \<Rightarrow> ask (ListAMIncidentsByFingerprint (am_fingerprint inc) 10) (\<lambda>rows d2.
           (case GetLatestAMEventPayload (am_id inc) d2 of (d3, r) \<Rightarrow> (d3, f inc rows d3 r))))))" for i f
    by (intro reads_only_ask) (auto split: option.splits intro!: reads_only_ask payload)
  then show ?thesis unfolding handleAMAlertDetail_def
    by (cases "atoi ident") (auto intro!: reads_only_cond)
qed

text \<open>The operator interface never writes.  Whatever the request and whatever fails, every page, with the badge of the
  navigation that comes before it, leaves every table of the database as it was.\<close>

theorem pages_never_write:
  shows "db_data (fst (handleHomepage sv q d)) = db_data d \<and>
    db_data (fst (handleMonitorsListing il sv q d)) = db_data d \<and>
    db_data (fst (handleMonitorDetail sv slug d)) = db_data d \<and>
    db_data (fst (handleStatusIndex sv d)) = db_data d \<and>
    db_data (fst (handleStatusBySlug url_host sv slug d)) = db_data d \<and>
    db_data (fst (handleIssues sv d)) = db_data d \<and>
    db_data (fst (issueCount sv d)) = db_data d \<and>
    db_data (fst (handleDiscoveryListing mt sv q d)) = db_data d \<and>
    db_data (fst (handleDiscoveryDetail dt mt tx sv key d)) = db_data d \<and>
    db_data (fst (handleAMAlertsListing parse sv q d)) = db_data d \<and>
    db_data (fst (handleAMAlertDetail pretty ident d)) = db_data d"
  by (intro conjI reads_onlyD) simp_all

section \<open>Paging\<close>

lemma listing_filter_page [simp]:
  "listing_filter il now (op\<lparr>lo_limit := l, lo_offset := k\<rparr>) = listing_filter il now op"
  "listing_filter il now (op\<lparr>lo_limit := l\<rparr>) = listing_filter il now op"
  by (simp_all add: listing_filter_def fun_eq_iff)

definition shown_rows :: "db \<times> (store_error + monitor_row list \<times> nat) \<Rightarrow> monitor_row list" where
  "shown_rows r = (case snd r of Inr (rows, n) \<Rightarrow> rows | Inl _ \<Rightarrow> [])"

lemma shown_page:
  assumes "db_faults d = []" "0 < per" "0 \<le> off"
  shows "shown_rows (ListMonitors il (op\<lparr>lo_limit := per, lo_offset := off\<rparr>) d) =
    take (nat per) (drop (nat off) (order_by (sortClause (lo_sort op) (lo_desc op)) (matching_monitors il op d)))"
  using assms by (simp add: ListMonitors_def shown_rows_def limit_offset_def Let_def matching_monitors_def)

lemma page_count_covers:
  assumes "0 < per" "0 \<le> n"
  shows "n \<le> pageCount n per * per" "(pageCount n per - 1) * per \<le> n" "1 \<le> pageCount n per"
proof -
  have d: "n = n div per * per + n mod per" "0 \<le> n mod per" "n mod per < per" using assms by simp_all
  have nn: "0 \<le> n div per" using assms by (simp add: pos_imp_zdiv_nonneg_iff)
  have c: "pageCount n per = (if n mod per = 0 then max 1 (n div per) else n div per + 1)"
    using assms nn by (auto simp: pageCount_def Let_def)
  have more: "(n div per + 1) * per = n div per * per + per" by (simp add: distrib_right)
  show "1 \<le> pageCount n per" using nn by (simp add: c)
  show "n \<le> pageCount n per * per"
  proof (cases "n mod per = 0")
    case True
    have "n div per * per \<le> max 1 (n div per) * per" using assms(1) by (intro mult_right_mono) simp_all
    moreover have "pageCount n per * per = max 1 (n div per) * per" using True by (simp add: c)
    ultimately show ?thesis using True d(1) by linarith
  next
    case False
    then have "pageCount n per * per = (n div per + 1) * per" by (simp add: c)
    then show ?thesis using d more by linarith
  qed
  show "(pageCount n per - 1) * per \<le> n"
  proof (cases "n mod per = 0")
    case True
    have "(max 1 (n div per) - 1) * per \<le> n div per * per" using assms(1) nn by (intro mult_right_mono) simp_all
    moreover have "(pageCount n per - 1) * per = (max 1 (n div per) - 1) * per" using True by (simp add: c)
    ultimately show ?thesis using d(1,2) by linarith
  next
    case False
    then have "(pageCount n per - 1) * per = n div per * per" by (simp add: c)
    then show ?thesis using d(1,2) by linarith
  qed
qed

lemma page_offset_small:
  assumes "0 < per" "0 \<le> n" "n < 2 ^ 63" "int p < pageCount n per"
  shows "page_offset (int p + 1) per = int p * per"
proof -
  have "int p * per \<le> (pageCount n per - 1) * per" using assms(1,4) by (intro mult_right_mono) simp_all
  then have "int p * per < 2 ^ 63" using page_count_covers(2) [OF assms(1,2)] assms(3) by simp
  moreover have "0 \<le> int p * per" using assms(1) by simp
  ultimately show ?thesis by (simp add: page_offset_def wrap64_id min_duration_def max_duration_def)
qed

text \<open>The sort clause is total and transitive, and rows it leaves in either order have the same friendly name: where names
  are distinct it allows one order only.\<close>

lemma sorted_distinct_unique:
  assumes "\<And>x y. x \<in> set xs \<Longrightarrow> y \<in> set xs \<Longrightarrow> le x y \<Longrightarrow> le y x \<Longrightarrow> x = y"
    and "sorted_wrt le xs" "sorted_wrt le ys" "distinct xs" "distinct ys" "set xs = set ys"
  shows "xs = ys"
  using assms
proof (induction xs arbitrary: ys)
  case (Cons x xs)
  then obtain y ys1 where y: "ys = y # ys1" by (cases ys) auto
  have "x = y"
  proof (rule ccontr)
    assume "x \<noteq> y"
    then have "y \<in> set xs" "x \<in> set ys1" using Cons.prems(6) y by auto
    then show False using Cons.prems(1) [of x y] Cons.prems(2,3) y \<open>x \<noteq> y\<close> by auto
  qed
  moreover have "set xs = set ys1" using Cons.prems(4-6) y calculation by auto
  moreover have "xs = ys1" by (rule Cons.IH) (use Cons.prems y calculation in auto)
  ultimately show ?case using y by simp
qed simp

definition lawful_order :: "('a \<Rightarrow> 'a \<Rightarrow> bool) \<Rightarrow> bool" where
  "lawful_order le \<longleftrightarrow> (\<forall>x y. le x y \<or> le y x) \<and> (\<forall>x y z. le x y \<longrightarrow> le y z \<longrightarrow> le x z)"

lemma lawful_by_key: "lawful_order (by_key f desc)"
  unfolding lawful_order_def by_key_def by (auto intro: order_trans)

lemma lawful_nulls_last: "lawful_order (nulls_last f desc)"
  unfolding lawful_order_def nulls_last_def by (auto split: option.splits intro: order_trans)

lemma lawful_then_by: "lawful_order p \<Longrightarrow> lawful_order q \<Longrightarrow> lawful_order (then_by p q)"
  unfolding lawful_order_def
proof (intro conjI allI impI)
  fix x y z assume p: "(\<forall>x y. p x y \<or> p y x) \<and> (\<forall>x y z. p x y \<longrightarrow> p y z \<longrightarrow> p x z)"
    and q: "(\<forall>x y. q x y \<or> q y x) \<and> (\<forall>x y z. q x y \<longrightarrow> q y z \<longrightarrow> q x z)"
  then show "then_by p q x y \<or> then_by p q y x" unfolding then_by_def by presburger
  have p_trans: "p a b \<Longrightarrow> p b c \<Longrightarrow> p a c" for a b c using p by blast
  have q_trans: "q a b \<Longrightarrow> q b c \<Longrightarrow> q a c" for a b c using q by blast
  have tb: "then_by p q a b \<longleftrightarrow> p a b \<and> (p b a \<longrightarrow> q a b)" for a b
    using p by (auto simp: then_by_def)
  assume "then_by p q x y" "then_by p q y z"
  then show "then_by p q x z" unfolding tb using p_trans q_trans by meson
qed

lemma sortClause_lawful: "lawful_order (sortClause key desc)"
  unfolding sortClause_def Let_def by (auto intro!: lawful_then_by lawful_by_key lawful_nulls_last)

lemma sortClause_ties: "sortClause key desc x y \<Longrightarrow> sortClause key desc y x \<Longrightarrow> ms_friendly_name x = ms_friendly_name y"
  unfolding sortClause_def Let_def then_by_def by (auto split: if_splits simp: by_key_def)

lemma sortClause_unique:
  assumes "distinct (map ms_friendly_name rows)" "sorted_wrt (sortClause key desc) ys" "distinct ys" "set ys = set rows"
  shows "ys = order_by (sortClause key desc) rows"
proof (rule sorted_distinct_unique [where le = "sortClause key desc"])
  show "sorted_wrt (sortClause key desc) (order_by (sortClause key desc) rows)"
    using sortClause_lawful [of key desc] by (intro sorted_order_by) (auto simp: lawful_order_def)
  show "x = y" if "x \<in> set ys" "y \<in> set ys" "sortClause key desc x y" "sortClause key desc y x" for x y
    using that assms(1,4) sortClause_ties [OF that(3,4)] by (auto simp: distinct_map dest: inj_onD)
qed (use assms in \<open>simp_all add: distinct_map\<close>)

text \<open>C19: The numbered pages of the monitor listing make up the listing.  For any filter, sort key and page size, and monitors
  whose friendly names differ, there is one order that the sort clause allows, and the rows of pages one
  to the last that the paginator offers, in turn, are the matching rows in it, each once.\<close>

theorem listing_pages_cover:
  assumes "db_faults d = []" "0 < per" "int (length (matching_monitors il op d)) < 2 ^ 63"
    and "distinct (map ms_friendly_name (matching_monitors il op d))"
    and "distinct ys" "set ys = set (matching_monitors il op d)" "sorted_wrt (sortClause (lo_sort op) (lo_desc op)) ys"
  shows "concat (map (\<lambda>p. shown_rows (ListMonitors il (op\<lparr>lo_limit := per, lo_offset := page_offset (int p + 1) per\<rparr>) d))
      [0..<nat (pageCount (int (length (matching_monitors il op d))) per)]) = ys"
proof -
  let ?n = "int (length (matching_monitors il op d))"
  let ?rows = "order_by (sortClause (lo_sort op) (lo_desc op)) (matching_monitors il op d)"
  let ?pages = "nat (pageCount ?n per)"
  note cover = page_count_covers [OF assms(2), of ?n]
  have page: "shown_rows (ListMonitors il (op\<lparr>lo_limit := per, lo_offset := page_offset (int p + 1) per\<rparr>) d) = page_of (nat per) p ?rows"
    if "p < ?pages" for p
  proof -
    have "page_offset (int p + 1) per = int p * per" using that assms(2,3) page_offset_small [of per ?n p] by simp
    then show ?thesis using shown_page [OF assms(1,2), of "int p * per" il op] assms(2)
      by (simp add: page_of_def nat_mult_distrib)
  qed
  have "concat (map (\<lambda>p. shown_rows (ListMonitors il (op\<lparr>lo_limit := per, lo_offset := page_offset (int p + 1) per\<rparr>) d)) [0..<?pages]) =
      take (?pages * nat per) ?rows"
    unfolding pages_concat [symmetric] by (intro arg_cong [where f = concat] map_cong) (simp_all add: page)
  moreover have "length ?rows \<le> ?pages * nat per"
  proof -
    have "?n \<le> int (?pages * nat per)" using cover(1,3) assms(2) by simp
    then have "length (matching_monitors il op d) \<le> ?pages * nat per" by (simp only: of_nat_le_iff)
    then show ?thesis by simp
  qed
  ultimately show ?thesis using sortClause_unique [OF assms(4,7,5,6)] by simp
qed

text \<open>A page number so large that its offset wraps makes the listing answer that the database is unavailable.\<close>

lemma huge_page_is_unavailable:
  assumes "db_faults d = []" "qget q ''status_page'' = []" "pagination sv q (sv_monitor_listing sv) = (2 ^ 62, 3)"
  shows "snd (handleMonitorsListing il sv q d) = Unavailable"
proof -
  have "page_offset (2 ^ 62) 3 < 0" by (simp add: page_offset_def wrap64_def)
  then show ?thesis using assms
    by (simp add: handleMonitorsListing_def ask_def Let_def DistinctTags_def ListMonitors_def listing_opts_def limit_offset_def)
qed

section \<open>Archived monitors\<close>

lemma ListMonitors_rows:
  assumes "ListMonitors il op d = (d1, Inr (rows, n))" "m \<in> set rows"
  shows "\<exists>now. listing_filter il now op m"
proof -
  obtain d2 c where 1: "db_call ''count monitors'' (\<lambda>d. (d, Inr (length (matching_monitors il op d)))) d = (d2, c)" by fastforce
  show ?thesis
  proof (cases c)
    case (Inr k)
    then have "db_call ''list monitors'' (\<lambda>d. (d,
          let rows = order_by (sortClause (lo_sort op) (lo_desc op)) (matching_monitors il op d) in
          if 0 < lo_limit op then map_sum id (\<lambda>page. (page, k)) (limit_offset (lo_limit op) (lo_offset op) rows)
          else Inr (rows, k))) d2 = (d1, Inr (rows, n))"
      using assms(1) by (simp add: ListMonitors_def 1)
    then show ?thesis
    proof (cases rule: db_call_elim)
      case (runs d3)
      then have "set rows \<subseteq> set (order_by (sortClause (lo_sort op) (lo_desc op)) (matching_monitors il op d3))"
        by (auto simp: Let_def limit_offset_def split: if_splits dest!: in_set_takeD in_set_dropD)
      then show ?thesis using assms(2) by (auto simp: matching_monitors_def)
    qed simp
  qed (use assms(1) 1 in \<open>simp add: ListMonitors_def\<close>)
qed


section \<open>Alertmanager listing\<close>

lemma am_matches_page [simp]: "am_matches (f\<lparr>af_limit := l, af_offset := k\<rparr>) = am_matches f"
  by (simp add: am_matches_def fun_eq_iff)

text \<open>The next-page link of the incident listing is exact below the cap of the store.  The page shows its slice of the
  filtered incidents, newest first, and offers a next page exactly when an incident remains after it.\<close>

theorem next_link_is_exact:
  assumes "db_faults d = []" "pagination sv q 50 = (page, per)" "0 < page" "0 < per" "per < 500" "page * per < 2 ^ 63"
    and "snd (handleAMAlertsListing parse sv q d) = View v"
  shows "map ar_incident (al_incidents v) = page_of (nat per) (nat (page - 1)) (am_listing (am_raw_filter parse q) d) \<and>
    (al_has_next v \<longleftrightarrow> nat (page * per) < length (am_listing (am_raw_filter parse q) d))"
proof -
  let ?all = "am_listing (am_raw_filter parse q) d" and ?off = "nat ((page - 1) * per)"
  have "(page - 1) * per \<le> page * per" "0 \<le> (page - 1) * per" using assms(3,4) by (simp_all add: mult_right_mono)
  then have off: "page_offset page per = (page - 1) * per" "0 \<le> (page - 1) * per"
    using assms(6) by (simp_all add: page_offset_def wrap64_id min_duration_def max_duration_def)
  have lim: "am_limit (wrap64 (per + 1)) = per + 1"
    using assms(4,5) by (simp add: am_limit_def Let_def wrap64_id min_duration_def max_duration_def)
  define rows where "rows = take (nat per + 1) (drop ?off ?all)"
  have q: "ListAMIncidents ((am_raw_filter parse q)\<lparr>af_limit := wrap64 (per + 1), af_offset := page_offset page per\<rparr>) d = (d, Inr rows)"
    using assms(1,4) off lim by (simp add: ListAMIncidents_def limit_offset_def am_listing_def rows_def nat_add_distrib)
  have v: "al_has_next v \<longleftrightarrow> per < int (length rows)"
    "al_incidents v = map ToAMIncidentRow (if per < int (length rows) then take (nat per) rows else rows)"
    using assms(7) by (auto simp: handleAMAlertsListing_def assms(2) ask_def respond_def Let_def q split: if_splits prod.splits sum.splits)
  have inc: "ar_incident (ToAMIncidentRow i) = i" for i by (simp add: ToAMIncidentRow_def)
  have "(if per < int (length rows) then take (nat per) rows else rows) = take (nat per) rows" using assms(4) by auto
  then have "map ar_incident (al_incidents v) = take (nat per) rows" by (simp add: v comp_def inc)
  moreover have "take (nat per) rows = take (nat per) (drop ?off ?all)" by (simp add: rows_def)
  moreover have "?off = nat (page - 1) * nat per" using assms(3,4) by (simp add: nat_mult_distrib)
  moreover have "nat (page * per) = ?off + nat per"
    using off(2) assms(4) by (simp add: nat_add_distrib [symmetric] algebra_simps)
  moreover have "per < int (length rows) \<longleftrightarrow> ?off + nat per < length ?all" using assms(4) by (auto simp: rows_def)
  ultimately show ?thesis using v(1) by (simp add: page_of_def)
qed

text \<open>At the cap of the store the link is lost: five hundred rows fill the page, and those after them have no link.\<close>

lemma next_link_lost_at_the_cap:
  assumes "db_faults d = []" "pagination sv q 50 = (1, 500)" "snd (handleAMAlertsListing parse sv q d) = View v"
  shows "\<not> al_has_next v"
proof -
  obtain rows where q: "ListAMIncidents ((am_raw_filter parse q)\<lparr>af_limit := wrap64 (500 + 1), af_offset := page_offset 1 500\<rparr>) d = (d, Inr rows)"
    "length rows \<le> 500"
    using assms(1) by (simp add: ListAMIncidents_def limit_offset_def page_offset_def wrap64_def am_limit_def)
  then show ?thesis using assms(2,3)
    by (auto simp: handleAMAlertsListing_def ask_def respond_def Let_def split: if_splits prod.splits sum.splits)
qed

section \<open>Issues\<close>

text \<open>C36: The badge of the navigation counts what the page of issues lists: failed mapping entries, invalid discovery rows, unresolved
  parents and rejected annotations, each once.  With the database out of reach the page is unavailable and
  the badge still counts what is in memory.\<close>

theorem badge_counts_the_page:
  assumes "db_faults d = [] \<or> db_faults d = [True]"
  shows "case snd (handleIssues sv d) of
      View v \<Rightarrow> snd (issueCount sv d) = length (iw_mapping v) + length (iw_invalid v) + length (iw_missing v) + length (iw_annotations v)
    | r \<Rightarrow> r = Unavailable \<and> snd (issueCount sv d) = length (filter (\<lambda>e. \<not> me_ok e) (or_empty (sv_mapping sv))) +
        length (or_empty (sv_missing_parents sv)) + length (or_empty (sv_annotation_issues sv))"
proof -
  have len: "length (filter P (order_by le xs)) = length (filter P xs)" for P le and xs :: "(snapshot_key \<times> discovery_row) list"
  proof -
    have ins: "length (filter P (insert_by le x ys)) = length (filter P (x # ys))" for x ys by (induction ys) auto
    show ?thesis by (induction xs) (simp_all add: order_by_def ins)
  qed
  from assms show ?thesis
    by (auto simp: handleIssues_def issueCount_def ask_def respond_def Let_def CountKubeInvalid_def ListDiscoverySnapshot_def
        db_call_def len)
qed

section \<open>Concrete pages\<close>

definition two_monitors :: db where
  "two_monitors = fst (ReconcileMonitor ((sample_spec ''b'')\<lparr>ms_friendly_name := ''Zone''\<rparr>)
     (fst (ReconcileMonitor (sample_spec ''a'') (empty_db 0))))"

definition plain_server :: web_server where
  "plain_server = \<lparr>sv_homepage_alerts = 20, sv_monitor_listing = 3, sv_max_per_page = 0, sv_pages = [], sv_mapping = None,
     sv_missing_parents = Some [(''a'', [''b''])], sv_annotation_issues = None, sv_cascade = None\<rparr>"

lemma listing_pages_cover_witness:
  "concat (map (\<lambda>p. shown_rows (ListMonitors (\<lambda>p s. False) (no_opts\<lparr>lo_limit := 1, lo_offset := page_offset (int p + 1) 1\<rparr>) two_monitors))
      [0..<nat (pageCount 2 1)]) = monitor_rows two_monitors"
proof -
  have d: "db_faults two_monitors = []" by code_simp
  have m: "matching_monitors (\<lambda>p s. False) no_opts two_monitors = monitor_rows two_monitors" by code_simp
  have l: "length (monitor_rows two_monitors) = 2" by code_simp
  have n: "distinct (map ms_friendly_name (monitor_rows two_monitors))" by code_simp
  have o': "sorted_wrt (sortClause (lo_sort no_opts) (lo_desc no_opts)) (monitor_rows two_monitors)" by code_simp
  have dr: "distinct (monitor_rows two_monitors)" using n unfolding distinct_map by (rule conjunct1)
  show ?thesis
    by (rule listing_pages_cover [where d = two_monitors and per = 1 and il = "\<lambda>p s. False" and op = no_opts and
          ys = "monitor_rows two_monitors", unfolded m l of_nat_numeral])
      (fact d | fact n | fact dr | fact o' | rule refl | simp)+
qed

text \<open>One of the two archived.\<close>

definition archived_db :: db where
  "archived_db = two_monitors\<lparr>db_monitors :=
     map (\<lambda>(k, c). (k, c\<lparr>mr_archived := (k = ''a'')\<rparr>)) (db_monitors two_monitors)\<rparr>"


definition two_incidents :: db where
  "two_incidents = (empty_db 9)\<lparr>db_am_alerts := map (\<lambda>i. \<lparr>am_id = i, am_fingerprint = ''f'', am_alertname = ''Disk'', am_labels = [],
     am_annotations = [], am_started_at = int i, am_ended_at = Some 8, am_channel_slug = ''ops'', am_slack_channel = [],
     am_slack_ts = [], am_rule_chain = [], am_resolved_notify = [], am_external_url = [], am_receiver = []\<rparr>) [1, 2]\<rparr>"

lemma next_link_is_exact_witness:
  "\<exists>v. snd (handleAMAlertsListing (\<lambda>t. None) plain_server [(''per_page'', [''1''])] two_incidents) = View v \<and>
    al_has_next v \<and> map (am_id \<circ> ar_incident) (al_incidents v) = [2]"
proof -
  let ?q = "[(''per_page'', [''1''])]" and ?f = "am_raw_filter (\<lambda>t. None) [(''per_page'', [''1''])]"
  have p: "pagination plain_server ?q 50 = (1, 1)" by code_simp
  have d: "db_faults two_incidents = []" by code_simp
  have l: "map am_id (am_listing ?f two_incidents) = [2, 1]" by code_simp
  have "\<exists>v. snd (handleAMAlertsListing (\<lambda>t. None) plain_server ?q two_incidents) = View v"
    by (simp add: handleAMAlertsListing_def p ask_def respond_def Let_def ListAMIncidents_def limit_offset_def page_offset_def
        wrap64_def d any_incident_def)
  then obtain v where v: "snd (handleAMAlertsListing (\<lambda>t. None) plain_server ?q two_incidents) = View v" by blast
  obtain a b where ab: "am_listing ?f two_incidents = [a, b]" "am_id a = 2" using l by (auto simp only: map_eq_Cons_conv list.map)
  have x: "map ar_incident (al_incidents v) = page_of 1 0 [a, b]" "al_has_next v \<longleftrightarrow> 1 < length [a, b]"
    using next_link_is_exact [OF d p _ _ _ _ v] unfolding ab(1) by simp_all
  have "map (am_id \<circ> ar_incident) (al_incidents v) = map am_id (map ar_incident (al_incidents v))" by simp
  also have "\<dots> = [2]" unfolding x(1) by (simp add: page_of_def ab(2))
  finally have "al_has_next v \<and> map (am_id \<circ> ar_incident) (al_incidents v) = [2]" using x(2) by simp
  then show ?thesis by (intro exI [of _ v] conjI [OF v])
qed

lemma badge_counts_the_page_witness:
  "snd (issueCount plain_server (archived_db\<lparr>db_faults := [True]\<rparr>)) = 1"
  using badge_counts_the_page [of "archived_db\<lparr>db_faults := [True]\<rparr>" plain_server]
  by (simp add: handleIssues_def ask_def ListDiscoverySnapshot_def db_call_def or_empty_def plain_server_def)

end
