(* ===== verification/Durations.thy ===== *)
theory Durations
  imports Values
begin

text \<open>
  Durations as text: the three renderings of the Slack messages and of the pages (\<^verbatim>\<open>slack/blocks.go\<close>,
  \<^verbatim>\<open>alertmanager/blocks.go\<close>, \<^verbatim>\<open>web/templates/am_alerts_view.go\<close>), the one-unit forms
  (\<^verbatim>\<open>web/templates/helpers.go\<close>), and the durations of the configuration with their day suffix
  (\<^verbatim>\<open>config/duration.go\<close>).  A reader of such texts shows what each of them loses.
\<close>

section \<open>Splitting into units\<close>

abbreviation day :: duration where "day \<equiv> 86400 * 1000000000"

definition unit_part :: "int \<Rightarrow> string \<Rightarrow> string list" where
  "unit_part n u = (if 0 < n then [itoa n @ u] else [])"

text \<open>\<^verbatim>\<open>formatDowntime\<close> of \<^verbatim>\<open>internal/slack\<close>: every unit from days to minutes that is not zero.\<close>

definition formatDowntime :: "duration \<Rightarrow> string" where
  "formatDowntime d = (if d \<le> 0 then ''0s'' else
    (let days = d div day; d1 = d - days * day; hours = d1 div hour; d2 = d1 - hours * hour;
         mins = d2 div minute; d3 = d2 - mins * minute; secs = d3 div second;
         parts = unit_part days ''d'' @ unit_part hours ''h'' @ unit_part mins ''m'' in
     join '' '' (if parts = [] then [itoa secs @ ''s''] else parts)))"

text \<open>\<^verbatim>\<open>formatDowntime\<close> of \<^verbatim>\<open>internal/alertmanager\<close>: no minutes beside days.\<close>

definition am_formatDowntime :: "duration \<Rightarrow> string" where
  "am_formatDowntime d = (if d \<le> 0 then ''0s'' else
    (let days = d div day; d1 = d - days * day; hours = d1 div hour; d2 = d1 - hours * hour;
         mins = d2 div minute; d3 = d2 - mins * minute; secs = d3 div second;
         parts = unit_part days ''d'' @ unit_part hours ''h'' @ (if days = 0 then unit_part mins ''m'' else []) in
     join '' '' (if parts = [] then [itoa secs @ ''s''] else parts)))"

text \<open>\<^verbatim>\<open>formatDuration\<close> of the incident pages: at most two units.\<close>

definition formatDuration :: "duration \<Rightarrow> string" where
  "formatDuration d =
    (if d \<le> 0 then ''0s''
     else if d < minute then itoa (d div second) @ ''s''
     else if d < hour then itoa (d div minute) @ ''m''
     else if d < 24 * hour then
       (let h = d div hour; m = d div minute - h * 60 in
        if m = 0 then itoa h @ ''h'' else itoa h @ ''h '' @ itoa m @ ''m'')
     else (let days = (d div hour) div 24; hrs = d div hour - days * 24 in
        if hrs = 0 then itoa days @ ''d'' else itoa days @ ''d '' @ itoa hrs @ ''h''))"

text \<open>One unit: the cadence of the discovery page, the age of an alert, the age of a row.\<close>

definition one_unit :: "duration \<Rightarrow> string" where
  "one_unit d = (if d < minute then itoa (d div second) @ ''s'' else if d < hour then itoa (d div minute) @ ''m''
     else if d < 24 * hour then itoa (d div hour) @ ''h'' else itoa (d div day) @ ''d'')"

definition humanInterval :: "duration \<Rightarrow> string" where
  "humanInterval d = (if d \<le> 0 then ''n/a'' else one_unit d)"

definition relativeAgo :: "time \<Rightarrow> time \<Rightarrow> string" where
  "relativeAgo now t = (let d = time_sub now t in one_unit (if d < 0 then 0 else d))"

definition humanDuration :: "time \<Rightarrow> time \<Rightarrow> string" where
  "humanDuration now t = (if is_zero t then [] else
    (let d0 = time_sub now t; future = (d0 < 0); d = (if future then wrap64 (- d0) else d0) in
     if d < 5 * second then ''just now''
     else (let token = (if d < 30 * 24 * hour then one_unit d else itoa (d div (30 * day)) @ ''mo'') in
       if future then ''in '' @ token else token @ '' ago'')))"

section \<open>Reading them back\<close>

definition unit_length :: "char \<Rightarrow> duration" where
  "unit_length c = (if c = CHR ''d'' then day else if c = CHR ''h'' then hour else if c = CHR ''m'' then minute
     else if c = CHR ''s'' then second else 0)"

definition read_part :: "string \<Rightarrow> duration" where
  "read_part p = (case atoi (butlast p) of Some n \<Rightarrow> n * unit_length (last p) | None \<Rightarrow> 0)"

definition read_units :: "string \<Rightarrow> duration" where
  "read_units s = sum_list (map read_part (split_on CHR '' '' s))"

lemma digit_char:
  assumes "k < 10"
  shows "digit_value (char_of (48 + k)) = int k" "CHR ''0'' \<le> char_of (48 + k)" "(char_of (48 + k) :: char) \<le> CHR ''9''"
    and "char_of (48 + k) \<notin> set ''-+ ''"
proof -
  have c: "of_char (char_of (48 + k) :: char) = 48 + k" using assms by simp
  have "(of_char (char_of (48 + k) :: char) :: int) = int (of_char (char_of (48 + k) :: char))" by (rule of_nat_of_char [symmetric])
  then show "digit_value (char_of (48 + k)) = int k" unfolding digit_value_def c by simp
  show "CHR ''0'' \<le> char_of (48 + k)" "(char_of (48 + k) :: char) \<le> CHR ''9''"
    unfolding less_eq_char_def c using assms by simp_all
  have "of_char x \<noteq> 48 + k" if "x \<in> set ''-+ ''" for x using that assms by auto
  then show "char_of (48 + k) \<notin> set ''-+ ''" using c by metis
qed

lemma digits_props:
  "fold (\<lambda>c n. 10 * n + digit_value c) (digits n) 0 = int n"
  "list_all (\<lambda>c. CHR ''0'' \<le> c \<and> c \<le> CHR ''9'') (digits n)"
  "set (digits n) \<inter> set ''-+ '' = {}"
proof (induction n rule: digits.induct)
  case (1 n)
  {
    case 1
    show ?case
    proof (cases "n < 10")
      case True then show ?thesis by (subst digits.simps) (simp add: digit_char)
    next
      case False
      then have "fold (\<lambda>c n. 10 * n + digit_value c) (digits n) 0 = 10 * int (n div 10) + int (n mod 10)"
        using "1.IH"(1) by (subst digits.simps) (simp add: digit_char)
      also have "\<dots> = int (10 * (n div 10) + n mod 10)" by (simp only: of_nat_add of_nat_mult of_nat_numeral)
      also have "10 * (n div 10) + n mod 10 = n" by (rule mult_div_mod_eq)
      finally show ?thesis .
    qed
  next
    case 2
    show ?case using "1.IH"(2) by (subst digits.simps) (simp add: digit_char)
  next
    case 3
    show ?case using "1.IH"(3) digit_char(4) [of n] digit_char(4) [of "n mod 10"] by (subst digits.simps) auto
  }
qed

lemma atoi_itoa: "min_duration \<le> n \<Longrightarrow> n \<le> max_duration \<Longrightarrow> atoi (itoa n) = Some n"
proof -
  assume n: "min_duration \<le> n" "n \<le> max_duration"
  show ?thesis
  proof (cases "n < 0")
    case True
    then show ?thesis using n digits_props(1,2) [of "nat (- n)"]
      by (simp add: atoi_def itoa_def all_digits_def)
  next
    case False
    obtain c cs where d: "digits (nat n) = c # cs" by (cases "digits (nat n)") simp_all
    with digits_props(3) [of "nat n"] have "c \<noteq> CHR ''-''" "c \<noteq> CHR ''+''" by auto
    then show ?thesis using n False digits_props(1,2) [of "nat n"] d
      by (simp add: atoi_def itoa_def all_digits_def)
  qed
qed

lemma split_on_fresh: "c \<notin> set s \<Longrightarrow> split_on c s = [s]"
  by (induction s) auto

lemma split_on_append: "c \<notin> set s \<Longrightarrow> split_on c (s @ c # t) = s # split_on c t"
  by (induction s) auto

lemma split_on_join: "xs \<noteq> [] \<Longrightarrow> \<forall>x \<in> set xs. c \<notin> set x \<Longrightarrow> split_on c (join [c] xs) = xs"
  by (induction "[c]" xs rule: join.induct) (simp_all add: split_on_fresh split_on_append)

lemma itoa_nonneg_chars: "0 \<le> n \<Longrightarrow> CHR '' '' \<notin> set (itoa n)"
  using digits_props(3) [of "nat n"] by (auto simp: itoa_def)

lemma read_part_unit:
  "0 \<le> n \<Longrightarrow> n \<le> max_duration \<Longrightarrow> read_part (itoa n @ [u]) = n * unit_length u"
  using atoi_itoa [of n] by (simp add: read_part_def min_duration_def)

lemma read_units_join:
  assumes "parts \<noteq> []" "\<forall>p \<in> set parts. CHR '' '' \<notin> set p"
  shows "read_units (join '' '' parts) = sum_list (map read_part parts)"
  using split_on_join [OF assms] by (simp add: read_units_def)

text \<open>The amounts that the three renderings compute.\<close>

lemma unit_split:
  assumes "0 \<le> d"
  defines "d1 \<equiv> d - d div day * day"
  defines "d2 \<equiv> d1 - d1 div hour * hour"
  defines "d3 \<equiv> d2 - d2 div minute * minute"
  shows "d div day * day + d1 div hour * hour + d2 div minute * minute = d - d mod minute"
    and "d div day * day + d1 div hour * hour = d - d mod hour"
    and "d3 div second * second = d mod minute - d mod second"
    and "0 \<le> d1" "d1 < day" "0 \<le> d2" "d2 < hour" "0 \<le> d3" "d3 < minute"
    and "d1 div hour < 24" "d2 div minute < 60" "d div hour = 24 * (d div day) + d1 div hour"
proof -
  have e: "d1 = d mod day" "d2 = d1 mod hour" "d3 = d2 mod minute"
    by (simp_all add: d1_def d2_def d3_def minus_div_mult_eq_mod)
  then show b: "0 \<le> d1" "d1 < day" "0 \<le> d2" "d2 < hour" "0 \<le> d3" "d3 < minute" by simp_all
  have s: "d = d div day * day + d1" "d1 = d1 div hour * hour + d2" "d2 = d2 div minute * minute + d3"
    by (simp_all add: d1_def d2_def d3_def)
  have h: "d2 = d mod hour" unfolding e by (simp add: mod_mod_cancel)
  have m: "d3 = d mod minute" unfolding e(3) h by (simp add: mod_mod_cancel)
  show "d div day * day + d1 div hour * hour + d2 div minute * minute = d - d mod minute" using s m by linarith
  show "d div day * day + d1 div hour * hour = d - d mod hour" using s h by linarith
  have "d3 mod second = d mod second" unfolding m by (simp add: mod_mod_cancel)
  then show "d3 div second * second = d mod minute - d mod second" using minus_mod_eq_div_mult [of d3 second] m by simp
  show "d1 div hour < 24" "d2 div minute < 60" using b(2,4) by simp_all
  have "d div hour = (d1 + 24 * (d div day) * hour) div hour" using s(1) by (intro arg_cong2 [where f = "(div)"]) simp_all
  then show "d div hour = 24 * (d div day) + d1 div hour" by simp
qed

lemma read_one: "0 \<le> n \<Longrightarrow> n \<le> max_duration \<Longrightarrow> CHR '' '' \<noteq> u \<Longrightarrow> read_units (itoa n @ [u]) = n * unit_length u"
  using read_units_join [of "[itoa n @ [u]]"] itoa_nonneg_chars [of n] by (simp add: read_part_unit)

lemma read_unit_part:
  "0 \<le> n \<Longrightarrow> n \<le> max_duration \<Longrightarrow> sum_list (map read_part (unit_part n [u])) = n * unit_length u"
  "CHR '' '' \<noteq> u \<Longrightarrow> \<forall>p \<in> set (unit_part n [u]). CHR '' '' \<notin> set p"
  using itoa_nonneg_chars [of n] by (auto simp: unit_part_def read_part_unit)

lemma unit_part_Nil: "0 \<le> n \<Longrightarrow> unit_part n u = [] \<longleftrightarrow> n = 0"
  by (simp add: unit_part_def)

lemma formatDowntime_reads:
  assumes "0 \<le> d" "d \<le> max_duration"
  shows "read_units (formatDowntime d) = (if d < minute then d - d mod second else d - d mod minute)"
proof (cases "d = 0")
  case True
  then show ?thesis by (simp add: formatDowntime_def) code_simp
next
  case False
  define days where "days = d div day"
  define d1 where "d1 = d - days * day"
  define hours where "hours = d1 div hour"
  define d2 where "d2 = d1 - hours * hour"
  define mins where "mins = d2 div minute"
  define secs where "secs = (d2 - mins * minute) div second"
  note defs = days_def d1_def hours_def d2_def mins_def secs_def
  note sp = unit_split [OF assms(1), folded days_def, folded d1_def, folded hours_def, folded d2_def, folded mins_def, folded secs_def]
  let ?parts = "unit_part days ''d'' @ unit_part hours ''h'' @ unit_part mins ''m''"
  have pos: "0 \<le> days" "0 \<le> hours" "0 \<le> mins" "0 \<le> secs"
    using assms(1) sp(4,6,8) by (simp_all add: days_def hours_def mins_def secs_def)
  have le: "days \<le> max_duration" "hours \<le> max_duration" "mins \<le> max_duration" "secs \<le> max_duration"
    using sp(1,3,10,11) pos assms by (simp_all add: max_duration_def)
  have shown: "formatDowntime d = join '' '' (if ?parts = [] then [itoa secs @ ''s''] else ?parts)"
  proof -
    have "\<not> d \<le> 0" using assms(1) False by simp
    then show ?thesis by (simp only: formatDowntime_def Let_def defs if_False)
  qed
  show ?thesis
  proof (cases "?parts = []")
    case True
    then have "days = 0" "hours = 0" "mins = 0" using pos unit_part_Nil by simp_all
    then have small: "d mod minute = d" using sp(1) by simp
    moreover have "d mod minute < minute" by (rule pos_mod_bound) simp
    ultimately have "d < minute" by linarith
    then show ?thesis using True sp(3) pos(4) le(4) small read_one [of secs "CHR ''s''"] by (simp add: shown unit_length_def)
  next
    case nonempty: False
    have fresh: "\<forall>p \<in> set ?parts. CHR '' '' \<notin> set p"
      using read_unit_part(2) [of "CHR ''d''" days] read_unit_part(2) [of "CHR ''h''" hours] read_unit_part(2) [of "CHR ''m''" mins]
      by auto
    have "read_units (formatDowntime d) = days * day + hours * hour + mins * minute"
      using nonempty read_units_join [OF nonempty fresh] pos le by (simp add: shown read_unit_part(1) unit_length_def del: append_is_Nil_conv)
    moreover have "\<not> d < minute"
    proof
      assume "d < minute"
      then have "days = 0" "d1 = d" "hours = 0" "d2 = d" "mins = 0" using assms(1) by (simp_all add: defs)
      then show False using nonempty by (simp add: unit_part_def)
    qed
    ultimately show ?thesis using sp(1) by simp
  qed
qed

text \<open>Below a day the two \<^verbatim>\<open>formatDowntime\<close> are one; from a day on the second stops at hours.\<close>

lemma am_formatDowntime_short: "0 \<le> d \<Longrightarrow> d < day \<Longrightarrow> am_formatDowntime d = formatDowntime d"
  by (simp add: am_formatDowntime_def formatDowntime_def Let_def)

lemma am_formatDowntime_long:
  "day \<le> d \<Longrightarrow> am_formatDowntime d = join '' '' (unit_part (d div day) ''d'' @ unit_part ((d - d div day * day) div hour) ''h'')"
  using pos_imp_zdiv_pos_iff [of day d] by (simp add: am_formatDowntime_def Let_def unit_part_def)

lemma am_formatDowntime_reads:
  assumes "0 \<le> d" "d \<le> max_duration"
  shows "read_units (am_formatDowntime d) =
    (if d < minute then d - d mod second else if d < day then d - d mod minute else d - d mod hour)"
proof (cases "d < day")
  case True
  then show ?thesis using assms am_formatDowntime_short formatDowntime_reads by simp
next
  case False
  define days where "days = d div day"
  define hours where "hours = (d - days * day) div hour"
  note sp = unit_split [OF assms(1), folded days_def, folded hours_def]
  let ?parts = "unit_part days ''d'' @ unit_part hours ''h''"
  have pos: "0 < days" "0 \<le> hours" "hours \<le> max_duration" "days \<le> max_duration"
    using False sp(4,10) assms pos_imp_zdiv_pos_iff [of day d]
    by (simp_all add: days_def hours_def max_duration_def pos_imp_zdiv_nonneg_iff)
  have fresh: "\<forall>p \<in> set ?parts. CHR '' '' \<notin> set p"
    using read_unit_part(2) [of "CHR ''d''" days] read_unit_part(2) [of "CHR ''h''" hours] by auto
  have "?parts \<noteq> []" using pos(1) by (simp add: unit_part_def)
  then have "read_units (am_formatDowntime d) = days * day + hours * hour"
    using am_formatDowntime_long [of d, folded days_def, folded hours_def] False read_units_join [OF _ fresh] pos
    by (simp add: read_unit_part(1) unit_length_def del: append_is_Nil_conv)
  then show ?thesis using False sp(2) by simp
qed

text \<open>The pages print what the Slack messages of the receiver print.\<close>

lemma formatDuration_is_am_formatDowntime: "formatDuration d = am_formatDowntime d"
proof (cases "d \<le> 0")
  case True
  then show ?thesis by (simp add: formatDuration_def am_formatDowntime_def)
next
  case False
  then have nn: "0 \<le> d" by simp
  note sp = unit_split [OF nn]
  show ?thesis
  proof (cases "d < day")
    case long: False
    define days where "days = d div day"
    define hrs where "hrs = (d - d div day * day) div hour"
    have r: "hrs < 24" "d div hour = 24 * days + hrs"
      unfolding days_def hrs_def by (rule sp(10), rule sp(12))
    have "0 < days" unfolding days_def using long pos_imp_zdiv_pos_iff [of day d] by simp
    moreover have "0 \<le> hrs" unfolding hrs_def by (rule pos_imp_zdiv_nonneg_iff [THEN iffD2]) (simp, rule sp(4))
    moreover note r
    ultimately have r: "0 \<le> hrs" "hrs < 24" "d div hour = 24 * days + hrs" "0 < days" by simp_all
    have e: "d div hour div 24 = days" "d div hour - days * 24 = hrs" using r by simp_all
    have n: "\<not> d < minute" "\<not> d < hour" "\<not> d < 24 * hour" using long by simp_all
    have "formatDuration d = (if hrs = 0 then itoa days @ ''d'' else itoa days @ ''d '' @ itoa hrs @ ''h'')"
      by (simp only: formatDuration_def Let_def e n False if_False)
    moreover have "am_formatDowntime d = join '' '' (unit_part days ''d'' @ unit_part hrs ''h'')"
      unfolding days_def hrs_def using long by (intro am_formatDowntime_long) simp
    ultimately show ?thesis using r(1,4) by (simp add: unit_part_def)
  next
    case True
    then have z: "d div day = 0" using nn by simp
    define h where "h = d div hour"
    define m where "m = (d - h * hour) div minute"
    have m: "d div minute - h * 60 = m"
    proof -
      have "m = (d + (- h * 60) * minute) div minute" by (simp add: m_def algebra_simps)
      then show ?thesis by simp
    qed
    have pos: "0 \<le> h" "0 \<le> m" "d < hour \<longleftrightarrow> h = 0" "d < minute \<longleftrightarrow> h = 0 \<and> m = 0"
      using nn sp(6) z by (auto simp: h_def m_def zdiv_eq_0_iff)
    have am: "am_formatDowntime d = join '' '' (let parts = unit_part h ''h'' @ unit_part m ''m'' in
        if parts = [] then [itoa ((d - h * hour - m * minute) div second) @ ''s''] else parts)"
      using False z by (simp add: am_formatDowntime_def Let_def h_def m_def unit_part_def)
    have h: "d div 3600000000000 = h" "d div 60000000000 = h * 60 + m" using m by (simp_all add: h_def)
    show ?thesis using False True pos unfolding am formatDuration_def
      by (auto simp: unit_part_def Let_def h)
  qed
qed

text \<open>A printed duration is rounded down, never up.  Read back, the downtime of an uptime message is the true one
  down to the minute (to the second below a minute); that of an Alertmanager message is the same below a day
  and down to the hour from there; and the incident pages print the text of the Alertmanager message.\<close>

theorem printed_durations_round_down:
  assumes "0 \<le> d" "d \<le> max_duration"
  shows "read_units (formatDowntime d) = (if d < minute then d - d mod second else d - d mod minute) \<and>
    read_units (am_formatDowntime d) =
      (if d < minute then d - d mod second else if d < day then d - d mod minute else d - d mod hour) \<and>
    formatDuration d = am_formatDowntime d"
  using formatDowntime_reads [OF assms] am_formatDowntime_reads [OF assms] formatDuration_is_am_formatDowntime by simp

lemma printed_durations_round_down_witness:
  "read_units (formatDowntime (day + 4 * hour + 23 * minute + 7 * second)) = day + 4 * hour + 23 * minute \<and>
    read_units (am_formatDowntime (day + 4 * hour + 23 * minute + 7 * second)) = day + 4 * hour"
  using printed_durations_round_down [of "day + 4 * hour + 23 * minute + 7 * second"] by (simp add: max_duration_def)

end
