(* ===== verification/Slack_Blocks.thy ===== *)
theory Slack_Blocks
  imports Durations Notifier Coalesce Store_Queries
begin

text \<open>
  The layout of the Slack messages (\<^verbatim>\<open>internal/slack/blocks.go\<close>, \<^verbatim>\<open>ssl_blocks.go\<close>, \<^verbatim>\<open>digest.go\<close>, \<^verbatim>\<open>removal.go\<close>):
  what the notifier and the dispatcher send, rendered to blocks, and the announcement of a removed
  monitor.  A block is its kind and its text; the JSON around it is left out.  The two layouts of a date in
  UTC are arguments.
\<close>

section \<open>Blocks\<close>

datatype block = HeaderBlock string | SectionBlock string | ContextBlock string

record parent_message =
  pm_blocks :: "block list"
  pm_attachments :: "(string \<times> block list) list"

record clock_text =
  ct_minute :: "time \<Rightarrow> string" \<comment> \<open>\<^verbatim>\<open>2006-01-02 15:04 UTC\<close>\<close>
  ct_day :: "time \<Rightarrow> string" \<comment> \<open>\<^verbatim>\<open>Jan 2\<close>\<close>

text \<open>The signs of the source, in UTF-8.\<close>

definition dot_sign :: string where "dot_sign = [CHR 0xC2, CHR 0xB7]"
definition dash_sign :: string where "dash_sign = [CHR 0xE2, CHR 0x80, CHR 0x94]"
definition dots_sign :: string where "dots_sign = [CHR 0xE2, CHR 0x80, CHR 0xA6]"
definition clock_sign :: string where "clock_sign = [CHR 0xE2, CHR 0x8F, CHR 0xB0]"
definition warn_sign :: string where "warn_sign = [CHR 0xE2, CHR 0x9A, CHR 0xA0, CHR 0xEF, CHR 0xB8, CHR 0x8F]"
definition info_sign :: string where "info_sign = [CHR 0xE2, CHR 0x84, CHR 0xB9, CHR 0xEF, CHR 0xB8, CHR 0x8F]"
definition check_sign :: string where "check_sign = [CHR 0xE2, CHR 0x9C, CHR 0x85]"
definition pause_sign :: string where "pause_sign = [CHR 0xE2, CHR 0x8F, CHR 0xB8]"
definition red_sign :: string where "red_sign = [CHR 0xF0, CHR 0x9F, CHR 0x94, CHR 0xB4]"
definition falling_sign :: string where "falling_sign = [CHR 0xF0, CHR 0x9F, CHR 0x93, CHR 0x89]"
definition repeat_sign :: string where "repeat_sign = [CHR 0xF0, CHR 0x9F, CHR 0x94, CHR 0x81]"

abbreviation newline :: string where "newline \<equiv> [CHR 0x0A]"
abbreviation backtick :: string where "backtick \<equiv> [CHR 0x60]"

definition wide_dot :: string where "wide_dot = ''  '' @ dot_sign @ ''  ''"

definition quoted_code :: "string \<Rightarrow> string" where
  "quoted_code s = backtick @ s @ backtick"

definition fenced :: "string \<Rightarrow> string" where
  "fenced s = backtick @ backtick @ backtick @ newline @ s @ newline @ backtick @ backtick @ backtick"

definition link :: "string \<Rightarrow> string \<Rightarrow> string" where
  "link url text = ''<'' @ url @ ''|'' @ text @ ''>''"

definition ColorDown :: string where "ColorDown = ''#df3617''"
definition ColorResolved :: string where "ColorResolved = ''#22af64''"
definition ColorRemoved :: string where "ColorRemoved = ''#f2b138''"

text \<open>The zero of \<^verbatim>\<open>time.Time\<close> is the first of January of the year one.\<close>

definition unix :: "time \<Rightarrow> int" where
  "unix t = t div 1000000000 - 62135596800"

definition FormatDate :: "clock_text \<Rightarrow> time \<Rightarrow> string" where
  "FormatDate ct t = ''<!date^'' @ itoa (unix t) @ ''^{date_short_pretty} at {time}|'' @ ct_minute ct t @ ''>''"

definition shortDate :: "clock_text \<Rightarrow> time \<Rightarrow> string" where
  "shortDate ct t = (if is_zero t then [] else ''<!date^'' @ itoa (unix t) @ ''^{date_short_pretty}|'' @ ct_day ct t @ ''>'')"

definition dated :: "clock_text \<Rightarrow> string \<Rightarrow> time \<Rightarrow> string list" where
  "dated ct prefix t = (if prefix \<noteq> [] \<and> \<not> is_zero t then [''_'' @ prefix @ '' '' @ FormatDate ct t @ ''_''] else [])"

definition details :: "string \<Rightarrow> string list" where
  "details url = (if url = [] then [] else [link url ''View details''])"

definition parentFooter :: "clock_text \<Rightarrow> string list \<Rightarrow> string \<Rightarrow> time \<Rightarrow> string \<Rightarrow> string" where
  "parentFooter ct mentions prefix t url =
     join wide_dot ((if mentions = [] then [] else [join '' '' mentions]) @ dated ct prefix t @ details url)"

definition footerLine :: "clock_text \<Rightarrow> string \<Rightarrow> time \<Rightarrow> string \<Rightarrow> string" where
  "footerLine ct prefix t url = join ('' '' @ dot_sign @ '' '') (dated ct prefix t @ details url)"

definition context_if :: "string \<Rightarrow> block list" where
  "context_if s = (if s = [] then [] else [ContextBlock s])"

section \<open>Uptime\<close>

definition downBodyText :: "down_input \<Rightarrow> string" where
  "downBodyText i =
    (if di_status_code i \<noteq> 0 then fenced (itoa (di_status_code i) @ '' '' @ TrimSpace (di_status_text i))
     else if di_last_error i \<noteq> [] then fenced (di_last_error i) else [])"

text \<open>The inline response body and its cap are arguments beside the input.\<close>

definition buildParentBlocks :: "clock_text \<Rightarrow> down_input \<Rightarrow> string \<Rightarrow> int \<Rightarrow> string \<Rightarrow> string \<Rightarrow> string \<Rightarrow> time \<Rightarrow> block list" where
  "buildParentBlocks ct i response cap title body prefix t =
    SectionBlock title # context_if (di_banner i) @
    (if response \<noteq> [] \<and> 0 < cap \<and> int (length response) \<le> cap then [SectionBlock (fenced response)]
     else if body \<noteq> [] then [SectionBlock body] else []) @
    context_if (di_note i) @ context_if (parentFooter ct (down_input.di_mentions i) prefix t (di_detail_url i))"

definition BuildDownParent :: "clock_text \<Rightarrow> string \<Rightarrow> int \<Rightarrow> down_input \<Rightarrow> parent_message" where
  "BuildDownParent ct response cap i =
    \<lparr>pm_blocks = buildParentBlocks ct i response cap
       ('':red_circle: *'' @ di_friendly_name i @ '' is DOWN*'' @ wide_dot @ link (di_url i) (di_url i))
       (downBodyText i) ''Detected'' (di_failure_at i), pm_attachments = []\<rparr>"

definition BuildResolveEdit :: "clock_text \<Rightarrow> string \<Rightarrow> int \<Rightarrow> down_input \<Rightarrow> time \<Rightarrow> duration \<Rightarrow> parent_message" where
  "BuildResolveEdit ct response cap i resolved downtime =
    \<lparr>pm_blocks = buildParentBlocks ct i response cap
       ('':large_green_circle: *'' @ di_friendly_name i @ '' is UP*  (down around '' @ formatDowntime downtime @ '')'' @ wide_dot @
          link (di_url i) (di_url i))
       (downBodyText i) ''Resolved'' resolved, pm_attachments = []\<rparr>"

definition BuildReminderReply :: "clock_text \<Rightarrow> duration \<Rightarrow> time \<Rightarrow> string \<Rightarrow> block list" where
  "BuildReminderReply ct down checked err =
    SectionBlock (clock_sign @ '' *Still down for:* '' @ quoted_code (formatDowntime down) @ newline @
        ''*Last checked:* '' @ FormatDate ct checked) #
    (if err = [] then [] else [SectionBlock (fenced err)])"

definition BuildResolveReply :: "clock_text \<Rightarrow> time \<Rightarrow> duration \<Rightarrow> block list" where
  "BuildResolveReply ct resolved downtime = [SectionBlock ('':large_green_circle: Resolved at '' @ FormatDate ct resolved @
     ''. Total downtime: '' @ quoted_code (formatDowntime downtime) @ ''.'')]"

section \<open>Certificates\<close>

definition sslBodyText :: "ssl_down_input \<Rightarrow> string" where
  "sslBodyText i = join wide_dot
     ((if sd_issuer i = [] then [] else [''Issuer '' @ quoted_code (sd_issuer i)]) @
      (if sd_subject i = [] then [] else [''Subject '' @ quoted_code (sd_subject i)]))"

definition buildSSLParentBlocks :: "clock_text \<Rightarrow> ssl_down_input \<Rightarrow> string \<Rightarrow> string \<Rightarrow> string \<Rightarrow> time \<Rightarrow> block list" where
  "buildSSLParentBlocks ct i title body prefix t =
    SectionBlock title # context_if (sd_banner i) @ (if body = [] then [] else [SectionBlock body]) @
    context_if (parentFooter ct (sd_mentions i) prefix t (sd_detail_url i))"

definition BuildSSLParent :: "clock_text \<Rightarrow> ssl_down_input \<Rightarrow> parent_message" where
  "BuildSSLParent ct i =
    \<lparr>pm_blocks = buildSSLParentBlocks ct i
       ('':warning: *'' @ sd_friendly_name i @ ''* '' @ dash_sign @ '' SSL expires in '' @ itoa (sd_days_remaining i) @ ''d ('' @
          shortDate ct (sd_expires_at i) @ '')'' @ wide_dot @ link (sd_url i) (sd_url i))
       (sslBodyText i) ''Detected'' (sd_detected_at i), pm_attachments = []\<rparr>"

definition BuildSSLReminderReply :: "clock_text \<Rightarrow> ssl_down_input \<Rightarrow> block list" where
  "BuildSSLReminderReply ct i = [SectionBlock (join newline
     ([warn_sign @ '' *Days remaining:* '' @ quoted_code (itoa (sd_days_remaining i))] @
      (if is_zero (sd_expires_at i) then [] else [''*Expires:* '' @ FormatDate ct (sd_expires_at i)]) @ [''_Renewal needed._'']))]"

definition BuildSSLResolveEdit :: "clock_text \<Rightarrow> time \<Rightarrow> ssl_down_input \<Rightarrow> time \<Rightarrow> time \<Rightarrow> parent_message" where
  "BuildSSLResolveEdit ct now i expires renewed =
    \<lparr>pm_blocks = buildSSLParentBlocks ct i
       ('':large_green_circle: *'' @ sd_friendly_name i @ ''* '' @ dash_sign @ '' Cert renewed ('' @
          itoa (max 0 (days_of (time_sub expires now))) @ ''d expiry '' @ dot_sign @ '' '' @ shortDate ct expires @ '')'' @
          wide_dot @ link (sd_url i) (sd_url i))
       (sslBodyText i) ''Renewed'' renewed, pm_attachments = []\<rparr>"

definition BuildSSLResolveReply :: "clock_text \<Rightarrow> time \<Rightarrow> block list" where
  "BuildSSLResolveReply ct expires = [SectionBlock ('':large_green_circle: Cert renewed. New expiry: '' @ FormatDate ct expires @ ''.'')]"

text \<open>What the notifier sends.\<close>

definition render_message :: "clock_text \<Rightarrow> time \<Rightarrow> string \<Rightarrow> int \<Rightarrow> message \<Rightarrow> parent_message" where
  "render_message ct now response cap m = (let thread = (\<lambda>bs. \<lparr>pm_blocks = bs, pm_attachments = []\<rparr>) in case m of
       DownParent i \<Rightarrow> BuildDownParent ct response cap i
     | ReminderReply down checked err \<Rightarrow> thread (BuildReminderReply ct down checked err)
     | ResolveEdit i t d \<Rightarrow> BuildResolveEdit ct response cap i t d
     | ResolveReply i t d \<Rightarrow> thread (BuildResolveReply ct t d)
     | SSLParent i \<Rightarrow> BuildSSLParent ct i
     | SSLReminderReply i \<Rightarrow> thread (BuildSSLReminderReply ct i)
     | SSLResolveEdit i expires renewed \<Rightarrow> BuildSSLResolveEdit ct now i expires renewed
     | SSLResolveReply i expires renewed \<Rightarrow> thread (BuildSSLResolveReply ct expires))"

section \<open>The digest\<close>

definition DefaultDigestMaxRows :: int where
  "DefaultDigestMaxRows = 40"

fun classRank :: "row_class \<Rightarrow> nat" where
  "classRank RowActive = 0"
| "classRank RowRecovered = 1"
| "classRank RowPaused = 2"

definition digestRowLine :: "digest_row \<Rightarrow> string" where
  "digestRowLine r =
    (let name = (if dr_detail_url r = [] then dr_name r else link (dr_detail_url r) (dr_name r)) in case dr_class r of
       RowRecovered \<Rightarrow> check_sign @ '' ~'' @ name @ ''~''
     | RowPaused \<Rightarrow> pause_sign @ '' '' @ name @ '' _(paused '' @ dash_sign @ '' upstream incident)_''
     | RowActive \<Rightarrow> red_sign @ '' '' @ name)"

definition digest_order :: "digest_row \<Rightarrow> digest_row \<Rightarrow> bool" where
  "digest_order = then_by (by_key (\<lambda>r. classRank (dr_class r)) False) (by_key dr_name False)"

definition digest_cap :: "int \<Rightarrow> nat" where
  "digest_cap max_rows = nat (if max_rows \<le> 0 then DefaultDigestMaxRows else max_rows)"

definition renderDigestRows :: "digest_row list \<Rightarrow> int \<Rightarrow> string" where
  "renderDigestRows rows max_rows = (if rows = [] then [] else
    (let m = digest_cap max_rows; sorted = order_by digest_order rows;
         extra = length sorted - m in
     join newline (map digestRowLine (take m sorted) @
       (if 0 < extra then [''_'' @ dots_sign @ ''and '' @ itoa (int extra) @ '' more_''] else []))))"

text \<open>The note and the banner of the input are not used by the dispatcher; they are arguments.\<close>

definition buildDigestBlocks :: "clock_text \<Rightarrow> digest_input \<Rightarrow> string \<Rightarrow> string \<Rightarrow> int \<Rightarrow> string \<Rightarrow> time \<Rightarrow> block list" where
  "buildDigestBlocks ct i note banner max_rows prefix t =
    context_if banner @
    (if digest_input.di_mentions i = [] then [] else [ContextBlock (''*CC:* '' @ join '' '' (digest_input.di_mentions i))]) @
    (let body = renderDigestRows (di_rows i) max_rows in if body = [] then [] else [SectionBlock body]) @
    context_if note @ context_if (footerLine ct prefix t [])"

definition BuildDigestParent :: "clock_text \<Rightarrow> string \<Rightarrow> string \<Rightarrow> int \<Rightarrow> digest_input \<Rightarrow> parent_message" where
  "BuildDigestParent ct note banner max_rows i =
    (if di_closed i then
       \<lparr>pm_blocks = [HeaderBlock ('':large_green_circle: All clear '' @ dash_sign @ '' '' @ itoa (int (di_recovered i)) @
          '' recovered (was down for '' @ formatDowntime (di_downtime i) @ '')'')],
        pm_attachments = [(ColorResolved, buildDigestBlocks ct i note banner max_rows ''Resolved'' (di_opened_at i + di_downtime i))]\<rparr>
     else
       \<lparr>pm_blocks = [HeaderBlock ('':rotating_light: '' @ itoa (int (di_down i)) @ '' down '' @ dot_sign @ '' '' @
          itoa (int (di_recovered i)) @ '' recovered (of '' @ itoa (int (di_total i)) @ '')'')],
        pm_attachments = [(ColorDown, buildDigestBlocks ct i note banner max_rows ''Opened'' (di_opened_at i))]\<rparr>)"

definition backticked :: "string list \<Rightarrow> string" where
  "backticked ns = join '', '' (map quoted_code ns)"

definition delta_lines :: "delta_input \<Rightarrow> string list" where
  "delta_lines i =
    (if dd_mentions i = [] then [] else [''*CC:* '' @ join '' '' (dd_mentions i)]) @
    (if dd_newly_down i = [] then [] else
       [falling_sign @ '' *+'' @ itoa (int (length (dd_newly_down i))) @ '' down:* '' @ backticked (dd_newly_down i)]) @
    (if dd_recovered i = [] then [] else
       [check_sign @ '' *'' @ itoa (int (length (dd_recovered i))) @ '' recovered:* '' @ backticked (dd_recovered i)]) @
    (if dd_flapped i = [] then [] else
       [repeat_sign @ '' *'' @ itoa (int (length (dd_flapped i))) @ '' flapped:* '' @ backticked (dd_flapped i)]) @
    (if dd_paused i = [] then [] else
       [pause_sign @ '' *'' @ itoa (int (length (dd_paused i))) @ '' paused* (rolled into upstream incident): '' @ backticked (dd_paused i)])"

definition BuildDigestDelta :: "delta_input \<Rightarrow> block list" where
  "BuildDigestDelta i = (if delta_lines i = [] then [] else [SectionBlock (join newline (delta_lines i))])"

definition BuildDigestReminderReply :: "nat \<Rightarrow> duration \<Rightarrow> string list \<Rightarrow> block list" where
  "BuildDigestReminderReply down_count down mentions = [SectionBlock (join newline
     ((if mentions = [] then [] else [''*CC:* '' @ join '' '' mentions]) @
      [clock_sign @ '' *Still down after '' @ formatDowntime down @ '':* '' @ itoa (int down_count) @ '' service(s)'']))]"

definition BuildDigestCloseReply :: "duration \<Rightarrow> nat \<Rightarrow> block list" where
  "BuildDigestCloseReply downtime recovered = [SectionBlock ('':large_green_circle: All clear '' @ dash_sign @ '' '' @
     itoa (int recovered) @ '' service(s) recovered. Incident lasted '' @ quoted_code (formatDowntime downtime) @ ''.'')]"

definition render_reply :: "reply \<Rightarrow> block list" where
  "render_reply r = (case r of ReplyDelta i \<Rightarrow> BuildDigestDelta i | ReplyReminder n d ms \<Rightarrow> BuildDigestReminderReply n d ms
     | ReplyClose d n \<Rightarrow> BuildDigestCloseReply d n)"

end
