(* ===== verification/Slack_Layout.thy ===== *)
theory Slack_Layout
  imports Slack_Blocks Lifecycle_Props "HOL-Library.Multiset"
begin

text \<open>
  The announcement of a removed monitor (\<^verbatim>\<open>internal/slack/removal.go\<close>) and what the layout of the
  messages promises: a digest never hides what is broken behind what recovered, a duration is rounded
  down and no more.
\<close>

section \<open>Removed monitors\<close>

record removed_input =
  ri_friendly_name :: string
  ri_tags :: "string list"
  ri_url :: string
  ri_http_method :: string
  ri_source :: string
  ri_reason :: string
  ri_detail_url :: string

definition tag_line :: "string list \<Rightarrow> string list" where
  "tag_line tags = (if tags = [] then [] else [''*Tags:* '' @ backtick @ join (backtick @ '', '' @ backtick) tags @ backtick])"

definition BuildRemovedWarning :: "clock_text \<Rightarrow> removed_input \<Rightarrow> parent_message" where
  "BuildRemovedWarning ct i =
    \<lparr>pm_blocks = [HeaderBlock ('':warning: Monitor removed: '' @ ri_friendly_name i)],
     pm_attachments = [(ColorRemoved,
       ContextBlock (join newline ([''*Monitor URL:* '' @ ri_url i, ''*Method:* '' @ quoted_code (ri_http_method i),
          ''*Reason:* '' @ quoted_code (ri_reason i), ''*Source:* '' @ ri_source i] @ tag_line (ri_tags i))) #
       context_if (footerLine ct [] zero_time (ri_detail_url i)))]\<rparr>"

definition BuildRemovedClose :: "block list" where
  "BuildRemovedClose = [SectionBlock (info_sign @ '' Monitor was removed. Closing incident.'')]"

definition BuildRemovedResolveEdit :: "down_input \<Rightarrow> parent_message" where
  "BuildRemovedResolveEdit i =
    \<lparr>pm_blocks = [HeaderBlock ('':large_green_circle: '' @ di_friendly_name i @ '' '' @ dash_sign @ '' Resolved (monitor removed)'')],
     pm_attachments = [(ColorResolved,
       ContextBlock (join newline
         ((if down_input.di_mentions i = [] then [] else [''*CC:* '' @ join '' '' (down_input.di_mentions i)]) @
          (if di_url i = [] then [] else [''*Monitor URL:* '' @ di_url i]) @
          (if di_status_code i \<noteq> 0 \<or> di_status_text i \<noteq> []
           then [''*Reason:* '' @ quoted_code (itoa (di_status_code i) @ '' '' @ di_status_text i)] else []) @
          (if di_last_error i = [] then [] else [''*Error:* '' @ quoted_code (di_last_error i)]) @
          tag_line (di_tags i) @ [''*Resolved:* monitor removed''])) #
       (if di_detail_url i = [] then [] else [ContextBlock (link (di_detail_url i) ''View details'')]))]\<rparr>"

text \<open>What is sent, in order; whether a call succeeds changes nothing of what follows.\<close>

datatype removal_call =
    CloseThread string string "block list" \<comment> \<open>channel, thread\<close>
  | EditThread string string parent_message
  | Warn string parent_message

definition NotifyRemoved :: "clock_text \<Rightarrow> notifier_config \<Rightarrow> string \<Rightarrow> monitor_view \<Rightarrow> string \<Rightarrow> string \<Rightarrow> removal_call list" where
  "NotifyRemoved ct n channel m reason source =
    (case nf_channels n channel of None \<Rightarrow> []
     | Some ch \<Rightarrow>
        (if mv_uptime_thread_ts m = [] then []
         else [CloseThread (mv_uptime_thread_channel m) (mv_uptime_thread_ts m) BuildRemovedClose,
               EditThread (mv_uptime_thread_channel m) (mv_uptime_thread_ts m) (BuildRemovedResolveEdit (view_down n [] m [] []))]) @
        [Warn (chi_id ch) (BuildRemovedWarning ct
           \<lparr>ri_friendly_name = mv_friendly_name m, ri_tags = mv_tags m, ri_url = mv_url m, ri_http_method = ''GET'',
            ri_source = source, ri_reason = reason, ri_detail_url = detailURL n (mv_slug m)\<rparr>)])"

section \<open>The digest\<close>

lemma mset_insert_by [simp]: "mset (insert_by le x ys) = add_mset x (mset ys)"
  by (induction ys) auto

lemma mset_order_by [simp]: "mset (order_by le xs) = mset xs"
  by (induction xs) (simp_all add: order_by_def)

lemma sorted_digest: "sorted_wrt digest_order (order_by digest_order rows)"
  by (intro sorted_order_by) (auto simp: digest_order_def then_by_def by_key_def split: if_splits)


text \<open>The reply of a heartbeat has no cap: it grows with the number of names.\<close>

lemma length_join: "xs \<noteq> [] \<Longrightarrow> length (join sep xs) + length sep = sum_list (map (\<lambda>x. length x + length sep) xs)"
  by (induction sep xs rule: join.induct) auto

lemma delta_reply_is_uncapped:
  assumes "dd_newly_down i \<noteq> []" "BuildDigestDelta i = [SectionBlock t]"
  shows "2 * length (dd_newly_down i) \<le> length t"
proof -
  let ?ns = "dd_newly_down i"
  have in_lines: "l \<in> set xs \<Longrightarrow> length l \<le> length (join newline xs)" for l and xs :: "string list"
  proof (induction newline xs rule: join.induct)
    case (3 x y xs)
    then show ?case by auto
  qed auto
  have four: "4 * length ns \<le> sum_list (map (\<lambda>n. length n + 4) ns)" for ns :: "string list" by (induction ns) auto
  have "length (backticked ?ns) + 2 = sum_list (map (\<lambda>n. length n + 4) ?ns)"
    using assms(1) length_join [of "map quoted_code ?ns" "'', ''"]
    by (simp add: backticked_def quoted_code_def comp_def numeral_eq_Suc)
  moreover have "4 * length ?ns \<le> sum_list (map (\<lambda>n. length n + 4) ?ns)" by (rule four)
  ultimately have "2 * length ?ns \<le> length (backticked ?ns)" using assms(1) by (cases ?ns) simp_all
  moreover have "falling_sign @ '' *+'' @ itoa (int (length ?ns)) @ '' down:* '' @ backticked ?ns \<in> set (delta_lines i)"
    using assms(1) by (simp add: delta_lines_def)
  ultimately show ?thesis using in_lines assms(2) by (fastforce simp: BuildDigestDelta_def split: if_splits)
qed

text \<open>A delta is sent exactly when it says something.\<close>

lemma delta_blocks_iff: "BuildDigestDelta i \<noteq> [] \<longleftrightarrow> has_delta_blocks i"
  by (auto simp: BuildDigestDelta_def delta_lines_def has_delta_blocks_def)

definition sample_rows :: "digest_row list" where
  "sample_rows = [\<lparr>dr_name = ''a'', dr_class = RowRecovered, dr_detail_url = []\<rparr>, \<lparr>dr_name = ''b'', dr_class = RowActive, dr_detail_url = []\<rparr>]"


section \<open>One announcement per removal\<close>

definition is_close :: "removal_call \<Rightarrow> bool" where
  "is_close c = (case c of Warn _ _ \<Rightarrow> False | _ \<Rightarrow> True)"

lemma NotifyRemoved_calls:
  assumes "nf_channels n channel = Some ch"
  shows "\<exists>closing w. NotifyRemoved ct n channel m reason source = closing @ [Warn (chi_id ch) w] \<and> list_all is_close closing \<and>
    (closing = [] \<longleftrightarrow> mv_uptime_thread_ts m = [])"
  using assms by (auto simp: NotifyRemoved_def is_close_def)

lemma Removed_effect:
  assumes "OnKubeMonitorRemoved slug reason d = (d1, out)" "out \<noteq> []"
  shows "\<exists>c. gm_get (db_monitors d) slug = Some c \<and> \<not> mr_archived c \<and>
    out = [Removed (ms_slack_channel_slug (scanMonitor c)) (scanMonitor c) reason ''k8s ingress''] \<and>
    (\<exists>c1. gm_get (db_monitors d1) slug = Some c1 \<and> mr_archived c1 \<and> mr_archive_reason c1 = Some reason)"
proof -
  obtain d0 r where g: "GetMonitor slug d = (d0, r)" by fastforce
  with assms obtain row where r: "r = Inr row" "\<not> mr_archived row" by (auto simp: OnKubeMonitorRemoved_def split: sum.splits if_splits)
  obtain c where c: "gm_get (db_monitors d) slug = Some c" "row = scanMonitor c" using GetMonitor_row g r(1) by blast
  then have a: "\<not> mr_archived c" using r(2) by (simp add: scanMonitor_sel)
  obtain u where s: "SoftDeleteMonitor slug reason d0 = (d1, Inr u)" and
    out: "out = [Removed (ms_slack_channel_slug row) row reason ''k8s ingress'']"
    using assms g r by (auto simp: OnKubeMonitorRemoved_def split: sum.splits if_splits prod.splits)
  have "db_monitors d0 = db_monitors d" by (rule db_data_sel(1) [OF GetMonitor_data [OF g]])
  with s c(1) have "\<exists>c1. gm_get (db_monitors d1) slug = Some c1 \<and> mr_archived c1 \<and> mr_archive_reason c1 = Some reason"
    unfolding SoftDeleteMonitor_def
    by (cases rule: db_call_elim) (auto dest!: db_data_sel(1) simp: update_monitor_get)
  with a c out show ?thesis by auto
qed

text \<open>C38: A monitor that leaves the cluster is announced once.  If its removal is announced at all, its row was active and is archived
  with the reason, and a later removal of the same monitor announces nothing, whatever fails then; the announcement is one warning to its
  channel, after the open thread, if there is one, was closed and its parent edited.\<close>

theorem removal_is_announced_once:
  assumes "OnKubeMonitorRemoved slug reason d = (d1, out)" "Removed channel row why source \<in> set out"
    and "db_data d2 = db_data d1" "nf_channels n channel = Some ch"
  shows "out = [Removed channel row why source] \<and> \<not> mr_archived row \<and>
    (\<exists>c1. gm_get (db_monitors d1) slug = Some c1 \<and> mr_archived c1 \<and> mr_archive_reason c1 = Some reason) \<and>
    snd (OnKubeMonitorRemoved slug again d2) = [] \<and>
    (\<exists>closing w. NotifyRemoved ct n channel (monitorViewFromRow tx row) why source = closing @ [Warn (chi_id ch) w] \<and>
      list_all is_close closing \<and> (closing = [] \<longleftrightarrow> mr_uptime_thread_ts row \<in> {None, Some []}))"
proof -
  have "out \<noteq> []" using assms(2) by auto
  from Removed_effect [OF assms(1) this] obtain c c1 where c: "gm_get (db_monitors d) slug = Some c" "\<not> mr_archived c"
    "out = [Removed (ms_slack_channel_slug (scanMonitor c)) (scanMonitor c) reason ''k8s ingress'']"
    "gm_get (db_monitors d1) slug = Some c1" "mr_archived c1" "mr_archive_reason c1 = Some reason" by blast
  have row: "row = scanMonitor c" "out = [Removed channel row why source]" using assms(2) c(3) by auto
  have "snd (OnKubeMonitorRemoved slug again d2) = []"
  proof (rule ccontr)
    assume "snd (OnKubeMonitorRemoved slug again d2) \<noteq> []"
    with Removed_effect [of slug again d2] obtain c2 where "gm_get (db_monitors d2) slug = Some c2" "\<not> mr_archived c2"
      by (metis prod.collapse)
    then show False using c(4,5) db_data_sel(1) [OF assms(3)] by simp
  qed
  moreover have "mv_uptime_thread_ts (monitorViewFromRow tx row) = [] \<longleftrightarrow> mr_uptime_thread_ts row \<in> {None, Some []}"
    by (auto simp: monitorViewFromRow_def Let_def split: option.splits)
  ultimately show ?thesis
    using NotifyRemoved_calls [OF assms(4), of ct "monitorViewFromRow tx row" why source] c row by (simp add: scanMonitor_sel)
qed

lemma removal_is_announced_once_witness:
  "let d = fst (ReconcileMonitor (sample_spec ''web'') (empty_db 0)); d1 = fst (OnKubeMonitorRemoved ''web'' ''ingress removed'' d) in
   snd (OnKubeMonitorRemoved ''web'' ''again'' d1) = []"
proof -
  define d where "d = fst (ReconcileMonitor (sample_spec ''web'') (empty_db 0))"
  define n where "n = \<lparr>nf_channels = (\<lambda>s. Some \<lparr>chi_id = ''C'', chi_token = ''t''\<rparr>), nf_dependents_max = 5, nf_public_base = [], nf_observer = False\<rparr>"
  obtain d1 out where r: "OnKubeMonitorRemoved ''web'' ''ingress removed'' d = (d1, out)" by fastforce
  have "(case snd (OnKubeMonitorRemoved ''web'' ''ingress removed'' d) of [Removed _ _ _ _] \<Rightarrow> True | _ \<Rightarrow> False)"
    unfolding d_def by code_simp
  then obtain c m w s where "out = [Removed c m w s]" using r by (auto split: list.splits removal.splits)
  then have "Removed c m w s \<in> set out" by simp
  from removal_is_announced_once [OF r this refl, of n "\<lparr>chi_id = ''C'', chi_token = ''t''\<rparr>" "''again''"]
  have "snd (OnKubeMonitorRemoved ''web'' ''again'' d1) = []" by (simp add: n_def)
  then show ?thesis by (simp add: Let_def d_def [symmetric] r)
qed

end
