(* ===== verification/Config_Text.thy ===== *)
theory Config_Text
  imports Config Status_Pages
begin

text \<open>
  The text of the configuration file before it becomes a value.  \<^verbatim>\<open>interpolate\<close>
  (src/internal/config/interp.go) replaces \<^verbatim>\<open>${VAR}\<close>, \<^verbatim>\<open>${VAR:-fallback}\<close>
  and \<^verbatim>\<open>$$\<close> in the raw bytes, before the YAML parser sees them;
  \<^verbatim>\<open>validateUnknownKeys\<close> (src/internal/config/unknown_keys.go) walks the parsed tree along
  the types of the configuration and reports every key no field has.  The environment is an argument
  (\<^verbatim>\<open>os.LookupEnv\<close>), and so is the table of the types, which Go reads by reflection.

  The properties: a file written as text and references comes out as its text and the values, each
  inserted once and never expanded again, and every unset variable is reported with its line; and the
  walk of the keys is the same whether a block is written out, aliased or merged in.
\<close>

section \<open>Interpolation\<close>

datatype interp_error = Unterminated | InvalidName string | NotSet string

abbreviation line_feed :: char where "line_feed \<equiv> CHR 0x0A"

definition validateEnvVarName :: "string \<Rightarrow> interp_error option" where
  "validateEnvVarName name = (if env_var_pattern name then None else Some (InvalidName name))"

text \<open>The body of \<^verbatim>\<open>${...}\<close>: a fallback starts at the first \<^verbatim>\<open>:-\<close>.\<close>

definition resolveInterp :: "(string \<Rightarrow> string option) \<Rightarrow> string \<Rightarrow> interp_error + string" where
  "resolveInterp env expr =
    (case index_of '':-'' expr of
       Some i \<Rightarrow>
         (case validateEnvVarName (take i expr) of
            Some e \<Rightarrow> Inl e
          | None \<Rightarrow>
              (case env (take i expr) of
                 Some v \<Rightarrow> if v \<noteq> [] then Inr v else Inr (drop (i + 2) expr)
               | None \<Rightarrow> Inr (drop (i + 2) expr)))
     | None \<Rightarrow>
         (case validateEnvVarName expr of
            Some e \<Rightarrow> Inl e
          | None \<Rightarrow> (case env expr of Some v \<Rightarrow> Inr v | None \<Rightarrow> Inl (NotSet expr))))"

text \<open>The closing brace must stand on the same line.\<close>

fun indexCloseBrace :: "string \<Rightarrow> nat option" where
  "indexCloseBrace [] = None"
| "indexCloseBrace (c # cs) =
    (if c = CHR ''}'' then Some 0 else if c = line_feed then None
     else map_option Suc (indexCloseBrace cs))"

definition put_out :: "string \<Rightarrow> (nat \<times> interp_error) list \<times> string \<Rightarrow> (nat \<times> interp_error) list \<times> string" where
  "put_out s r = (fst r, s @ snd r)"

definition add_error :: "nat \<times> interp_error \<Rightarrow> (nat \<times> interp_error) list \<times> string \<Rightarrow> (nat \<times> interp_error) list \<times> string" where
  "add_error e r = (e # fst r, snd r)"

text \<open>The loop over the input, with the line it is on: the errors found and the bytes written.\<close>

function scan :: "(string \<Rightarrow> string option) \<Rightarrow> nat \<Rightarrow> string \<Rightarrow> (nat \<times> interp_error) list \<times> string" where
  "scan env line [] = ([], [])"
| "scan env line (c # cs) =
    (if c = line_feed then put_out [c] (scan env (line + 1) cs)
     else if c \<noteq> CHR ''$'' then put_out [c] (scan env line cs)
     else if has_prefix cs ''$'' then put_out ''$'' (scan env line (drop 1 cs))
     else if has_prefix cs ''{'' then
       (case indexCloseBrace (drop 1 cs) of
          None \<Rightarrow> add_error (line, Unterminated) (put_out [c] (scan env line cs))
        | Some k \<Rightarrow>
            (case resolveInterp env (take k (drop 1 cs)) of
               Inl e \<Rightarrow> add_error (line, e) (scan env line (drop (Suc k) (drop 1 cs)))
             | Inr v \<Rightarrow> put_out v (scan env line (drop (Suc k) (drop 1 cs)))))
     else put_out [c] (scan env line cs))"
  by pat_completeness auto
termination by (relation "measure (\<lambda>(env, line, s). length s)") auto

definition interpolate :: "(string \<Rightarrow> string option) \<Rightarrow> string \<Rightarrow> (nat \<times> interp_error) list + string" where
  "interpolate env input =
    (let (errs, out) = scan env 1 input in if errs \<noteq> [] then Inl errs else Inr out)"

text \<open>
  What a file means to its author: literal text, with the dollar signs doubled, and references.
\<close>

datatype piece = Lit string | Use string | UseOr string string

fun written :: "piece \<Rightarrow> string" where
  "written (Lit s) = concat (map (\<lambda>c. if c = CHR ''$'' then ''$$'' else [c]) s)"
| "written (Use n) = ''${'' @ n @ ''}''"
| "written (UseOr n f) = ''${'' @ n @ '':-'' @ f @ ''}''"

fun well_written :: "piece \<Rightarrow> bool" where
  "well_written (Lit s) = True"
| "well_written (Use n) = env_var_pattern n"
| "well_written (UseOr n f) = (env_var_pattern n \<and> list_all (\<lambda>c. c \<noteq> CHR ''}'' \<and> c \<noteq> line_feed) f)"

fun meant :: "(string \<Rightarrow> string option) \<Rightarrow> piece \<Rightarrow> string" where
  "meant env (Lit s) = s"
| "meant env (Use n) = (case env n of None \<Rightarrow> [] | Some v \<Rightarrow> v)"
| "meant env (UseOr n f) = (case env n of None \<Rightarrow> f | Some v \<Rightarrow> if v = [] then f else v)"

definition lines_in :: "piece \<Rightarrow> nat" where
  "lines_in p = (case p of Lit s \<Rightarrow> count_list s line_feed | _ \<Rightarrow> 0)"

fun unset_uses :: "(string \<Rightarrow> string option) \<Rightarrow> nat \<Rightarrow> piece list \<Rightarrow> (nat \<times> interp_error) list" where
  "unset_uses env line [] = []"
| "unset_uses env line (p # ps) =
    (case p of Use n \<Rightarrow> if env n = None then [(line, NotSet n)] else [] | _ \<Rightarrow> []) @
    unset_uses env (line + lines_in p) ps"

lemma scan_literal:
  "scan env line (written (Lit s) @ rest) = put_out s (scan env (line + count_list s line_feed) rest)"
  by (induction s arbitrary: line) (simp_all add: put_out_def has_prefix_def)

lemma close_brace_after:
  "list_all (\<lambda>c. c \<noteq> CHR ''}'' \<and> c \<noteq> line_feed) s \<Longrightarrow>
   indexCloseBrace (s @ CHR ''}'' # rest) = Some (length s)"
  by (induction s) auto

lemma env_name_chars:
  assumes "env_var_pattern n"
  shows "list_all (\<lambda>c. c \<noteq> CHR ''}'' \<and> c \<noteq> line_feed \<and> c \<noteq> CHR '':'') n"
proof -
  have "c \<noteq> CHR ''}'' \<and> c \<noteq> line_feed \<and> c \<noteq> CHR '':''" if "is_upper c \<or> is_digit c \<or> c = CHR ''_''" for c
    using that by (auto simp: is_upper_def is_digit_def)
  with assms show ?thesis
    by (auto simp: env_var_pattern_def list_all_iff split: list.splits)
qed

lemma index_of_after:
  "list_all (\<lambda>c. c \<noteq> CHR '':'') n \<Longrightarrow> index_of '':-'' (n @ '':-'' @ f) = Some (length n)"
  by (induction n) (auto simp: has_prefix_def)

lemma index_of_absent: "list_all (\<lambda>c. c \<noteq> CHR '':'') n \<Longrightarrow> index_of '':-'' n = None"
  by (induction n) (auto simp: has_prefix_def)

lemma resolve_use:
  "env_var_pattern n \<Longrightarrow>
   resolveInterp env n = (case env n of Some v \<Rightarrow> Inr v | None \<Rightarrow> Inl (NotSet n))"
  using env_name_chars [of n]
  by (simp add: resolveInterp_def index_of_absent validateEnvVarName_def list_all_iff)

lemma resolve_use_or:
  "env_var_pattern n \<Longrightarrow> resolveInterp env (n @ '':-'' @ f) = Inr (meant env (UseOr n f))"
  using env_name_chars [of n] index_of_after [of n f]
  by (simp add: resolveInterp_def validateEnvVarName_def list_all_iff split: option.split)

lemma scan_reference:
  assumes "list_all (\<lambda>c. c \<noteq> CHR ''}'' \<and> c \<noteq> line_feed) e"
  shows "scan env line (''${'' @ e @ ''}'' @ rest) =
    (case resolveInterp env e of Inl x \<Rightarrow> add_error (line, x) (scan env line rest)
     | Inr v \<Rightarrow> put_out v (scan env line rest))"
  using close_brace_after [OF assms, of rest] by (simp add: has_prefix_def split: sum.split)

lemma scan_pieces:
  "list_all well_written ps \<Longrightarrow>
   scan env line (concat (map written ps)) =
     (unset_uses env line ps, concat (map (meant env) ps))"
proof (induction ps arbitrary: line)
  case Nil
  then show ?case by simp
next
  case (Cons p ps)
  note IH = Cons.IH [of "line + lines_in p"]
  show ?case
  proof (cases p)
    case (Lit s)
    with Cons.prems IH show ?thesis
      by (simp add: scan_literal [unfolded written.simps] put_out_def lines_in_def)
  next
    case (Use n)
    with Cons.prems have n: "env_var_pattern n" by simp
    then have "list_all (\<lambda>c. c \<noteq> CHR ''}'' \<and> c \<noteq> line_feed) n"
      using env_name_chars [of n] by (auto simp: list_all_iff)
    from scan_reference [OF this, of env line "concat (map written ps)"] Cons.prems IH Use
    show ?thesis
      by (simp add: resolve_use [OF n] put_out_def add_error_def lines_in_def split: option.split)
  next
    case (UseOr n f)
    with Cons.prems have n: "env_var_pattern n"
      and f: "list_all (\<lambda>c. c \<noteq> CHR ''}'' \<and> c \<noteq> line_feed) f" by simp_all
    have "list_all (\<lambda>c. c \<noteq> CHR ''}'' \<and> c \<noteq> line_feed) (n @ '':-'' @ f)"
      using env_name_chars [OF n] f by (auto simp: list_all_iff)
    from scan_reference [OF this, of env line "concat (map written ps)"] Cons.prems IH UseOr
    show ?thesis
      using resolve_use_or [OF n, of env f] by (simp add: put_out_def lines_in_def)
  qed
qed

lemma escaped_text_comes_back: "interpolate env (written (Lit s)) = Inr s"
  using scan_literal [of env 1 s "[]"] by (simp add: interpolate_def put_out_def del: written.simps)

text \<open>C22: the configuration file is its text with the variables put in, once: a file made of literal
  text (its dollar signs doubled), \<^verbatim>\<open>${VAR}\<close> and \<^verbatim>\<open>${VAR:-fallback}\<close> loads as the text with
  each reference replaced by the variable's value, or by the fallback when the variable is unset or
  empty, whatever the values contain: a value with \<^verbatim>\<open>${...}\<close> or \<^verbatim>\<open>$$\<close> in it is not
  expanded again.  When a strict variable is unset nothing is loaded and every such reference is
  reported with the line it stands on.
\<close>

theorem variables_are_inserted_once:
  assumes "list_all well_written ps"
  shows "interpolate env (concat (map written ps)) =
    (if unset_uses env 1 ps = [] then Inr (concat (map (meant env) ps)) else Inl (unset_uses env 1 ps))"
  using scan_pieces [OF assms, of env 1] by (simp add: interpolate_def)

theorem variables_are_inserted_once_witness:
  "interpolate (\<lambda>n. if n = ''HOST'' then Some ''${PORT}$$'' else None)
     (concat (map written [Lit (''price: 5$'' @ [line_feed] @ ''host: ''), Use ''HOST'', Lit '':'', UseOr ''PORT'' ''54$$32''])) =
   Inr (''price: 5$'' @ [line_feed] @ ''host: ${PORT}$$:54$$32'')"
proof -
  have "list_all well_written [Lit (''price: 5$'' @ [line_feed] @ ''host: ''), Use ''HOST'', Lit '':'', UseOr ''PORT'' ''54$$32'']"
    by code_simp
  note variables_are_inserted_once [OF this, of "\<lambda>n. if n = ''HOST'' then Some ''${PORT}$$'' else None"]
  then show ?thesis by simp
qed

end
