(* ===== verification/Config_Keys.thy ===== *)
theory Config_Keys
  imports Config_Text
begin

text \<open>
  The check for unknown keys (src/internal/config/unknown_keys.go) and the set of the fields a kube
  block spells out (\<^verbatim>\<open>collectMappingKeys\<close>, src/internal/config/config.go).  The YAML tree is the
  one the parser hands over: mappings keep their pairs in order, an alias is a node of its own over
  the node it names.  The shapes are the types of the configuration structs, with pointers already
  followed; the table below is their yaml tags.

  The property: the walk reports exactly the keys no field has, at every place a struct is decoded
  from, and a file with its aliases and merges written out gets the same report.
\<close>

section \<open>The YAML tree and the types of the configuration\<close>

datatype ynode =
    YScalar nat string
  | YMap "(ynode \<times> ynode) list"
  | YSeq "ynode list"
  | YAlias ynode

datatype shape = Struct string | SliceOf shape | MapOf shape | Leaf

type_synonym struct_table = "string \<Rightarrow> (string \<times> shape) list"

definition leaves :: "string list \<Rightarrow> (string \<times> shape) list" where
  "leaves ks = map (\<lambda>k. (k, Leaf)) ks"

abbreviation strings :: shape where "strings \<equiv> SliceOf Leaf"

definition process_types :: "(string \<times> (string \<times> shape) list) list" where
  "process_types =
    [(''Config'',
        leaves [''displayTimezone'', ''publicBaseURL'', ''dbBodyMaxChars''] @
        [(''database'', Struct ''Database''), (''ui'', Struct ''UI''), (''httpClient'', Struct ''HTTPClient''),
         (''heartbeat'', Struct ''Heartbeat''), (''kube'', Struct ''Kube''), (''sentry'', Struct ''Sentry''),
         (''slack'', Struct ''Slack''), (''selfHealth'', Struct ''SelfHealth''),
         (''alertmanager'', Struct ''AlertmanagerConfig''), (''proxies'', SliceOf (Struct ''Proxy'')),
         (''monitors'', SliceOf (Struct ''Monitor'')), (''smtpMonitors'', SliceOf (Struct ''SMTPMonitor'')),
         (''statusPages'', SliceOf (Struct ''StatusPage''))]),
     (''Proxy'', leaves [''slug'', ''protocol'', ''server'', ''port'', ''username'', ''passwordEnv'']),
     (''Heartbeat'', leaves [''url'', ''interval'', ''failOnStalledWorker'']),
     (''Sentry'', leaves [''enabled'', ''dsnEnv'', ''environment'', ''sampleRate'', ''tracesSampleRate'', ''serverName'']),
     (''Database'', leaves [''host'', ''port'', ''user'', ''name'', ''sslMode'', ''passwordEnv'']),
     (''UI'', [(''pageSize'', Struct ''PageSize''), (''maxPerPage'', Leaf)]),
     (''PageSize'', leaves [''homepageAlerts'', ''monitorListing'', ''monitorHistory'', ''discoveryListing'']),
     (''HTTPClient'', leaves [''userAgent''])]"

definition kube_types :: "(string \<times> (string \<times> shape) list) list" where
  "kube_types =
    [(''Kube'', [(''resyncInterval'', Leaf), (''match'', SliceOf (Struct ''KubeMatchRule'')),
                 (''watchDebounce'', Leaf), (''friendlyName'', Leaf)]),
     (''KubeMatchRule'', [(''when'', Struct ''KubeMatchWhen''), (''ignore'', Leaf), (''final'', Leaf),
                          (''config'', Struct ''KubeConfig''), (''nested'', SliceOf (Struct ''KubeMatchRule''))]),
     (''KubeMatchWhen'', leaves [''namespace'', ''namespaceRegex'', ''host'', ''hostRegex''] @
        map (\<lambda>k. (k, MapOf Leaf)) [''labels'', ''annotations'', ''namespaceAnnotations'']),
     (''KubeConfig'',
        leaves [''scheme'', ''path'', ''httpMethod''] @ [(''acceptedStatusCodes'', SliceOf Leaf)] @
        leaves [''interval'', ''timeout'', ''retries'', ''retryBackoff'', ''followRedirects'', ''tlsInsecureSkipVerify'',
                ''proxy'', ''reminderInterval'', ''sslAlertThreshold'', ''sslEscalationThreshold'', ''sslReminderInterval'',
                ''slack''] @
        [(''notify'', Struct ''NotifyList''), (''tags'', Struct ''TagList''), (''dependsOn'', Struct ''DependsOnList'')] @
        map (\<lambda>k. (k, Struct ''ValueSource''))
          [''pathFrom'', ''slackFrom'', ''notifyFrom'', ''notifyOverrideFrom'', ''tagsFrom'', ''tagsOverrideFrom'',
           ''acceptedStatusCodesFrom'']),
     (''ValueSource'', leaves [''annotation'', ''namespaceAnnotation'', ''namespaceLabel'', ''default'']),
     (''NotifyList'', []), (''TagList'', []), (''DependsOnList'', [])]"

definition slack_types :: "(string \<times> (string \<times> shape) list) list" where
  "slack_types =
    [(''Slack'', [(''bodyMaxChars'', Leaf), (''dependentsNoteMax'', Leaf), (''channels'', SliceOf (Struct ''SlackChannel'')),
                  (''userMapping'', MapOf Leaf), (''coalesce'', Struct ''Coalesce'')]),
     (''Coalesce'', leaves [''pendingWait'', ''groupWait'', ''groupInterval'', ''repeatInterval'', ''burstThreshold'',
                            ''burstWindow'', ''groupMention'', ''onDemandProbeTimeout'']),
     (''SelfHealth'', leaves [''window'', ''minMonitors'', ''channel'', ''mention'']),
     (''SlackChannel'', leaves [''slug'', ''channelId'', ''tokenEnv''])]"

definition alertmanager_types :: "(string \<times> (string \<times> shape) list) list" where
  "alertmanager_types =
    [(''AlertmanagerConfig'', [(''endpoint'', Struct ''AlertmanagerEndpoint''), (''retentionDays'', Leaf),
        (''rateLimit'', Struct ''AlertmanagerRateLimit''), (''match'', SliceOf (Struct ''AlertmanagerMatchRule''))]),
     (''AlertmanagerEndpoint'', leaves [''path'', ''tokenEnv'']),
     (''AlertmanagerRateLimit'', leaves [''perChannel'', ''window'', ''noticeEvery'']),
     (''AlertmanagerMatchRule'', [(''when'', Struct ''AlertmanagerMatchWhen''), (''ignore'', Leaf), (''final'', Leaf),
        (''config'', Struct ''AlertmanagerMatchConfig''), (''nested'', SliceOf (Struct ''AlertmanagerMatchRule''))]),
     (''AlertmanagerMatchWhen'', leaves [''alertname'', ''alertnameRegex''] @ [(''labels'', MapOf Leaf)] @
        leaves [''receiver'', ''externalURL'']),
     (''AlertmanagerMatchConfig'', [(''slack'', Leaf), (''notify'', Struct ''NotifyList''),
        (''slackFrom'', Struct ''ValueSource''), (''notifyFrom'', Struct ''ValueSource''),
        (''notifyOverrideFrom'', Struct ''ValueSource'')])]"

definition monitor_types :: "(string \<times> (string \<times> shape) list) list" where
  "monitor_types =
    [(''Monitor'',
        leaves [''slug'', ''friendlyName'', ''url'', ''httpMethod''] @ [(''acceptedStatusCodes'', SliceOf Leaf)] @
        leaves [''interval'', ''timeout'', ''retries'', ''retryBackoff'', ''followRedirects'', ''tlsInsecureSkipVerify'',
                ''proxy'', ''reminderInterval'', ''slack''] @
        [(''notify'', strings), (''dependsOn'', strings), (''tags'', strings)] @
        leaves [''critical'', ''sslAlertThreshold'', ''sslEscalationThreshold'', ''sslReminderInterval'']),
     (''SMTPMonitor'',
        leaves [''slug'', ''friendlyName'', ''host'', ''port'', ''tls'', ''ehloName'', ''interval'', ''timeout'', ''retries'',
                ''retryBackoff'', ''tlsInsecureSkipVerify'', ''proxy'', ''reminderInterval'', ''slack''] @
        [(''notify'', strings), (''dependsOn'', strings), (''tags'', strings)] @
        leaves [''critical'', ''sslAlertThreshold'', ''sslEscalationThreshold'', ''sslReminderInterval'']),
     (''StatusPage'', leaves [''slug'', ''friendlyName'', ''description'', ''logoUrl'', ''color''] @
        [(''sections'', SliceOf (Struct ''StatusPageSection''))]),
     (''StatusPageSection'', [(''title'', Leaf), (''match'', Struct ''SectionMatch'')]),
     (''SectionMatch'', [(''tags'', strings), (''hostRegex'', Leaf), (''any'', SliceOf (Struct ''SectionMatch'')),
        (''all'', SliceOf (Struct ''SectionMatch''))])]"

definition config_types :: struct_table where
  "config_types s = (case map_of (process_types @ kube_types @ slack_types @ alertmanager_types @ monitor_types) s of
     None \<Rightarrow> [] | Some fs \<Rightarrow> fs)"

section \<open>The walk\<close>

definition allowedKeysFor :: "struct_table \<Rightarrow> string \<Rightarrow> string list" where
  "allowedKeysFor T s = sort_strings (map fst (T s))"

definition fieldTypeForKey :: "struct_table \<Rightarrow> string \<Rightarrow> string \<Rightarrow> shape option" where
  "fieldTypeForKey T s key = map_of (T s) key"

text \<open>An error: the line of the key, the path of its mapping, the key and the keys allowed there.\<close>

type_synonym key_error = "nat \<times> string list \<times> string \<times> string list"

definition key_text :: "ynode \<Rightarrow> string" where
  "key_text n = (case n of YScalar l v \<Rightarrow> v | _ \<Rightarrow> [])"

definition merge_key :: string where "merge_key = ''<<''"

definition escape_hatch :: "string \<Rightarrow> string \<Rightarrow> bool" where
  "escape_hatch s key \<longleftrightarrow> s = ''Config'' \<and> has_prefix key ''x-''"

lemma entry_smaller: "(k, v) \<in> set ps \<Longrightarrow> size v < size (YMap ps)"
  by (induction ps) auto

lemma item_smaller: "m \<in> set ns \<Longrightarrow> size m < size (YSeq ns)"
  by (induction ns) auto

lemma enumerated: "(i, m) \<in> set (enumerate j ns) \<Longrightarrow> m \<in> set ns"
  by (simp add: enumerate_eq_zip set_zip_rightD)

function walkUnknownKeys :: "struct_table \<Rightarrow> shape \<Rightarrow> string list \<Rightarrow> ynode \<Rightarrow> key_error list"
  and walkUnknownKeysMapping :: "struct_table \<Rightarrow> string \<Rightarrow> string list \<Rightarrow> (ynode \<times> ynode) list \<Rightarrow> key_error list"
  and walkMergedMapping :: "struct_table \<Rightarrow> string \<Rightarrow> string list \<Rightarrow> ynode \<Rightarrow> key_error list" where
  "walkUnknownKeys T sh path n =
    (case n of
       YAlias m \<Rightarrow> walkUnknownKeys T sh path m
     | YScalar l v \<Rightarrow> []
     | YMap ps \<Rightarrow>
         (case sh of
            Struct s \<Rightarrow> walkUnknownKeysMapping T s path ps
          | MapOf e \<Rightarrow> concat (map (\<lambda>(k, v). walkUnknownKeys T e (path @ [key_text k]) v) ps)
          | _ \<Rightarrow> [])
     | YSeq ns \<Rightarrow>
         (case sh of
            SliceOf e \<Rightarrow> concat (map (\<lambda>(i, m). walkUnknownKeys T e (path @ [index i]) m) (enumerate 0 ns))
          | _ \<Rightarrow> []))"
| "walkUnknownKeysMapping T s path ps =
    concat (map (\<lambda>(k, v).
      case k of
        YScalar l key \<Rightarrow>
          (if key = merge_key then walkMergedMapping T s path v
           else if escape_hatch s key then []
           else if key \<notin> set (allowedKeysFor T s) then [(l, path, key, allowedKeysFor T s)]
           else (case fieldTypeForKey T s key of None \<Rightarrow> []
                 | Some f \<Rightarrow> walkUnknownKeys T f (path @ [key]) v))
      | _ \<Rightarrow> []) ps)"
| "walkMergedMapping T s path n =
    (case n of
       YAlias m \<Rightarrow> walkMergedMapping T s path m
     | YSeq ns \<Rightarrow> concat (map (walkMergedMapping T s path) ns)
     | YMap ps \<Rightarrow> walkUnknownKeysMapping T s path ps
     | YScalar l v \<Rightarrow> [])"

  by pat_completeness auto
termination
proof (relation "measure (\<lambda>x. case x of Inl (_, _, _, n) \<Rightarrow> 2 * size n + 1
    | Inr (Inl (_, _, _, ps)) \<Rightarrow> 2 * size (YMap ps) | Inr (Inr (_, _, _, n)) \<Rightarrow> 2 * size n + 1)", goal_cases)
qed (auto dest!: entry_smaller item_smaller enumerated)

declare walkUnknownKeys.simps [simp del] walkUnknownKeysMapping.simps [simp del] walkMergedMapping.simps [simp del]

lemma walk_simps [simp]:
  "walkUnknownKeys T sh p (YAlias m) = walkUnknownKeys T sh p m"
  "walkUnknownKeys T sh p (YScalar l v) = []"
  "walkUnknownKeys T (Struct s) p (YMap ps) = walkUnknownKeysMapping T s p ps"
  "walkUnknownKeys T (MapOf e) p (YMap ps) = concat (map (\<lambda>(k, v). walkUnknownKeys T e (p @ [key_text k]) v) ps)"
  "walkUnknownKeys T (SliceOf e) p (YMap ps) = []"
  "walkUnknownKeys T Leaf p n = []"
  "walkUnknownKeys T (SliceOf e) p (YSeq ns) =
     concat (map (\<lambda>(i, m). walkUnknownKeys T e (p @ [index i]) m) (enumerate 0 ns))"
  "walkUnknownKeys T (MapOf e) p (YSeq ns) = []"
  "walkUnknownKeys T (Struct s) p (YSeq ns) = []"
proof -
  show "walkUnknownKeys T Leaf p n = []"
    by (induction n) (subst walkUnknownKeys.simps; simp)+
qed (subst walkUnknownKeys.simps; simp)+

lemma walk_merged_simps [simp]:
  "walkMergedMapping T s p (YAlias m) = walkMergedMapping T s p m"
  "walkMergedMapping T s p (YSeq ns) = concat (map (walkMergedMapping T s p) ns)"
  "walkMergedMapping T s p (YMap ps) = walkUnknownKeysMapping T s p ps"
  "walkMergedMapping T s p (YScalar l v) = []"
  by (subst walkMergedMapping.simps; simp)+

lemma walk_mapping_Nil [simp]: "walkUnknownKeysMapping T s p [] = []"
  by (simp add: walkUnknownKeysMapping.simps)

lemma walk_mapping_append [simp]:
  "walkUnknownKeysMapping T s p (ps @ qs) = walkUnknownKeysMapping T s p ps @ walkUnknownKeysMapping T s p qs"
  by (simp add: walkUnknownKeysMapping.simps)

lemma walk_mapping_Cons [simp]:
  "walkUnknownKeysMapping T s p ((k, v) # ps) =
    (case k of
       YScalar l key \<Rightarrow>
         (if key = merge_key then walkMergedMapping T s p v
          else if escape_hatch s key then []
          else if key \<notin> set (allowedKeysFor T s) then [(l, p, key, allowedKeysFor T s)]
          else (case fieldTypeForKey T s key of None \<Rightarrow> []
                | Some f \<Rightarrow> walkUnknownKeys T f (p @ [key]) v))
     | _ \<Rightarrow> []) @ walkUnknownKeysMapping T s p ps"
  by (simp add: walkUnknownKeysMapping.simps)

definition validateUnknownKeys :: "ynode option \<Rightarrow> key_error list" where
  "validateUnknownKeys r = (case r of None \<Rightarrow> [] | Some n \<Rightarrow> walkUnknownKeys config_types (Struct ''Config'') [] n)"

section \<open>Where the decoder reads a struct\<close>

text \<open>The mappings a merge key brings in.\<close>

fun merged_blocks :: "ynode \<Rightarrow> (ynode \<times> ynode) list list" where
  "merged_blocks (YAlias n) = merged_blocks n"
| "merged_blocks (YSeq ns) = concat (map merged_blocks ns)"
| "merged_blocks (YMap ps) = [ps]"
| "merged_blocks (YScalar l v) = []"

text \<open>
  Reading a node as a value of some shape reads, at a path below it, these pairs as the fields of a
  struct.
\<close>

inductive read_at :: "struct_table \<Rightarrow> shape \<Rightarrow> string list \<Rightarrow> ynode \<Rightarrow> string list \<Rightarrow> string \<Rightarrow> (ynode \<times> ynode) list \<Rightarrow> bool"
  for T :: struct_table where
  here: "read_at T (Struct s) p (YMap ps) p s ps"
| aliased: "read_at T sh p n q s ps \<Longrightarrow> read_at T sh p (YAlias n) q s ps"
| field: "(YScalar l key, v) \<in> set ps0 \<Longrightarrow> key \<noteq> merge_key \<Longrightarrow> \<not> escape_hatch s0 key \<Longrightarrow>
    fieldTypeForKey T s0 key = Some f \<Longrightarrow> read_at T f (p @ [key]) v q s ps \<Longrightarrow>
    read_at T (Struct s0) p (YMap ps0) q s ps"
| merge: "(YScalar l merge_key, v) \<in> set ps0 \<Longrightarrow> m \<in> set (merged_blocks v) \<Longrightarrow>
    read_at T (Struct s0) p (YMap m) q s ps \<Longrightarrow> read_at T (Struct s0) p (YMap ps0) q s ps"
| entry: "(k, v) \<in> set ps0 \<Longrightarrow> read_at T e (p @ [key_text k]) v q s ps \<Longrightarrow>
    read_at T (MapOf e) p (YMap ps0) q s ps"
| item: "i < length ns \<Longrightarrow> read_at T e (p @ [index i]) (ns ! i) q s ps \<Longrightarrow>
    read_at T (SliceOf e) p (YSeq ns) q s ps"

definition unknown_in :: "struct_table \<Rightarrow> string \<Rightarrow> (ynode \<times> ynode) list \<Rightarrow> nat \<Rightarrow> string \<Rightarrow> bool" where
  "unknown_in T s ps l key \<longleftrightarrow> (\<exists>v. (YScalar l key, v) \<in> set ps) \<and> key \<noteq> merge_key \<and>
     \<not> escape_hatch s key \<and> key \<notin> fst ` set (T s)"

definition unknown_keys :: "struct_table \<Rightarrow> shape \<Rightarrow> string list \<Rightarrow> ynode \<Rightarrow> key_error set" where
  "unknown_keys T sh p n =
    {(l, q, key, allowedKeysFor T s) | l q key s. \<exists>ps. read_at T sh p n q s ps \<and> unknown_in T s ps l key}"

lemma set_allowed [simp]: "set (allowedKeysFor T s) = fst ` set (T s)"
  by (simp add: allowedKeysFor_def sort_strings_def)

lemma field_of_allowed: "key \<in> fst ` set (T s) \<Longrightarrow> \<exists>f. fieldTypeForKey T s key = Some f"
  by (auto simp: fieldTypeForKey_def image_iff weak_map_of_SomeI)

lemma field_is_allowed: "fieldTypeForKey T s key = Some f \<Longrightarrow> key \<in> fst ` set (T s)"
  by (force simp: fieldTypeForKey_def dest: map_of_SomeD)

lemma unknown_here: "unknown_in T s ps l key \<Longrightarrow> (l, p, key, allowedKeysFor T s) \<in> unknown_keys T (Struct s) p (YMap ps)"
  unfolding unknown_keys_def using read_at.here by fastforce

lemma unknown_alias: "unknown_keys T sh p n \<subseteq> unknown_keys T sh p (YAlias n)"
  unfolding unknown_keys_def using read_at.aliased by fastforce

lemma unknown_field:
  assumes "(YScalar l key, v) \<in> set ps" "key \<noteq> merge_key" "\<not> escape_hatch s key"
    and "fieldTypeForKey T s key = Some f"
  shows "unknown_keys T f (p @ [key]) v \<subseteq> unknown_keys T (Struct s) p (YMap ps)"
  unfolding unknown_keys_def using read_at.field [OF assms] by fastforce

lemma unknown_merge:
  assumes "(YScalar l merge_key, v) \<in> set ps" "m \<in> set (merged_blocks v)"
  shows "unknown_keys T (Struct s) p (YMap m) \<subseteq> unknown_keys T (Struct s) p (YMap ps)"
  unfolding unknown_keys_def using read_at.merge [OF assms] by fastforce

lemma unknown_entry:
  "(k, v) \<in> set ps \<Longrightarrow> unknown_keys T e (p @ [key_text k]) v \<subseteq> unknown_keys T (MapOf e) p (YMap ps)"
  unfolding unknown_keys_def using read_at.entry by fastforce

lemma unknown_item:
  "i < length ns \<Longrightarrow> unknown_keys T e (p @ [index i]) (ns ! i) \<subseteq> unknown_keys T (SliceOf e) p (YSeq ns)"
  unfolding unknown_keys_def using read_at.item by fastforce

text \<open>What the walk reports is there.\<close>

lemma concat_pairs_subset:
  "(\<And>k v. (k, v) \<in> set ps \<Longrightarrow> set (g k v) \<subseteq> X) \<Longrightarrow> set (concat (map (\<lambda>(k, v). g k v) ps)) \<subseteq> X"
  by fastforce

lemma walk_sound:
  "set (walkUnknownKeys T sh p n) \<subseteq> unknown_keys T sh p n"
  "set (walkUnknownKeysMapping T s p ps) \<subseteq> unknown_keys T (Struct s) p (YMap ps)"
  "set (walkMergedMapping T s p n) \<subseteq> (\<Union>m \<in> set (merged_blocks n). unknown_keys T (Struct s) p (YMap m))"
proof (induction T sh p n and T s p ps and T s p n
    rule: walkUnknownKeys_walkUnknownKeysMapping_walkMergedMapping.induct)
  case (1 T sh p n)
  show ?case
  proof (cases n)
    case (YMap ps)
    then show ?thesis
      using 1(1) [OF YMap] 1(2) [OF YMap] unknown_entry by (cases sh) fastforce+
  next
    case (YSeq ns)
    then show ?thesis
      using 1(3) [OF YSeq] unknown_item
      by (cases sh) (fastforce simp: in_set_enumerate_eq)+
  next
    case (YAlias m)
    then show ?thesis using 1(4) [OF YAlias] unknown_alias by fastforce
  qed simp
next
  case (2 T s p ps)
  have "set (case k of YScalar l key \<Rightarrow>
        (if key = merge_key then walkMergedMapping T s p v
         else if escape_hatch s key then []
         else if key \<notin> set (allowedKeysFor T s) then [(l, p, key, allowedKeysFor T s)]
         else (case fieldTypeForKey T s key of None \<Rightarrow> [] | Some f \<Rightarrow> walkUnknownKeys T f (p @ [key]) v))
      | _ \<Rightarrow> []) \<subseteq> unknown_keys T (Struct s) p (YMap ps)" if m: "(k, v) \<in> set ps" for k v
  proof (cases k)
    case (YScalar l key)
    consider "key = merge_key" | "key \<noteq> merge_key" "escape_hatch s key"
      | "key \<noteq> merge_key" "\<not> escape_hatch s key" "key \<notin> fst ` set (T s)"
      | f where "key \<noteq> merge_key" "\<not> escape_hatch s key" "fieldTypeForKey T s key = Some f"
      using field_of_allowed [of key T s] by blast
    then show ?thesis
    proof cases
      case 1
      then show ?thesis
        using 2(1) [OF m refl YScalar 1] unknown_merge [of l v ps] m YScalar by fastforce
    next
      case 3
      then have "unknown_in T s ps l key" using m YScalar by (auto simp: unknown_in_def)
      then show ?thesis using unknown_here [of T s ps l key p] 3 YScalar by simp
    next
      case 4
      then show ?thesis
        using 2(2) [OF m refl YScalar] unknown_field [OF _ 4, of l v ps p] m YScalar
          field_is_allowed [of T s key f] by simp
    qed (simp add: YScalar)
  qed simp_all
  then show ?case unfolding walkUnknownKeysMapping.simps [of T s p ps] by (rule concat_pairs_subset)
next
  case (3 T s p n)
  then show ?case by (cases n) fastforce+
qed

text \<open>What is there is reported.\<close>

lemma walk_pairs_reports:
  "unknown_in T s ps l key \<Longrightarrow> (l, p, key, allowedKeysFor T s) \<in> set (walkUnknownKeysMapping T s p ps)"
proof (induction ps)
  case Nil
  then show ?case by (simp add: unknown_in_def)
next
  case (Cons kv ps)
  then show ?case by (cases kv) (auto simp: unknown_in_def)
qed

lemma walk_pairs_enters:
  assumes "(YScalar l key, v) \<in> set ps" "key \<noteq> merge_key" "\<not> escape_hatch s key"
    and "fieldTypeForKey T s key = Some f"
  shows "set (walkUnknownKeys T f (p @ [key]) v) \<subseteq> set (walkUnknownKeysMapping T s p ps)"
  using assms(1)
proof (induction ps)
  case (Cons kv ps)
  show ?case
  proof (cases "kv = (YScalar l key, v)")
    case True
    then show ?thesis using assms(2,3,4) field_is_allowed [OF assms(4)] by simp
  next
    case False
    with Cons show ?thesis by (cases kv) auto
  qed
qed simp

lemma walk_pairs_merges:
  "(YScalar l merge_key, v) \<in> set ps \<Longrightarrow> set (walkMergedMapping T s p v) \<subseteq> set (walkUnknownKeysMapping T s p ps)"
proof (induction ps)
  case (Cons kv ps)
  then show ?case by (cases kv) auto
qed simp

lemma walk_merged_blocks:
  "m \<in> set (merged_blocks n) \<Longrightarrow> set (walkUnknownKeysMapping T s p m) \<subseteq> set (walkMergedMapping T s p n)"
proof (induction n)
  case (YSeq ns)
  then show ?case by fastforce
qed auto

lemma walk_complete:
  "read_at T sh p n q s ps \<Longrightarrow> unknown_in T s ps l key \<Longrightarrow>
   (l, q, key, allowedKeysFor T s) \<in> set (walkUnknownKeys T sh p n)"
proof (induction rule: read_at.induct)
  case (here s p ps)
  then show ?case using walk_pairs_reports [of T s ps l key p] by simp
next
  case (field l' k v ps0 s0 f p q s ps)
  then show ?case using walk_pairs_enters [OF field(1-4), of p] by auto
next
  case (merge l' v ps0 m s0 p q s ps)
  then show ?case
    using walk_pairs_merges [OF merge(1), of T s0 p] walk_merged_blocks [OF merge(2), of T s0 p] by auto
next
  case (entry k v ps0 e p q s ps)
  then show ?case by fastforce
next
  case (item i ns e p q s ps)
  then have "(i, ns ! i) \<in> set (enumerate 0 ns)" by (simp add: in_set_enumerate_eq)
  with item show ?case by fastforce
qed simp

lemma walk_reports_exactly: "set (walkUnknownKeys T sh p n) = unknown_keys T sh p n"
  using walk_sound(1) [of T sh p n] walk_complete [of T sh p n] by (auto simp: unknown_keys_def)

section \<open>A file written out\<close>

text \<open>Every alias replaced with what it names, every merge key with the pairs it brings in.\<close>

fun spell_out :: "ynode \<Rightarrow> ynode"
  and spell_pairs :: "(ynode \<times> ynode) list \<Rightarrow> (ynode \<times> ynode) list"
  and spell_merged :: "ynode \<Rightarrow> (ynode \<times> ynode) list" where
  "spell_out (YAlias n) = spell_out n"
| "spell_out (YScalar l v) = YScalar l v"
| "spell_out (YMap ps) = YMap (spell_pairs ps)"
| "spell_out (YSeq ns) = YSeq (map spell_out ns)"
| "spell_pairs [] = []"
| "spell_pairs ((k, v) # ps) =
    (if \<exists>l. k = YScalar l merge_key then spell_merged v else [(k, spell_out v)]) @ spell_pairs ps"
| "spell_merged (YAlias n) = spell_merged n"
| "spell_merged (YSeq ns) = concat (map spell_merged ns)"
| "spell_merged (YMap ps) = spell_pairs ps"
| "spell_merged (YScalar l v) = []"

text \<open>
  Maps of the configuration hold plain values, so a merge key inside one is a key like any other and
  nothing below it is checked.
\<close>

fun plain_maps :: "shape \<Rightarrow> bool" where
  "plain_maps (MapOf e) = (e = Leaf)"
| "plain_maps (SliceOf e) = plain_maps e"
| "plain_maps _ = True"

definition plain_table :: "struct_table \<Rightarrow> bool" where
  "plain_table T \<longleftrightarrow> (\<forall>s key f. fieldTypeForKey T s key = Some f \<longrightarrow> plain_maps f)"

lemma concat_no_pairs [simp]: "concat (map (\<lambda>(k, v). []) ps) = []"
  by (induction ps) auto

lemma map_spelled [simp]: "enumerate i (map f ns) = map (\<lambda>(j, n). (j, f n)) (enumerate i ns)"
  by (induction ns arbitrary: i) simp_all

lemma walk_spelled_out:
  "plain_table T \<Longrightarrow> plain_maps sh \<Longrightarrow> walkUnknownKeys T sh p (spell_out n) = walkUnknownKeys T sh p n"
  "plain_table T \<Longrightarrow> walkUnknownKeysMapping T s p (spell_pairs ps) = walkUnknownKeysMapping T s p ps"
  "plain_table T \<Longrightarrow> walkUnknownKeysMapping T s p (spell_merged n) = walkMergedMapping T s p n"
proof (induction n and ps and n arbitrary: sh p and s p and s p rule: spell_out_spell_pairs_spell_merged.induct)
  case (3 ps)
  then show ?case by (cases sh) auto
next
  case (4 ns)
  then show ?case
    by (cases sh) (auto intro!: arg_cong [where f = concat] dest!: enumerated simp: comp_def)
next
  case (6 k v ps)
  show ?case
  proof (cases "\<exists>l. k = YScalar l merge_key")
    case True
    with 6 show ?thesis by auto
  next
    case False
    with 6 show ?thesis
      by (cases k) (auto simp: plain_table_def split: option.split)
  qed
next
  case (8 ns)
  have "walkUnknownKeysMapping T s p (concat (map spell_merged ms)) = concat (map (walkMergedMapping T s p) ms)"
    if "set ms \<subseteq> set ns" for ms
    using that 8 by (induction ms) auto
  then show ?case by simp
qed auto

lemma config_tables_plain:
  "list_all (\<lambda>(s, fs). list_all (\<lambda>(k, f). plain_maps f) fs)
     (process_types @ kube_types @ slack_types @ alertmanager_types @ monitor_types)"
  by code_simp

lemma config_types_plain: "plain_table config_types"
  unfolding plain_table_def fieldTypeForKey_def config_types_def
  using config_tables_plain by (fastforce simp: list_all_iff split: option.splits dest: map_of_SomeD)

fun no_shorthand :: "ynode \<Rightarrow> bool" where
  "no_shorthand (YAlias n) = False"
| "no_shorthand (YScalar l v) = True"
| "no_shorthand (YMap ps) = (\<forall>(k, v) \<in> set ps. key_text k \<noteq> merge_key \<and> no_shorthand v)"
| "no_shorthand (YSeq ns) = (\<forall>n \<in> set ns. no_shorthand n)"

lemma spelled_out_has_no_shorthand:
  "no_shorthand (spell_out n)"
  "\<forall>(k, v) \<in> set (spell_pairs ps). key_text k \<noteq> merge_key \<and> no_shorthand v"
  "\<forall>(k, v) \<in> set (spell_merged n). key_text k \<noteq> merge_key \<and> no_shorthand v"
proof (induction n and ps and n rule: spell_out_spell_pairs_spell_merged.induct)
  case (6 k v ps)
  have "key_text k \<noteq> merge_key" if "\<nexists>l. k = YScalar l merge_key"
    using that by (cases k) (auto simp: key_text_def merge_key_def)
  with 6 show ?case by auto
qed auto

text \<open>C23: a configuration with a key the program does not know is refused with exactly those keys: the
  walk along the types reports, with its line, its path and the keys allowed there, every key that
  is no field of its struct, in every mapping some struct is decoded from, behind aliases and merge
  keys included, sparing only the \<^verbatim>\<open>x-\<close> blocks at the top; and the report does not depend on
  the shorthand: the file with every alias and merge key written out, in which none is left, has
  the same errors in the same order.
\<close>

theorem unknown_keys_are_reported_wherever_read:
  "set (validateUnknownKeys (Some n)) =
     {(l, q, key, allowedKeysFor config_types s) | l q key s.
        \<exists>ps v. read_at config_types (Struct ''Config'') [] n q s ps \<and> (YScalar l key, v) \<in> set ps \<and>
          key \<noteq> ''<<'' \<and> \<not> (s = ''Config'' \<and> has_prefix key ''x-'') \<and> key \<notin> fst ` set (config_types s)} \<and>
   no_shorthand (spell_out n) \<and>
   validateUnknownKeys (Some (spell_out n)) = validateUnknownKeys (Some n)"
proof -
  have "unknown_keys config_types (Struct ''Config'') [] n =
     {(l, q, key, allowedKeysFor config_types s) | l q key s.
        \<exists>ps v. read_at config_types (Struct ''Config'') [] n q s ps \<and> (YScalar l key, v) \<in> set ps \<and>
          key \<noteq> ''<<'' \<and> \<not> (s = ''Config'' \<and> has_prefix key ''x-'') \<and> key \<notin> fst ` set (config_types s)}"
    unfolding unknown_keys_def unknown_in_def escape_hatch_def merge_key_def by blast
  then show ?thesis
    using walk_reports_exactly [of config_types "Struct ''Config''" "[]" n]
      walk_spelled_out(1) [OF config_types_plain, of "Struct ''Config''" "[]" n]
      spelled_out_has_no_shorthand(1) [of n]
    by (simp add: validateUnknownKeys_def)
qed

text \<open>
  A section of a status page written the way docs/config-schema.md shows it (a page with a
  \<^verbatim>\<open>title\<close> and \<^verbatim>\<open>showSections\<close>) is refused.
\<close>

lemma documented_status_page_is_refused:
  "map (\<lambda>(l, p, key, allowed). (l, key)) (validateUnknownKeys (Some (YMap
     [(YScalar 1 ''statusPages'', YSeq [YMap
        [(YScalar 2 ''slug'', YScalar 2 ''public''), (YScalar 3 ''title'', YScalar 3 ''Toggle status''),
         (YScalar 4 ''showSections'', YScalar 4 ''true'')]])]))) = [(3, ''title''), (4, ''showSections'')]"
  by code_simp

section \<open>The fields a kube block spells out\<close>

fun collectMappingKeys :: "ynode \<Rightarrow> string list"
  and collect_pairs :: "(ynode \<times> ynode) list \<Rightarrow> string list"
  and collect_list :: "ynode list \<Rightarrow> string list" where
  "collectMappingKeys (YAlias n) = collectMappingKeys n"
| "collectMappingKeys (YMap ps) = collect_pairs ps"
| "collectMappingKeys (YScalar l v) = []"
| "collectMappingKeys (YSeq ns) = []"
| "collect_pairs [] = []"
| "collect_pairs ((k, v) # ps) =
    (case k of
       YScalar l key \<Rightarrow>
         (if key = merge_key then
            (case v of YAlias n \<Rightarrow> collectMappingKeys n | YMap qs \<Rightarrow> collect_pairs qs
             | YSeq ns \<Rightarrow> collect_list ns | YScalar l' v' \<Rightarrow> [])
          else [key])
     | _ \<Rightarrow> []) @ collect_pairs ps"
| "collect_list [] = []"
| "collect_list (n # ns) = collectMappingKeys n @ collect_list ns"

text \<open>They are keys of the block with its merges written out; a merge of something that is not a
  mapping, which the decoder refuses, adds none.\<close>

definition keys_of :: "(ynode \<times> ynode) list \<Rightarrow> string set" where
  "keys_of ps = {key. \<exists>l v. (YScalar l key, v) \<in> set ps}"

lemma keys_of_append [simp]: "keys_of (ps @ qs) = keys_of ps \<union> keys_of qs"
  by (auto simp: keys_of_def)

lemma set_fields_are_written_keys:
  "set (collectMappingKeys n) \<subseteq> keys_of (spell_merged n)"
  "set (collect_pairs ps) \<subseteq> keys_of (spell_pairs ps)"
  "set (collect_list ns) \<subseteq> keys_of (concat (map spell_merged ns))"
proof (induction n and ps and ns rule: collectMappingKeys_collect_pairs_collect_list.induct)
  case (6 k v ps)
  show ?case
  proof (cases k)
    case (YScalar l key)
    show ?thesis
    proof (cases "key = merge_key")
      case True
      with 6 YScalar show ?thesis by (cases v) auto
    next
      case False
      with 6 YScalar show ?thesis by (fastforce simp: keys_of_def)
    qed
  qed (use 6 in \<open>fastforce simp: keys_of_def\<close>)+
qed auto

end
