(* ===== verification/Config_Durations.thy ===== *)
theory Config_Durations
  imports Config_Keys Durations
begin

text \<open>
  Durations in the configuration file (src/internal/config/duration.go): \<^verbatim>\<open>time.ParseDuration\<close>
  with a leading count of days, and the form \<^verbatim>\<open>config show\<close> prints.  The library's
  \<^verbatim>\<open>Duration.String\<close> and \<^verbatim>\<open>ParseDuration\<close> are written out; the parser scales a fraction in
  floating point, and that product is an argument, of which the property uses that it is exact when
  the unit is a multiple of the scale and the result is below 2 to the 53.

  The property: what is printed reads back as the same duration, whatever the 64-bit value.
\<close>

section \<open>The library\<close>

fun frac_digits :: "nat \<Rightarrow> nat \<Rightarrow> string \<Rightarrow> string" where
  "frac_digits 0 v acc = acc"
| "frac_digits (Suc p) v acc =
    frac_digits p (v div 10) (if acc \<noteq> [] \<or> v mod 10 \<noteq> 0 then char_of (48 + v mod 10) # acc else [])"

definition fmtFrac :: "nat \<Rightarrow> nat \<Rightarrow> string" where
  "fmtFrac p v = (let ds = frac_digits p v [] in if ds = [] then [] else CHR ''.'' # ds)"

definition micro_sign :: string where "micro_sign = [CHR 0xC2, CHR 0xB5]"

text \<open>\<^verbatim>\<open>Duration.String\<close>, on the magnitude in nanoseconds.\<close>

definition print_magnitude :: "nat \<Rightarrow> string" where
  "print_magnitude u =
    (if u = 0 then ''0s''
     else if u < 1000 then digits u @ ''ns''
     else if u < 1000000 then digits (u div 1000) @ fmtFrac 3 u @ micro_sign @ ''s''
     else if u < 1000000000 then digits (u div 1000000) @ fmtFrac 6 u @ ''ms''
     else
       (let s = u div 1000000000 in
         (if 3600 \<le> s then digits (s div 3600) @ ''h'' else []) @
         (if 60 \<le> s then digits (s div 60 mod 60) @ ''m'' else []) @
         digits (s mod 60) @ fmtFrac 9 u @ ''s''))"

definition Duration_String :: "duration \<Rightarrow> string" where
  "Duration_String d = (if d < 0 then ''-'' else []) @ print_magnitude (nat \<bar>d\<bar>)"

definition decimal :: "string \<Rightarrow> int" where
  "decimal s = fold (\<lambda>c n. 10 * n + digit_value c) s 0"

fun leadingFraction :: "string \<Rightarrow> int \<Rightarrow> int \<Rightarrow> int \<times> int" where
  "leadingFraction [] x scale = (x, scale)"
| "leadingFraction (c # cs) x scale =
    (if 922337203685477580 < x \<or> 9223372036854775808 < 10 * x + digit_value c then (x, scale)
     else leadingFraction cs (10 * x + digit_value c) (10 * scale))"

definition unitMap :: "string \<Rightarrow> int option" where
  "unitMap u = map_of [(''ns'', 1), (''us'', 1000), (micro_sign @ ''s'', 1000), ([CHR 0xCE, CHR 0xBC] @ ''s'', 1000),
     (''ms'', 1000000), (''s'', 1000000000), (''m'', 60000000000), (''h'', 3600000000000)] u"

text \<open>One number and its unit: what it adds and the text behind it.\<close>

definition fraction_of :: "string \<Rightarrow> string" where
  "fraction_of s = (case s of c # t \<Rightarrow> if c = CHR ''.'' then takeWhile is_digit t else [] | [] \<Rightarrow> [])"

definition behind_fraction :: "string \<Rightarrow> string" where
  "behind_fraction s = (case s of c # t \<Rightarrow> if c = CHR ''.'' then dropWhile is_digit t else s | [] \<Rightarrow> [])"

definition unit_char :: "char \<Rightarrow> bool" where
  "unit_char c \<longleftrightarrow> c \<noteq> CHR ''.'' \<and> \<not> is_digit c"

definition read_quantity :: "(int \<Rightarrow> int \<Rightarrow> int \<Rightarrow> int) \<Rightarrow> string \<Rightarrow> (int \<times> string) option" where
  "read_quantity scaled s =
    (let v = decimal (takeWhile is_digit s); t = dropWhile is_digit s;
         (f, scale) = leadingFraction (fraction_of t) 0 1; r = behind_fraction t
     in if 9223372036854775808 < v then None
        else if takeWhile is_digit s = [] \<and> fraction_of t = [] then None
        else (case unitMap (takeWhile unit_char r) of
            None \<Rightarrow> None
          | Some unit \<Rightarrow>
              if 9223372036854775808 div unit < v then None
              else if 0 < f then
                (if 9223372036854775808 < v * unit + scaled f unit scale then None
                 else Some (v * unit + scaled f unit scale, dropWhile unit_char r))
              else Some (v * unit, dropWhile unit_char r)))"

lemma behind_fraction_shorter: "length (behind_fraction s) \<le> length s"
  by (auto simp: behind_fraction_def length_dropWhile_le le_SucI split: list.split)

lemma unitMap_nonempty [simp]: "unitMap [] = None"
  by (simp add: unitMap_def micro_sign_def)

lemma read_quantity_shorter:
  assumes "read_quantity scaled s = Some (v, r)"
  shows "length r < length s"
proof -
  define q where "q = behind_fraction (dropWhile is_digit s)"
  from assms have r: "r = dropWhile unit_char q" and u: "takeWhile unit_char q \<noteq> []"
    unfolding read_quantity_def q_def Let_def
    by (auto split: prod.splits if_splits option.splits)
  have "length q \<le> length s"
    unfolding q_def by (rule order_trans [OF behind_fraction_shorter length_dropWhile_le])
  moreover have "length r < length q"
    using u takeWhile_dropWhile_id [of unit_char q] unfolding r
    by (metis add_less_same_cancel2 length_append length_greater_0_conv not_less add_lessD1 less_add_same_cancel2)
  ultimately show ?thesis by simp
qed

text \<open>The sum is kept in 64 unsigned bits.\<close>

function read_sum :: "(int \<Rightarrow> int \<Rightarrow> int \<Rightarrow> int) \<Rightarrow> int \<Rightarrow> string \<Rightarrow> int option" where
  "read_sum scaled d s =
    (if s = [] then Some d
     else (case read_quantity scaled s of
         None \<Rightarrow> None
       | Some (v, r) \<Rightarrow>
           if 9223372036854775808 < (d + v) mod 18446744073709551616 then None
           else read_sum scaled ((d + v) mod 18446744073709551616) r))"
  by pat_completeness auto
termination
  by (relation "measure (\<lambda>(sc, d, s). length s)") (auto dest!: read_quantity_shorter)

declare read_sum.simps [simp del]

definition ParseDuration :: "(int \<Rightarrow> int \<Rightarrow> int \<Rightarrow> int) \<Rightarrow> string \<Rightarrow> duration option" where
  "ParseDuration scaled orig =
    (let neg = has_prefix orig ''-''; s = (if neg \<or> has_prefix orig ''+'' then drop 1 orig else orig)
     in if s = ''0'' then Some 0
        else if s = [] then None
        else (case read_sum scaled 0 s of
            None \<Rightarrow> None
          | Some d \<Rightarrow> if neg then Some (- d) else if max_duration < d then None else Some d))"

section \<open>Durations with days\<close>

datatype duration_error = NotScalar | EmptyDuration | BadDuration

abbreviation whole_day :: duration where "whole_day \<equiv> 86400000000000"

definition parseExtendedDuration :: "(int \<Rightarrow> int \<Rightarrow> int \<Rightarrow> int) \<Rightarrow> string \<Rightarrow> duration_error + duration" where
  "parseExtendedDuration scaled s =
    (if s = [] then Inl EmptyDuration
     else
       (let (days, rest) =
          (case index_of ''d'' s of
             None \<Rightarrow> (0, s)
           | Some i \<Rightarrow>
               (case atoi (take i s) of
                  None \<Rightarrow> (0, s)
                | Some n \<Rightarrow> if 0 \<le> n then (wrap64 (n * whole_day), drop (i + 1) s) else (0, s)))
        in if rest = [] then Inr days
           else (case ParseDuration scaled rest of
               None \<Rightarrow> Inl BadDuration
             | Some tail \<Rightarrow> Inr (wrap64 (days + tail)))))"

definition UnmarshalYAML :: "(int \<Rightarrow> int \<Rightarrow> int \<Rightarrow> int) \<Rightarrow> ynode \<Rightarrow> duration_error + duration" where
  "UnmarshalYAML scaled n =
    (case n of YScalar l v \<Rightarrow> parseExtendedDuration scaled v | _ \<Rightarrow> Inl NotScalar)"

definition MarshalYAML :: "duration \<Rightarrow> string" where
  "MarshalYAML d =
    (if 0 < d \<and> d mod whole_day = 0 then itoa (d div whole_day) @ ''d'' else Duration_String d)"

section \<open>Reading back what was printed\<close>

lemma digits_digits: "list_all is_digit (digits n)"
  using digits_props(2) [of n] by (simp add: is_digit_def [abs_def])

lemma decimal_digits [simp]: "decimal (digits n) = int n"
  using digits_props(1) [of n] by (simp add: decimal_def)

text \<open>Exactly \<^verbatim>\<open>p\<close> digits of a number.\<close>

fun pad :: "nat \<Rightarrow> nat \<Rightarrow> string" where
  "pad 0 v = []"
| "pad (Suc p) v = pad p (v div 10) @ [char_of (48 + v mod 10)]"

lemma length_pad [simp]: "length (pad p v) = p"
  by (induction p arbitrary: v) simp_all

lemma pad_digits: "list_all is_digit (pad p v)"
proof (induction p arbitrary: v)
  case (Suc p)
  then show ?case using digit_char(2,3) [of "v mod 10"] by (simp add: is_digit_def)
qed simp

lemma decimal_append: "decimal (s @ [c]) = 10 * decimal s + digit_value c"
  by (simp add: decimal_def)

lemma decimal_pad: "decimal (pad p v) = int (v mod 10 ^ p)"
proof (induction p arbitrary: v)
  case 0
  then show ?case by (simp add: decimal_def)
next
  case (Suc p)
  have "v mod 10 ^ Suc p = 10 * (v div 10 mod 10 ^ p) + v mod 10"
    by (simp add: mod_mult2_eq)
  then show ?case using Suc digit_char(1) [of "v mod 10"] by (simp add: decimal_append)
qed

lemma frac_digits_padded: "acc \<noteq> [] \<Longrightarrow> frac_digits p v acc = pad p v @ acc"
  by (induction p arbitrary: v acc) simp_all

lemma frac_digits_trimmed:
  "\<exists>k \<le> p. frac_digits p v [] = pad k (v div 10 ^ (p - k)) \<and> v mod 10 ^ (p - k) = 0"
proof (induction p arbitrary: v)
  case (Suc p)
  show ?case
  proof (cases "v mod 10 = 0")
    case True
    obtain k where k: "k \<le> p"
      "frac_digits p (v div 10) [] = pad k (v div 10 div 10 ^ (p - k))" "v div 10 mod 10 ^ (p - k) = 0"
      using Suc.IH [of "v div 10"] by (elim exE conjE) (rule that)
    have e: "Suc p - k = Suc (p - k)" using k(1) by simp
    have "v mod 10 ^ (Suc p - k) = 0" unfolding e using k(3) True by (simp add: mod_mult2_eq)
    moreover have "v div 10 ^ (Suc p - k) = v div 10 div 10 ^ (p - k)" unfolding e by (simp add: div_mult2_eq)
    ultimately show ?thesis using k True by (intro exI [of _ k]) simp
  next
    case False
    then show ?thesis by (intro exI [of _ "Suc p"]) (simp add: frac_digits_padded)
  qed
qed simp

text \<open>Nine digits never overflow the fraction.\<close>

lemma digit_bounds: "is_digit c \<Longrightarrow> 0 \<le> digit_value c \<and> digit_value c \<le> 9"
proof -
  assume "is_digit c"
  then have "48 \<le> (of_char c :: nat)" "(of_char c :: nat) \<le> 57"
    by (simp_all add: is_digit_def less_eq_char_def)
  moreover have "(of_char c :: int) = int (of_char c)" by (rule of_nat_of_char [symmetric])
  ultimately show ?thesis unfolding digit_value_def by linarith
qed

lemma leadingFraction_short:
  "list_all is_digit s \<Longrightarrow> 0 \<le> x \<Longrightarrow> x < 10 ^ k \<Longrightarrow> k + length s \<le> 9 \<Longrightarrow>
   leadingFraction s x scale = (fold (\<lambda>c n. 10 * n + digit_value c) s x, scale * 10 ^ length s)"
proof (induction s arbitrary: x k scale)
  case (Cons c s)
  have "x < 10 ^ 9" using Cons.prems(3,4) power_increasing [of k 9 "10::int"] by simp
  moreover have c: "0 \<le> digit_value c" "digit_value c \<le> 9" using Cons.prems(1) digit_bounds by simp_all
  ultimately have "\<not> (922337203685477580 < x \<or> 9223372036854775808 < 10 * x + digit_value c)" by simp
  moreover have "10 * x + digit_value c < 10 ^ Suc k" using Cons.prems(3) c by simp
  ultimately show ?case
    using Cons.IH [of "10 * x + digit_value c" "Suc k" "10 * scale"] Cons.prems c by (simp add: ac_simps)
qed simp

text \<open>The product of a short fraction and its unit.\<close>

definition exact_below_2_53 :: "(int \<Rightarrow> int \<Rightarrow> int \<Rightarrow> int) \<Rightarrow> bool" where
  "exact_below_2_53 scaled \<longleftrightarrow>
    (\<forall>f unit scale. 0 \<le> f \<longrightarrow> 0 < scale \<longrightarrow> scale dvd unit \<longrightarrow> f * (unit div scale) < 2 ^ 53 \<longrightarrow>
       scaled f unit scale = f * (unit div scale))"

lemma read_fraction:
  assumes "exact_below_2_53 scaled" "p \<le> 9" "frac_digits p v [] = fs" "leadingFraction fs 0 1 = (f, scale)"
  shows "list_all is_digit fs" "0 < f \<longleftrightarrow> v mod 10 ^ p \<noteq> 0" "0 < f \<Longrightarrow> scaled f (10 ^ p) scale = int (v mod 10 ^ p)"
    "fs = [] \<Longrightarrow> v mod 10 ^ p = 0"
proof -
  obtain k where k: "k \<le> p" "fs = pad k (v div 10 ^ (p - k))" "v mod 10 ^ (p - k) = 0"
    using frac_digits_trimmed [of p v] unfolding assms(3) by (elim exE conjE) (rule that)
  show d: "list_all is_digit fs" unfolding k(2) by (rule pad_digits)
  have pk: "(10::nat) ^ p = 10 ^ (p - k) * 10 ^ k" using k(1) by (simp only: power_add [symmetric] le_add_diff_inverse2)
  have fs: "f = int (v div 10 ^ (p - k) mod 10 ^ k)" "scale = 10 ^ k"
    using leadingFraction_short [OF d, of 0 0 1] assms(2,4) k(1) decimal_pad [of k "v div 10 ^ (p - k)"]
    by (simp_all add: k(2) decimal_def)
  have whole: "v mod 10 ^ p = 10 ^ (p - k) * (v div 10 ^ (p - k) mod 10 ^ k)"
    unfolding pk using k(3) by (simp add: mod_mult2_eq)
  then show "0 < f \<longleftrightarrow> v mod 10 ^ p \<noteq> 0" unfolding fs by simp
  show "fs = [] \<Longrightarrow> v mod 10 ^ p = 0" using whole k(2) by (metis length_pad list.size(3) mod_by_1 mult_0_right power_0)
  assume "0 < f"
  have u: "(10::int) ^ p = 10 ^ k * 10 ^ (p - k)" using k(1) by (simp only: power_add [symmetric] le_add_diff_inverse)
  then have dv: "(10::int) ^ p div 10 ^ k = 10 ^ (p - k)" by simp
  have val: "f * 10 ^ (p - k) = int (v mod 10 ^ p)" unfolding fs whole by simp
  have "v mod 10 ^ p < 10 ^ p" by simp
  also have "(10::nat) ^ p \<le> 10 ^ 9" using assms(2) by (intro power_increasing) simp_all
  finally have "int (v mod 10 ^ p) < 2 ^ 53" by simp
  then show "scaled f (10 ^ p) scale = int (v mod 10 ^ p)"
    using assms(1) \<open>0 < f\<close> unfolding exact_below_2_53_def fs(2)
    by (metis dv dvd_triv_left less_imp_le u val zero_less_numeral zero_less_power)
qed

lemma unit_char_not: "unit_char c \<Longrightarrow> \<not> is_digit c \<and> c \<noteq> CHR ''.''"
  by (simp add: unit_char_def)

lemma split_digits:
  assumes "list_all is_digit s" "t = [] \<or> \<not> is_digit (hd t)"
  shows "takeWhile is_digit (s @ t) = s" "dropWhile is_digit (s @ t) = t"
  using assms by (cases t; simp add: list_all_iff takeWhile_append dropWhile_append)+

lemma split_unit:
  assumes "list_all unit_char s" "t = [] \<or> \<not> unit_char (hd t)"
  shows "takeWhile unit_char (s @ t) = s" "dropWhile unit_char (s @ t) = t"
  using assms by (cases t; simp add: list_all_iff takeWhile_append dropWhile_append)+

lemma read_plain:
  assumes u: "unitMap u = Some U" "list_all unit_char u" "0 < U" and r: "rest = [] \<or> \<not> unit_char (hd rest)"
    and w: "int w * U \<le> 9223372036854775808"
  shows "read_quantity scaled (digits w @ u @ rest) = Some (int w * U, rest)"
proof -
  obtain c cs where c: "u = c # cs" "\<not> is_digit c" "c \<noteq> CHR ''.''"
    using u(1,2) by (cases u) (auto simp: unit_char_def)
  have d: "takeWhile is_digit (digits w @ u @ rest) = digits w" "dropWhile is_digit (digits w @ u @ rest) = u @ rest"
    using split_digits [OF digits_digits, of "u @ rest" w] c by simp_all
  have t: "takeWhile unit_char (u @ rest) = u" "dropWhile unit_char (u @ rest) = rest"
    by (fact split_unit [OF u(2) r])+
  have f: "fraction_of (u @ rest) = []" "behind_fraction (u @ rest) = u @ rest"
    using c by (simp_all add: fraction_of_def behind_fraction_def)
  have "int w \<le> 9223372036854775808 div U"
    using w u(3) zdiv_mono1 [OF w u(3)] by simp
  moreover have "int w \<le> 9223372036854775808"
    using mult_left_mono [of 1 U "int w"] u(3) w by linarith
  ultimately show ?thesis by (simp add: read_quantity_def Let_def d t f u(1))
qed

lemma read_with_fraction:
  assumes sc: "exact_below_2_53 scaled" and p: "p \<le> 9"
    and u: "unitMap u = Some (10 ^ p)" "list_all unit_char u" and r: "rest = [] \<or> \<not> unit_char (hd rest)"
    and w: "int w * 10 ^ p + int (v mod 10 ^ p) \<le> 9223372036854775808"
  shows "read_quantity scaled (digits w @ fmtFrac p v @ u @ rest) = Some (int w * 10 ^ p + int (v mod 10 ^ p), rest)"
proof (cases "frac_digits p v [] = []")
  case True
  then have "v mod 10 ^ p = 0" using read_fraction(4) [OF sc p True] by (cases "leadingFraction [] 0 1") auto
  then show ?thesis using read_plain [OF u _ r, of w scaled] w True by (simp add: fmtFrac_def)
next
  case False
  obtain f scale where l: "leadingFraction (frac_digits p v []) 0 1 = (f, scale)" by fastforce
  note fr = read_fraction [OF sc p refl l]
  let ?fs = "frac_digits p v []"
  let ?t = "CHR ''.'' # ?fs @ u @ rest"
  obtain c cs where c: "u = c # cs" "\<not> is_digit c" using u by (cases u) (auto simp: unit_char_def)
  have s: "digits w @ fmtFrac p v @ u @ rest = digits w @ ?t" using False by (simp add: fmtFrac_def Let_def)
  have d: "takeWhile is_digit (digits w @ ?t) = digits w" "dropWhile is_digit (digits w @ ?t) = ?t"
    using split_digits [OF digits_digits, of ?t w] by (simp_all add: is_digit_def less_eq_char_def)
  have t: "takeWhile unit_char (u @ rest) = u" "dropWhile unit_char (u @ rest) = rest"
    by (fact split_unit [OF u(2) r])+
  have f: "fraction_of ?t = ?fs" "behind_fraction ?t = u @ rest"
    using split_digits [OF fr(1), of "u @ rest"] c by (simp_all add: fraction_of_def behind_fraction_def)
  have pos: "(0::int) < 10 ^ p" by simp
  have wle: "int w * 10 ^ p \<le> 9223372036854775808" using w by linarith
  have "int w \<le> 9223372036854775808 div 10 ^ p"
    using zdiv_mono1 [OF wle pos] by simp
  moreover have "int w \<le> 9223372036854775808"
    using mult_left_mono [of 1 "10 ^ p" "int w"] wle by (smt (verit) pos of_nat_0_le_iff mult.right_neutral)
  moreover have "v mod 10 ^ p = 0" if "\<not> 0 < f" using fr(2) that by simp
  ultimately show ?thesis
    using w fr(3) unfolding s by (simp add: read_quantity_def Let_def d t f u(1) l False)
qed

lemma read_sum_step:
  assumes "read_quantity scaled s = Some (q, r)" "s \<noteq> []" "0 \<le> d" "0 \<le> q" "d + q \<le> 9223372036854775808"
  shows "read_sum scaled d s = read_sum scaled (d + q) r"
proof -
  have "(d + q) mod 18446744073709551616 = d + q" using assms(3,4,5) by (intro mod_pos_pos_trivial) linarith+
  then show ?thesis using assms by (subst read_sum.simps) simp
qed

lemma read_sum_Nil [simp]: "read_sum scaled d [] = Some d"
  by (simp add: read_sum.simps)

lemma unit_texts:
  "unitMap ''ns'' = Some (10 ^ 0)" "unitMap (micro_sign @ ''s'') = Some (10 ^ 3)" "unitMap ''ms'' = Some (10 ^ 6)"
  "unitMap ''s'' = Some (10 ^ 9)" "unitMap ''m'' = Some 60000000000" "unitMap ''h'' = Some 3600000000000"
  "list_all unit_char ''ns''" "list_all unit_char (micro_sign @ ''s'')" "list_all unit_char ''ms''"
  "list_all unit_char ''s''" "list_all unit_char ''m''" "list_all unit_char ''h''"
  by (simp_all add: unitMap_def micro_sign_def unit_char_def is_digit_def less_eq_char_def)

lemma digits_start: "\<not> unit_char (hd (digits n @ t))" "digits n @ t \<noteq> []"
proof -
  show "\<not> unit_char (hd (digits n @ t))"
    using digits_digits [of n] by (cases "digits n") (auto simp: unit_char_def)
qed simp

text \<open>One quantity at the end of the text, and one before another quantity.\<close>

lemma sum_one:
  assumes "exact_below_2_53 scaled" "p \<le> 9" "unitMap u = Some (10 ^ p)" "list_all unit_char u"
    and "0 \<le> d" "d + (int w * 10 ^ p + int (v mod 10 ^ p)) \<le> 9223372036854775808"
  shows "read_sum scaled d (digits w @ fmtFrac p v @ u) = Some (d + (int w * 10 ^ p + int (v mod 10 ^ p)))"
proof -
  have "int w * 10 ^ p + int (v mod 10 ^ p) \<le> 9223372036854775808" using assms(5,6) by linarith
  note q = read_with_fraction [OF assms(1-4), of "[]" w v, simplified append_Nil2, OF disjI1, OF refl this]
  have "0 \<le> int w * 10 ^ p + int (v mod 10 ^ p)" by simp
  from read_sum_step [OF q _ assms(5) this assms(6)] show ?thesis by simp
qed

lemma sum_before:
  assumes u: "unitMap u = Some U" "list_all unit_char u" "0 < U" and d: "0 \<le> d"
    and s: "d + int w * U \<le> 9223372036854775808"
  shows "read_sum scaled d (digits w @ u @ digits n @ t) = read_sum scaled (d + int w * U) (digits n @ t)"
proof -
  have "int w * U \<le> 9223372036854775808" using d s by linarith
  note q = read_plain [OF u disjI2, OF digits_start(1) this]
  have "0 \<le> int w * U" using u(3) by simp
  from read_sum_step [OF q _ d this s] show ?thesis by simp
qed

lemma clock_split:
  fixes u :: nat
  defines "s \<equiv> u div 1000000000"
  shows "int u = int (s div 3600) * 3600000000000 + int (s div 60 mod 60) * 60000000000 +
      (int (s mod 60) * 10 ^ 9 + int (u mod 10 ^ 9))"
proof -
  have "u = 1000000000 * s + u mod 1000000000" unfolding s_def by simp
  moreover have "s = 60 * (s div 60) + s mod 60" by simp
  moreover have "s div 60 = 60 * (s div 60 div 60) + s div 60 mod 60" by simp
  moreover have "s div 60 div 60 = s div 3600" by (simp add: div_mult2_eq [symmetric])
  ultimately have "u = 3600000000000 * (s div 3600) + 60000000000 * (s div 60 mod 60) + (1000000000 * (s mod 60) + u mod 1000000000)"
    by linarith
  then show ?thesis by simp
qed

lemma read_long:
  assumes sc: "exact_below_2_53 scaled" and u: "1000000000 \<le> u" "int u \<le> 9223372036854775808"
  shows "read_sum scaled 0 (print_magnitude u) = Some (int u)"
proof -
  define s where "s = u div 1000000000"
  let ?h = "int (s div 3600) * 3600000000000" and ?m = "int (s div 60 mod 60) * 60000000000"
    and ?s = "int (s mod 60) * 10 ^ 9 + int (u mod 10 ^ 9)"
  have whole: "int u = ?h + ?m + ?s" unfolding s_def by (rule clock_split)
  have pos: "0 \<le> ?h" "0 \<le> ?m" "0 \<le> ?s" by simp_all
  have le: "?h + ?m + ?s \<le> 9223372036854775808" "0 + ?h \<le> 9223372036854775808" "?h + ?m \<le> 9223372036854775808"
    using u(2) whole pos by linarith+
  let ?last = "digits (s mod 60) @ fmtFrac 9 u @ ''s''"
  have last: "read_sum scaled d ?last = Some (d + ?s)" if "0 \<le> d" "d + ?s \<le> 9223372036854775808" for d
    using sum_one [OF sc _ unit_texts(4,10) that(1), of "s mod 60" u] that(2) by simp
  have shown: "print_magnitude u = (if 3600 \<le> s then digits (s div 3600) @ ''h'' else []) @
      (if 60 \<le> s then digits (s div 60 mod 60) @ ''m'' else []) @ ?last"
    using u(1) by (simp add: print_magnitude_def s_def Let_def)
  have mins: "read_sum scaled d (digits (s div 60 mod 60) @ ''m'' @ ?last) = Some (d + ?m + ?s)"
    if "0 \<le> d" "d + ?m + ?s \<le> 9223372036854775808" for d
    using sum_before [OF unit_texts(5,11) _ that(1), of "s div 60 mod 60" scaled "s mod 60" "fmtFrac 9 u @ ''s''"]
      last [of "d + ?m"] that pos by simp
  consider "3600 \<le> s" | "60 \<le> s" "s < 3600" | "s < 60" by linarith
  then show ?thesis
  proof cases
    case 1
    then have e: "print_magnitude u = digits (s div 3600) @ ''h'' @ digits (s div 60 mod 60) @ ''m'' @ ?last"
      using shown by simp
    have "read_sum scaled 0 (print_magnitude u) = read_sum scaled (0 + ?h) (digits (s div 60 mod 60) @ ''m'' @ ?last)"
      unfolding e by (rule sum_before [OF unit_texts(6,12)]) (use le(2) in simp_all)
    also have "\<dots> = Some (0 + ?h + ?m + ?s)" by (rule mins) (use pos le in linarith)+
    finally show ?thesis unfolding whole by simp
  next
    case 2
    then have e: "print_magnitude u = digits (s div 60 mod 60) @ ''m'' @ ?last" and h: "?h = 0"
      using shown by simp_all
    have "read_sum scaled 0 (print_magnitude u) = Some (0 + ?m + ?s)"
      unfolding e by (rule mins) (use pos le h in linarith)+
    then show ?thesis unfolding whole h by simp
  next
    case 3
    then have e: "print_magnitude u = ?last" and z: "?h = 0" "?m = 0" using shown by simp_all
    have "read_sum scaled 0 (print_magnitude u) = Some (0 + ?s)"
      unfolding e by (rule last) (use pos le z in linarith)+
    then show ?thesis unfolding whole z by simp
  qed
qed

lemma split_at: "int u = int (u div k) * int k + int (u mod k)"
  by (metis div_mult_mod_eq of_nat_add of_nat_mult)

lemma read_magnitude:
  assumes sc: "exact_below_2_53 scaled" and u: "int u \<le> 9223372036854775808"
  shows "read_sum scaled 0 (print_magnitude u) = Some (int u)"
proof -
  consider "u = 0" | "0 < u" "u < 1000" | "1000 \<le> u" "u < 1000000" | "1000000 \<le> u" "u < 1000000000" | "1000000000 \<le> u"
    by linarith
  then show ?thesis
  proof cases
    case 1
    have "digits 0 @ fmtFrac 9 0 @ ''s'' = print_magnitude 0" by code_simp
    then show ?thesis using sum_one [OF sc _ unit_texts(4,10), of 0 0 0] 1 by simp
  next
    case 2
    have "fmtFrac 0 u = []" by (simp add: fmtFrac_def)
    then show ?thesis using sum_one [OF sc _ unit_texts(1,7), of 0 u u] 2 u by (simp add: print_magnitude_def)
  next
    case 3
    have "int u = int (u div 1000) * 10 ^ 3 + int (u mod 10 ^ 3)"
      using split_at [of u 1000] by simp
    then show ?thesis using sum_one [OF sc _ unit_texts(2,8), of 0 "u div 1000" u] 3 u
      by (simp add: print_magnitude_def)
  next
    case 4
    have "int u = int (u div 1000000) * 10 ^ 6 + int (u mod 10 ^ 6)"
      using split_at [of u 1000000] by simp
    then show ?thesis using sum_one [OF sc _ unit_texts(3,9), of 0 "u div 1000000" u] 4 u
      by (simp add: print_magnitude_def)
  next
    case 5
    then show ?thesis using read_long [OF sc 5 u] by simp
  qed
qed

section \<open>The round trip\<close>

lemma magnitude_start: "\<exists>n t. print_magnitude u = digits n @ t \<and> t \<noteq> []"
proof (cases "u < 1000000000")
  case True
  have zero: "print_magnitude 0 = digits 0 @ ''s''" by code_simp
  show ?thesis
  proof (cases "u = 0")
    case True
    then show ?thesis using zero by auto
  next
    case False
    with True show ?thesis by (auto simp: print_magnitude_def)
  qed
next
  case False
  define s where "s = u div 1000000000"
  let ?last = "digits (s mod 60) @ fmtFrac 9 u @ ''s''"
  have shown: "print_magnitude u = (if 3600 \<le> s then digits (s div 3600) @ ''h'' else []) @
      (if 60 \<le> s then digits (s div 60 mod 60) @ ''m'' else []) @ ?last"
    using False by (simp add: print_magnitude_def s_def Let_def)
  show ?thesis
    unfolding shown by (cases "3600 \<le> s"; cases "60 \<le> s") auto
qed

lemma magnitude_read_whole:
  "print_magnitude u \<noteq> []" "print_magnitude u \<noteq> ''0''"
  "\<not> has_prefix (print_magnitude u) ''-''" "\<not> has_prefix (print_magnitude u) ''+''"
proof -
  obtain n t where e: "print_magnitude u = digits n @ t" "t \<noteq> []" using magnitude_start by blast
  obtain c cs where d: "digits n = c # cs" by (cases "digits n") simp_all
  have "c \<notin> set ''-+ ''" using digits_props(3) [of n] d by auto
  then show "\<not> has_prefix (print_magnitude u) ''-''" "\<not> has_prefix (print_magnitude u) ''+''"
    unfolding e(1) d by (simp_all add: has_prefix_def)
  show "print_magnitude u \<noteq> []" unfolding e(1) by simp
  show "print_magnitude u \<noteq> ''0''" unfolding e(1) d using e(2) by (cases cs) simp_all
qed

lemma ParseDuration_String:
  assumes sc: "exact_below_2_53 scaled" and d: "min_duration \<le> d" "d \<le> max_duration"
  shows "ParseDuration scaled (Duration_String d) = Some d"
proof -
  have "int (nat \<bar>d\<bar>) \<le> 9223372036854775808" using d by (simp add: min_duration_def max_duration_def)
  note r = read_magnitude [OF sc this]
  note w = magnitude_read_whole [of "nat \<bar>d\<bar>"]
  show ?thesis
  proof (cases "d < 0")
    case True
    then have e: "Duration_String d = CHR ''-'' # print_magnitude (nat \<bar>d\<bar>)" by (simp add: Duration_String_def)
    show ?thesis unfolding e using r w True by (simp add: ParseDuration_def has_prefix_def)
  next
    case False
    then have e: "Duration_String d = print_magnitude (nat \<bar>d\<bar>)" by (simp add: Duration_String_def)
    show ?thesis unfolding e using r w False d by (simp add: ParseDuration_def)
  qed
qed

text \<open>No printed duration has a \<^verbatim>\<open>d\<close> in it.\<close>

lemma fresh_digits: "CHR ''d'' \<notin> set (digits n)"
  using digits_digits [of n] by (auto simp: list_all_iff is_digit_def less_eq_char_def)

lemma fresh_frac: "CHR ''d'' \<notin> set (fmtFrac p v)"
proof -
  obtain k where "frac_digits p v [] = pad k (v div 10 ^ (p - k))"
    using frac_digits_trimmed [of p v] by blast
  then show ?thesis using pad_digits [of k "v div 10 ^ (p - k)"]
    by (auto simp: fmtFrac_def Let_def list_all_iff is_digit_def less_eq_char_def)
qed

lemma fresh_day: "CHR ''d'' \<notin> set (Duration_String d)"
  using fresh_digits fresh_frac by (simp add: Duration_String_def print_magnitude_def micro_sign_def Let_def)

lemma index_of_char: "c \<notin> set s \<Longrightarrow> index_of [c] s = None" "c \<notin> set s \<Longrightarrow> index_of [c] (s @ c # t) = Some (length s)"
  by (induction s) (auto simp: has_prefix_def)

lemma fresh_itoa: "CHR ''d'' \<notin> set (itoa n)"
  using fresh_digits by (simp add: itoa_def)

text \<open>C24: a duration printed by \<^verbatim>\<open>config show\<close> loads as the same duration, whatever its 64-bit value,
  negative and sub-second ones included: whole days are printed as a count of days and read by the
  program's own prefix, all others are printed and read by the library.  The fraction's product, which
  the library computes in floating point, has to be exact for results below 2 to the 53.
\<close>

theorem printed_durations_load_back:
  assumes "exact_below_2_53 scaled" "min_duration \<le> d" "d \<le> max_duration"
  shows "UnmarshalYAML scaled (YScalar l (MarshalYAML d)) = Inr d"
proof (cases "0 < d \<and> d mod whole_day = 0")
  case True
  define n where "n = d div whole_day"
  have n: "d = n * whole_day" "0 \<le> n" using True by (auto simp: n_def)
  have "n \<le> max_duration" using n assms(3) by linarith
  then have "atoi (itoa n) = Some n" using n(2) by (intro atoi_itoa) (simp_all add: min_duration_def)
  moreover have "wrap64 (n * whole_day) = d" using n(1) assms(2,3) wrap64_id by simp
  moreover have "MarshalYAML d = itoa n @ ''d''" using True by (simp add: MarshalYAML_def n_def)
  ultimately show ?thesis
    using n(2) index_of_char(2) [OF fresh_itoa [of n], of "[]"]
    by (simp add: UnmarshalYAML_def parseExtendedDuration_def)
next
  case False
  then have "MarshalYAML d = Duration_String d" by (auto simp: MarshalYAML_def)
  moreover have "Duration_String d \<noteq> []" using magnitude_read_whole(1) by (simp add: Duration_String_def)
  ultimately show ?thesis
    using ParseDuration_String [OF assms] index_of_char(1) [OF fresh_day [of d]] wrap64_id [OF assms(2,3)]
    by (simp add: UnmarshalYAML_def parseExtendedDuration_def)
qed

lemma frac_digits_numeral: "frac_digits (numeral k) v acc = frac_digits (pred_numeral k) (v div 10)
    (if acc \<noteq> [] \<or> v mod 10 \<noteq> 0 then char_of (48 + v mod 10) # acc else [])"
  by (simp only: numeral_eq_Suc [of k] frac_digits.simps)

theorem printed_durations_load_back_witness:
  "exact_below_2_53 (\<lambda>f unit scale. f * unit div scale) \<and> MarshalYAML 93784005000000 = ''26h3m4.005s'' \<and>
   UnmarshalYAML (\<lambda>f unit scale. f * unit div scale) (YScalar 7 ''26h3m4.005s'') = Inr 93784005000000"
proof -
  have e: "exact_below_2_53 (\<lambda>f unit scale. f * unit div scale)"
    unfolding exact_below_2_53_def by (intro allI impI, rule div_mult_swap [symmetric])
  have c: "char_of (48::nat) = CHR ''0''" "char_of (50::nat) = CHR ''2''" "char_of (51::nat) = CHR ''3''"
    "char_of (52::nat) = CHR ''4''" "char_of (53::nat) = CHR ''5''" "char_of (54::nat) = CHR ''6''"
    by (simp_all add: char_of_def bit_Suc_0_iff)
  have f: "frac_digits 9 93784005000000 [] = ''005''"
    by (simp add: frac_digits_numeral c)
  have m: "MarshalYAML 93784005000000 = ''26h3m4.005s''"
    by (simp add: MarshalYAML_def Duration_String_def print_magnitude_def fmtFrac_def digits.simps f c Let_def)
  from printed_durations_load_back [OF e, of 93784005000000 7] e m show ?thesis
    by (simp add: min_duration_def max_duration_def)
qed

text \<open>
  The count of days is not checked for overflow, as the library's own units are: 213504 days wrap
  around to less than half an hour.
\<close>

lemma days_wrap_around:
  "parseExtendedDuration scaled ''213504d'' = Inr 1526290448384"
  by code_simp

section \<open>Loading a file\<close>

text \<open>
  \<^verbatim>\<open>Load\<close>: the references first, then the parser and the decoder of the YAML library (arguments),
  the defaults, the unknown keys and every other check; the errors of the two last are reported
  together.
\<close>

datatype load_error =
    BadReferences "(nat \<times> interp_error) list"
  | NotYAML
  | Rejected "key_error list" cfg_errors

definition Load :: "cfg_env \<Rightarrow> (string \<Rightarrow> string option) \<Rightarrow> (string \<Rightarrow> ynode option) \<Rightarrow> (ynode \<Rightarrow> config option)
    \<Rightarrow> string \<Rightarrow> load_error + config" where
  "Load ce env parse decode data =
    (case interpolate env data of
       Inl errs \<Rightarrow> Inl (BadReferences errs)
     | Inr text \<Rightarrow>
         (case parse text of
            None \<Rightarrow> Inl NotYAML
          | Some n \<Rightarrow>
              (case decode n of
                 None \<Rightarrow> Inl NotYAML
               | Some cfg \<Rightarrow>
                   (let unknown = validateUnknownKeys (Some n) in
                    case accept_config ce cfg of
                      Inl errs \<Rightarrow> Inl (Rejected unknown errs)
                    | Inr c \<Rightarrow> if unknown = [] then Inr c else Inl (Rejected unknown [])))))"

text \<open>A file that loads has no unknown key, whichever way its blocks are written.\<close>

lemma loaded_file_has_known_keys:
  "Load ce env parse decode data = Inr c \<Longrightarrow>
   \<exists>text n cfg. interpolate env data = Inr text \<and> parse text = Some n \<and> decode n = Some cfg \<and>
     accept_config ce cfg = Inr c \<and> validateUnknownKeys (Some n) = []"
  by (auto simp: Load_def Let_def split: sum.splits option.splits if_splits)

end
