(* ===== verification/AM_Blocks.thy ===== *)
theory AM_Blocks
  imports AM_Handler Slack_Blocks Web Config_Durations
begin

text \<open>
  The layout of the Alertmanager messages (\<^verbatim>\<open>internal/alertmanager/blocks.go\<close>) over the inputs that the
  receiver builds.  The host of a URL (\<^verbatim>\<open>url.Parse\<close>, nothing where it fails or has no host) and the text of
  a \<^verbatim>\<open>time.Duration\<close> are arguments.
\<close>

section \<open>Pieces\<close>

definition lateResolveBanner :: string where
  "lateResolveBanner = info_sign @ '' Resolved without an open incident on file '' @ dash_sign @
     '' possibly a process restart or first-time delivery of a stale resolve.''"

definition fire_sign :: string where "fire_sign = [CHR 0xF0, CHR 0x9F, CHR 0x94, CHR 0xA5]"
definition siren_sign :: string where "siren_sign = [CHR 0xF0, CHR 0x9F, CHR 0x9A, CHR 0xA8]"

definition severityEmoji :: "am_alert \<Rightarrow> string" where
  "severityEmoji a = (let s = gm_get0 [] (aa_labels a) ''severity'' in
     if s = ''critical'' then fire_sign else if s = ''warning'' then warn_sign else if s = ''info'' then info_sign else siren_sign)"

text \<open>At most three chips, in the canonical order; the loop stops at the third.\<close>

fun chips_loop :: "(string, string) gomap \<Rightarrow> string list \<Rightarrow> string list \<Rightarrow> string list" where
  "chips_loop labels chips [] = chips"
| "chips_loop labels chips (k # ks) =
    (case gm_get labels k of
       None \<Rightarrow> chips_loop labels chips ks
     | Some v \<Rightarrow> if v = [] then chips_loop labels chips ks
         else (let chips1 = chips @ [k @ ''='' @ quoted_code v] in
           if length chips1 = 3 then chips1 else chips_loop labels chips1 ks))"

definition keyLabelChips :: "(string, string) gomap \<Rightarrow> string list" where
  "keyLabelChips labels = chips_loop labels [] keyLabelOrder"

definition amTitle :: "am_open_input \<Rightarrow> string \<Rightarrow> string \<Rightarrow> string" where
  "amTitle i emoji suffix =
    (let labels = aa_labels (ao_alert i); name = gm_get0 [] labels ''alertname''; sev = gm_get0 [] labels ''severity'' in
     join wide_dot ([emoji @ '' *'' @ (if name = [] then ''(unnamed alert)'' else name) @ ''*''] @
       (if sev = [] then [] else [quoted_code sev]) @ keyLabelChips labels) @ suffix)"

definition DefaultBodyMaxChars :: int where
  "DefaultBodyMaxChars = 1500"

definition bodyText :: "int \<Rightarrow> am_open_input \<Rightarrow> string" where
  "bodyText max_chars i =
    (let summary = gm_get0 [] (aa_annotations (ao_alert i)) ''summary'';
         cap = (if max_chars \<le> 0 then DefaultBodyMaxChars else max_chars) in
     if summary = [] then ''_no summary_''
     else if cap < int (length summary) then take (nat cap) summary @ dots_sign else summary)"

definition externalHost :: "(string \<Rightarrow> string option) \<Rightarrow> string \<Rightarrow> string" where
  "externalHost url_host raw = (if raw = [] then [] else
     (case url_host raw of None \<Rightarrow> raw | Some h \<Rightarrow> if h = [] then raw else h))"

definition amFooter :: "(string \<Rightarrow> string option) \<Rightarrow> time \<Rightarrow> am_open_input \<Rightarrow> string \<Rightarrow> string" where
  "amFooter url_host now i stamp =
    (let host = externalHost url_host (ao_external_url i); a = ao_alert i; runbook = gm_get0 [] (aa_annotations a) ''runbook_url'' in
     join wide_dot
      ((if ao_mentions i = [] then [] else [join '' '' (ao_mentions i)]) @
       (if ao_receiver i = [] then [] else [''Receiver '' @ quoted_code (ao_receiver i)]) @
       (if host = [] then [] else [''Via '' @ quoted_code host]) @
       (if stamp \<noteq> [] then [stamp] else if is_zero (aa_starts_at a) then []
        else [''_Firing '' @ relativeAgo now (aa_starts_at a) @ '' ago_'']) @
       details (ao_detail_url i) @ (if runbook = [] then [] else [link runbook ''Runbook''])))"

definition amBlocks :: "string \<Rightarrow> string \<Rightarrow> string \<Rightarrow> string \<Rightarrow> parent_message" where
  "amBlocks title banner body footer =
    \<lparr>pm_blocks = SectionBlock title # context_if banner @ [SectionBlock body] @ context_if footer, pm_attachments = []\<rparr>"

section \<open>Messages\<close>

record am_text_env =
  xt_clock :: clock_text
  xt_host :: "string \<Rightarrow> string option"
  xt_max_chars :: int

definition BuildAMOpen :: "am_text_env \<Rightarrow> time \<Rightarrow> am_open_input \<Rightarrow> parent_message" where
  "BuildAMOpen x now i =
     amBlocks (amTitle i (severityEmoji (ao_alert i)) []) [] (bodyText (xt_max_chars x) i) (amFooter (xt_host x) now i [])"

definition BuildAMResolveEdit :: "am_text_env \<Rightarrow> time \<Rightarrow> string \<Rightarrow> am_resolve_input \<Rightarrow> parent_message" where
  "BuildAMResolveEdit x now banner i =
     amBlocks (amTitle (ar_open i) check_sign (wide_dot @ ''_Resolved_'')) banner (bodyText (xt_max_chars x) (ar_open i))
       (amFooter (xt_host x) now (ar_open i) (''_Resolved '' @ FormatDate (xt_clock x) (ar_resolved_at i) @ '' '' @ dot_sign @
          '' down around '' @ am_formatDowntime (ar_downtime i) @ ''_''))"

definition BuildAMResolveReply :: "am_resolve_input \<Rightarrow> block list" where
  "BuildAMResolveReply i = [SectionBlock (check_sign @ '' Resolved after '' @ am_formatDowntime (ar_downtime i))]"

definition BuildAMLateResolve :: "am_text_env \<Rightarrow> time \<Rightarrow> string \<Rightarrow> am_resolve_input \<Rightarrow> parent_message" where
  "BuildAMLateResolve x now banner i = BuildAMResolveEdit x now (if banner = [] then lateResolveBanner else banner) i"

definition BuildAMThrottleNotice :: "am_text_env \<Rightarrow> string \<Rightarrow> nat \<Rightarrow> int \<Rightarrow> duration \<Rightarrow> parent_message" where
  "BuildAMThrottleNotice x slug dropped per_channel window =
    \<lparr>pm_blocks = [SectionBlock ('':warning: Alertmanager throttle engaged in '' @ quoted_code (''#'' @ slug) @ '' '' @ dash_sign @
       '' dropped '' @ itoa (int dropped) @ '' alert'' @ (if dropped = 1 then [] else ''s'') @ '' (limit: '' @ itoa per_channel @
       '' per '' @ Duration_String window @ ''). Likely misconfigured upstream '' @ dash_sign @ '' check your AM '' @
       quoted_code ''group_by'' @ ''.'')], pm_attachments = []\<rparr>"

definition render_am_message :: "am_text_env \<Rightarrow> time \<Rightarrow> am_message \<Rightarrow> parent_message" where
  "render_am_message x now m = (case m of
       AMOpen i \<Rightarrow> BuildAMOpen x now i
     | AMResolveEdit i \<Rightarrow> BuildAMResolveEdit x now [] i
     | AMResolveReply i \<Rightarrow> \<lparr>pm_blocks = BuildAMResolveReply i, pm_attachments = []\<rparr>
     | AMLateResolve i \<Rightarrow> BuildAMLateResolve x now [] i
     | AMThrottleNotice slug dropped per window \<Rightarrow> BuildAMThrottleNotice x slug dropped per window)"

section \<open>Lemmas\<close>

lemma bodyText_bounded:
  "length (bodyText max_chars i) \<le> nat (max 12 ((if max_chars \<le> 0 then DefaultBodyMaxChars else max_chars) + 3))"
  by (auto simp: bodyText_def Let_def dots_sign_def DefaultBodyMaxChars_def)

text \<open>The cut counts bytes: it leaves the first half of a character of two bytes.\<close>

lemma summary_cut_inside_a_character:
  "bodyText 1 \<lparr>ao_alert = a\<lparr>aa_annotations := [(''summary'', [CHR 0xC3, CHR 0xA9])]\<rparr>, ao_mentions = [], ao_detail_url = [],
     ao_receiver = [], ao_external_url = []\<rparr> = [CHR 0xC3] @ dots_sign"
  by (simp add: bodyText_def Let_def gm_get0_def)

text \<open>The key labels of a page row, without the cut.\<close>

definition key_labels :: "(string, string) gomap \<Rightarrow> string list \<Rightarrow> (string \<times> string) list" where
  "key_labels labels ks = List.map_filter (\<lambda>k. case gm_get labels k of
     Some v \<Rightarrow> if v = [] then None else Some (k, v) | None \<Rightarrow> None) ks"

definition chip :: "string \<times> string \<Rightarrow> string" where
  "chip kv = fst kv @ ''='' @ quoted_code (snd kv)"

lemma chips_loop_key_labels:
  "length chips < 3 \<Longrightarrow> chips_loop labels chips ks = chips @ map chip (take (3 - length chips) (key_labels labels ks))"
proof (induction ks arbitrary: chips)
  case Nil
  then show ?case by (simp add: key_labels_def List.map_filter_simps)
next
  case (Cons k ks)
  show ?case
  proof (cases "gm_get labels k")
    case None
    then show ?thesis using Cons by (simp add: key_labels_def List.map_filter_simps)
  next
    case (Some v)
    let ?more = "chips @ [k @ ''='' @ quoted_code v]"
    have kl: "key_labels labels (k # ks) = (if v = [] then key_labels labels ks else (k, v) # key_labels labels ks)"
      using Some by (simp add: key_labels_def List.map_filter_simps)
    have three: "length chips = 0 \<or> length chips = 1 \<or> length chips = 2" using Cons.prems by linarith
    show ?thesis
    proof (cases "v = []")
      case True
      then show ?thesis using Some Cons.prems Cons.IH [of chips] by (simp add: kl)
    next
      case False
      then show ?thesis using Some three Cons.IH [of ?more] unfolding kl by (elim disjE) (simp_all add: Let_def chip_def eval_nat_numeral)
    qed
  qed
qed

lemma chips_match_row: "keyLabelChips (am_labels inc) = map chip (ar_key_labels (ToAMIncidentRow inc))"
  using chips_loop_key_labels [of "[]"] by (simp add: keyLabelChips_def ToAMIncidentRow_def key_labels_def)

text \<open>A text in whole seconds does not see the microsecond that the database keeps.\<close>

lemma formatDuration_seconds: "0 \<le> d \<Longrightarrow> formatDuration d = formatDuration (d div second * second)"
proof -
  assume d: "0 \<le> d"
  define k where "k = d div second"
  have k: "0 \<le> k" "d < minute \<longleftrightarrow> k < 60" "d < hour \<longleftrightarrow> k < 3600" "d < 24 * hour \<longleftrightarrow> k < 86400"
    using d by (auto simp: k_def)
  have q: "d div second = k" "d div minute = k div 60" "d div hour = k div 3600"
    using zdiv_zmult2_eq [of 60 d second] zdiv_zmult2_eq [of 3600 d second] by (simp_all add: k_def mult.commute)
  have r: "k * second div second = k" "k * second div minute = k div 60" "k * second div hour = k div 3600"
    using zdiv_zmult2_eq [of 60 "k * second" second] zdiv_zmult2_eq [of 3600 "k * second" second] by (simp_all add: mult.commute)
  have "itoa 0 = ''0''" by code_simp
  then have z: "k = 0 \<Longrightarrow> d < minute" "k = 0 \<Longrightarrow> itoa k = ''0''" "d = 0 \<Longrightarrow> k = 0" using k(2) by (auto simp: k_def)
  show ?thesis unfolding k_def [symmetric] formatDuration_def q r using k z d by (auto simp: Let_def)
qed

lemma time_sub_pos: "max 0 (time_sub e s) = (if e - s < 0 then 0 else if e - s \<le> max_duration then e - s else max_duration)"
  by (simp add: time_sub_def max_def min_def min_duration_def max_duration_def)

lemma seconds_of_cap:
  assumes "max_duration - 1000 \<le> t" "t \<le> max_duration"
  shows "t div second = 9223372036"
  by (rule int_div_pos_eq [where r = "t - 9223372036 * second"]) (use assms in \<open>simp_all add: max_duration_def\<close>)

lemma seconds_of_stored: "(x - x mod 1000) div second = x div second"
proof -
  have "(x - x mod 1000) div second = (x - x mod 1000) div 1000 div 1000000"
    using zdiv_zmult2_eq [of 1000000 "x - x mod 1000" 1000] by simp
  also have "(x - x mod 1000) div 1000 = x div 1000" by (simp add: minus_mod_eq_mult_div)
  finally show ?thesis using zdiv_zmult2_eq [of 1000000 x 1000] by simp
qed

lemma pg_time_seconds:
  assumes "pg_time s = s"
  shows "max 0 (time_sub (pg_time e) s) div second = max 0 (time_sub e s) div second"
proof -
  define x where "x = e - s"
  define y where "y = pg_time e - s"
  have s: "s mod 1000 = 0" using assms by (simp add: pg_time_def)
  have "(e - s) mod 1000 = e mod 1000" using mod_diff_eq [of e 1000 s] s by simp
  then have y: "y = x - x mod 1000" by (simp add: pg_time_def x_def y_def)
  have m: "0 \<le> x mod 1000" "x mod 1000 < 1000" by simp_all
  have xy: "y div second = x div second" unfolding y by (rule seconds_of_stored)
  have neg: "y < 0 \<longleftrightarrow> x < 0"
  proof
    assume "y < 0" show "x < 0"
    proof (rule ccontr)
      assume "\<not> x < 0"
      then have "0 \<le> x div 1000 * 1000" by (simp add: pos_imp_zdiv_nonneg_iff)
      then show False using \<open>y < 0\<close> unfolding y minus_mod_eq_div_mult by simp
    qed
  qed (use y m in linarith)
  show ?thesis unfolding time_sub_pos x_def [symmetric] y_def [symmetric]
  proof (cases "x \<le> max_duration")
    case True
    then have "y \<le> max_duration" using y m by linarith
    then show "(if y < 0 then 0 else if y \<le> max_duration then y else max_duration) div second =
        (if x < 0 then 0 else if x \<le> max_duration then x else max_duration) div second"
      using True neg xy by simp
  next
    case False
    have le: "max_duration - 1000 \<le> y" using False y m by linarith
    then have "0 \<le> y" by (simp add: max_duration_def)
    have "(if y \<le> max_duration then y else max_duration) div second = 9223372036"
      using le by (intro seconds_of_cap) simp_all
    moreover have "max_duration div second = 9223372036" by (intro seconds_of_cap) simp_all
    ultimately show "(if y < 0 then 0 else if y \<le> max_duration then y else max_duration) div second =
        (if x < 0 then 0 else if x \<le> max_duration then x else max_duration) div second"
      using False neg \<open>0 \<le> y\<close> by simp
  qed
qed

lemma MarkAMResolved_ended:
  "MarkAMResolved fp ended d = (d1, Inr (Some inc)) \<Longrightarrow> am_ended_at inc = Some (pg_time ended)"
  unfolding MarkAMResolved_def by (erule db_call_elim) (auto split: option.splits)


definition resolved_alert :: am_alert where
  "resolved_alert = \<lparr>aa_status = ''resolved'', aa_labels = [], aa_annotations = [], aa_starts_at = 0,
     aa_ends_at = 2 * hour + 5 * minute + 7, aa_generator_url = [], aa_fingerprint = ''f''\<rparr>"

definition open_incident_db :: db where
  "open_incident_db = (empty_db 0)\<lparr>db_am_alerts := [\<lparr>am_id = 1, am_fingerprint = ''f'', am_alertname = ''Disk'',
     am_labels = [(''pod'', ''p''), (''job'', ''j'')], am_annotations = [], am_started_at = 0, am_ended_at = None,
     am_channel_slug = ''ops'', am_slack_channel = [], am_slack_ts = [], am_rule_chain = [], am_resolved_notify = [],
     am_external_url = [], am_receiver = []\<rparr>]\<rparr>"


end
