(* ===== verification/View_Links.thy ===== *)
theory View_Links
  imports Web_Claims Durations
begin

text \<open>
  The links of the pages and the small texts beside them (\<^verbatim>\<open>internal/web/templates/helpers.go\<close>, \<^verbatim>\<open>ui.go\<close> and
  \<^verbatim>\<open>am_alerts_view.go\<close>).  A query is a map from a key to its values; that encoding and parsing it are inverse is
  \<^verbatim>\<open>net/url\<close>.
\<close>

section \<open>Queries\<close>

definition uv_set :: "string \<Rightarrow> string \<Rightarrow> url_query \<Rightarrow> url_query" where
  "uv_set k v q = gm_put k [v] q"

definition uv_add :: "string \<Rightarrow> string \<Rightarrow> url_query \<Rightarrow> url_query" where
  "uv_add k v q = gm_put k (gm_get0 [] q k @ [v]) q"

definition uv_set_if :: "bool \<Rightarrow> string \<Rightarrow> string \<Rightarrow> url_query \<Rightarrow> url_query" where
  "uv_set_if b k v q = (if b then uv_set k v q else q)"

section \<open>The monitor listing\<close>

record monitors_filter =
  mf_search :: string
  mf_status :: string
  mf_ssl :: string
  mf_page :: string
  mf_section :: int
  mf_sort :: string
  mf_desc :: bool
  mf_archived :: string
  mf_tags :: "string list"

text \<open>The filter that the handler reads from a request.\<close>

definition filter_of :: "url_query \<Rightarrow> monitors_filter" where
  "filter_of q = \<lparr>mf_search = qget q ''q'', mf_status = qget q ''status'', mf_ssl = qget q ''ssl'', mf_page = qget q ''status_page'',
     mf_section = section_param q, mf_sort = normalizeSortKey (qget q ''sort''), mf_desc = (qget q ''dir'' = ''desc''),
     mf_archived = normalizeArchivedFilter (qget q ''archived''),
     mf_tags = nonEmpty (case gm_get q ''tag'' of None \<Rightarrow> [] | Some ts \<Rightarrow> ts)\<rparr>"

definition paramsFromFilter :: "monitors_filter \<Rightarrow> url_query" where
  "paramsFromFilter f =
    fold (\<lambda>t q. if t = [] then q else uv_add ''tag'' t q) (mf_tags f)
     (uv_set_if (mf_archived f \<noteq> [] \<and> mf_archived f \<noteq> ''active'') ''archived'' (mf_archived f)
     (uv_set_if (mf_sort f \<noteq> [] \<and> mf_desc f) ''dir'' ''desc''
     (uv_set_if (mf_sort f \<noteq> []) ''sort'' (mf_sort f)
     (uv_set_if (mf_page f \<noteq> [] \<and> 0 \<le> mf_section f) ''section'' (itoa (mf_section f))
     (uv_set_if (mf_page f \<noteq> []) ''status_page'' (mf_page f)
     (uv_set_if (mf_ssl f \<noteq> []) ''ssl'' (mf_ssl f)
     (uv_set_if (mf_status f \<noteq> []) ''status'' (mf_status f)
     (uv_set_if (mf_search f \<noteq> []) ''q'' (mf_search f) []))))))))"

text \<open>The query of a column header and of a step of the paginator.\<close>

definition sortHref :: "string \<Rightarrow> monitors_filter \<Rightarrow> url_query" where
  "sortHref key f =
    (let q = uv_set ''sort'' key (gm_del ''page'' (gm_del ''dir'' (gm_del ''sort'' (paramsFromFilter f)))) in
     uv_set_if (mf_sort f = key \<and> \<not> mf_desc f) ''dir'' ''desc'' q)"

definition paginatorLink :: "url_query \<Rightarrow> int \<Rightarrow> url_query" where
  "paginatorLink extra page =
     uv_set ''page'' (itoa page) (fold (\<lambda>(k, vs) q. fold (\<lambda>v q. if v = [] then q else uv_add k v q) vs q) extra [])"

section \<open>The incident listing\<close>

record am_link_filter =
  lf_status :: string
  lf_severity :: string
  lf_alertname :: string
  lf_channel :: string
  lf_receiver :: string
  lf_from :: string
  lf_to :: string

definition link_filter_of :: "url_query \<Rightarrow> am_link_filter" where
  "link_filter_of q = \<lparr>lf_status = normalizeAMStatus (qget q ''status''), lf_severity = TrimSpace (qget q ''severity''),
     lf_alertname = TrimSpace (qget q ''alertname''), lf_channel = TrimSpace (qget q ''channel''),
     lf_receiver = TrimSpace (qget q ''receiver''), lf_from = TrimSpace (qget q ''from''), lf_to = TrimSpace (qget q ''to'')\<rparr>"

definition AMListingURL :: "am_link_filter \<Rightarrow> int \<Rightarrow> int \<Rightarrow> url_query" where
  "AMListingURL f page per =
    (uv_set_if (1 < page) ''page'' (itoa page)
    (uv_set_if (0 < per) ''per_page'' (itoa per)
    (uv_set_if (lf_to f \<noteq> []) ''to'' (lf_to f)
    (uv_set_if (lf_from f \<noteq> []) ''from'' (lf_from f)
    (uv_set_if (lf_receiver f \<noteq> []) ''receiver'' (lf_receiver f)
    (uv_set_if (lf_channel f \<noteq> []) ''channel'' (lf_channel f)
    (uv_set_if (lf_alertname f \<noteq> []) ''alertname'' (lf_alertname f)
    (uv_set_if (lf_severity f \<noteq> []) ''severity'' (lf_severity f)
    (uv_set_if (lf_status f \<noteq> []) ''status'' (lf_status f) [])))))))))"

section \<open>Texts\<close>

definition SSLCellState :: "time \<Rightarrow> string \<Rightarrow> time option \<Rightarrow> string" where
  "SSLCellState now status expires =
    (if status = [] then [] else if status = ''ok'' then ''ok'' else if status = ''ssl-skipped'' then ''skipped''
     else if status = ''ssl-expiring''
     then (case expires of None \<Rightarrow> ''expiring'' | Some t \<Rightarrow> if t < now then ''expired'' else ''expiring'')
     else status)"

definition kubeNamePrefix :: "string \<Rightarrow> string" where
  "kubeNamePrefix name = (if length name < 2 \<or> hd name \<noteq> CHR ''('' \<or> CHR '')'' \<notin> set name then []
     else takeWhile (\<lambda>c. c \<noteq> CHR '')'') (tl name))"

definition kubeNameRest :: "string \<Rightarrow> string" where
  "kubeNameRest name = (if length name < 2 \<or> hd name \<noteq> CHR ''('' \<or> CHR '')'' \<notin> set name then name
     else TrimSpace (tl (dropWhile (\<lambda>c. c \<noteq> CHR '')'') name)))"

definition boolYesNo :: "bool \<Rightarrow> string" where
  "boolYesNo b = (if b then ''yes'' else ''no'')"

definition discovery_summary :: "(snapshot_key \<times> discovery_row) list \<Rightarrow> nat \<times> nat \<times> nat \<times> nat \<times> nat" where
  "discovery_summary rows = (let count = (\<lambda>s. length (filter (\<lambda>(k, r). ds_status r = s) rows)) in
     (length rows, count ''added'', count ''kube-paused'', count ''kube-invalid'', count ''kube-ignored''))"

definition amRowDurationText :: "time \<Rightarrow> am_incident \<Rightarrow> string" where
  "amRowDurationText now i = (case am_ended_at i of
     Some t \<Rightarrow> formatDuration (time_sub t (am_started_at i))
   | None \<Rightarrow> formatDuration (time_sub now (am_started_at i)) @ '' open'')"

definition amDurationLabel :: "am_row \<Rightarrow> duration \<Rightarrow> string" where
  "amDurationLabel r d = (if ar_status r = ''resolved'' then ''('' @ formatDuration d @ '' downtime)''
     else ''(open '' @ formatDuration d @ '')'')"

section \<open>Tones\<close>

datatype tone = ToneUp | ToneDown | TonePaused | ToneWarn | ToneSSL | ToneArchived | ToneNeutral | ToneAccent

definition toneText :: "tone \<Rightarrow> string" where
  "toneText t = (case t of ToneUp \<Rightarrow> ''text-up'' | ToneDown \<Rightarrow> ''text-down'' | TonePaused \<Rightarrow> ''text-warn'' | ToneWarn \<Rightarrow> ''text-warn''
     | ToneSSL \<Rightarrow> ''text-warn'' | ToneArchived \<Rightarrow> ''text-idle'' | ToneAccent \<Rightarrow> ''text-accent'' | ToneNeutral \<Rightarrow> ''text-ink'')"

definition toneMark :: "tone \<Rightarrow> string" where
  "toneMark t = (case t of ToneUp \<Rightarrow> ''bg-up-mark'' | ToneDown \<Rightarrow> ''bg-down-mark'' | TonePaused \<Rightarrow> ''bg-warn-mark''
     | ToneWarn \<Rightarrow> ''bg-warn-mark'' | ToneSSL \<Rightarrow> ''bg-warn-mark'' | ToneArchived \<Rightarrow> ''bg-dim'' | ToneAccent \<Rightarrow> ''bg-accent''
     | ToneNeutral \<Rightarrow> ''bg-ink'')"

definition toneWash :: "tone \<Rightarrow> string" where
  "toneWash t = (case t of ToneDown \<Rightarrow> ''bg-down-soft'' | TonePaused \<Rightarrow> ''bg-warn-soft'' | ToneWarn \<Rightarrow> ''bg-warn-soft''
     | ToneSSL \<Rightarrow> ''bg-warn-soft'' | ToneUp \<Rightarrow> ''bg-up-soft'' | _ \<Rightarrow> [])"

definition rowWash :: "tone \<Rightarrow> string" where
  "rowWash t = (if t = ToneUp then [] else toneWash t)"

definition toneLabel :: "tone \<Rightarrow> string" where
  "toneLabel t = (case t of ToneUp \<Rightarrow> ''up'' | ToneDown \<Rightarrow> ''down'' | TonePaused \<Rightarrow> ''paused'' | ToneWarn \<Rightarrow> ''warn''
     | ToneSSL \<Rightarrow> ''ssl exp'' | ToneArchived \<Rightarrow> ''archived'' | _ \<Rightarrow> ''total'')"

definition badgeLabel :: "tone \<Rightarrow> string" where
  "badgeLabel t = (if t = ToneNeutral \<or> t = ToneAccent then ''unknown'' else toneLabel t)"

definition chipTone :: "tone \<Rightarrow> string" where
  "chipTone t = (if t = ToneNeutral then ''text-muted'' else toneText t)"

definition metricTone :: "tone \<Rightarrow> bool \<Rightarrow> int \<Rightarrow> string" where
  "metricTone t vivid n = (if n = 0 then ''text-ink''
     else if \<not> vivid \<and> (t = ToneUp \<or> t = ToneNeutral \<or> t = ToneArchived) then ''text-ink'' else toneText t)"

definition MonitorTone :: "string \<Rightarrow> bool \<Rightarrow> tone" where
  "MonitorTone status archived = (if archived then ToneArchived else if status = ''up'' then ToneUp
     else if status = ''down'' then ToneDown else if status = ''temporary-paused'' then TonePaused else ToneNeutral)"

definition statusBadgeLabelFor :: "string \<Rightarrow> string" where
  "statusBadgeLabelFor status = (if status = ''temporary-paused'' then ''paused'' else status)"

definition HTTPCodeTone :: "int \<Rightarrow> tone" where
  "HTTPCodeTone code = (if 200 \<le> code \<and> code < 300 then ToneUp else if 300 \<le> code \<and> code < 400 then ToneWarn
     else if 400 \<le> code then ToneDown else ToneNeutral)"

definition EventTone :: "string \<Rightarrow> tone" where
  "EventTone t = (if t \<in> set [''open'', ''ssl_open''] then ToneDown else if t \<in> set [''resolve'', ''ssl_resolve''] then ToneUp
     else if t \<in> set [''reminder'', ''ssl_reminder''] then ToneWarn else ToneNeutral)"

definition SSLTone :: "string \<Rightarrow> tone" where
  "SSLTone s = (if s = ''ok'' then ToneUp else if s \<in> set [''ssl-expiring'', ''expiring''] then ToneWarn
     else if s = ''expired'' then ToneDown else if s \<in> set [''ssl-skipped'', ''skipped''] then ToneArchived else ToneNeutral)"

definition DiscoveryTone :: "string \<Rightarrow> tone" where
  "DiscoveryTone s = (if s = ''added'' then ToneUp else if s = ''kube-paused'' then ToneArchived
     else if s = ''kube-invalid'' then ToneDown else if s = ''kube-ignored'' then ToneWarn else ToneNeutral)"

definition statusTone :: "string \<Rightarrow> tone" where
  "statusTone kind = (if kind = ''down'' then ToneDown else if kind = ''warn'' then ToneWarn else if kind = ''none'' then ToneArchived
     else ToneUp)"

definition discoveryRowTone :: "string \<Rightarrow> tone" where
  "discoveryRowTone status = (if status = ''kube-invalid'' then ToneDown else ToneNeutral)"

definition AMStatusTone :: "string \<Rightarrow> tone" where
  "AMStatusTone s = (if s = ''firing'' then ToneDown else if s = ''resolved'' then ToneUp else ToneNeutral)"

section \<open>Reading a link\<close>

lemma gm_get_set: "gm_get (uv_set k v q) k' = (if k' = k then Some [v] else gm_get q k')"
  by (simp add: uv_set_def gm.get_put)

lemma qget_set [simp]: "qget (uv_set k v q) k' = (if k' = k then v else qget q k')"
  by (simp add: qget_def gm_get_set)

lemma qget_set_if [simp]: "qget (uv_set_if b k v q) k' = (if b \<and> k' = k then v else qget q k')"
  by (simp add: uv_set_if_def)

lemma qget_Nil [simp]: "qget [] k = []"
  by (simp add: qget_def)

lemma tag_free [simp]: "k \<noteq> ''tag'' \<Longrightarrow> gm_get (uv_set_if b k v q) ''tag'' = gm_get q ''tag''"
  by (simp add: uv_set_if_def gm_get_set)

definition add_tags :: "string list \<Rightarrow> url_query \<Rightarrow> url_query" where
  "add_tags ts q = fold (\<lambda>t q. if t = [] then q else uv_add ''tag'' t q) ts q"

lemma add_tags_simps: "add_tags [] q = q" "add_tags (t # ts) q = add_tags ts (if t = [] then q else uv_add ''tag'' t q)"
  by (simp_all add: add_tags_def)

lemma add_tags_other: "k \<noteq> ''tag'' \<Longrightarrow> gm_get (add_tags ts q) k = gm_get q k"
  by (induction ts arbitrary: q) (simp_all add: add_tags_simps uv_add_def gm.get_put)

lemma qget_add_tags [simp]: "k \<noteq> ''tag'' \<Longrightarrow> qget (add_tags ts q) k = qget q k"
  by (simp add: qget_def add_tags_other)

lemma add_tags_tag:
  "gm_get q ''tag'' = Some us \<Longrightarrow> gm_get (add_tags ts q) ''tag'' = Some (us @ nonEmpty ts)"
  "gm_get q ''tag'' = None \<Longrightarrow> nonEmpty (case gm_get (add_tags ts q) ''tag'' of None \<Rightarrow> [] | Some ts \<Rightarrow> ts) = nonEmpty ts"
proof -
  have some: "gm_get q ''tag'' = Some us \<Longrightarrow> gm_get (add_tags ts q) ''tag'' = Some (us @ nonEmpty ts)" for us ts q
  proof (induction ts arbitrary: q us)
    case (Cons t ts)
    have "t \<noteq> [] \<Longrightarrow> gm_get (uv_add ''tag'' t q) ''tag'' = Some (us @ [t])" using Cons.prems by (simp add: uv_add_def gm.get_put gm_get0_def)
    then show ?case using Cons.IH [of q us] Cons.IH [of "uv_add ''tag'' t q" "us @ [t]"] Cons.prems
      by (cases "t = []") (simp_all add: add_tags_simps nonEmpty_def)
  qed (simp add: add_tags_simps nonEmpty_def)
  then show "gm_get q ''tag'' = Some us \<Longrightarrow> gm_get (add_tags ts q) ''tag'' = Some (us @ nonEmpty ts)" .
  show "gm_get q ''tag'' = None \<Longrightarrow> nonEmpty (case gm_get (add_tags ts q) ''tag'' of None \<Rightarrow> [] | Some ts \<Rightarrow> ts) = nonEmpty ts"
  proof (induction ts arbitrary: q)
    case (Cons t ts)
    show ?case
    proof (cases "t = []")
      case True
      then show ?thesis using Cons by (simp add: add_tags_simps nonEmpty_def)
    next
      case False
      then have "gm_get (uv_add ''tag'' t q) ''tag'' = Some [t]" using Cons.prems by (simp add: uv_add_def gm.get_put gm_get0_def)
      then show ?thesis using False some [of "uv_add ''tag'' t q" "[t]" ts] by (simp add: add_tags_simps nonEmpty_def)
    qed
  qed (simp add: add_tags_simps nonEmpty_def)
qed

lemma atoi_range: "atoi s = Some n \<Longrightarrow> min_duration \<le> n \<and> n \<le> max_duration"
  unfolding atoi_def Let_def by (auto split: prod.splits if_splits)

lemma section_param_range: "section_param q \<noteq> - 1 \<Longrightarrow> qget q ''status_page'' \<noteq> [] \<and> 0 \<le> section_param q \<and> section_param q \<le> max_duration"
  by (auto simp: section_param_def dest: atoi_range split: option.splits if_splits)

lemma params_fold: "paramsFromFilter f = add_tags (mf_tags f)
     (uv_set_if (mf_archived f \<noteq> [] \<and> mf_archived f \<noteq> ''active'') ''archived'' (mf_archived f)
     (uv_set_if (mf_sort f \<noteq> [] \<and> mf_desc f) ''dir'' ''desc''
     (uv_set_if (mf_sort f \<noteq> []) ''sort'' (mf_sort f)
     (uv_set_if (mf_page f \<noteq> [] \<and> 0 \<le> mf_section f) ''section'' (itoa (mf_section f))
     (uv_set_if (mf_page f \<noteq> []) ''status_page'' (mf_page f)
     (uv_set_if (mf_ssl f \<noteq> []) ''ssl'' (mf_ssl f)
     (uv_set_if (mf_status f \<noteq> []) ''status'' (mf_status f)
     (uv_set_if (mf_search f \<noteq> []) ''q'' (mf_search f) []))))))))"
  by (simp add: paramsFromFilter_def add_tags_def)

lemma normalize_idem [simp]: "normalizeSortKey (normalizeSortKey s) = normalizeSortKey s" "nonEmpty (nonEmpty ts) = nonEmpty ts"
  "normalizeArchivedFilter (normalizeArchivedFilter s) = normalizeArchivedFilter s" "normalizeAMStatus (normalizeAMStatus s) = normalizeAMStatus s"
  "normalizeSortKey [] = []" "normalizeArchivedFilter [] = []" "normalizeAMStatus [] = []"
  by (simp_all add: normalizeSortKey_def nonEmpty_def normalizeArchivedFilter_def normalizeAMStatus_def ListSortKeys_def)

lemma section_param_params:
  assumes "mf_section f = - 1 \<or> mf_page f \<noteq> [] \<and> 0 \<le> mf_section f \<and> mf_section f \<le> max_duration"
  shows "section_param (paramsFromFilter f) = mf_section f"
proof -
  have "atoi [] = None" by (simp add: atoi_def all_digits_def)
  moreover have "atoi (itoa (mf_section f)) = Some (mf_section f)" if "0 \<le> mf_section f" "mf_section f \<le> max_duration"
    using that by (intro atoi_itoa) (simp_all add: min_duration_def)
  moreover have "qget (paramsFromFilter f) ''status_page'' = mf_page f"
    "qget (paramsFromFilter f) ''section'' = (if mf_page f \<noteq> [] \<and> 0 \<le> mf_section f then itoa (mf_section f) else [])"
    by (simp_all add: params_fold)
  ultimately show ?thesis using assms unfolding section_param_def by auto
qed

lemma filter_of_params:
  assumes "f = filter_of q"
  shows "filter_of (paramsFromFilter f) = f\<lparr>mf_desc := mf_sort f \<noteq> [] \<and> mf_desc f,
    mf_archived := (if mf_archived f = ''active'' then [] else mf_archived f)\<rparr>"
proof -
  have sec: "section_param (paramsFromFilter f) = mf_section f"
    using section_param_range [of q] assms by (intro section_param_params) (auto simp: filter_of_def)
  have tags: "nonEmpty (case gm_get (paramsFromFilter f) ''tag'' of None \<Rightarrow> [] | Some ts \<Rightarrow> ts) = mf_tags f"
    unfolding params_fold using assms by (subst add_tags_tag(2)) (simp_all add: filter_of_def)
  have sort: "normalizeSortKey (mf_sort f) = mf_sort f" and arch: "normalizeArchivedFilter (mf_archived f) = mf_archived f"
    using assms by (simp_all add: filter_of_def)
  have "qget (paramsFromFilter f) ''q'' = mf_search f" "qget (paramsFromFilter f) ''status'' = mf_status f"
    "qget (paramsFromFilter f) ''ssl'' = mf_ssl f" "qget (paramsFromFilter f) ''status_page'' = mf_page f"
    "qget (paramsFromFilter f) ''sort'' = mf_sort f"
    "qget (paramsFromFilter f) ''dir'' = (if mf_sort f \<noteq> [] \<and> mf_desc f then ''desc'' else [])"
    "qget (paramsFromFilter f) ''archived'' = (if mf_archived f = ''active'' then [] else mf_archived f)"
    by (simp_all add: params_fold)
  then show ?thesis unfolding filter_of_def [of "paramsFromFilter f"] by (simp add: sec tags sort arch)
qed

text \<open>What the listing depends on.\<close>

lemma listing_of_filter:
  "lo_search (listing_opts sv q slugs) = mf_search (filter_of q)" "lo_status (listing_opts sv q slugs) = mf_status (filter_of q)"
  "lo_ssl (listing_opts sv q slugs) = mf_ssl (filter_of q)" "lo_slugs (listing_opts sv q slugs) = slugs"
  "lo_tags (listing_opts sv q slugs) = mf_tags (filter_of q)" "lo_archived (listing_opts sv q slugs) = mf_archived (filter_of q)"
  "lo_sort (listing_opts sv q slugs) = mf_sort (filter_of q)" "lo_desc (listing_opts sv q slugs) = mf_desc (filter_of q)"
  by (simp_all add: listing_opts_def filter_of_def split: prod.splits)

lemma listing_cong:
  "filter_of q1 = filter_of q2 \<Longrightarrow> listing_filter il now (listing_opts sv q1 slugs) = listing_filter il now (listing_opts sv q2 slugs)"
  unfolding listing_filter_def listing_of_filter by simp

lemma same_listing:
  shows "listing_filter il now (listing_opts sv (paramsFromFilter (filter_of q)) slugs) = listing_filter il now (listing_opts sv q slugs)"
    and "sortClause (lo_sort (listing_opts sv (paramsFromFilter (filter_of q)) slugs)) (lo_desc (listing_opts sv (paramsFromFilter (filter_of q)) slugs)) =
      sortClause (lo_sort (listing_opts sv q slugs)) (lo_desc (listing_opts sv q slugs))"
proof -
  show "listing_filter il now (listing_opts sv (paramsFromFilter (filter_of q)) slugs) = listing_filter il now (listing_opts sv q slugs)"
    unfolding listing_filter_def listing_of_filter filter_of_params [OF refl] by (simp add: fun_eq_iff)
  show "sortClause (lo_sort (listing_opts sv (paramsFromFilter (filter_of q)) slugs)) (lo_desc (listing_opts sv (paramsFromFilter (filter_of q)) slugs)) =
      sortClause (lo_sort (listing_opts sv q slugs)) (lo_desc (listing_opts sv q slugs))"
  proof (cases "mf_sort (filter_of q) = []")
    case True
    then show ?thesis unfolding listing_of_filter filter_of_params [OF refl] by (simp add: sortClause_def)
  next
    case False
    then show ?thesis unfolding listing_of_filter filter_of_params [OF refl] by simp
  qed
qed

lemma trim_with_suffix: "\<exists>n. trim_with two three s = drop n s"
proof (induction two three s rule: trim_with.induct)
  case (1 two three a b c s)
  consider "ascii_space a" | "\<not> ascii_space a" "two a b" | "\<not> ascii_space a" "\<not> two a b" "three a b c"
    | "\<not> ascii_space a" "\<not> two a b" "\<not> three a b c" by blast
  then show ?case
  proof cases
    case 1
    then obtain n where "trim_with two three (b # c # s) = drop n (b # c # s)" using "1.IH"(1) by blast
    then show ?thesis using 1 by (intro exI [of _ "Suc n"]) simp
  next
    case 2
    then obtain n where "trim_with two three (c # s) = drop n (c # s)" using "1.IH"(2) by blast
    then show ?thesis using 2 by (intro exI [of _ "Suc (Suc n)"]) simp
  next
    case 3
    then obtain n where "trim_with two three s = drop n s" using "1.IH"(3) by blast
    then show ?thesis using 3 by (intro exI [of _ "Suc (Suc (Suc n))"]) simp
  qed (intro exI [of _ 0], simp)
next
  case (2 two three a b)
  show ?case
  proof (cases "ascii_space a")
    case True
    then show ?thesis by (cases "ascii_space b") (auto intro: exI [of _ 1] exI [of _ 2])
  qed (auto intro: exI [of _ 0] exI [of _ 2])
next
  case (3 two three a)
  then show ?case by (auto intro: exI [of _ 0] exI [of _ 1])
qed simp

lemma trim_with_shorter: "trim_with two three (a # s) = a # s \<longleftrightarrow>
    \<not> ascii_space a \<and> (s \<noteq> [] \<longrightarrow> \<not> two a (hd s)) \<and> (2 \<le> length s \<longrightarrow> \<not> three a (s ! 0) (s ! 1))"
proof -
  have len: "length (trim_with two three t) \<le> length t" for t
    using trim_with_suffix [of two three t] by auto
  have ne: "trim_with two three t \<noteq> a # s" if "length t \<le> length s" for t
    using len [of t] that by auto
  show ?thesis
  proof (cases s)
    case (Cons b t)
    then show ?thesis using ne [of "[b]"] ne [of "b # tl s"] ne [of "tl s"] ne [of "tl (tl s)"]
      by (cases t) (simp_all add: Cons)
  qed simp
qed

lemma trim_with_prefix: "trim_with two three (v @ w) = v @ w \<Longrightarrow> trim_with two three v = v"
proof (cases v)
  case (Cons a s)
  assume "trim_with two three (v @ w) = v @ w"
  then have "\<not> ascii_space a \<and> (s @ w \<noteq> [] \<longrightarrow> \<not> two a (hd (s @ w))) \<and> (2 \<le> length (s @ w) \<longrightarrow> \<not> three a ((s @ w) ! 0) ((s @ w) ! 1))"
    using trim_with_shorter [of two three a "s @ w"] Cons by simp
  then have "trim_with two three (a # s) = a # s" unfolding trim_with_shorter
    by (cases s) (auto simp: nth_append split: if_splits)
  then show ?thesis using Cons by simp
qed simp

lemma TrimSpace_idem [simp]: "TrimSpace (TrimSpace s) = TrimSpace s"
proof -
  let ?l = "trim_with space2 space3" and ?r = "trim_with (\<lambda>a b. space2 b a) (\<lambda>a b c. space3 c b a)"
  define u where "u = ?l s"
  define v where "v = rev (?r (rev u))"
  obtain n where "?r (rev u) = drop n (rev u)" using trim_with_suffix by blast
  then have "v = take (length u - n) u" by (simp add: v_def rev_drop)
  then obtain w where "u = v @ w" by (metis append_take_drop_id)
  then have "?l v = v" using trim_with_prefix [of space2 space3 v w] trim_with_idem [of space2 space3 s] by (simp add: u_def)
  then show ?thesis by (simp add: TrimSpace_def u_def [symmetric] v_def [symmetric]) (simp add: v_def trim_with_idem)
qed

lemma link_filter_roundtrip: "link_filter_of (AMListingURL (link_filter_of q) page per) = link_filter_of q"
proof -
  let ?f = "link_filter_of q"
  have "qget (AMListingURL ?f page per) ''status'' = lf_status ?f" "qget (AMListingURL ?f page per) ''severity'' = lf_severity ?f"
    "qget (AMListingURL ?f page per) ''alertname'' = lf_alertname ?f" "qget (AMListingURL ?f page per) ''channel'' = lf_channel ?f"
    "qget (AMListingURL ?f page per) ''receiver'' = lf_receiver ?f" "qget (AMListingURL ?f page per) ''from'' = lf_from ?f"
    "qget (AMListingURL ?f page per) ''to'' = lf_to ?f"
    by (simp_all add: AMListingURL_def)
  then show ?thesis unfolding link_filter_of_def [of "AMListingURL ?f page per"] by (simp add: link_filter_of_def)
qed

lemma positive_param_itoa: "0 < n \<Longrightarrow> n \<le> max_duration \<Longrightarrow> positive_param z (itoa n) = n"
  by (simp add: positive_param_def atoi_itoa min_duration_def)

lemma positive_param_Nil [simp]: "positive_param z [] = z"
  by (simp add: positive_param_def atoi_def all_digits_def)

lemma positive_param_range: "0 < z \<Longrightarrow> z \<le> max_duration \<Longrightarrow> 0 < positive_param z v \<and> positive_param z v \<le> max_duration"
  by (auto simp: positive_param_def dest: atoi_range split: option.splits)

lemma am_link_pagination:
  assumes "0 < page" "page \<le> max_duration" "pagination sv q 50 = (p0, per)"
  shows "pagination sv (AMListingURL f page per) 50 = (page, per)"
proof -
  have per: "0 < per" "per \<le> max_duration" "0 < sv_max_per_page sv \<longrightarrow> per \<le> sv_max_per_page sv"
    using positive_param_range [of 50 "qget q ''per_page''"] assms(3)
    by (auto simp: pagination_def Let_def max_duration_def split: if_splits)
  have "qget (AMListingURL f page per) ''page'' = (if 1 < page then itoa page else [])" "qget (AMListingURL f page per) ''per_page'' = itoa per"
    using per by (simp_all add: AMListingURL_def)
  then show ?thesis using assms(1,2) per positive_param_itoa [of page 1] positive_param_itoa [of per 50]
    by (auto simp: pagination_def Let_def)
qed

text \<open>The paginator of the monitor listing.\<close>

lemma paginator_page:
  "qget (paginatorLink extra page) ''page'' = itoa page"
  by (simp add: paginatorLink_def)

text \<open>A query with one entry per key and no empty value passes through the paginator unchanged.\<close>

definition tidy :: "url_query \<Rightarrow> bool" where
  "tidy q \<longleftrightarrow> gm_ok q \<and> (\<forall>(k, vs) \<in> set q. vs \<noteq> [] \<and> [] \<notin> set vs)"

lemma tidy_put: "tidy q \<Longrightarrow> vs \<noteq> [] \<Longrightarrow> [] \<notin> set vs \<Longrightarrow> tidy (gm_put k vs q)"
  unfolding tidy_def using set_gm_put [of k vs q] by (auto simp: gm.ok_put)

lemma tidy_set_if: "tidy q \<Longrightarrow> (b \<Longrightarrow> v \<noteq> []) \<Longrightarrow> tidy (uv_set_if b k v q)"
  using tidy_put [of q "[v]" k] by (auto simp: uv_set_if_def uv_set_def)

lemma tidy_get0: "tidy q \<Longrightarrow> [] \<notin> set (gm_get0 [] q k)"
  using gm_get_mem [of q k] unfolding tidy_def gm_get0_def by (cases "gm_get q k") fastforce+

lemma tidy_add_tags: "tidy q \<Longrightarrow> tidy (add_tags ts q)"
proof (induction ts arbitrary: q)
  case (Cons t ts)
  then show ?case by (simp add: add_tags_simps uv_add_def tidy_put tidy_get0)
qed (simp add: add_tags_simps)

lemma tidy_params: "tidy (paramsFromFilter f)"
proof -
  have "tidy []" by (simp add: tidy_def gm_ok_def)
  then show ?thesis unfolding params_fold
    by (intro tidy_add_tags tidy_set_if) auto
qed

lemma fold_add_get:
  assumes "[] \<notin> set vs"
  shows "gm_get (fold (\<lambda>v q. if v = [] then q else uv_add k v q) vs q) k' =
    (if k' = k \<and> vs \<noteq> [] then Some (gm_get0 [] q k @ vs) else gm_get q k')"
  using assms by (induction vs arbitrary: q) (auto simp: uv_add_def gm.get_put gm_get0_def)

lemma paginator_get:
  assumes "tidy extra"
  shows "gm_get (fold (\<lambda>(k, vs) q. fold (\<lambda>v q. if v = [] then q else uv_add k v q) vs q) extra q) k =
    (case gm_get extra k of Some vs \<Rightarrow> Some (gm_get0 [] q k @ vs) | None \<Rightarrow> gm_get q k)"
  using assms
proof (induction extra arbitrary: q)
  case (Cons e extra)
  obtain k1 vs where e: "e = (k1, vs)" by fastforce
  have vs: "vs \<noteq> []" "[] \<notin> set vs" "tidy extra" "gm_get extra k1 = None"
    using Cons.prems gm.keys_get [of k1 extra] by (auto simp: tidy_def e gm_keys_def)
  show ?case using Cons.IH [OF vs(3), of "fold (\<lambda>v q. if v = [] then q else uv_add k1 v q) vs q"] vs
    by (auto simp: e fold_add_get gm_get0_def split: option.splits)
qed simp

lemma paginator_keeps:
  assumes "tidy extra" "k \<noteq> ''page''"
  shows "gm_get (paginatorLink extra page) k = gm_get extra k"
  using paginator_get [OF assms(1), of "[]" k] assms(2) by (simp add: paginatorLink_def gm_get_set gm_get0_def split: option.splits)

lemma gm_get_set_if_other: "k' \<noteq> k \<Longrightarrow> gm_get (uv_set_if b k v q) k' = gm_get q k'"
  by (simp add: uv_set_if_def gm_get_set)

lemma params_keys: "gm_get (paramsFromFilter f) ''per_page'' = None"
  by (simp add: params_fold add_tags_other gm_get_set_if_other)

text \<open>Following the paginator forgets the page size of the request: the next page is a page of the default size.\<close>

lemma paginator_forgets_per_page: "qget (paginatorLink (paramsFromFilter f) page) ''per_page'' = []"
  using paginator_keeps [OF tidy_params, of "''per_page''" f page] params_keys [of f] by (simp add: qget_def)



end
