(* ===== verification/Watchdogs.thy ===== *)
theory Watchdogs
  imports Web Scheduler
begin

text \<open>
  The parts that watch the process from outside its own alerts: the deadman heartbeat
  (src/internal/heartbeat/heartbeat.go, with the last tick of src/internal/observability), the gauge of
  open issues (src/internal/lifecycle/issues.go) and the check at startup that the Slack tokens belong
  to one workspace (src/internal/slack/workspace.go, \<^verbatim>\<open>resolveSlackTokens\<close> of
  src/internal/lifecycle/lifecycle.go).

  The properties: a worker that has gone silent is reported at every beat past the threshold and a
  working one never is; the gauges add up to the badge of the pages and keep their value when the
  database cannot be read; the process starts exactly when every channel has a token and no two
  tokens that answer belong to different workspaces.
\<close>

section \<open>The deadman heartbeat\<close>

text \<open>\<^verbatim>\<open>Metrics.LastTick\<close>: the last stamp of the scheduler, in whole seconds; zero is no stamp.\<close>

fun stamp_tick :: "sched_out \<Rightarrow> int \<Rightarrow> int" where
  "stamp_tick (SetWorkerLastTick t) v = t div second"
| "stamp_tick _ v = v"

definition LastTick :: "sched_out list \<Rightarrow> time option" where
  "LastTick outs = (let v = fold stamp_tick outs 0 in if v = 0 then None else Some (v * second))"

record heartbeat =
  hb_url :: string
  hb_interval :: duration
  hb_fail_mode :: bool
  hb_source :: bool
  hb_started :: time

record beat_body =
  bb_open :: nat
  bb_last :: "time option"

definition livenessThreshold :: "heartbeat \<Rightarrow> duration" where
  "livenessThreshold h = (let d = wrap64 (2 * hb_interval h) in if d < 6 * minute then 6 * minute else d)"

definition isStalled :: "heartbeat \<Rightarrow> sched_out list \<Rightarrow> time \<Rightarrow> bool" where
  "isStalled h outs now =
    (if \<not> hb_source h then False
     else (case LastTick outs of
         None \<Rightarrow> livenessThreshold h < time_sub now (hb_started h)
       | Some t \<Rightarrow> livenessThreshold h < time_sub now t))"

text \<open>One beat: the address it posts to and the body.\<close>

definition beat :: "heartbeat \<Rightarrow> sched_out list \<Rightarrow> time \<Rightarrow> db \<Rightarrow> db \<times> string \<times> beat_body" where
  "beat h outs now d =
    (let (d1, n) = (if hb_source h then (case CountOpenIncidents d of (d1, Inr n) \<Rightarrow> (d1, n) | (d1, Inl _) \<Rightarrow> (d1, 0))
                    else (d, 0));
         body = \<lparr>bb_open = n, bb_last = (if hb_source h then LastTick outs else None)\<rparr>
     in (d1, if hb_fail_mode h \<and> isStalled h outs now then hb_url h @ ''/fail'' else hb_url h, body))"

text \<open>The loop: what the ticker sees at each beat, until the context is cancelled (\<^verbatim>\<open>None\<close>).\<close>

type_synonym beat_input = "sched_out list \<times> time \<times> db"

fun beats :: "heartbeat \<Rightarrow> beat_input option list \<Rightarrow> (string \<times> beat_body) list" where
  "beats h [] = []"
| "beats h (None # evs) = []"
| "beats h (Some (outs, now, d) # evs) = snd (beat h outs now d) # beats h evs"

definition hb_Run :: "heartbeat \<Rightarrow> beat_input option list \<Rightarrow> (string \<times> beat_body) list" where
  "hb_Run h evs = (if hb_interval h \<le> 0 \<or> hb_url h = [] then [] else beats h evs)"

definition SendShutdown :: "heartbeat \<Rightarrow> (string \<times> (string \<times> string)) list" where
  "SendShutdown h = (if hb_url h = [] then [] else [(hb_url h, (''event'', ''shutdown''))])"

section \<open>The gauge of open issues\<close>

type_synonym gauges = "(string, nat) gomap"

definition issue_counts :: "web_server \<Rightarrow> (string \<times> (db \<Rightarrow> db \<times> nat option)) list" where
  "issue_counts sv =
    [(''kube-invalid'', \<lambda>d. case CountKubeInvalid d of (d1, Inr n) \<Rightarrow> (d1, Some n) | (d1, Inl _) \<Rightarrow> (d1, None)),
     (''slack-mapping'', \<lambda>d. (d, Some (length (filter (\<lambda>e. \<not> me_ok e) (or_empty (sv_mapping sv)))))),
     (''missing-parent'', \<lambda>d. (d, Some (length (or_empty (sv_missing_parents sv))))),
     (''annotation'', \<lambda>d. (d, Some (length (or_empty (sv_annotation_issues sv)))))]"

definition refresh :: "(string \<times> (db \<Rightarrow> db \<times> nat option)) list \<Rightarrow> gauges \<Rightarrow> db \<Rightarrow> db \<times> gauges" where
  "refresh counts g d = fold (\<lambda>(source, count) (d, g). case count d of
     (d1, Some n) \<Rightarrow> (d1, gm_put source n g) | (d1, None) \<Rightarrow> (d1, g)) counts (d, g)"

section \<open>The workspace of the tokens\<close>

datatype start_error =
    NoToken string string
  | MultiWorkspace string string string string
  | TokenFailed string string

text \<open>\<^verbatim>\<open>resolveSlackTokens\<close>: the tokens of the channels and the distinct tokens by variable.\<close>

fun resolveSlackTokens :: "(string \<Rightarrow> string option) \<Rightarrow> slack_channel_cfg list
    \<Rightarrow> (string, string \<times> string) gomap \<times> (string, string) gomap
    \<Rightarrow> start_error + (string, string \<times> string) gomap \<times> (string, string) gomap" where
  "resolveSlackTokens env [] acc = Inr acc"
| "resolveSlackTokens env (ch # chs) (by_slug, by_env) =
    (let raw = (case env (ch_token_env ch) of None \<Rightarrow> [] | Some v \<Rightarrow> v) in
     if raw = [] then Inl (NoToken (ch_slug ch) (ch_token_env ch))
     else resolveSlackTokens env chs
       (gm_put (ch_slug ch) (ch_id ch, raw) by_slug, gm_put (ch_token_env ch) raw by_env))"

record workspace_state =
  ws_checked :: time
  ws_healthy :: bool
  ws_team :: string
  ws_name :: string
  ws_error :: "start_error option"

text \<open>\<^verbatim>\<open>auth.test\<close> of a token: the team it belongs to, its id and its name.\<close>

type_synonym auth_test = "string \<Rightarrow> string + string \<times> string"

fun verify_tokens :: "auth_test \<Rightarrow> string \<Rightarrow> (string \<times> string) list \<Rightarrow> string \<times> string \<Rightarrow> start_error option
    \<Rightarrow> start_error + (string \<times> string) \<times> start_error option" where
  "verify_tokens auth first_key [] team err = Inr (team, err)"
| "verify_tokens auth first_key ((k, tok) # toks) team err =
    (case auth tok of
       Inl e \<Rightarrow> verify_tokens auth first_key toks team (if err = None then Some (TokenFailed k e) else err)
     | Inr t \<Rightarrow>
         (if fst team = [] then verify_tokens auth first_key toks t err
          else if fst t \<noteq> fst team then Inl (MultiWorkspace first_key (fst team) k (fst t))
          else verify_tokens auth first_key toks team err))"

definition sorted_tokens :: "(string, string) gomap \<Rightarrow> (string \<times> string) list" where
  "sorted_tokens tokens = map (\<lambda>k. (k, gm_get0 [] tokens k)) (sort_strings (gm_keys tokens))"

text \<open>\<^verbatim>\<open>VerifyOnce\<close>: the new cached state and the error it returns.\<close>

definition VerifyWorkspace :: "auth_test \<Rightarrow> (string, string) gomap \<Rightarrow> time \<Rightarrow> workspace_state \<times> start_error option" where
  "VerifyWorkspace auth tokens now =
    (case sorted_tokens tokens of
       [] \<Rightarrow> (\<lparr>ws_checked = now, ws_healthy = True, ws_team = [], ws_name = [], ws_error = None\<rparr>, None)
     | (k, tok) # toks \<Rightarrow>
         (case verify_tokens auth k ((k, tok) # toks) ([], []) None of
            Inl e \<Rightarrow> (\<lparr>ws_checked = now, ws_healthy = False, ws_team = [], ws_name = [], ws_error = Some e\<rparr>, Some e)
          | Inr (team, err) \<Rightarrow>
              (\<lparr>ws_checked = now, ws_healthy = (err = None), ws_team = fst team, ws_name = snd team, ws_error = err\<rparr>, None)))"

text \<open>The part of \<^verbatim>\<open>RunServe\<close> that reads the tokens and checks their workspace.\<close>

definition start_slack :: "(string \<Rightarrow> string option) \<Rightarrow> auth_test \<Rightarrow> slack_channel_cfg list \<Rightarrow> time
    \<Rightarrow> start_error + (string, string \<times> string) gomap \<times> workspace_state" where
  "start_slack env auth chs now =
    (case resolveSlackTokens env chs ([], []) of
       Inl e \<Rightarrow> Inl e
     | Inr (by_slug, by_env) \<Rightarrow>
         (case VerifyWorkspace auth by_env now of
            (st, Some e) \<Rightarrow> Inl e
          | (st, None) \<Rightarrow> Inr (by_slug, st)))"

section \<open>Silence is reported\<close>

text \<open>The last completed check, as the scheduler knew it.\<close>

fun last_check :: "sched_out list \<Rightarrow> time option" where
  "last_check [] = None"
| "last_check (x # xs) =
    (case last_check xs of
       Some t \<Rightarrow> Some t
     | None \<Rightarrow> (case x of SetWorkerLastTick t \<Rightarrow> Some t | _ \<Rightarrow> None))"

lemma stamp_last_check:
  "fold stamp_tick outs v = (case last_check outs of None \<Rightarrow> v | Some t \<Rightarrow> t div second)"
proof (induction outs arbitrary: v)
  case (Cons x outs)
  then show ?case by (cases x) (simp_all split: option.split)
qed simp

lemma last_check_in: "last_check outs = Some t \<Longrightarrow> SetWorkerLastTick t \<in> set outs"
  by (induction outs) (auto split: option.splits sched_out.splits)

lemma LastTick_is_last_check:
  assumes "\<forall>t. SetWorkerLastTick t \<in> set outs \<longrightarrow> second \<le> t"
  shows "LastTick outs = map_option (\<lambda>t. t div second * second) (last_check outs)"
proof (cases "last_check outs")
  case None
  then show ?thesis using stamp_last_check [of outs 0] by (simp add: LastTick_def)
next
  case (Some t)
  then have "second \<le> t" using assms last_check_in by blast
  then have "1 \<le> t div second" using zdiv_mono1 [of second t second] by simp
  then show ?thesis using Some stamp_last_check [of outs 0] by (simp add: LastTick_def)
qed

lemma threshold_is_max:
  assumes "30 * second \<le> hb_interval h" "hb_interval h \<le> max_duration div 2"
  shows "livenessThreshold h = max (2 * hb_interval h) (6 * minute)" "livenessThreshold h < max_duration"
    "0 < livenessThreshold h"
proof -
  have "wrap64 (2 * hb_interval h) = 2 * hb_interval h"
    using assms by (intro wrap64_id) (simp_all add: min_duration_def max_duration_def)
  then show "livenessThreshold h = max (2 * hb_interval h) (6 * minute)"
    by (simp add: livenessThreshold_def Let_def max_def)
  then show "livenessThreshold h < max_duration" "0 < livenessThreshold h"
    using assms by (simp_all add: max_duration_def)
qed

lemma nth_beats:
  "i < length (beats h evs) \<Longrightarrow> evs ! i = Some (outs, now, d) \<Longrightarrow> beats h evs ! i = snd (beat h outs now d)"
proof (induction h evs arbitrary: i rule: beats.induct)
  case (3 h outs' now' d' evs)
  then show ?case by (cases i) simp_all
qed simp_all

lemma beat_address:
  "fst (snd (beat h outs now d)) =
    (if hb_fail_mode h \<and> isStalled h outs now then hb_url h @ ''/fail'' else hb_url h)"
  by (simp add: beat_def Let_def split: prod.split)

text \<open>C25: a silent worker is reported and a working one is not: with the heartbeat configured as
  validation requires, every beat later than the threshold (twice the interval, six minutes at
  least) after both the start and the last check any worker completed goes to the failure address,
  and a beat while the last completed check is younger than the threshold, but for the second that
  the recorded stamp is rounded down by, goes to the plain one.
\<close>

theorem silent_workers_are_reported:
  assumes "hb_source h" "hb_fail_mode h" "hb_url h \<noteq> []"
    and "30 * second \<le> hb_interval h" "hb_interval h \<le> max_duration div 2"
    and "i < length (hb_Run h evs)" "evs ! i = Some (outs, now, d)"
    and "\<forall>t. SetWorkerLastTick t \<in> set outs \<longrightarrow> second \<le> t \<and> t \<le> quiet" "hb_started h \<le> quiet"
  shows "(quiet + max (2 * hb_interval h) (6 * minute) < now \<longrightarrow> fst (hb_Run h evs ! i) = hb_url h @ ''/fail'') \<and>
    (\<forall>t. last_check outs = Some t \<and> now - t \<le> max (2 * hb_interval h) (6 * minute) - second \<longrightarrow>
       fst (hb_Run h evs ! i) = hb_url h)"
proof -
  let ?limit = "livenessThreshold h"
  note lim = threshold_is_max [OF assms(4,5)]
  have run: "hb_Run h evs = beats h evs" using assms(3,4) by (simp add: hb_Run_def)
  then have address: "fst (hb_Run h evs ! i) = (if isStalled h outs now then hb_url h @ ''/fail'' else hb_url h)"
    using nth_beats [of i h evs outs now d] assms(2,6,7) by (simp add: beat_address)
  have lower: "min_duration \<le> ?limit" using lim(3) by (simp add: min_duration_def)
  have gap: "?limit < time_sub now u \<longleftrightarrow> ?limit < now - u" for u
    using time_sub_le [OF lower lim(2), of now u] by linarith
  have tick: "LastTick outs = map_option (\<lambda>t. t div second * second) (last_check outs)"
    using assms(8) by (intro LastTick_is_last_check) blast
  have floor: "t div second * second \<le> t" "t - second < t div second * second" for t :: time
    using div_mult_mod_eq [of t second] pos_mod_sign [of second t] pos_mod_bound [of second t] by linarith+
  have "isStalled h outs now" if "quiet + ?limit < now"
  proof (cases "last_check outs")
    case None
    then show ?thesis using tick gap [of "hb_started h"] assms(1,9) that by (simp add: isStalled_def)
  next
    case (Some t)
    then have "t div second * second \<le> quiet" using assms(8) last_check_in floor(1) [of t] order_trans by blast
    then show ?thesis using Some tick gap [of "t div second * second"] assms(1) that by (simp add: isStalled_def)
  qed
  moreover have "\<not> isStalled h outs now" if "last_check outs = Some t" "now - t \<le> ?limit - second" for t
    using that tick gap [of "t div second * second"] floor(2) [of t] assms(1) by (simp add: isStalled_def)
  ultimately show ?thesis using address lim(1) by auto
qed

definition sample_heartbeat :: heartbeat where
  "sample_heartbeat = \<lparr>hb_url = ''u'', hb_interval = minute, hb_fail_mode = True, hb_source = True, hb_started = 1000 * second\<rparr>"

theorem silent_workers_are_reported_witness:
  "fst (hb_Run sample_heartbeat [Some ([SetWorkerLastTick (2000 * second)], 2400 * second, empty_db 0)] ! 0) = ''u/fail''"
proof -
  have "(2000 * second :: time) + max (2 * hb_interval sample_heartbeat) (6 * minute) < 2400 * second"
    by (simp add: sample_heartbeat_def)
  moreover have "0 < length (hb_Run sample_heartbeat [Some ([SetWorkerLastTick (2000 * second)], 2400 * second, empty_db 0)])"
    by (simp add: sample_heartbeat_def hb_Run_def)
  ultimately show ?thesis
    using silent_workers_are_reported [of sample_heartbeat 0 "[Some ([SetWorkerLastTick (2000 * second)], 2400 * second, empty_db 0)]"
        "[SetWorkerLastTick (2000 * second)]" "2400 * second" "empty_db 0" "2000 * second"]
    by (simp add: sample_heartbeat_def max_duration_def)
qed

text \<open>
  The threshold does not know how often the monitors run: with hourly monitors alone, a worker that
  has just completed its check on time is reported half an hour later.
\<close>

lemma hourly_checks_read_as_stalled:
  "isStalled sample_heartbeat [SetWorkerLastTick (7200 * second)] (9000 * second)"
  by (simp add: isStalled_def sample_heartbeat_def livenessThreshold_def LastTick_def wrap64_def time_sub_def
      min_duration_def max_duration_def)

section \<open>The gauges add up to the badge\<close>

text \<open>
  After a refresh the gauges sum to the badge of the pages; when the database cannot be read the
  gauge of the invalid rows keeps its value, while the badge counts none.
\<close>

lemma gauges_follow_the_badge:
  "(case snd (CountKubeInvalid d) of
      Inr n \<Rightarrow> gm_get (snd (refresh (issue_counts sv) g d)) ''kube-invalid'' = Some n
    | Inl e \<Rightarrow> gm_get (snd (refresh (issue_counts sv) g d)) ''kube-invalid'' = gm_get g ''kube-invalid'') \<and>
   sum_list (map (gm_get0 0 (snd (refresh (issue_counts sv) g d))) [''slack-mapping'', ''missing-parent'', ''annotation'']) +
     (case snd (CountKubeInvalid d) of Inr n \<Rightarrow> n | Inl e \<Rightarrow> 0) = snd (issueCount sv d)"
  by (cases "CountKubeInvalid d"; cases "snd (CountKubeInvalid d)")
    (simp_all add: refresh_def issue_counts_def issueCount_def gm_get0_def)

section \<open>One workspace\<close>

definition token_of :: "(string \<Rightarrow> string option) \<Rightarrow> slack_channel_cfg \<Rightarrow> string" where
  "token_of env ch = (case env (ch_token_env ch) of None \<Rightarrow> [] | Some v \<Rightarrow> v)"

lemma resolve_fails: "(\<exists>e. resolveSlackTokens env chs acc = Inl e) \<longleftrightarrow> (\<exists>ch \<in> set chs. token_of env ch = [])"
  by (induction env chs acc rule: resolveSlackTokens.induct) (auto simp: token_of_def Let_def)

lemma resolve_tokens:
  "resolveSlackTokens env chs (by_slug, by_env) = Inr (s', e') \<Longrightarrow>
   gm_get e' k = (if \<exists>ch \<in> set chs. ch_token_env ch = k then env k else gm_get by_env k)"
proof (induction chs arbitrary: by_slug by_env)
  case (Cons ch chs)
  then have t: "token_of env ch \<noteq> []" by (auto simp: token_of_def Let_def)
  then have v: "env (ch_token_env ch) = Some (token_of env ch)" by (auto simp: token_of_def split: option.splits)
  show ?case
    using Cons.prems t Cons.IH [of "gm_put (ch_slug ch) (ch_id ch, token_of env ch) by_slug" "gm_put (ch_token_env ch) (token_of env ch) by_env"]
    by (auto simp: token_of_def [symmetric] Let_def v)
qed simp

definition teams :: "auth_test \<Rightarrow> (string \<times> string) list \<Rightarrow> string set" where
  "teams auth toks = {fst t | k tok t. (k, tok) \<in> set toks \<and> auth tok = Inr t}"

lemma teams_Cons: "teams auth ((k, tok) # toks) = (case auth tok of Inl e \<Rightarrow> {} | Inr t \<Rightarrow> {fst t}) \<union> teams auth toks"
  by (auto simp: teams_def split: sum.split)

lemma verify_agrees:
  "(\<forall>tok t. auth tok = Inr t \<longrightarrow> fst t \<noteq> []) \<Longrightarrow>
   (\<exists>r. verify_tokens auth fk toks team err = Inr r) \<longleftrightarrow>
    (\<exists>c. teams auth toks \<union> (if fst team = [] then {} else {fst team}) \<subseteq> {c})"
proof (induction auth fk toks team err rule: verify_tokens.induct)
  case (1 auth fk team err)
  then show ?case by (auto simp: teams_def)
next
  case (2 auth fk k tok toks team err)
  show ?case
  proof (cases "auth tok")
    case (Inl e)
    then have "verify_tokens auth fk ((k, tok) # toks) team err =
        verify_tokens auth fk toks team (if err = None then Some (TokenFailed k e) else err)"
      "teams auth ((k, tok) # toks) = teams auth toks"
      by (simp_all add: teams_Cons)
    then show ?thesis using 2(1) [OF Inl 2(4)] by (simp only:)
  next
    case (Inr t)
    then have t: "fst t \<noteq> []" using 2(4) by blast
    consider "fst team = []" | "fst team \<noteq> []" "fst t \<noteq> fst team" | "fst team \<noteq> []" "fst t = fst team" by blast
    then show ?thesis
    proof cases
      case 1
      then have "verify_tokens auth fk ((k, tok) # toks) team err = verify_tokens auth fk toks t err"
        "teams auth ((k, tok) # toks) \<union> (if fst team = [] then {} else {fst team}) =
          teams auth toks \<union> (if fst t = [] then {} else {fst t})"
        using t Inr by (simp_all add: teams_Cons)
      then show ?thesis using 2(2) [OF Inr 1 2(4)] by (simp only:)
    next
      case 2
      then show ?thesis using Inr by (auto simp: teams_Cons)
    next
      case 3
      then have "verify_tokens auth fk ((k, tok) # toks) team err = verify_tokens auth fk toks team err"
        "teams auth ((k, tok) # toks) \<union> (if fst team = [] then {} else {fst team}) =
          teams auth toks \<union> (if fst team = [] then {} else {fst team})"
        using Inr by (auto simp: teams_Cons)
      moreover have "\<not> fst t \<noteq> fst team" using 3 by simp
      ultimately show ?thesis using 2(3) [OF Inr 3(1) _ 2(4)] by (simp only: not_False_eq_True simp_thms)
    qed
  qed
qed

lemma verify_errors:
  "verify_tokens auth fk toks team err = Inr (team', err') \<Longrightarrow>
   err' = None \<longleftrightarrow> err = None \<and> (\<forall>(k, tok) \<in> set toks. \<exists>t. auth tok = Inr t)"
  by (induction auth fk toks team err rule: verify_tokens.induct)
    (auto split: sum.splits if_splits)

lemma sorted_tokens_set: "set (sorted_tokens m) = {(k, gm_get0 [] m k) | k. gm_get m k \<noteq> None}"
  by (auto simp: sorted_tokens_def sort_strings_def gm.keys_get)

lemma resolved_tokens:
  assumes "resolveSlackTokens env chs ([], []) = Inr (by_slug, by_env)"
  shows "snd ` set (sorted_tokens by_env) = token_of env ` set chs"
proof -
  note res = resolve_tokens [OF assms]
  have tok: "token_of env ch \<noteq> []" if "ch \<in> set chs" for ch
    using that assms resolve_fails [of env chs "([], [])"] by auto
  have got: "gm_get0 [] by_env (ch_token_env ch) = token_of env ch" if "ch \<in> set chs" for ch
    using that res [of "ch_token_env ch"] by (auto simp: gm_get0_def token_of_def)
  have "env (ch_token_env ch) \<noteq> None" if "ch \<in> set chs" for ch
    using tok [OF that] by (auto simp: token_of_def split: option.splits)
  then have "gm_get by_env k \<noteq> None \<longleftrightarrow> (\<exists>ch \<in> set chs. ch_token_env ch = k)" for k
    using res [of k] by auto
  then have "snd ` set (sorted_tokens by_env) = {gm_get0 [] by_env (ch_token_env ch) | ch. ch \<in> set chs}"
    unfolding sorted_tokens_set by force
  also have "\<dots> = {token_of env ch | ch. ch \<in> set chs}" using got by force
  finally show ?thesis by blast
qed

lemma teams_of_tokens: "teams auth l = {fst t | tok t. tok \<in> snd ` set l \<and> auth tok = Inr t}"
  by (force simp: teams_def)

lemma start_verifies:
  assumes "resolveSlackTokens env chs ([], []) = Inr (by_slug, by_env)" "sorted_tokens by_env = (k, t) # toks"
  shows "start_slack env auth chs now = (case verify_tokens auth k (sorted_tokens by_env) ([], []) None of
      Inl e \<Rightarrow> Inl e
    | Inr (team, err) \<Rightarrow> Inr (by_slug, \<lparr>ws_checked = now, ws_healthy = (err = None), ws_team = fst team,
        ws_name = snd team, ws_error = err\<rparr>))" (is "_ = (case ?v of Inl e \<Rightarrow> _ e | Inr r \<Rightarrow> _ r)")
proof -
  have "VerifyWorkspace auth by_env now = (case ?v of
      Inl e \<Rightarrow> (\<lparr>ws_checked = now, ws_healthy = False, ws_team = [], ws_name = [], ws_error = Some e\<rparr>, Some e)
    | Inr (team, err) \<Rightarrow>
        (\<lparr>ws_checked = now, ws_healthy = (err = None), ws_team = fst team, ws_name = snd team, ws_error = err\<rparr>, None))"
    by (simp add: VerifyWorkspace_def assms(2) del: verify_tokens.simps)
  then show ?thesis unfolding start_slack_def assms(1) by (cases ?v) auto
qed

text \<open>C26: the process starts exactly when every Slack channel has a token in its variable and no two
  tokens that answer \<^verbatim>\<open>auth.test\<close> name different workspaces; a token that does not answer does
  not stop it, and shows on the state it starts with, which is healthy exactly when every token
  answered.
\<close>

theorem process_starts_in_one_workspace:
  assumes "\<forall>tok t. auth tok = Inr t \<longrightarrow> fst t \<noteq> []"
  shows "((\<exists>r. start_slack env auth chs now = Inr r) \<longleftrightarrow>
      (\<forall>ch \<in> set chs. token_of env ch \<noteq> []) \<and>
      (\<forall>a \<in> set chs. \<forall>b \<in> set chs. \<forall>s t. auth (token_of env a) = Inr s \<and> auth (token_of env b) = Inr t \<longrightarrow>
         fst s = fst t)) \<and>
    (\<forall>by_slug st. start_slack env auth chs now = Inr (by_slug, st) \<longrightarrow>
      ws_healthy st = (\<forall>ch \<in> set chs. \<exists>t. auth (token_of env ch) = Inr t))"
proof (cases "resolveSlackTokens env chs ([], [])")
  case (Inl e)
  then have "\<exists>ch \<in> set chs. token_of env ch = []" using resolve_fails by blast
  then show ?thesis using Inl by (auto simp: start_slack_def)
next
  case (Inr acc)
  obtain by_slug by_env where acc: "acc = (by_slug, by_env)" by fastforce
  note res = Inr [unfolded acc]
  note toks = resolved_tokens [OF res]
  have tok: "token_of env ch \<noteq> []" if "ch \<in> set chs" for ch
    using that Inr resolve_fails [of env chs "([], [])"] by auto
  have teams: "teams auth (sorted_tokens by_env) = {fst t | ch t. ch \<in> set chs \<and> auth (token_of env ch) = Inr t}"
    unfolding teams_of_tokens toks by blast
  have one: "(\<exists>c. X \<subseteq> {c}) \<longleftrightarrow> (\<forall>x \<in> X. \<forall>y \<in> X. x = y)" for X :: "string set" by blast
  show ?thesis
  proof (cases "sorted_tokens by_env")
    case Nil
    then have "chs = []" using toks by simp
    then show ?thesis using Inr acc Nil by (simp add: start_slack_def VerifyWorkspace_def)
  next
    case (Cons x xs)
    obtain k t where x: "x = (k, t)" by fastforce
    let ?v = "verify_tokens auth k (sorted_tokens by_env) ([], []) None"
    note start = start_verifies [OF res Cons [unfolded x], of auth now]
    have "(\<exists>r. start_slack env auth chs now = Inr r) \<longleftrightarrow> (\<exists>r. ?v = Inr r)"
      unfolding start by (auto split: sum.split)
    also have "\<dots> \<longleftrightarrow> (\<forall>a \<in> set chs. \<forall>b \<in> set chs. \<forall>s t. auth (token_of env a) = Inr s \<and> auth (token_of env b) = Inr t \<longrightarrow> fst s = fst t)"
      unfolding verify_agrees [OF assms] teams by (simp add: one) blast
    finally have "(\<exists>r. start_slack env auth chs now = Inr r) \<longleftrightarrow> \<dots>" .
    moreover have "ws_healthy st = (\<forall>ch \<in> set chs. \<exists>t. auth (token_of env ch) = Inr t)"
      if "start_slack env auth chs now = Inr (s, st)" for s st
    proof -
      from that obtain team err where v: "?v = Inr (team, err)" and st: "ws_healthy st = (err = None)"
        unfolding start by (auto split: sum.splits)
      have "ws_healthy st \<longleftrightarrow> (\<forall>tok \<in> snd ` set (sorted_tokens by_env). \<exists>t. auth tok = Inr t)"
        using verify_errors [OF v] st by force
      then show ?thesis unfolding toks by blast
    qed
    ultimately show ?thesis using tok by blast
  qed
qed

definition own_team :: auth_test where
  "own_team tok = (if tok = [] then Inl ''not_authed'' else Inr (tok, ''Team''))"

definition two_channels :: "slack_channel_cfg list" where
  "two_channels = [\<lparr>ch_slug = ''a'', ch_id = ''C1'', ch_token_env = ''T1''\<rparr>, \<lparr>ch_slug = ''b'', ch_id = ''C2'', ch_token_env = ''T2''\<rparr>]"

theorem process_starts_in_one_workspace_witness:
  "\<nexists>r. start_slack (\<lambda>v. Some v) own_team two_channels 0 = Inr r"
proof -
  have n: "\<forall>tok t. own_team tok = Inr t \<longrightarrow> fst t \<noteq> []" by (auto simp: own_team_def)
  have "\<not> (\<forall>a \<in> set two_channels. \<forall>b \<in> set two_channels. \<forall>s t.
      own_team (token_of (\<lambda>v. Some v) a) = Inr s \<and> own_team (token_of (\<lambda>v. Some v) b) = Inr t \<longrightarrow> fst s = fst t)"
    by (simp add: two_channels_def own_team_def token_of_def)
  with process_starts_in_one_workspace [OF n, of "\<lambda>v. Some v" two_channels 0] show ?thesis by blast
qed

text \<open>
  Two slips of the check.  The error pairs the first variable with the team of the first token that
  answered, which need not be its own; and a sweep in which no token answers forgets the team the
  sweep before had found, though the comment says that it is kept.
\<close>

lemma error_names_the_wrong_variable:
  "snd (VerifyWorkspace (\<lambda>tok. if tok = ''t1'' then Inl ''timeout'' else Inr (tok, ''Team''))
     [(''A'', ''t1''), (''B'', ''t2''), (''C'', ''t3'')] 0) = Some (MultiWorkspace ''A'' ''t2'' ''C'' ''t3'')"
  by code_simp

lemma failed_sweep_forgets_the_team:
  "\<forall>tok. auth tok = Inl e \<Longrightarrow> tokens \<noteq> [] \<Longrightarrow> ws_team (fst (VerifyWorkspace auth tokens now)) = []"
proof -
  assume f: "\<forall>tok. auth tok = Inl e" and "tokens \<noteq> []"
  then obtain k t toks where s: "sorted_tokens tokens = (k, t) # toks"
    by (cases "sorted_tokens tokens") (auto simp: sorted_tokens_def sort_strings_def gm_keys_def dest!: arg_cong [of _ _ length])
  have "\<exists>err. verify_tokens auth fk l ([], []) e0 = Inr (([], []), err)" for fk l e0
    using f by (induction l arbitrary: e0) auto
  then obtain err where "verify_tokens auth k ((k, t) # toks) ([], []) None = Inr (([], []), err)" by blast
  then show ?thesis by (simp add: VerifyWorkspace_def s del: verify_tokens.simps)
qed

end
