(* ===== verification/Spec2Isabelle.thy ===== *)
theory Spec2Isabelle
  imports Alert Group_Props Slugs Depindex Limiter Probe Selfhealth Coalesce_Claims Scheduler_Claims
    AM_Handler_Claims Kube_Cache Kube_Annotations Config_Kube Web_Claims Slack_Layout AM_Blocks View_Links
    Config_Durations Watchdogs
begin

text \<open>
  A verification development for toggle-monitor, an uptime monitor that groups its Slack alerts.

  \<^bold>\<open>The program.\<close>  A scheduler runs one worker per monitor (\<^verbatim>\<open>internal/scheduler\<close>).  A worker probes its
  target (\<^verbatim>\<open>internal/probe\<close>, \<^verbatim>\<open>httpcheck\<close>, \<^verbatim>\<open>smtpcheck\<close>), feeds the result to two state machines
  (\<^verbatim>\<open>internal/alert\<close>: uptime, and TLS expiry) and commits state and event to PostgreSQL
  (\<^verbatim>\<open>internal/store\<close>).  Committed events go to a per-channel dispatcher (\<^verbatim>\<open>internal/coalesce\<close>) that lets
  single failures through to the per-monitor notifier (\<^verbatim>\<open>internal/slack/notifier.go\<close>), pools bursts, and
  opens one incident (\<^verbatim>\<open>internal/group\<close>) when a pool is large.  A down parent pauses its dependents
  (\<^verbatim>\<open>internal/depindex\<close>, \<^verbatim>\<open>internal/lifecycle/coalesce_wiring.go\<close>); a detector of its own blindness
  (\<^verbatim>\<open>internal/selfhealth\<close>) holds DNS failures back.  Monitors come from the configuration
  (\<^verbatim>\<open>internal/config\<close>) and from the ingresses of a cluster: the watcher (\<^verbatim>\<open>internal/kube\<close>) walks them
  through a cascade of rules (\<^verbatim>\<open>internal/merger\<close>) into a snapshot, a monitor row and a cached plan.  A
  separate receiver (\<^verbatim>\<open>internal/alertmanager\<close>) routes Alertmanager webhooks to Slack threads.

  \<^bold>\<open>Conventions.\<close>  A Go map is a \<open>gomap\<close> (an association list; \<open>Go_Prelude\<close> interprets the map laws),
  a \<^verbatim>\<open>time.Time\<close> and a \<^verbatim>\<open>time.Duration\<close> are \<open>int\<close> nanoseconds with \<open>wrap64\<close> where 64 bits can overflow,
  a byte string is a \<open>string\<close>.  A database is the record \<open>Store.db\<close>; each statement consults the list
  of faults still to come (\<open>db_call\<close>), so every error path of every caller is a branch.  Slack and
  HTTP answers, DNS and TLS, regular expressions, globs and texts of errors are arguments.

  \<^bold>\<open>The theories.\<close>
  \<^item> \<open>Go_Prelude\<close>, \<open>Machines\<close>: maps, lists, time; runs of a machine over its inputs.
  \<^item> \<open>Alert\<close> (\<^verbatim>\<open>alert/alert.go\<close>, \<^verbatim>\<open>alert/ssl.go\<close>): \<open>Apply\<close>, \<open>ApplySSL\<close>; their runs follow the
    protocols open, reminder, resolve and warn, escalate, remind.
  \<^item> \<open>Group\<close>, \<open>Group_Props\<close> (\<^verbatim>\<open>group/group.go\<close>): the incident of a channel; runs follow a protocol, deltas
    are exact, a flap inside the debounce is invisible.
  \<^item> \<open>Slugs\<close> (\<^verbatim>\<open>slug/slug.go\<close>), \<open>Depindex\<close> (\<^verbatim>\<open>depindex/depindex.go\<close>), \<open>Limiter\<close>
    (\<^verbatim>\<open>alertmanager/ratelimit.go\<close>): the rules of names, the reverse index of dependencies, the flood breaker
    and its bound per window.
  \<^item> \<open>Probe\<close> (\<^verbatim>\<open>probe/probe.go\<close>, \<^verbatim>\<open>httpcheck/httpcheck.go\<close>, \<^verbatim>\<open>smtpcheck/smtpcheck.go\<close>): the
    classification of one probe, given what the network answers.
  \<^item> \<open>Selfhealth\<close> (\<^verbatim>\<open>selfhealth/selfhealth.go\<close>, \<^verbatim>\<open>lifecycle/selfhealth_wiring.go\<close>): the detector, the
    notices it makes.
  \<^item> \<open>Store\<close>, \<open>Store_Incidents\<close> (\<^verbatim>\<open>store/store.go\<close>, \<^verbatim>\<open>groups.go\<close>, \<^verbatim>\<open>am_alerts.go\<close>): the tables and the
    statements that write them; \<open>am_store\<close> is the interface the webhook receiver relies on.
  \<^item> \<open>Coalesce\<close>, \<open>Dispatch\<close>, \<open>Dispatch_Props\<close>, \<open>Coalesce_Claims\<close> (\<^verbatim>\<open>coalesce\<close>): the manager, routing,
    promotion and flushing of pools, persistence of incidents.
  \<^item> \<open>Slack\<close>, \<open>Notifier\<close> (\<^verbatim>\<open>slack/client.go\<close>, \<^verbatim>\<open>errors.go\<close>, \<^verbatim>\<open>mentions.go\<close>, \<^verbatim>\<open>notifier.go\<close>): the retry loop
    of a call and the threads of a monitor.
  \<^item> \<open>Scheduler\<close>, \<open>Workers\<close>, \<open>Lifecycle\<close>, \<open>Lifecycle_Props\<close>, \<open>Pipeline\<close>, \<open>Scheduler_Claims\<close>
    (\<^verbatim>\<open>scheduler/scheduler.go\<close>, \<^verbatim>\<open>lifecycle\<close>): a tick, the set of workers, the wiring, and the step relation of
    the whole pipeline with its invariant.
  \<^item> \<open>Values\<close>, \<open>AM_Match\<close>, \<open>AM_Match_Claims\<close>, \<open>AM_Config\<close>, \<open>AM_Handler\<close>, \<open>AM_Handler_Claims\<close>
    (\<^verbatim>\<open>alertmanager\<close>, \<^verbatim>\<open>config/alertmanager.go\<close>): the routing cascade, its validation, the webhook
    receiver and the retention sweeper.
  \<^item> \<open>Kube_Cascade\<close>, \<open>Kube\<close>, \<open>Kube_Samples\<close>, \<open>Kube_Claims\<close>, \<open>Kube_Cache\<close>, \<open>Kube_Annotations\<close> (\<^verbatim>\<open>merger\<close>,
    \<^verbatim>\<open>kube\<close>): the cascade over ingresses, the materializer and the reconcile pass.
  \<^item> \<open>Config_Deps\<close>, \<open>Config\<close>, \<open>Config_Claims\<close>, \<open>Config_Kube\<close> (\<^verbatim>\<open>config/config.go\<close>, \<^verbatim>\<open>config/coalesce.go\<close>,
    \<open>buildPlans\<close> of \<^verbatim>\<open>lifecycle/lifecycle.go\<close>): the configuration, its validation with the cycle check over
    declared dependencies, the plans of the declared monitors; what an accepted configuration gives the
    scheduler and the cascade.
  \<^item> \<open>Kube_Trace\<close> (\<^verbatim>\<open>merger/trace.go\<close>, \<^verbatim>\<open>web/templates/discovery_view.go\<close>): the second walk that explains
    a discovered monitor; it agrees with the first.
  \<^item> \<open>Store_Queries\<close>, \<open>Status_Pages\<close>, \<open>User_Mapping\<close>, \<open>Web\<close>, \<open>Web_Claims\<close> (\<^verbatim>\<open>store/store.go\<close>,
    \<^verbatim>\<open>store/am_alerts.go\<close>, \<^verbatim>\<open>web\<close>, \<^verbatim>\<open>slack/usermapping.go\<close>): the listing queries, the status pages, the check of
    the user mapping, and the page handlers up to the view they hand to a template; the pages write nothing, their numbered
    pages make up the listing, tile, page and badge count the same monitors.

  \<^item> \<open>Durations\<close>, \<open>Slack_Blocks\<close>, \<open>Slack_Layout\<close>, \<open>AM_Blocks\<close> (\<^verbatim>\<open>slack/blocks.go\<close>,
    \<^verbatim>\<open>ssl_blocks.go\<close>, \<^verbatim>\<open>digest.go\<close>, \<^verbatim>\<open>removal.go\<close>, \<^verbatim>\<open>alertmanager/blocks.go\<close>): the text of every
    message; printed durations round down, the digest shows what is broken, a removal is announced once, a
    message of an alert and its page row tell the same.
  \<^item> \<open>View_Links\<close> (\<^verbatim>\<open>web/templates/helpers.go\<close>, \<^verbatim>\<open>ui.go\<close>, \<^verbatim>\<open>am_alerts_view.go\<close>): the links of a
    listing carry its filter; labels and colours of a row.
  \<^item> \<open>Config_Text\<close>, \<open>Config_Keys\<close>, \<open>Config_Durations\<close> (\<^verbatim>\<open>config/interp.go\<close>,
    \<^verbatim>\<open>unknown_keys.go\<close>, \<^verbatim>\<open>duration.go\<close>, \<^verbatim>\<open>Load\<close> of \<^verbatim>\<open>config.go\<close>): the text of the file before it is a value;
    variables are inserted once, exactly the unknown keys are reported, printed durations load back.
  \<^item> \<open>Watchdogs\<close> (\<^verbatim>\<open>heartbeat/heartbeat.go\<close>, \<^verbatim>\<open>lifecycle/issues.go\<close>, \<^verbatim>\<open>slack/workspace.go\<close>): the
    deadman heartbeat, the gauge of issues and the check of the workspace at startup.

  \<^bold>\<open>Loops and bounds.\<close>  The retry loop of a Slack call is a \<open>partial_function (option)\<close>, and
  \<open>slack_call_returns\<close> shows that it returns; every other loop is structural, or a \<open>function\<close> with its
  termination proof (the depth-first search).  No definition uses fuel.

  \<^bold>\<open>Not modelled.\<close>  The generated templates (\<^verbatim>\<open>internal/web/templates/*_templ.go\<close>) are markup; the command
  line, the SQL migrations, the connection pool, Sentry and every metric but the last tick are input and
  output around the modelled core; the YAML decoder, the client-go informer, calendar dates as text and the
  floating-point product inside \<^verbatim>\<open>time.ParseDuration\<close> are arguments or left out.
\<close>

end
